(* ===== verification/Cm_Prelude.thy ===== *)
theory Cm_Prelude
  imports Main "HOL-Library.Word"
begin

text \<open>
  Shared vocabulary of the development.

  \<^item> A Rust \<open>String\<close> or \<open>&str\<close> is its list of Unicode scalar values (\<open>ustr\<close>), so that
    \<open>chars().count()\<close> is \<open>length\<close> and \<open>len()\<close> is the number of UTF-8 bytes, \<open>utf8_len\<close>.
    The functions below are the parts of \<open>std::str\<close> and \<open>char\<close> the sources call.
  \<^item> A \<open>DateTime<Utc>\<close> is an \<open>int\<close>, microseconds since the Unix epoch (PostgreSQL's resolution);
    a \<open>Duration\<close> is an \<open>int\<close> of microseconds.
  \<^item> A \<open>Uuid\<close> is a 128-bit word; a byte an 8-bit one.
  The theory also collects the generic lemmas on lists that the component theories use.
\<close>

type_synonym ustr = "nat list"
type_synonym byte = "8 word"
type_synonym bytes = "byte list"
type_synonym uuid = "128 word"
type_synonym time = int
type_synonym duration = int

named_theorems op_defs \<open>definitions of the effectful operations\<close>
named_theorems keeps_intros \<open>statements that keep an invariant of the tables\<close>

subsection \<open>Strings\<close>

definition lit :: "string \<Rightarrow> ustr" where
  "lit s = map of_char s"

text \<open>\<open>char::is_whitespace\<close>: the Unicode property White_Space.\<close>

definition is_whitespace :: "nat \<Rightarrow> bool" where
  "is_whitespace c \<longleftrightarrow>
     (9 \<le> c \<and> c \<le> 13) \<or> c = 32 \<or> c = 133 \<or> c = 160 \<or> c = 5760 \<or>
     (8192 \<le> c \<and> c \<le> 8202) \<or> c = 8232 \<or> c = 8233 \<or> c = 8239 \<or> c = 8287 \<or> c = 12288"

definition trim_by :: "(nat \<Rightarrow> bool) \<Rightarrow> ustr \<Rightarrow> ustr" where
  "trim_by p s = rev (dropWhile p (rev (dropWhile p s)))"

text \<open>\<open>str::trim\<close>, and PostgreSQL's \<open>btrim\<close>, which strips spaces only.\<close>

definition trim :: "ustr \<Rightarrow> ustr" where
  "trim s = trim_by is_whitespace s"

definition btrim :: "ustr \<Rightarrow> ustr" where
  "btrim s = trim_by (\<lambda>c. c = 32) s"

definition ascii_lower :: "nat \<Rightarrow> nat" where
  "ascii_lower c = (if 65 \<le> c \<and> c \<le> 90 then c + 32 else c)"

definition to_ascii_lowercase :: "ustr \<Rightarrow> ustr" where
  "to_ascii_lowercase s = map ascii_lower s"

definition eq_ignore_ascii_case :: "ustr \<Rightarrow> ustr \<Rightarrow> bool" where
  "eq_ignore_ascii_case a b \<longleftrightarrow> to_ascii_lowercase a = to_ascii_lowercase b"

text \<open>\<open>str::split_once\<close> with a character, with a string, \<open>str::split\<close> and \<open>str::splitn\<close>.\<close>

fun split_once :: "nat \<Rightarrow> ustr \<Rightarrow> (ustr \<times> ustr) option" where
  "split_once c [] = None"
| "split_once c (x # xs) =
     (if x = c then Some ([], xs)
      else map_option (\<lambda>(a, b). (x # a, b)) (split_once c xs))"

fun strip_prefix :: "ustr \<Rightarrow> ustr \<Rightarrow> ustr option" where
  "strip_prefix [] s = Some s"
| "strip_prefix (p # ps) [] = None"
| "strip_prefix (p # ps) (x # xs) = (if p = x then strip_prefix ps xs else None)"

definition starts_with :: "ustr \<Rightarrow> ustr \<Rightarrow> bool" where
  "starts_with p s \<longleftrightarrow> strip_prefix p s \<noteq> None"

fun split_once_str :: "ustr \<Rightarrow> ustr \<Rightarrow> (ustr \<times> ustr) option" where
  "split_once_str p [] = (if p = [] then Some ([], []) else None)"
| "split_once_str p (x # xs) =
     (case strip_prefix p (x # xs) of
        Some rest \<Rightarrow> Some ([], rest)
      | None \<Rightarrow> map_option (\<lambda>(a, b). (x # a, b)) (split_once_str p xs))"

fun split_on :: "nat \<Rightarrow> ustr \<Rightarrow> ustr list" where
  "split_on c [] = [[]]"
| "split_on c (x # xs) =
     (if x = c then [] # split_on c xs
      else (case split_on c xs of [] \<Rightarrow> [[x]] | w # ws \<Rightarrow> (x # w) # ws))"

fun splitn :: "nat \<Rightarrow> nat \<Rightarrow> ustr \<Rightarrow> ustr list" where
  "splitn 0 c s = []"
| "splitn (Suc 0) c s = [s]"
| "splitn (Suc (Suc n)) c s =
     (case split_once c s of
        None \<Rightarrow> [s]
      | Some (a, b) \<Rightarrow> a # splitn (Suc n) c b)"

fun contains_str :: "ustr \<Rightarrow> ustr \<Rightarrow> bool" where
  "contains_str p [] \<longleftrightarrow> p = []"
| "contains_str p (x # xs) \<longleftrightarrow> starts_with p (x # xs) \<or> contains_str p xs"

text \<open>UTF-8: \<open>str::len\<close> and \<open>str::as_bytes\<close>.\<close>

definition utf8_char :: "nat \<Rightarrow> bytes" where
  "utf8_char c =
     (if c < 128 then [of_nat c]
      else if c < 2048 then [of_nat (192 + c div 64), of_nat (128 + c mod 64)]
      else if c < 65536 then
        [of_nat (224 + c div 4096), of_nat (128 + (c div 64) mod 64), of_nat (128 + c mod 64)]
      else
        [of_nat (240 + c div 262144), of_nat (128 + (c div 4096) mod 64),
         of_nat (128 + (c div 64) mod 64), of_nat (128 + c mod 64)])"

definition as_bytes :: "ustr \<Rightarrow> bytes" where
  "as_bytes s = concat (map utf8_char s)"

definition utf8_len :: "ustr \<Rightarrow> nat" where
  "utf8_len s = length (as_bytes s)"

text \<open>Decimal rendering (\<open>Display\<close> of integers) and \<open>str::parse::<i64>\<close>.\<close>

fun show_nat :: "nat \<Rightarrow> ustr" where
  "show_nat n = (if n < 10 then [48 + n] else show_nat (n div 10) @ [48 + n mod 10])"

declare show_nat.simps [simp del]

definition show_int :: "int \<Rightarrow> ustr" where
  "show_int i = (if i < 0 then 45 # show_nat (nat (- i)) else show_nat (nat i))"

definition is_digit :: "nat \<Rightarrow> bool" where
  "is_digit c \<longleftrightarrow> 48 \<le> c \<and> c \<le> 57"

definition digits_value :: "ustr \<Rightarrow> nat" where
  "digits_value s = foldl (\<lambda>acc c. acc * 10 + (c - 48)) 0 s"

definition parse_digits :: "ustr \<Rightarrow> nat option" where
  "parse_digits s =
     (if s \<noteq> [] \<and> list_all is_digit s then Some (digits_value s) else None)"

definition strip_plus :: "ustr \<Rightarrow> ustr" where
  "strip_plus s = (case s of [] \<Rightarrow> [] | c # r \<Rightarrow> if c = 43 then r else s)"

definition parse_unsigned :: "nat \<Rightarrow> ustr \<Rightarrow> nat option" where
  "parse_unsigned bits s =
     (case parse_digits (strip_plus s) of
        None \<Rightarrow> None
      | Some n \<Rightarrow> if n < 2 ^ bits then Some n else None)"

definition parse_i64 :: "ustr \<Rightarrow> int option" where
  "parse_i64 s =
     (if s \<noteq> [] \<and> hd s = 45 then
        (case parse_digits (tl s) of
           None \<Rightarrow> None
         | Some n \<Rightarrow> if n \<le> 2 ^ 63 then Some (- int n) else None)
      else
        (case parse_digits (strip_plus s) of
           None \<Rightarrow> None
         | Some n \<Rightarrow> if n < 2 ^ 63 then Some (int n) else None))"

text \<open>The cast \<open>as i32\<close> of an \<open>i64\<close> keeps the low 32 bits.\<close>

definition as_i32 :: "int \<Rightarrow> int" where
  "as_i32 n = sint (word_of_int n :: 32 word)"

lemma as_i32_id: "- (2 ^ 31) \<le> n \<Longrightarrow> n < 2 ^ 31 \<Longrightarrow> as_i32 n = n"
  unfolding as_i32_def by (simp add: signed_of_int signed_take_bit_int_eq_self)

subsection \<open>Time\<close>

definition secs :: "int \<Rightarrow> duration" where
  "secs n = n * 1000000"

definition minutes :: "int \<Rightarrow> duration" where
  "minutes n = secs (n * 60)"

definition hours :: "int \<Rightarrow> duration" where
  "hours n = secs (n * 3600)"

definition days :: "int \<Rightarrow> duration" where
  "days n = secs (n * 86400)"

text \<open>\<open>DateTime::timestamp\<close>: whole seconds, rounded down.\<close>

definition timestamp :: "time \<Rightarrow> int" where
  "timestamp t = t div 1000000"

lemmas time_defs = secs_def minutes_def hours_def days_def timestamp_def

subsection \<open>Bounded deletes and runs\<close>

text \<open>
  \<open>DELETE ... WHERE ctid IN (SELECT ctid ... WHERE p LIMIT n)\<close>: the first \<open>n\<close> rows, in physical
  order, that satisfy the condition.
\<close>

fun delete_batch :: "('a \<Rightarrow> bool) \<Rightarrow> nat \<Rightarrow> 'a list \<Rightarrow> 'a list" where
  "delete_batch p 0 xs = xs"
| "delete_batch p (Suc n) [] = []"
| "delete_batch p (Suc n) (x # xs) =
     (if p x then delete_batch p n xs else x # delete_batch p (Suc n) xs)"

text \<open>A sequence of steps, one input after another, and the answers they gave.\<close>

fun run_steps :: "('e \<Rightarrow> 's \<Rightarrow> 'r \<times> 's) \<Rightarrow> 'e list \<Rightarrow> 's \<Rightarrow> 'r list \<times> 's" where
  "run_steps step [] s = ([], s)"
| "run_steps step (e # es) s =
     (case step e s of (r, s1) \<Rightarrow> (case run_steps step es s1 of (rs, s2) \<Rightarrow> (r # rs, s2)))"

subsection \<open>Generic lemmas\<close>

lemma fst_run_steps_Cons [simp]:
  "fst (run_steps step (e # es) s) = fst (step e s) # fst (run_steps step es (snd (step e s)))"
  by (simp split: prod.split)

lemma snd_run_steps_Cons [simp]:
  "snd (run_steps step (e # es) s) = snd (run_steps step es (snd (step e s)))"
  by (simp split: prod.split)

lemma list_all_map_iff: "list_all P (map f xs) \<longleftrightarrow> (\<forall>x \<in> set xs. P (f x))"
  by (simp add: list_all_iff)

lemma set_delete_batch: "set (delete_batch p n xs) \<subseteq> set xs"
  by (induction p n xs rule: delete_batch.induct) auto

lemma filter_not_delete_batch:
  "filter (\<lambda>x. \<not> p x) (delete_batch p n xs) = filter (\<lambda>x. \<not> p x) xs"
  by (induction p n xs rule: delete_batch.induct) auto

lemma length_filter_delete_batch:
  "length (filter p (delete_batch p n xs)) = length (filter p xs) - n"
  by (induction p n xs rule: delete_batch.induct) (auto simp: Suc_diff_le)

lemma length_delete_batch:
  "length (delete_batch p n xs) = length xs - min n (length (filter p xs))"
proof (induction p n xs rule: delete_batch.induct)
  case (3 p n x xs)
  have "min (Suc n) (length (filter p xs)) \<le> length xs" by (simp add: min.coboundedI2)
  with 3 show ?case by (auto simp: Suc_diff_le)
qed auto

lemma delete_batch_all: "length (filter p xs) \<le> n \<Longrightarrow> delete_batch p n xs = filter (\<lambda>x. \<not> p x) xs"
  by (induction p n xs rule: delete_batch.induct) (auto simp: filter_empty_conv)

lemma distinct_map_delete_batch: "distinct (map f xs) \<Longrightarrow> distinct (map f (delete_batch p n xs))"
  by (induction p n xs rule: delete_batch.induct) (auto dest!: set_delete_batch [THEN subsetD])

lemma length_filter_delete_batch_le:
  "length (filter q (delete_batch p n xs)) \<le> length (filter q xs)"
  by (induction p n xs rule: delete_batch.induct) auto

lemma split_once_None_iff: "split_once c s = None \<longleftrightarrow> c \<notin> set s"
  by (induction s) auto

lemma split_once_Some_iff:
  "split_once c s = Some (a, b) \<longleftrightarrow> s = a @ c # b \<and> c \<notin> set a"
proof (induction s arbitrary: a)
  case Nil
  then show ?case by simp
next
  case (Cons x xs)
  show ?case
  proof (cases "x = c")
    case True
    then show ?thesis by (cases a) auto
  next
    case False
    then show ?thesis
      by (cases a) (auto simp: Cons.IH)
  qed
qed

lemma split_once_append: "c \<notin> set a \<Longrightarrow> split_once c (a @ c # b) = Some (a, b)"
  by (simp add: split_once_Some_iff)

lemma split_on_not_Nil [simp]: "split_on c s \<noteq> []"
  by (induction s) (auto split: list.splits)

lemma split_on_hd_append:
  "c \<notin> set a \<Longrightarrow> split_on c (a @ c # b) = a # split_on c b"
  by (induction a) auto

lemma split_on_no_sep: "c \<notin> set a \<Longrightarrow> split_on c a = [a]"
  by (induction a) auto

lemma strip_prefix_Some_iff: "strip_prefix p s = Some r \<longleftrightarrow> s = p @ r"
  by (induction p s rule: strip_prefix.induct) auto

lemma strip_prefix_None_iff: "strip_prefix p s = None \<longleftrightarrow> (\<nexists>r. s = p @ r)"
  by (cases "strip_prefix p s") (simp_all add: strip_prefix_Some_iff flip: strip_prefix_Some_iff)

lemma starts_with_iff: "starts_with p s \<longleftrightarrow> (\<exists>r. s = p @ r)"
  by (auto simp: starts_with_def strip_prefix_Some_iff)

lemma contains_str_iff: "contains_str p s \<longleftrightarrow> (\<exists>a b. s = a @ p @ b)"
proof (induction s)
  case Nil
  then show ?case by auto
next
  case (Cons x xs)
  have "(\<exists>a b. x # xs = a @ p @ b) \<longleftrightarrow> (\<exists>r. x # xs = p @ r) \<or> (\<exists>a b. xs = a @ p @ b)"
    by (metis (no_types) append_Cons append_Nil list.inject neq_Nil_conv)
  then show ?case by (simp add: Cons.IH starts_with_iff)
qed

lemma trim_by_Nil [simp]: "trim_by p [] = []"
  by (simp add: trim_by_def)

lemma set_trim_by: "set (trim_by p s) \<subseteq> set s"
  by (auto simp: trim_by_def dest!: set_dropWhileD)

lemma trim_by_id: "(\<And>c. c \<in> set s \<Longrightarrow> \<not> p c) \<Longrightarrow> trim_by p s = s"
proof -
  assume n: "\<And>c. c \<in> set s \<Longrightarrow> \<not> p c"
  then have "dropWhile p s = s" by (cases s) auto
  moreover from n have "dropWhile p (rev s) = rev s" by (cases "rev s") (auto simp: rev_eq_Cons_iff)
  ultimately show ?thesis by (simp add: trim_by_def)
qed

lemma trim_id: "(\<And>c. c \<in> set s \<Longrightarrow> \<not> is_whitespace c) \<Longrightarrow> trim s = s"
  unfolding trim_def by (rule trim_by_id)

lemma eq_ignore_ascii_case_refl [simp]: "eq_ignore_ascii_case a a"
  by (simp add: eq_ignore_ascii_case_def)

lemma utf8_char_nonempty [simp]: "utf8_char c \<noteq> []"
  by (simp add: utf8_char_def)

lemma length_le_utf8_len: "length s \<le> utf8_len s"
proof (induction s)
  case (Cons c s)
  moreover have "1 \<le> length (utf8_char c)" by (simp add: utf8_char_def)
  ultimately show ?case by (simp add: utf8_len_def as_bytes_def)
qed (simp add: utf8_len_def as_bytes_def)

lemma as_bytes_append [simp]: "as_bytes (a @ b) = as_bytes a @ as_bytes b"
  by (simp add: as_bytes_def)

lemma as_bytes_Nil [simp]: "as_bytes [] = []"
  by (simp add: as_bytes_def)

text \<open>Decimal rendering uses digits only and is read back by the parser.\<close>

lemma show_nat_digits: "list_all is_digit (show_nat n)"
proof (induction n rule: show_nat.induct)
  case (1 n)
  show ?case
  proof (cases "n < 10")
    case True
    then show ?thesis by (simp add: show_nat.simps [of n] is_digit_def)
  next
    case False
    with 1 show ?thesis by (simp add: show_nat.simps [of n] is_digit_def)
  qed
qed

lemma show_nat_nonempty: "show_nat n \<noteq> []"
  by (simp add: show_nat.simps [of n])

lemma digits_value_show_nat: "digits_value (show_nat n) = n"
proof (induction n rule: show_nat.induct)
  case (1 n)
  show ?case
  proof (cases "n < 10")
    case True
    then show ?thesis by (simp add: show_nat.simps [of n] digits_value_def)
  next
    case False
    with 1 show ?thesis by (simp add: show_nat.simps [of n] digits_value_def)
  qed
qed

lemma parse_digits_show_nat: "parse_digits (show_nat n) = Some n"
  by (simp add: parse_digits_def show_nat_digits show_nat_nonempty digits_value_show_nat)

lemma set_show_nat: "c \<in> set (show_nat n) \<Longrightarrow> 48 \<le> c \<and> c \<le> 57"
  using show_nat_digits [of n] by (auto simp: list_all_iff is_digit_def)

lemma set_show_int: "c \<in> set (show_int i) \<Longrightarrow> c = 45 \<or> 48 \<le> c \<and> c \<le> 57"
  by (auto simp: show_int_def split: if_splits dest: set_show_nat)

lemma parse_i64_show_int:
  assumes "- (2 ^ 63) \<le> i" and "i < 2 ^ 63"
  shows "parse_i64 (show_int i) = Some i"
proof (cases "i < 0")
  case True
  with assms(1) have "nat (- i) \<le> 2 ^ 63" by simp
  with True show ?thesis by (simp add: parse_i64_def show_int_def parse_digits_show_nat)
next
  case False
  then obtain c r where s: "show_nat (nat i) = c # r"
    using show_nat_nonempty by (cases "show_nat (nat i)") auto
  then have "48 \<le> c" and "c \<le> 57" using set_show_nat [of c "nat i"] by auto
  then have "c \<noteq> 45" and "c \<noteq> 43" by auto
  have "nat i < 2 ^ 63" using assms(2) by simp
  have "parse_digits (c # r) = Some (nat i)" using parse_digits_show_nat [of "nat i"] s by simp
  with False s \<open>c \<noteq> 45\<close> \<open>c \<noteq> 43\<close> \<open>nat i < 2 ^ 63\<close> show ?thesis
    by (simp add: parse_i64_def show_int_def strip_plus_def)
qed

text \<open>Reading a row out of a table held as a list.\<close>

lemma find_Some_in: "find P xs = Some x \<Longrightarrow> x \<in> set xs \<and> P x"
  by (metis find_Some_iff nth_mem)

lemma find_None_all: "find P xs = None \<longleftrightarrow> (\<forall>x \<in> set xs. \<not> P x)"
  by (auto simp: find_None_iff)

lemma find_append: "find P (xs @ ys) = (case find P xs of None \<Rightarrow> find P ys | Some x \<Rightarrow> Some x)"
  by (induction xs) auto

lemma distinct_map_eqD:
  "distinct (map f xs) \<Longrightarrow> x \<in> set xs \<Longrightarrow> y \<in> set xs \<Longrightarrow> f x = f y \<Longrightarrow> x = y"
  by (auto simp: distinct_map inj_on_def)

lemma find_unique:
  assumes "distinct (map f xs)" and "x \<in> set xs"
  shows "find (\<lambda>y. f y = f x) xs = Some x"
proof -
  have "find (\<lambda>y. f y = f x) xs \<noteq> None" using assms(2) by (auto simp: find_None_all)
  then obtain z where z: "find (\<lambda>y. f y = f x) xs = Some z" by blast
  from find_Some_in [OF z] have "z = x" using distinct_map_eqD [OF assms(1)] assms(2) by blast
  with z show ?thesis by simp
qed

lemma map_update_key:
  "(\<And>x. x \<in> set xs \<Longrightarrow> k (f x) = k x) \<Longrightarrow> map k (map f xs) = map k xs"
  by simp

lemma length_filter_map_le:
  "(\<And>x. x \<in> set xs \<Longrightarrow> P (f x) \<Longrightarrow> Q x) \<Longrightarrow>
   length (filter P (map f xs)) \<le> length (filter Q xs)"
  by (induction xs) (auto simp: le_SucI)

end
