(* ===== verification/Core_Error.thy ===== *)
theory Core_Error
  imports Cm_Prelude
begin

text \<open>
  The error taxonomy of \<open>cm-core/src/error.rs\<close>: the enum \<open>AppError\<close>, its stable code, HTTP
  status and public message, the hand-written JSON envelope and the response built from it.
  A JSON string reader is the reference the escaping is measured against.
\<close>

datatype app_error =
    NotFound
  | Invalid ustr
  | Unauthenticated
  | Forbidden
  | Conflict ustr
  | TooManyRequests duration
  | Unavailable ustr
  | Internal ustr

type_synonym 'a res = "app_error + 'a"

abbreviation invalid :: "string \<Rightarrow> app_error" where
  "invalid m \<equiv> Invalid (lit m)"

abbreviation conflict :: "string \<Rightarrow> app_error" where
  "conflict m \<equiv> Conflict (lit m)"

abbreviation unavailable :: "string \<Rightarrow> app_error" where
  "unavailable m \<equiv> Unavailable (lit m)"

abbreviation internal :: "string \<Rightarrow> app_error" where
  "internal m \<equiv> Internal (lit m)"

fun error_code :: "app_error \<Rightarrow> ustr" where
  "error_code NotFound = lit ''not_found''"
| "error_code (Invalid _) = lit ''invalid_request''"
| "error_code Unauthenticated = lit ''unauthenticated''"
| "error_code Forbidden = lit ''forbidden''"
| "error_code (Conflict _) = lit ''conflict''"
| "error_code (TooManyRequests _) = lit ''too_many_requests''"
| "error_code (Unavailable _) = lit ''unavailable''"
| "error_code (Internal _) = lit ''internal_error''"

fun error_status :: "app_error \<Rightarrow> nat" where
  "error_status NotFound = 404"
| "error_status (Invalid _) = 400"
| "error_status Unauthenticated = 401"
| "error_status Forbidden = 403"
| "error_status (Conflict _) = 409"
| "error_status (TooManyRequests _) = 429"
| "error_status (Unavailable _) = 503"
| "error_status (Internal _) = 500"

fun public_message :: "app_error \<Rightarrow> ustr" where
  "public_message NotFound = lit ''The requested resource was not found.''"
| "public_message (Invalid m) = m"
| "public_message Unauthenticated = lit ''Authentication is required.''"
| "public_message Forbidden = lit ''You do not have permission to do that.''"
| "public_message (Conflict m) = m"
| "public_message (TooManyRequests _) = lit ''Too many requests. Try again shortly.''"
| "public_message (Unavailable m) = m"
| "public_message (Internal _) =
     lit ''The server encountered an internal error. The failure has been logged.''"

text \<open>One hexadecimal digit, lower case, as \<open>{:04x}\<close> prints it.\<close>

definition hex_digit :: "nat \<Rightarrow> nat" where
  "hex_digit n = (if n < 10 then 48 + n else 87 + n)"

definition hex4 :: "nat \<Rightarrow> ustr" where
  "hex4 n = [hex_digit (n div 4096 mod 16), hex_digit (n div 256 mod 16),
             hex_digit (n div 16 mod 16), hex_digit (n mod 16)]"

definition json_escape_char :: "nat \<Rightarrow> ustr" where
  "json_escape_char c =
     (if c = 34 then [92, 34]
      else if c = 92 then [92, 92]
      else if c = 10 then [92, 110]
      else if c = 13 then [92, 114]
      else if c = 9 then [92, 116]
      else if c < 32 then [92, 117] @ hex4 c
      else [c])"

definition json_string :: "ustr \<Rightarrow> ustr" where
  "json_string value = [34] @ concat (map json_escape_char value) @ [34]"

definition error_body :: "app_error \<Rightarrow> ustr" where
  "error_body e =
     lit ''{\"error\":{\"code\":'' @ json_string (error_code e) @
     lit '',\"message\":'' @ json_string (public_message e) @ lit ''}}''"

record response =
  resp_status :: nat
  resp_retry_after :: "int option"
  resp_body :: ustr

definition into_response :: "app_error \<Rightarrow> response" where
  "into_response e =
     \<lparr>resp_status = error_status e,
      resp_retry_after =
        (case e of TooManyRequests retry_after \<Rightarrow> Some (max (retry_after div 1000000) 1) | _ \<Rightarrow> None),
      resp_body = error_body e\<rparr>"

subsection \<open>The reference reader of JSON strings\<close>

definition unhex :: "nat \<Rightarrow> nat option" where
  "unhex c = (if 48 \<le> c \<and> c \<le> 57 then Some (c - 48)
              else if 97 \<le> c \<and> c \<le> 102 then Some (c - 87)
              else if 65 \<le> c \<and> c \<le> 70 then Some (c - 55) else None)"

text \<open>
  Reads the characters after the opening quote up to the closing one (RFC 8259, section 7):
  the decoded text and what follows the closing quote. A control character may not appear
  unescaped.
\<close>

fun json_chars :: "ustr \<Rightarrow> (ustr \<times> ustr) option" where
  "json_chars [] = None"
| "json_chars (c # cs) =
     (if c = 34 then Some ([], cs)
      else if c < 32 then None
      else if c \<noteq> 92 then map_option (\<lambda>(t, r). (c # t, r)) (json_chars cs)
      else (case cs of
              [] \<Rightarrow> None
            | e # cs1 \<Rightarrow>
                if e = 34 \<or> e = 92 \<or> e = 47 then map_option (\<lambda>(t, r). (e # t, r)) (json_chars cs1)
                else if e = 98 then map_option (\<lambda>(t, r). (8 # t, r)) (json_chars cs1)
                else if e = 102 then map_option (\<lambda>(t, r). (12 # t, r)) (json_chars cs1)
                else if e = 110 then map_option (\<lambda>(t, r). (10 # t, r)) (json_chars cs1)
                else if e = 114 then map_option (\<lambda>(t, r). (13 # t, r)) (json_chars cs1)
                else if e = 116 then map_option (\<lambda>(t, r). (9 # t, r)) (json_chars cs1)
                else if e = 117 then
                  (case cs1 of
                     h1 # h2 # h3 # h4 # cs2 \<Rightarrow>
                       (case (unhex h1, unhex h2, unhex h3, unhex h4) of
                          (Some a, Some b, Some d, Some f) \<Rightarrow>
                            map_option (\<lambda>(t, r). ((a * 4096 + b * 256 + d * 16 + f) # t, r))
                              (json_chars cs2)
                        | _ \<Rightarrow> None)
                   | _ \<Rightarrow> None)
                else None))"

definition json_read_string :: "ustr \<Rightarrow> (ustr \<times> ustr) option" where
  "json_read_string s = (case s of [] \<Rightarrow> None | c # cs \<Rightarrow> if c = 34 then json_chars cs else None)"

lemma unhex_hex_digit: "n < 16 \<Longrightarrow> unhex (hex_digit n) = Some n"
  by (auto simp: unhex_def hex_digit_def)

lemma json_chars_escape:
  "json_chars (json_escape_char c @ rest) = map_option (\<lambda>(t, r). (c # t, r)) (json_chars rest)"
proof (cases "c < 32 \<and> c \<notin> {9, 10, 13}")
  case True
  then have esc: "json_escape_char c = [92, 117] @ hex4 c"
    by (auto simp: json_escape_char_def)
  from True have "c < 256" by simp
  then have "c div 16 mod 16 = c div 16" by (intro mod_less) linarith
  then have "c div 16 mod 16 * 16 + c mod 16 = c" by simp
  with True show ?thesis
    by (simp add: esc hex4_def unhex_hex_digit)
next
  case False
  then show ?thesis
    by (auto simp: json_escape_char_def)
qed

lemma json_chars_escaped_text:
  "json_chars (concat (map json_escape_char t) @ 34 # rest) = Some (t, rest)"
  by (induction t) (simp_all add: json_chars_escape del: json_chars.simps(2), simp)

text \<open>
  Round trip of the error envelope's escaping: whatever text an error carries (quotes,
  backslashes and control characters included), reading the literal that \<open>json_string\<close> wrote
  gives back exactly that text and stops at its closing quote.
\<close>

theorem json_string_roundtrip:
  "json_read_string (json_string t @ rest) = Some (t, rest)"
  by (simp add: json_read_string_def json_string_def json_chars_escaped_text del: json_chars.simps)

text \<open>
  An internal error tells the client nothing: two internal errors with any two causes
  have the same response, which is a 500 with the fixed message, and a rate-limited response
  always asks for a wait of at least one second.
\<close>

theorem internal_errors_are_opaque:
  "into_response (Internal cause1) = into_response (Internal cause2) \<and>
   resp_status (into_response (Internal cause1)) = 500 \<and>
   resp_body (into_response (Internal cause1)) =
     lit ''{\"error\":{\"code\":'' @ json_string (lit ''internal_error'') @ lit '',\"message\":'' @
     json_string (lit ''The server encountered an internal error. The failure has been logged.'') @
     lit ''}}'' \<and>
   (\<exists>n. resp_retry_after (into_response (TooManyRequests d)) = Some n \<and> 1 \<le> n \<and> d div 1000000 \<le> n)"
  by (simp add: into_response_def error_body_def)

end
