(* ===== verification/Market_Schema.thy ===== *)
theory Market_Schema
  imports Core_Error
begin

text \<open>
  The tables of the marketplace, one record per row: listings and the licence register behind them, claims and
  their evidence, posted jobs and photos, conversations, messages, blocks and reports, as
  \<open>migrations/0009\<close>, \<open>0010\<close>, \<open>0012\<close>, \<open>0014\<close>, \<open>0015\<close>, \<open>0017\<close>, \<open>0018\<close>, \<open>0024\<close>, \<open>0025\<close>, \<open>0028\<close>, \<open>0029\<close>, \<open>0030\<close>, \<open>0034\<close> and \<open>0037\<close> leave
  them, with the enums of the repositories whose \<open>as_str\<close> fills their text columns. The conventions are those of
  \<open>Db_Schema\<close>. A \<open>float8\<close> is only ever stored and copied here, so it is its 64 bits; a point is the pair of
  longitude and latitude that \<open>ST_MakePoint\<close> takes and \<open>ST_X\<close> and \<open>ST_Y\<close> return. A date is the number of days since the Unix
  epoch. The evidence of a claim is whatever JSON the claimant sent, stored and never read, so it is its text. Columns that only the directory's search reads (search documents, scores) are left out.
\<close>

type_synonym f64 = "64 word"
type_synonym point = "f64 \<times> f64"
type_synonym date = int

datatype jval = JUuid uuid | JText ustr | JInt int | JBool bool | JTime "time option" | JNull

type_synonym json_object = "(ustr \<times> jval) list"

datatype address_visibility = Protected | Public

datatype point_source = Exact | ZipCentroid | NoPoint

datatype license_status = LActive | LExpired | LSuspended | LInactive | LUnknown

datatype claim_status = CPending | CApproved | CRejected | CWithdrawn

datatype claim_method = LicensePhoneOtp | LicenseMailCode | ManualReview

datatype posting_status = POpen | PClosed | PCancelled

datatype job_timeline = Asap | Within2Weeks | MoreThan2Weeks | TimeUnsure

datatype build_type = NewBuild | Replacement | Repair | BuildUnsure

fun address_visibility_str :: "address_visibility \<Rightarrow> ustr" where
  "address_visibility_str Protected = lit ''protected''"
| "address_visibility_str Public = lit ''public''"

fun license_status_str :: "license_status \<Rightarrow> ustr" where
  "license_status_str LActive = lit ''active''"
| "license_status_str LExpired = lit ''expired''"
| "license_status_str LSuspended = lit ''suspended''"
| "license_status_str LInactive = lit ''inactive''"
| "license_status_str LUnknown = lit ''unknown''"

fun claim_status_str :: "claim_status \<Rightarrow> ustr" where
  "claim_status_str CPending = lit ''pending''"
| "claim_status_str CApproved = lit ''approved''"
| "claim_status_str CRejected = lit ''rejected''"
| "claim_status_str CWithdrawn = lit ''withdrawn''"

fun claim_method_str :: "claim_method \<Rightarrow> ustr" where
  "claim_method_str LicensePhoneOtp = lit ''license_phone_otp''"
| "claim_method_str LicenseMailCode = lit ''license_mail_code''"
| "claim_method_str ManualReview = lit ''manual_review''"

fun posting_status_str :: "posting_status \<Rightarrow> ustr" where
  "posting_status_str POpen = lit ''open''"
| "posting_status_str PClosed = lit ''closed''"
| "posting_status_str PCancelled = lit ''cancelled''"

fun job_timeline_str :: "job_timeline \<Rightarrow> ustr" where
  "job_timeline_str Asap = lit ''asap''"
| "job_timeline_str Within2Weeks = lit ''within_2_weeks''"
| "job_timeline_str MoreThan2Weeks = lit ''more_than_2_weeks''"
| "job_timeline_str TimeUnsure = lit ''unsure''"

fun build_type_str :: "build_type \<Rightarrow> ustr" where
  "build_type_str NewBuild = lit ''new_build''"
| "build_type_str Replacement = lit ''replacement''"
| "build_type_str Repair = lit ''repair''"
| "build_type_str BuildUnsure = lit ''unsure''"

subsection \<open>Rows\<close>

record contractor_row =
  ct_id :: uuid
  ct_license_record_id :: "uuid option"
  ct_display_name :: ustr
  ct_slug :: ustr
  ct_region_id :: "uuid option"
  ct_service_radius_m :: int
  ct_postal_code :: "ustr option"
  ct_claimed_by :: "uuid option"
  ct_claimed_at :: "time option"
  ct_accepts_dm :: bool
  ct_bio :: "ustr option"
  ct_website_url :: "ustr option"
  ct_public_phone :: "ustr option"
  ct_address_visibility :: ustr
  ct_precise_point :: "point option"
  ct_public_point :: "point option"
  ct_public_point_source :: point_source
  ct_owner_line1 :: "ustr option"
  ct_owner_city :: "ustr option"
  ct_owner_state :: "ustr option"
  ct_owner_postal_code :: "ustr option"
  ct_google_review_url :: "ustr option"
  ct_yelp_url :: "ustr option"
  ct_photo_key :: "ustr option"
  ct_photo_width :: "int option"
  ct_photo_height :: "int option"
  ct_verified :: bool
  ct_verified_at :: "time option"
  ct_verification_reason :: "ustr option"

record license_row =
  l_id :: uuid
  l_license_no :: ustr
  l_business_name :: ustr
  l_business_type :: "ustr option"
  l_issue_date :: "date option"
  l_classifications :: "ustr list"
  l_bond_amount :: "int option"
  l_workers_comp :: "ustr option"
  l_county :: "ustr option"
  l_phone :: "ustr option"
  l_status_raw :: ustr
  l_raw :: "ustr \<Rightarrow> ustr option"
  l_content_hash :: bytes
  l_first_run_id :: uuid
  l_last_run_id :: uuid
  l_status :: ustr
  l_expiration_date :: "date option"
  l_last_seen_at :: time
  l_address_line1 :: "ustr option"
  l_city :: "ustr option"
  l_state :: "ustr option"
  l_postal_code :: "ustr option"

record claim_row =
  cm_id :: uuid
  cm_contractor_id :: uuid
  cm_user_id :: uuid
  cm_status :: ustr
  cm_method :: ustr
  cm_evidence :: ustr
  cm_decided_at :: "time option"
  cm_decided_by :: "uuid option"
  cm_decision_note :: "ustr option"
  cm_created_at :: time

record check_row =
  vc_id :: uuid
  vc_contractor_id :: uuid
  vc_claim_id :: "uuid option"
  vc_kind :: ustr
  vc_outcome :: ustr
  vc_evidence :: json_object
  vc_performed_by :: "uuid option"
  vc_observed_at :: time

record posting_row =
  jb_id :: uuid
  jb_posted_by :: uuid
  jb_title :: ustr
  jb_description :: ustr
  jb_trade_id :: "uuid option"
  jb_status :: ustr
  jb_build_type :: ustr
  jb_job_size :: ustr
  jb_budget_min :: "int option"
  jb_budget_max :: "int option"
  jb_timeline :: ustr
  jb_postal_code :: ustr
  jb_region_id :: "uuid option"
  jb_public_point :: "point option"
  jb_public_point_source :: point_source
  jb_closed_at :: "time option"
  jb_created_at :: time
  jb_updated_at :: time
  jb_alerts_matched_at :: "time option"

text \<open>\<open>job_photos\<close> and \<open>contractor_photos\<close> have the same columns; \<open>ph_owner\<close> is the job or the listing.\<close>

record photo_row =
  ph_id :: uuid
  ph_owner :: uuid
  ph_storage_key :: ustr
  ph_byte_size :: int
  ph_width :: int
  ph_height :: int
  ph_position :: int

record conversation_row =
  cv_id :: uuid
  cv_contractor_id :: "uuid option"
  cv_dm_lo :: uuid
  cv_dm_hi :: uuid
  cv_last_seq :: int
  cv_last_message_at :: "time option"
  cv_created_by :: uuid
  cv_created_at :: time
  cv_job_id :: "uuid option"

record participant_row =
  cp_conversation_id :: uuid
  cp_user_id :: uuid
  cp_role :: ustr
  cp_last_read_seq :: int

record message_row =
  dm_id :: uuid
  dm_conversation_id :: uuid
  dm_seq :: int
  dm_sender :: uuid
  dm_body :: ustr
  dm_deleted_at :: "time option"
  dm_deleted_by :: "uuid option"
  dm_created_at :: time

record block_row =
  bk_blocker :: uuid
  bk_blocked :: uuid
  bk_reason :: "ustr option"
  bk_created_at :: time

record report_row =
  rp_id :: uuid
  rp_reporter :: uuid
  rp_conversation_id :: uuid
  rp_message_id :: "uuid option"
  rp_reason :: ustr
  rp_detail :: "ustr option"
  rp_status :: ustr
  rp_reviewed_at :: "time option"
  rp_reviewed_by :: "uuid option"
  rp_created_at :: time

record trade_row =
  tr_id :: uuid
  tr_slug :: ustr
  tr_name :: ustr
  tr_classification :: "ustr option"

record alias_row =
  al_trade_id :: uuid
  al_alias :: ustr

text \<open>\<open>contractor_trades\<close>: the trades of a listing, imported (\<open>cslb\<close>) or declared by its owner.\<close>

record contractor_trade_row =
  ctr_contractor_id :: uuid
  ctr_trade_id :: uuid
  ctr_source :: ustr

record service_area_row =
  sa_id :: uuid
  sa_contractor_id :: uuid
  sa_region_id :: uuid

record homeowner_profile_row =
  hp_user_id :: uuid
  hp_display_name :: ustr
  hp_postal_code :: "ustr option"
  hp_contact_phone :: "ustr option"
  hp_region_id :: "uuid option"

record search_row =
  ss_id :: uuid
  ss_user_id :: uuid
  ss_name :: ustr
  ss_query :: "ustr option"
  ss_query_trade_ids :: "uuid list option"
  ss_trade_ids :: "uuid list option"
  ss_postal_code :: "ustr option"
  ss_center :: "point option"
  ss_radius_m :: "f64 option"
  ss_timeline :: "ustr option"
  ss_build_type :: "ustr option"
  ss_budget_min :: "int option"
  ss_notify :: bool
  ss_last_notified_at :: "time option"
  ss_created_at :: time

record search_event_row =
  se_id :: uuid
  se_kind :: ustr
  se_surface :: ustr
  se_subject_id :: uuid
  se_actor :: "uuid option"
  se_position :: int
  se_had_query :: bool
  se_sort :: "ustr option"
  se_request_id :: "ustr option"
  se_created_at :: time

text \<open>The runs of the licence import, and the versions of a licence it has seen.\<close>

record import_run_row =
  ir_id :: uuid
  ir_source :: ustr
  ir_file_name :: ustr
  ir_sha256 :: bytes
  ir_snapshot_date :: "date option"
  ir_status :: ustr
  ir_read :: int
  ir_inserted :: int
  ir_updated :: int
  ir_unchanged :: int
  ir_skipped :: int
  ir_rejected :: int
  ir_error_text :: "ustr option"
  ir_finished_at :: "time option"

record license_version_row =
  lv_id :: uuid
  lv_license_record_id :: uuid
  lv_run_id :: uuid
  lv_content_hash :: bytes
  lv_raw :: "ustr \<Rightarrow> ustr option"

text \<open>The rows of \<open>regions\<close> of kind \<open>zcta\<close>.\<close>

record region_row =
  rg_id :: uuid
  rg_code :: ustr
  rg_name :: ustr
  rg_centroid :: point

subsection \<open>Enum texts are injective\<close>

lemma address_visibility_str_eq [simp]: "address_visibility_str a = address_visibility_str b \<longleftrightarrow> a = b"
  by (cases a; cases b) (simp_all add: lit_def)

lemma license_status_str_eq [simp]: "license_status_str a = license_status_str b \<longleftrightarrow> a = b"
  by (cases a; cases b) (simp_all add: lit_def)

lemma claim_status_str_eq [simp]: "claim_status_str a = claim_status_str b \<longleftrightarrow> a = b"
  by (cases a; cases b) (simp_all add: lit_def)

lemma claim_method_str_eq [simp]: "claim_method_str a = claim_method_str b \<longleftrightarrow> a = b"
  by (cases a; cases b) (simp_all add: lit_def)

lemma posting_status_str_eq [simp]: "posting_status_str a = posting_status_str b \<longleftrightarrow> a = b"
  by (cases a; cases b) (simp_all add: lit_def)

lemma job_timeline_str_eq [simp]: "job_timeline_str a = job_timeline_str b \<longleftrightarrow> a = b"
  by (cases a; cases b) (simp_all add: lit_def)

lemma build_type_str_eq [simp]: "build_type_str a = build_type_str b \<longleftrightarrow> a = b"
  by (cases a; cases b) (simp_all add: lit_def)

end
