(* ===== verification/Db_Schema.thy ===== *)
theory Db_Schema
  imports Market_Schema
begin

text \<open>
  The tables of the account subsystem and of the two work queues, together with those of the marketplace (\<open>Market_Schema\<close>), one record per row, as \<open>migrations/0003\<close> to \<open>0008\<close>, \<open>0011\<close>,
  \<open>0016\<close>, \<open>0021\<close>, \<open>0032\<close>, \<open>0033\<close> and \<open>0035\<close> leave them, and the enums of \<open>cm-db/src/repo\<close>
  whose \<open>as_str\<close> fills their text columns. A table is the list of its rows. Columns that are
  parsed back into an enum (\<open>users.status\<close>, \<open>users.account_type\<close>, \<open>user_roles.role\<close>) hold text;
  columns that are only ever compared hold the enum itself, because \<open>as_str\<close> is injective
  (\<open>as_str_inj\<close> below). The \<open>updated_at\<close> and \<open>created_at\<close> columns that no modelled query reads are
  left out.
\<close>

datatype user_status = Active | Suspended | Deleted

datatype account_type = Homeowner | Contractor

datatype role = RHomeowner | RContractor | RModerator | RAdmin

datatype revocation_reason = Logout | LogoutAll | PasswordChange | Rotation | Admin

datatype purpose = EmailVerify | LoginCode | PasswordReset

datatype provider = Google | Facebook

datatype actor_kind = ActorUser | ActorSystem | ActorImporter | ActorAdmin

datatype mail_kind = KLoginCode | KPasswordReset | KJobAlert | KEmailVerify

datatype message_status = Queued | InProgress | Sent | Failed

datatype job_status = JQueued | JInProgress | JSucceeded | JFailed | JSkipped

fun user_status_str :: "user_status \<Rightarrow> ustr" where
  "user_status_str Active = lit ''active''"
| "user_status_str Suspended = lit ''suspended''"
| "user_status_str Deleted = lit ''deleted''"

fun account_type_str :: "account_type \<Rightarrow> ustr" where
  "account_type_str Homeowner = lit ''homeowner''"
| "account_type_str Contractor = lit ''contractor''"

fun role_str :: "role \<Rightarrow> ustr" where
  "role_str RHomeowner = lit ''homeowner''"
| "role_str RContractor = lit ''contractor''"
| "role_str RModerator = lit ''moderator''"
| "role_str RAdmin = lit ''admin''"

fun revocation_reason_str :: "revocation_reason \<Rightarrow> ustr" where
  "revocation_reason_str Logout = lit ''logout''"
| "revocation_reason_str LogoutAll = lit ''logout_all''"
| "revocation_reason_str PasswordChange = lit ''password_change''"
| "revocation_reason_str Rotation = lit ''rotation''"
| "revocation_reason_str Admin = lit ''admin''"

fun purpose_str :: "purpose \<Rightarrow> ustr" where
  "purpose_str EmailVerify = lit ''email_verify''"
| "purpose_str LoginCode = lit ''login_code''"
| "purpose_str PasswordReset = lit ''password_reset''"

fun provider_str :: "provider \<Rightarrow> ustr" where
  "provider_str Google = lit ''google''"
| "provider_str Facebook = lit ''facebook''"

fun provider_display_name :: "provider \<Rightarrow> ustr" where
  "provider_display_name Google = lit ''Google''"
| "provider_display_name Facebook = lit ''Facebook''"

fun actor_kind_str :: "actor_kind \<Rightarrow> ustr" where
  "actor_kind_str ActorUser = lit ''user''"
| "actor_kind_str ActorSystem = lit ''system''"
| "actor_kind_str ActorImporter = lit ''importer''"
| "actor_kind_str ActorAdmin = lit ''admin''"

fun mail_kind_str :: "mail_kind \<Rightarrow> ustr" where
  "mail_kind_str KLoginCode = lit ''login_code''"
| "mail_kind_str KPasswordReset = lit ''password_reset''"
| "mail_kind_str KJobAlert = lit ''job_alert''"
| "mail_kind_str KEmailVerify = lit ''email_verify''"

fun message_status_str :: "message_status \<Rightarrow> ustr" where
  "message_status_str Queued = lit ''queued''"
| "message_status_str InProgress = lit ''in_progress''"
| "message_status_str Sent = lit ''sent''"
| "message_status_str Failed = lit ''failed''"

fun job_status_str :: "job_status \<Rightarrow> ustr" where
  "job_status_str JQueued = lit ''queued''"
| "job_status_str JInProgress = lit ''in_progress''"
| "job_status_str JSucceeded = lit ''succeeded''"
| "job_status_str JFailed = lit ''failed''"
| "job_status_str JSkipped = lit ''skipped''"

subsection \<open>Rows\<close>

record user_row =
  u_id :: uuid
  u_email :: "ustr option"
  u_display_name :: ustr
  u_status :: ustr
  u_account_type :: ustr
  u_email_verified_at :: "time option"
  u_created_at :: time

record credential_row =
  c_user_id :: uuid
  c_password_hash :: ustr
  c_failed_attempts :: int
  c_locked_until :: "time option"
  c_password_changed_at :: time

record session_row =
  s_id :: uuid
  s_user_id :: uuid
  s_token_hash :: bytes
  s_idle_expires_at :: time
  s_absolute_expires_at :: time
  s_last_seen_at :: time
  s_revoked_at :: "time option"
  s_revoked_reason :: "revocation_reason option"
  s_ip_hash :: "bytes option"
  s_user_agent :: "ustr option"
  s_created_at :: time

record token_row =
  t_id :: uuid
  t_user_id :: uuid
  t_purpose :: purpose
  t_token_hash :: bytes
  t_expires_at :: time
  t_consumed_at :: "time option"
  t_attempts :: int

record oauth_row =
  o_id :: uuid
  o_user_id :: uuid
  o_provider :: provider
  o_subject :: ustr
  o_firebase_uid :: "ustr option"
  o_email_at_link :: "ustr option"
  o_email_verified_at_link :: bool
  o_last_login_at :: "time option"
  o_created_at :: time

record role_row =
  r_user_id :: uuid
  r_role :: ustr
  r_granted_by :: "uuid option"

record outbox_row =
  m_id :: uuid
  m_user_id :: uuid
  m_recipient :: ustr
  m_kind :: mail_kind
  m_subject :: ustr
  m_body_text :: ustr
  m_body_html :: "ustr option"
  m_unsubscribe_url :: "ustr option"
  m_status :: message_status
  m_attempts :: int
  m_next_attempt_at :: time
  m_locked_at :: "time option"
  m_locked_by :: "ustr option"
  m_provider_message_id :: "ustr option"
  m_last_error :: "ustr option"
  m_updated_at :: time

record audit_row =
  a_id :: uuid
  a_actor_user_id :: "uuid option"
  a_actor_kind :: actor_kind
  a_action :: ustr
  a_subject_table :: ustr
  a_subject_id :: "uuid option"
  a_data :: json_object
  a_request_id :: "ustr option"
  a_ip_hash :: "bytes option"
  a_created_at :: time

record geocode_row =
  g_id :: uuid
  g_contractor_id :: uuid
  g_address_hash :: bytes
  g_status :: job_status
  g_attempts :: int
  g_next_attempt_at :: time
  g_locked_at :: "time option"
  g_locked_by :: "ustr option"
  g_provider :: "ustr option"
  g_provider_response :: "ustr option"
  g_last_error :: "ustr option"
  g_created_at :: time
  g_updated_at :: time

record rate_row =
  k_bucket :: bytes
  k_window_start :: time
  k_count :: int
  k_expires_at :: time

record db =
  users :: "user_row list"
  credentials :: "credential_row list"
  sessions :: "session_row list"
  auth_tokens :: "token_row list"
  oauth_identities :: "oauth_row list"
  user_roles :: "role_row list"
  email_outbox :: "outbox_row list"
  audit_log :: "audit_row list"
  geocode_queue :: "geocode_row list"
  contractors :: "contractor_row list"
  license_records :: "license_row list"
  contractor_claims :: "claim_row list"
  verification_checks :: "check_row list"
  jobs :: "posting_row list"
  job_photos :: "photo_row list"
  contractor_photos :: "photo_row list"
  conversations :: "conversation_row list"
  conversation_participants :: "participant_row list"
  messages :: "message_row list"
  user_blocks :: "block_row list"
  message_reports :: "report_row list"
  trades :: "trade_row list"
  zctas :: "region_row list"
  trade_aliases :: "alias_row list"
  contractor_trades :: "contractor_trade_row list"
  service_areas :: "service_area_row list"
  homeowner_profiles :: "homeowner_profile_row list"
  saved_searches :: "search_row list"
  search_events :: "search_event_row list"
  license_import_runs :: "import_run_row list"
  license_record_versions :: "license_version_row list"

text \<open>Foreign keys point at \<open>users (id)\<close> and, in the marketplace tables, at \<open>contractors (id)\<close> as well.\<close>

definition contractor_exists :: "db \<Rightarrow> uuid \<Rightarrow> bool" where
  "contractor_exists d cid \<longleftrightarrow> cid \<in> ct_id ` set (contractors d)"

definition user_exists :: "db \<Rightarrow> uuid \<Rightarrow> bool" where
  "user_exists d uid \<longleftrightarrow> uid \<in> u_id ` set (users d)"

subsection \<open>Enum texts are injective\<close>

lemma user_status_str_eq [simp]: "user_status_str a = user_status_str b \<longleftrightarrow> a = b"
  by (cases a; cases b) (simp_all add: lit_def)

lemma account_type_str_eq [simp]: "account_type_str a = account_type_str b \<longleftrightarrow> a = b"
  by (cases a; cases b) (simp_all add: lit_def)

lemma role_str_eq [simp]: "role_str a = role_str b \<longleftrightarrow> a = b"
  by (cases a; cases b) (simp_all add: lit_def)

lemma revocation_reason_str_eq [simp]: "revocation_reason_str a = revocation_reason_str b \<longleftrightarrow> a = b"
  by (cases a; cases b) (simp_all add: lit_def)

lemma purpose_str_eq [simp]: "purpose_str a = purpose_str b \<longleftrightarrow> a = b"
  by (cases a; cases b) (simp_all add: lit_def)

lemma provider_str_eq [simp]: "provider_str a = provider_str b \<longleftrightarrow> a = b"
  by (cases a; cases b) (simp_all add: lit_def)

lemma mail_kind_str_eq [simp]: "mail_kind_str a = mail_kind_str b \<longleftrightarrow> a = b"
  by (cases a; cases b) (simp_all add: lit_def)

lemma message_status_str_eq [simp]: "message_status_str a = message_status_str b \<longleftrightarrow> a = b"
  by (cases a; cases b) (simp_all add: lit_def)

lemma actor_kind_str_eq [simp]: "actor_kind_str a = actor_kind_str b \<longleftrightarrow> a = b"
  by (cases a; cases b) (simp_all add: lit_def)

lemma job_status_str_eq [simp]: "job_status_str a = job_status_str b \<longleftrightarrow> a = b"
  by (cases a; cases b) (simp_all add: lit_def)

text \<open>
  Every enum that is stored as text is stored injectively: no two variants of any of the
  ten enums share a column value, so comparing texts in SQL is comparing variants.
\<close>

theorem as_str_inj:
  "inj user_status_str \<and> inj account_type_str \<and> inj role_str \<and> inj revocation_reason_str \<and>
   inj purpose_str \<and> inj provider_str \<and> inj mail_kind_str \<and> inj message_status_str \<and>
   inj actor_kind_str \<and> inj job_status_str"
  by (simp add: inj_def)

end
