(* ===== verification/Db_Monad.thy ===== *)
theory Db_Monad
  imports Db_Schema
begin

text \<open>
  How the sources run against PostgreSQL, the clock and the random number generator.

  \<^item> \<open>lib\<close> collects the third-party functions the sources call (HMAC, SHA-256, base64, UUID
    text, Argon2, Unicode and PostgreSQL lower-casing, PostgreSQL's space class): parameters of the model.
  \<^item> \<open>world\<close> is the state an operation runs in: the transactional tables \<open>w_db\<close>, the rate-limit
    counters \<open>w_rates\<close> (written only on their own connection, so no rollback reaches them), the
    clock, and the supplies of identifiers, random draws and faults.
  \<^item> An operation (\<open>'a m\<close>) maps a world to a result, an \<open>app_error\<close> or a value, and a world.
  \<^item> \<open>sql\<close> is one statement: it asks the fault supply first, so every \<open>map_err(AppError::internal)?\<close>
    of the sources is a branch here. A failing statement changes no table.
  \<^item> \<open>transaction\<close> is \<open>pool.begin()\<close>, a body, \<open>commit()\<close>: when the body or the commit fails, the
    tables are those of the beginning.
  \<^item> \<open>interfere\<close> marks a point between two connections or transactions of one request, where
    other requests may have run: its argument is an arbitrary change of the world.
  The calculus \<open>keeps\<close> at the end says that an operation preserves a predicate on the tables.
\<close>

record lib =
  hmac_sha256 :: "bytes \<Rightarrow> bytes \<Rightarrow> bytes"
  sha256 :: "bytes \<Rightarrow> bytes"
  b64url_encode :: "bytes \<Rightarrow> ustr"
  b64url_decode :: "ustr \<Rightarrow> bytes option"
  uuid_to_string :: "uuid \<Rightarrow> ustr"
  uuid_parse :: "ustr \<Rightarrow> uuid option"
  to_lowercase :: "ustr \<Rightarrow> ustr"
  pg_lower :: "ustr \<Rightarrow> ustr"
  pg_space :: "nat \<Rightarrow> bool"
  argon2_hash :: "bytes \<Rightarrow> nat \<Rightarrow> ustr + ustr"
  phc_error :: "ustr \<Rightarrow> ustr option"
  argon2_verify :: "bytes \<Rightarrow> ustr \<Rightarrow> ustr + bool"
  phc_params :: "ustr \<Rightarrow> (nat \<times> nat \<times> nat) option"

record world =
  w_db :: db
  w_rates :: "rate_row list"
  w_clock :: time
  w_fault :: "nat \<Rightarrow> ustr option"
  w_calls :: nat
  w_ids :: "nat \<Rightarrow> uuid"
  w_next_id :: nat
  w_rng :: "nat \<Rightarrow> (nat \<Rightarrow> byte) option"
  w_draws :: nat

type_synonym 'a m = "world \<Rightarrow> 'a res \<times> world"

subsection \<open>The operations\<close>

definition ret :: "'a \<Rightarrow> 'a m" where
  "ret x w = (Inr x, w)"

definition throw :: "app_error \<Rightarrow> 'a m" where
  "throw e w = (Inl e, w)"

definition bind :: "'a m \<Rightarrow> ('a \<Rightarrow> 'b m) \<Rightarrow> 'b m" where
  "bind f g w = (case f w of (Inl e, w') \<Rightarrow> (Inl e, w') | (Inr x, w') \<Rightarrow> g x w')"

definition seq :: "'a m \<Rightarrow> 'b m \<Rightarrow> 'b m" where
  "seq f g = bind f (\<lambda>_. g)"

definition of_res :: "'a res \<Rightarrow> 'a m" where
  "of_res r w = (r, w)"

text \<open>\<open>Result::map_err\<close> on the result of an operation.\<close>

definition map_err :: "(app_error \<Rightarrow> app_error) \<Rightarrow> 'a m \<Rightarrow> 'a m" where
  "map_err h f w = (case f w of (Inl e, w') \<Rightarrow> (Inl (h e), w') | (Inr x, w') \<Rightarrow> (Inr x, w'))"

definition utc_now :: "time m" where
  "utc_now w = (Inr (w_clock w), w)"

definition new_id :: "uuid m" where
  "new_id w = (Inr (w_ids w (w_next_id w)), w\<lparr>w_next_id := Suc (w_next_id w)\<rparr>)"

text \<open>\<open>getrandom::fill\<close> on an array of \<open>n\<close> bytes.\<close>

definition getrandom :: "nat \<Rightarrow> bytes m" where
  "getrandom n w =
     (case w_rng w (w_draws w) of
        None \<Rightarrow> (Inl (internal ''the system RNG failed''), w\<lparr>w_draws := Suc (w_draws w)\<rparr>)
      | Some f \<Rightarrow> (Inr (map f [0..<n]), w\<lparr>w_draws := Suc (w_draws w)\<rparr>))"

text \<open>Any round trip to the server, and one statement.\<close>

definition round_trip :: "unit m" where
  "round_trip w =
     (case w_fault w (w_calls w) of
        Some cause \<Rightarrow> (Inl (Internal cause), w\<lparr>w_calls := Suc (w_calls w)\<rparr>)
      | None \<Rightarrow> (Inr (), w\<lparr>w_calls := Suc (w_calls w)\<rparr>))"

definition acquire :: "unit m" where
  "acquire = round_trip"

definition sql :: "(time \<Rightarrow> db \<Rightarrow> ('a \<times> db) res) \<Rightarrow> 'a m" where
  "sql q = bind round_trip (\<lambda>_ w.
     case q (w_clock w) (w_db w) of
       Inl e \<Rightarrow> (Inl e, w)
     | Inr (x, d) \<Rightarrow> (Inr x, w\<lparr>w_db := d\<rparr>))"

definition query :: "(time \<Rightarrow> db \<Rightarrow> 'a) \<Rightarrow> 'a m" where
  "query q = sql (\<lambda>now d. Inr (q now d, d))"

definition execute :: "(time \<Rightarrow> db \<Rightarrow> db) \<Rightarrow> unit m" where
  "execute q = sql (\<lambda>now d. Inr ((), q now d))"

definition rollback_to :: "world \<Rightarrow> world \<Rightarrow> world" where
  "rollback_to w w' = w'\<lparr>w_db := w_db w\<rparr>"

definition transaction :: "'a m \<Rightarrow> 'a m" where
  "transaction body w =
     (case bind round_trip (\<lambda>_. bind body (\<lambda>x. bind round_trip (\<lambda>_. ret x))) w of
        (Inl e, w') \<Rightarrow> (Inl e, rollback_to w w')
      | (Inr x, w') \<Rightarrow> (Inr x, w'))"

definition interfere :: "(nat \<Rightarrow> world \<Rightarrow> world) \<Rightarrow> nat \<Rightarrow> unit m" where
  "interfere env k w = (Inr (), env k w)"

text \<open>A step before which other requests run: the \<open>k\<close>-th of an arbitrary family of changes of the world.\<close>

type_synonym env = "nat \<Rightarrow> world \<Rightarrow> world"

definition after_others :: "env \<Rightarrow> nat \<Rightarrow> 'a m \<Rightarrow> 'a m" where
  "after_others env k op = seq (interfere env k) op"

lemmas monad_defs = ret_def throw_def bind_def seq_def of_res_def

subsection \<open>Inversion of successful and failed runs\<close>

lemma bind_Inr_iff:
  "bind f g w = (Inr y, w'') \<longleftrightarrow> (\<exists>x w'. f w = (Inr x, w') \<and> g x w' = (Inr y, w''))"
  by (auto simp: bind_def split: prod.splits sum.splits)

lemma bind_Inl_iff:
  "bind f g w = (Inl e, w'') \<longleftrightarrow>
     f w = (Inl e, w'') \<or> (\<exists>x w'. f w = (Inr x, w') \<and> g x w' = (Inl e, w''))"
  by (auto simp: bind_def split: prod.splits sum.splits)

lemma seq_Inr_iff:
  "seq f g w = (Inr y, w'') \<longleftrightarrow> (\<exists>x w'. f w = (Inr x, w') \<and> g w' = (Inr y, w''))"
  by (simp add: seq_def bind_Inr_iff)

lemma seq_Inl_iff:
  "seq f g w = (Inl e, w'') \<longleftrightarrow>
     f w = (Inl e, w'') \<or> (\<exists>x w'. f w = (Inr x, w') \<and> g w' = (Inl e, w''))"
  by (simp add: seq_def bind_Inl_iff)

lemma ret_iff [simp]: "ret x w = (r, w') \<longleftrightarrow> r = Inr x \<and> w' = w"
  by (auto simp: ret_def)

lemma throw_iff [simp]: "throw e w = (r, w') \<longleftrightarrow> r = Inl e \<and> w' = w"
  by (auto simp: throw_def)

lemma of_res_iff [simp]: "of_res x w = (r, w') \<longleftrightarrow> x = r \<and> w' = w"
  by (auto simp: of_res_def)

lemma utc_now_iff [simp]: "utc_now w = (r, w') \<longleftrightarrow> r = Inr (w_clock w) \<and> w' = w"
  by (auto simp: utc_now_def)

lemma interfere_iff [simp]: "interfere env k w = (r, w') \<longleftrightarrow> r = Inr () \<and> w' = env k w"
  by (auto simp: interfere_def)

lemma after_others_iff: "after_others env k f w = (r, w') \<longleftrightarrow> f (env k w) = (r, w')"
  by (simp add: after_others_def seq_def bind_def interfere_def)

lemma map_err_Inr_iff: "map_err h f w = (Inr x, w') \<longleftrightarrow> f w = (Inr x, w')"
  by (auto simp: map_err_def split: prod.splits sum.splits)

lemma map_err_Inl_iff: "map_err h f w = (Inl e, w') \<longleftrightarrow> (\<exists>e'. f w = (Inl e', w') \<and> e = h e')"
  by (auto simp: map_err_def split: prod.splits sum.splits)

lemma new_id_iff:
  "new_id w = (r, w') \<longleftrightarrow>
     r = Inr (w_ids w (w_next_id w)) \<and> w' = w\<lparr>w_next_id := Suc (w_next_id w)\<rparr>"
  by (auto simp: new_id_def)

lemma getrandom_world: "getrandom n w = (r, w') \<Longrightarrow> w' = w\<lparr>w_draws := Suc (w_draws w)\<rparr>"
  by (auto simp: getrandom_def split: option.splits)

lemma round_trip_world: "round_trip w = (r, w') \<Longrightarrow> w' = w\<lparr>w_calls := Suc (w_calls w)\<rparr>"
  by (auto simp: round_trip_def split: option.splits)

lemma sql_Inr_iff:
  "sql q w = (Inr x, w') \<longleftrightarrow>
     w_fault w (w_calls w) = None \<and>
     (\<exists>d. q (w_clock w) (w_db w) = Inr (x, d) \<and> w' = w\<lparr>w_calls := Suc (w_calls w), w_db := d\<rparr>)"
  by (auto simp: sql_def bind_def round_trip_def split: option.splits sum.splits)

lemma sql_Inl_iff:
  "sql q w = (Inl e, w') \<longleftrightarrow>
     w' = w\<lparr>w_calls := Suc (w_calls w)\<rparr> \<and>
     ((\<exists>c. w_fault w (w_calls w) = Some c \<and> e = Internal c) \<or>
      w_fault w (w_calls w) = None \<and> q (w_clock w) (w_db w) = Inl e)"
  by (auto simp: sql_def bind_def round_trip_def split: option.splits sum.splits)

lemma query_Inr_iff:
  "query q w = (Inr x, w') \<longleftrightarrow>
     w_fault w (w_calls w) = None \<and> x = q (w_clock w) (w_db w) \<and>
     w' = w\<lparr>w_calls := Suc (w_calls w)\<rparr>"
  by (auto simp: query_def sql_Inr_iff)

lemma query_Inl_iff:
  "query q w = (Inl e, w') \<longleftrightarrow>
     w' = w\<lparr>w_calls := Suc (w_calls w)\<rparr> \<and>
     (\<exists>c. w_fault w (w_calls w) = Some c \<and> e = Internal c)"
  by (auto simp: query_def sql_Inl_iff)

lemma execute_Inr_iff:
  "execute q w = (Inr x, w') \<longleftrightarrow>
     w_fault w (w_calls w) = None \<and>
     w' = w\<lparr>w_calls := Suc (w_calls w), w_db := q (w_clock w) (w_db w)\<rparr>"
  by (auto simp: execute_def sql_Inr_iff)

lemma execute_Inl_iff:
  "execute q w = (Inl e, w') \<longleftrightarrow>
     w' = w\<lparr>w_calls := Suc (w_calls w)\<rparr> \<and>
     (\<exists>c. w_fault w (w_calls w) = Some c \<and> e = Internal c)"
  by (auto simp: execute_def sql_Inl_iff)

lemmas run_iffs =
  bind_Inr_iff bind_Inl_iff seq_Inr_iff seq_Inl_iff map_err_Inr_iff map_err_Inl_iff
  new_id_iff sql_Inr_iff sql_Inl_iff query_Inr_iff query_Inl_iff execute_Inr_iff execute_Inl_iff

text \<open>A transaction commits its body's tables or leaves every table as it was.\<close>

lemma transaction_Inr:
  assumes "transaction body w = (Inr x, w')"
  obtains w1 where "body (w\<lparr>w_calls := Suc (w_calls w)\<rparr>) = (Inr x, w1)"
    and "w' = w1\<lparr>w_calls := Suc (w_calls w1)\<rparr>"
  using assms
  by (auto simp: transaction_def bind_Inr_iff split: prod.splits sum.splits
        dest!: round_trip_world)

lemma transaction_Inl_db: "transaction body w = (Inl e, w') \<Longrightarrow> w_db w' = w_db w"
  by (auto simp: transaction_def rollback_to_def split: prod.splits sum.splits)

subsection \<open>Preservation of predicates on the tables\<close>

definition keeps :: "(db \<Rightarrow> bool) \<Rightarrow> 'a m \<Rightarrow> bool" where
  "keeps P f \<longleftrightarrow> (\<forall>w. P (w_db w) \<longrightarrow> P (w_db (snd (f w))))"

lemma keepsI: "(\<And>w r w'. P (w_db w) \<Longrightarrow> f w = (r, w') \<Longrightarrow> P (w_db w')) \<Longrightarrow> keeps P f"
  unfolding keeps_def by (metis surjective_pairing)

lemma keepsD: "keeps P f \<Longrightarrow> f w = (r, w') \<Longrightarrow> P (w_db w) \<Longrightarrow> P (w_db w')"
  unfolding keeps_def by (metis snd_conv)

lemma keeps_ret [keeps_intros]: "keeps P (ret x)"
  by (simp add: keeps_def ret_def)

lemma keeps_throw [keeps_intros]: "keeps P (throw e)"
  by (simp add: keeps_def throw_def)

lemma keeps_of_res [keeps_intros]: "keeps P (of_res r)"
  by (simp add: keeps_def of_res_def)

lemma keeps_utc_now [keeps_intros]: "keeps P utc_now"
  by (simp add: keeps_def utc_now_def)

lemma keeps_new_id [keeps_intros]: "keeps P new_id"
  by (simp add: keeps_def new_id_def)

lemma keeps_getrandom [keeps_intros]: "keeps P (getrandom n)"
  by (rule keepsI) (auto dest!: getrandom_world)

lemma keeps_round_trip [keeps_intros]: "keeps P round_trip"
  by (rule keepsI) (auto dest!: round_trip_world)

lemma keeps_acquire [keeps_intros]: "keeps P acquire"
  by (simp add: acquire_def keeps_round_trip)

lemma keeps_bind [keeps_intros]:
  assumes "keeps P f" and "\<And>x. keeps P (g x)"
  shows "keeps P (bind f g)"
proof (rule keepsI)
  fix w r w'
  assume P: "P (w_db w)" and run: "bind f g w = (r, w')"
  obtain r1 w1 where f: "f w = (r1, w1)" by (cases "f w")
  with assms(1) P have "P (w_db w1)" by (auto dest: keepsD)
  with f run assms(2) show "P (w_db w')"
    by (auto simp: bind_def split: sum.splits dest: keepsD)
qed

lemma keeps_seq [keeps_intros]: "keeps P f \<Longrightarrow> keeps P g \<Longrightarrow> keeps P (seq f g)"
  by (simp add: seq_def keeps_bind)

lemma keeps_map_err [keeps_intros]: "keeps P f \<Longrightarrow> keeps P (map_err h f)"
  by (rule keepsI) (auto simp: map_err_def split: prod.splits sum.splits dest: keepsD)

lemma keeps_query [keeps_intros]: "keeps P (query q)"
  by (simp add: keeps_def query_def sql_def bind_def round_trip_def split: option.splits)

lemma keeps_sql:
  "(\<And>now d x d'. P d \<Longrightarrow> q now d = Inr (x, d') \<Longrightarrow> P d') \<Longrightarrow> keeps P (sql q)"
  by (rule keepsI) (auto simp: sql_def bind_def round_trip_def split: option.splits sum.splits)

lemma keeps_execute: "(\<And>now d. P d \<Longrightarrow> P (q now d)) \<Longrightarrow> keeps P (execute q)"
  unfolding execute_def by (rule keeps_sql) auto

lemma keeps_transaction [keeps_intros]: "keeps P f \<Longrightarrow> keeps P (transaction f)"
proof (rule keepsI)
  fix w r w'
  assume f: "keeps P f" and P: "P (w_db w)" and run: "transaction f w = (r, w')"
  show "P (w_db w')"
  proof (cases r)
    case (Inl e)
    with run P show ?thesis by (auto dest: transaction_Inl_db)
  next
    case (Inr x)
    with run P f show ?thesis
      by (auto elim!: transaction_Inr dest: keepsD)
  qed
qed

lemma keeps_interfere: "(\<And>k w. P (w_db w) \<Longrightarrow> P (w_db (env k w))) \<Longrightarrow> keeps P (interfere env k)"
  by (simp add: keeps_def interfere_def)

lemma keeps_if [keeps_intros]: "(b \<Longrightarrow> keeps P f) \<Longrightarrow> (\<not> b \<Longrightarrow> keeps P g) \<Longrightarrow> keeps P (if b then f else g)"
  by simp

lemma keeps_case_option [keeps_intros]:
  "keeps P f \<Longrightarrow> (\<And>x. keeps P (g x)) \<Longrightarrow> keeps P (case v of None \<Rightarrow> f | Some x \<Rightarrow> g x)"
  by (cases v) auto

lemma keeps_case_sum [keeps_intros]:
  "(\<And>x. keeps P (f x)) \<Longrightarrow> (\<And>x. keeps P (g x)) \<Longrightarrow>
   keeps P (case v of Inl x \<Rightarrow> f x | Inr x \<Rightarrow> g x)"
  by (cases v) auto

lemma keeps_case_prod [keeps_intros]:
  "(\<And>x y. keeps P (f x y)) \<Longrightarrow> keeps P (case v of (x, y) \<Rightarrow> f x y)"
  by (cases v) auto

lemma keeps_let [keeps_intros]: "(\<And>x. keeps P (f x)) \<Longrightarrow> keeps P (let x = v in f x)"
  by (simp add: Let_def)

end
