(* ===== verification/Db_Constraints.thy ===== *)
theory Db_Constraints
  imports Db_Monad
begin

text \<open>
  The constraints the migrations put on the account tables, and the invariant they add up to.
  A statement that would break one of them fails in PostgreSQL, so the repository theories
  check the constraint of the row they write and return the error the sources map it to.
  \<open>db_ok\<close> is the conjunction over all rows: keys are unique, every foreign key points at a user
  and every row passes its \<open>CHECK\<close>s.
\<close>

text \<open>
  \<open>CHECK (email ~ '^[^@[:space:]]+@[^@[:space:]]+\.[^@[:space:]]+$')\<close>: one \<open>@\<close>, no space,
  something before it, and after it a dot that is neither first nor last.
\<close>

definition email_matches_check :: "lib \<Rightarrow> ustr \<Rightarrow> bool" where
  "email_matches_check L e =
     (case split_once 64 e of
        None \<Rightarrow> False
      | Some (local, domain) \<Rightarrow>
          local \<noteq> [] \<and> list_all (\<lambda>c. \<not> pg_space L c) local \<and>
          list_all (\<lambda>c. c \<noteq> 64 \<and> \<not> pg_space L c) domain \<and>
          46 \<in> set (butlast (tl domain)))"

definition email_norm :: "lib \<Rightarrow> ustr \<Rightarrow> ustr" where
  "email_norm L e = pg_lower L (btrim e)"

definition users_check :: "lib \<Rightarrow> user_row \<Rightarrow> bool" where
  "users_check L r \<longleftrightarrow>
     (case u_email r of None \<Rightarrow> True | Some e \<Rightarrow> length e \<le> 254 \<and> email_matches_check L e) \<and>
     btrim (u_display_name r) \<noteq> [] \<and> length (u_display_name r) \<le> 120 \<and>
     u_status r \<in> {lit ''active'', lit ''suspended'', lit ''deleted''} \<and>
     u_account_type r \<in> {lit ''homeowner'', lit ''contractor''}"

definition credentials_check :: "credential_row \<Rightarrow> bool" where
  "credentials_check r \<longleftrightarrow>
     starts_with (lit ''$argon2id$'') (c_password_hash r) \<and> 0 \<le> c_failed_attempts r"

definition sessions_check :: "session_row \<Rightarrow> bool" where
  "sessions_check r \<longleftrightarrow>
     length (s_token_hash r) = 32 \<and>
     (case s_ip_hash r of None \<Rightarrow> True | Some h \<Rightarrow> length h = 32) \<and>
     (case s_user_agent r of None \<Rightarrow> True | Some a \<Rightarrow> length a \<le> 512) \<and>
     s_created_at r < s_absolute_expires_at r \<and>
     s_idle_expires_at r \<le> s_absolute_expires_at r \<and>
     (s_revoked_at r = None) = (s_revoked_reason r = None)"

definition auth_tokens_check :: "token_row \<Rightarrow> bool" where
  "auth_tokens_check r \<longleftrightarrow> length (t_token_hash r) = 32 \<and> 0 \<le> t_attempts r"

definition oauth_check :: "oauth_row \<Rightarrow> bool" where
  "oauth_check r \<longleftrightarrow>
     btrim (o_subject r) \<noteq> [] \<and> length (o_subject r) \<le> 255 \<and>
     (case o_firebase_uid r of None \<Rightarrow> True | Some u \<Rightarrow> length u \<le> 128) \<and>
     (case o_email_at_link r of None \<Rightarrow> True | Some e \<Rightarrow> length e \<le> 254)"

definition opt_len_le :: "nat \<Rightarrow> ustr option \<Rightarrow> bool" where
  "opt_len_le n v = (case v of None \<Rightarrow> True | Some s \<Rightarrow> length s \<le> n)"

definition outbox_check :: "outbox_row \<Rightarrow> bool" where
  "outbox_check r \<longleftrightarrow>
     length (m_recipient r) \<le> 320 \<and> length (m_subject r) \<le> 300 \<and>
     length (m_body_text r) \<le> 100000 \<and> opt_len_le 200000 (m_body_html r) \<and>
     opt_len_le 2000 (m_unsubscribe_url r) \<and> 0 \<le> m_attempts r \<and>
     opt_len_le 120 (m_locked_by r) \<and> opt_len_le 200 (m_provider_message_id r) \<and>
     opt_len_le 2000 (m_last_error r)"

definition audit_check :: "audit_row \<Rightarrow> bool" where
  "audit_check r \<longleftrightarrow>
     btrim (a_action r) \<noteq> [] \<and> length (a_action r) \<le> 100 \<and> btrim (a_subject_table r) \<noteq> [] \<and>
     opt_len_le 64 (a_request_id r) \<and>
     (case a_ip_hash r of None \<Rightarrow> True | Some h \<Rightarrow> length h = 32)"

definition geocode_check :: "geocode_row \<Rightarrow> bool" where
  "geocode_check r \<longleftrightarrow>
     length (g_address_hash r) = 32 \<and> 0 \<le> g_attempts r \<and> opt_len_le 120 (g_locked_by r) \<and>
     opt_len_le 60 (g_provider r) \<and> opt_len_le 2000 (g_last_error r)"

definition rate_check :: "rate_row \<Rightarrow> bool" where
  "rate_check r \<longleftrightarrow>
     length (k_bucket r) = 32 \<and> 0 \<le> k_count r \<and> k_window_start r < k_expires_at r"

text \<open>PostgreSQL's \<open>integer\<close> is 32 bits wide and an increment past it is an error.\<close>

definition pg_int_ok :: "int \<Rightarrow> bool" where
  "pg_int_ok n \<longleftrightarrow> - (2 ^ 31) \<le> n \<and> n < 2 ^ 31"

subsection \<open>The invariant of the tables\<close>

definition user_norms :: "lib \<Rightarrow> user_row list \<Rightarrow> ustr list" where
  "user_norms L us = List.map_filter (\<lambda>u. map_option (email_norm L) (u_email u)) us"

definition users_ok :: "lib \<Rightarrow> db \<Rightarrow> bool" where
  "users_ok L d \<longleftrightarrow>
     distinct (map u_id (users d)) \<and> distinct (user_norms L (users d)) \<and>
     list_all (users_check L) (users d)"

definition credentials_ok :: "db \<Rightarrow> bool" where
  "credentials_ok d \<longleftrightarrow>
     distinct (map c_user_id (credentials d)) \<and> list_all credentials_check (credentials d) \<and>
     list_all (\<lambda>r. user_exists d (c_user_id r)) (credentials d)"

definition sessions_ok :: "db \<Rightarrow> bool" where
  "sessions_ok d \<longleftrightarrow>
     distinct (map s_id (sessions d)) \<and> distinct (map s_token_hash (sessions d)) \<and>
     list_all sessions_check (sessions d) \<and>
     list_all (\<lambda>r. user_exists d (s_user_id r)) (sessions d)"

definition open_token :: "uuid \<Rightarrow> purpose \<Rightarrow> token_row \<Rightarrow> bool" where
  "open_token uid p r \<longleftrightarrow> t_user_id r = uid \<and> t_purpose r = p \<and> t_consumed_at r = None"

definition tokens_ok :: "db \<Rightarrow> bool" where
  "tokens_ok d \<longleftrightarrow>
     distinct (map t_id (auth_tokens d)) \<and> distinct (map t_token_hash (auth_tokens d)) \<and>
     list_all auth_tokens_check (auth_tokens d) \<and>
     list_all (\<lambda>r. user_exists d (t_user_id r)) (auth_tokens d)"

text \<open>At most one token is open per account and purpose: promised by \<open>auth_tokens::issue\<close>.\<close>

definition one_open_token :: "db \<Rightarrow> bool" where
  "one_open_token d \<longleftrightarrow> (\<forall>uid p. length (filter (open_token uid p) (auth_tokens d)) \<le> 1)"

definition oauth_ok :: "db \<Rightarrow> bool" where
  "oauth_ok d \<longleftrightarrow>
     distinct (map (\<lambda>r. (o_provider r, o_subject r)) (oauth_identities d)) \<and>
     distinct (map (\<lambda>r. (o_user_id r, o_provider r)) (oauth_identities d)) \<and>
     list_all oauth_check (oauth_identities d) \<and>
     list_all (\<lambda>r. user_exists d (o_user_id r)) (oauth_identities d)"

definition db_ok :: "lib \<Rightarrow> db \<Rightarrow> bool" where
  "db_ok L d \<longleftrightarrow>
     users_ok L d \<and> credentials_ok d \<and> sessions_ok d \<and> tokens_ok d \<and> one_open_token d \<and>
     oauth_ok d"

lemmas ok_defs =
  users_ok_def credentials_ok_def sessions_ok_def tokens_ok_def one_open_token_def oauth_ok_def

definition empty_db :: db where
  "empty_db = \<lparr>users = [], credentials = [], sessions = [], auth_tokens = [],
     oauth_identities = [], user_roles = [], email_outbox = [], audit_log = [],
     geocode_queue = [], contractors = [], license_records = [], contractor_claims = [],
     verification_checks = [], jobs = [], job_photos = [], contractor_photos = [], conversations = [],
     conversation_participants = [], messages = [], user_blocks = [], message_reports = [],
     trades = [], zctas = [], trade_aliases = [], contractor_trades = [], service_areas = [],
     homeowner_profiles = [], saved_searches = [], search_events = [], license_import_runs = [],
     license_record_versions = []\<rparr>"

lemma empty_db_ok: "db_ok L empty_db"
  by (simp add: db_ok_def ok_defs empty_db_def user_norms_def map_filter_def)

text \<open>Each part of the invariant reads its own table and the user ids only.\<close>

lemma user_exists_frame [simp]:
  "user_exists (d\<lparr>credentials := x1\<rparr>) u = user_exists d u"
  "user_exists (d\<lparr>sessions := x2\<rparr>) u = user_exists d u"
  "user_exists (d\<lparr>auth_tokens := x3\<rparr>) u = user_exists d u"
  "user_exists (d\<lparr>oauth_identities := x4\<rparr>) u = user_exists d u"
  "user_exists (d\<lparr>user_roles := x5\<rparr>) u = user_exists d u"
  "user_exists (d\<lparr>email_outbox := x6\<rparr>) u = user_exists d u"
  "user_exists (d\<lparr>audit_log := x7\<rparr>) u = user_exists d u"
  "user_exists (d\<lparr>geocode_queue := x8\<rparr>) u = user_exists d u"
  "user_exists (d\<lparr>contractors := y0\<rparr>) u = user_exists d u"
  "user_exists (d\<lparr>contractor_claims := y1\<rparr>) u = user_exists d u"
  "user_exists (d\<lparr>verification_checks := y2\<rparr>) u = user_exists d u"
  "user_exists (d\<lparr>jobs := y3\<rparr>) u = user_exists d u"
  "user_exists (d\<lparr>job_photos := y4\<rparr>) u = user_exists d u"
  "user_exists (d\<lparr>contractor_photos := y5\<rparr>) u = user_exists d u"
  "user_exists (d\<lparr>conversations := y6\<rparr>) u = user_exists d u"
  "user_exists (d\<lparr>conversation_participants := y7\<rparr>) u = user_exists d u"
  "user_exists (d\<lparr>messages := y8\<rparr>) u = user_exists d u"
  "user_exists (d\<lparr>user_blocks := y9\<rparr>) u = user_exists d u"
  "user_exists (d\<lparr>message_reports := y10\<rparr>) u = user_exists d u"
  by (simp_all add: user_exists_def)

lemma db_ok_outbox [simp]: "db_ok L (d\<lparr>email_outbox := x\<rparr>) = db_ok L d"
  by (simp add: db_ok_def ok_defs)

lemma db_ok_audit [simp]: "db_ok L (d\<lparr>audit_log := x\<rparr>) = db_ok L d"
  by (simp add: db_ok_def ok_defs)

lemma db_ok_geocode [simp]: "db_ok L (d\<lparr>geocode_queue := x\<rparr>) = db_ok L d"
  by (simp add: db_ok_def ok_defs)

lemma db_ok_roles [simp]: "db_ok L (d\<lparr>user_roles := x\<rparr>) = db_ok L d"
  by (simp add: db_ok_def ok_defs)

lemma db_ok_market [simp]:
  "db_ok L (d\<lparr>contractors := y0\<rparr>) = db_ok L d"
  "db_ok L (d\<lparr>contractor_claims := y1\<rparr>) = db_ok L d"
  "db_ok L (d\<lparr>verification_checks := y2\<rparr>) = db_ok L d"
  "db_ok L (d\<lparr>jobs := y3\<rparr>) = db_ok L d"
  "db_ok L (d\<lparr>job_photos := y4\<rparr>) = db_ok L d"
  "db_ok L (d\<lparr>contractor_photos := y5\<rparr>) = db_ok L d"
  "db_ok L (d\<lparr>conversations := y6\<rparr>) = db_ok L d"
  "db_ok L (d\<lparr>conversation_participants := y7\<rparr>) = db_ok L d"
  "db_ok L (d\<lparr>messages := y8\<rparr>) = db_ok L d"
  "db_ok L (d\<lparr>user_blocks := y9\<rparr>) = db_ok L d"
  "db_ok L (d\<lparr>message_reports := y10\<rparr>) = db_ok L d"
  by (simp_all add: db_ok_def ok_defs)

lemma db_okD:
  assumes "db_ok L d"
  shows "users_ok L d" "credentials_ok d" "sessions_ok d" "tokens_ok d" "one_open_token d" "oauth_ok d"
  using assms by (simp_all add: db_ok_def)

lemma db_ok_credentialsI:
  "db_ok L d \<Longrightarrow> credentials_ok (d\<lparr>credentials := x\<rparr>) \<Longrightarrow> db_ok L (d\<lparr>credentials := x\<rparr>)"
  by (simp add: db_ok_def ok_defs)

lemma db_ok_sessionsI:
  "db_ok L d \<Longrightarrow> sessions_ok (d\<lparr>sessions := x\<rparr>) \<Longrightarrow> db_ok L (d\<lparr>sessions := x\<rparr>)"
  by (simp add: db_ok_def ok_defs)

lemma db_ok_tokensI:
  "db_ok L d \<Longrightarrow> tokens_ok (d\<lparr>auth_tokens := x\<rparr>) \<Longrightarrow> one_open_token (d\<lparr>auth_tokens := x\<rparr>) \<Longrightarrow>
   db_ok L (d\<lparr>auth_tokens := x\<rparr>)"
  by (simp add: db_ok_def ok_defs)

lemma db_ok_oauthI:
  "db_ok L d \<Longrightarrow> oauth_ok (d\<lparr>oauth_identities := x\<rparr>) \<Longrightarrow> db_ok L (d\<lparr>oauth_identities := x\<rparr>)"
  by (simp add: db_ok_def ok_defs)

lemma db_ok_users:
  assumes "db_ok L d" and "users_ok L (d\<lparr>users := us\<rparr>)"
    and "u_id ` set (users d) \<subseteq> u_id ` set us"
  shows "db_ok L (d\<lparr>users := us\<rparr>)"
proof -
  from assms(3) have "user_exists d u \<Longrightarrow> user_exists (d\<lparr>users := us\<rparr>) u" for u
    by (auto simp: user_exists_def)
  with assms(1,2) show ?thesis
    by (auto simp: db_ok_def ok_defs list_all_iff)
qed

end
