(* ===== verification/Concrete.thy ===== *)
theory Concrete
  imports Db_Constraints
begin

text \<open>
  A concrete instance of the third-party functions and a concrete world, for the theorems that
  evaluate an operation on an input: every hypothesis the development puts on \<open>lib\<close> holds of
  \<open>toy_lib\<close>. Digests are 32 bytes long, text encodings use letters only and can be read back.
\<close>

definition fit32 :: "bytes \<Rightarrow> bytes" where
  "fit32 xs = take 32 (xs @ replicate 32 0)"

definition toy_digit :: "byte \<Rightarrow> ustr" where
  "toy_digit b = [97 + unat b div 16, 97 + unat b mod 16]"

definition toy_encode :: "bytes \<Rightarrow> ustr" where
  "toy_encode xs = concat (map toy_digit xs)"

fun toy_decode :: "ustr \<Rightarrow> bytes option" where
  "toy_decode [] = Some []"
| "toy_decode [_] = None"
| "toy_decode (a # b # s) =
     (if 97 \<le> a \<and> a < 113 \<and> 97 \<le> b \<and> b < 113
      then map_option (\<lambda>xs. of_nat (16 * (a - 97) + (b - 97)) # xs) (toy_decode s) else None)"

definition toy_lib :: lib where
  "toy_lib = \<lparr>
     hmac_sha256 = (\<lambda>k m. fit32 (m @ k)),
     sha256 = fit32,
     b64url_encode = toy_encode,
     b64url_decode = toy_decode,
     uuid_to_string = (\<lambda>u. show_nat (unat u)),
     uuid_parse = (\<lambda>s. map_option of_nat (parse_digits s)),
     to_lowercase = to_ascii_lowercase,
     pg_lower = to_ascii_lowercase,
     pg_space = (\<lambda>c. c = 32 \<or> 9 \<le> c \<and> c \<le> 13),
     argon2_hash = (\<lambda>pw nonce. Inr (lit ''$argon2id$'' @ map unat pw)),
     phc_error = (\<lambda>h. None),
     argon2_verify = (\<lambda>pw h. Inr (h = lit ''$argon2id$'' @ map unat pw)),
     phc_params = (\<lambda>h. Some (19456, 2, 1))\<rparr>"

text \<open>A world in which no statement fails and nothing is random.\<close>

definition calm_world :: "db \<Rightarrow> time \<Rightarrow> world" where
  "calm_world d now = \<lparr>w_db = d, w_rates = [], w_clock = now, w_fault = (\<lambda>_. None), w_calls = 0,
     w_ids = (\<lambda>n. 100 + of_nat n), w_next_id = 0, w_rng = (\<lambda>n. Some (\<lambda>i. of_nat (n + i))), w_draws = 0\<rparr>"

text \<open>A listing of the register that nobody has claimed.\<close>

definition bare_listing :: "uuid \<Rightarrow> contractor_row" where
  "bare_listing i = \<lparr>ct_id = i, ct_license_record_id = None,
     ct_display_name = lit ''Acme Roofing'', ct_slug = lit ''acme-'' @ show_nat (unat i), ct_region_id = None,
     ct_service_radius_m = 40234, ct_postal_code = None, ct_claimed_by = None,
     ct_claimed_at = None, ct_accepts_dm = False, ct_bio = None, ct_website_url = None, ct_public_phone = None,
     ct_address_visibility = lit ''public'', ct_precise_point = None, ct_public_point = None,
     ct_public_point_source = NoPoint, ct_owner_line1 = None, ct_owner_city = None, ct_owner_state = None,
     ct_owner_postal_code = None, ct_google_review_url = None, ct_yelp_url = None, ct_photo_key = None,
     ct_photo_width = None, ct_photo_height = None, ct_verified = False, ct_verified_at = None,
     ct_verification_reason = None\<rparr>"

lemma bare_listing_id [simp]: "ct_id (bare_listing i) = i"
  by (simp add: bare_listing_def)

lemma calm_world_simps [simp]:
  "w_db (calm_world d now) = d" "w_rates (calm_world d now) = []"
  "w_clock (calm_world d now) = now" "w_fault (calm_world d now) = (\<lambda>_. None)"
  "w_calls (calm_world d now) = 0" "w_ids (calm_world d now) n = 100 + of_nat n"
  "w_next_id (calm_world d now) = 0" "w_rng (calm_world d now) k = Some (\<lambda>i. of_nat (k + i))"
  "w_draws (calm_world d now) = 0"
  by (simp_all add: calm_world_def)

lemma toy_lib_simps [simp]:
  "hmac_sha256 toy_lib k m = fit32 (m @ k)" "sha256 toy_lib = fit32"
  "b64url_encode toy_lib = toy_encode" "b64url_decode toy_lib = toy_decode"
  "uuid_to_string toy_lib u = show_nat (unat u)"
  "uuid_parse toy_lib s = map_option of_nat (parse_digits s)"
  "to_lowercase toy_lib = to_ascii_lowercase" "pg_lower toy_lib = to_ascii_lowercase"
  "pg_space toy_lib c = (c = 32 \<or> 9 \<le> c \<and> c \<le> 13)"
  "argon2_hash toy_lib pw nonce = Inr (lit ''$argon2id$'' @ map unat pw)"
  "phc_error toy_lib h = None"
  "argon2_verify toy_lib pw h = Inr (h = lit ''$argon2id$'' @ map unat pw)"
  "phc_params toy_lib h = Some (19456, 2, 1)"
  by (simp_all add: toy_lib_def)

lemma length_fit32 [simp]: "length (fit32 xs) = 32"
  by (simp add: fit32_def)

lemma toy_decode_encode: "toy_decode (toy_encode xs) = Some xs"
proof (induction xs)
  case (Cons b xs)
  have "unat b < 256" using unsigned_less [of b] by simp
  then have "unat b div 16 < 16" by (simp add: less_mult_imp_div_less)
  with Cons show ?case by (simp add: toy_encode_def toy_digit_def)
qed (simp add: toy_encode_def)

lemma toy_encode_letters: "c \<in> set (toy_encode xs) \<Longrightarrow> 97 \<le> c \<and> c < 113"
proof -
  assume "c \<in> set (toy_encode xs)"
  then obtain b where b: "c \<in> set (toy_digit b)" by (auto simp: toy_encode_def)
  have "unat b < 256" using unsigned_less [of b] by simp
  then have "unat b div 16 < 16" by (simp add: less_mult_imp_div_less)
  with b show ?thesis by (auto simp: toy_digit_def)
qed

text \<open>
  The documented behaviour of the third-party functions the properties rely on: SHA-256 and
  HMAC-SHA-256 give 32 bytes; unpadded URL-safe base64 and the hyphenated form of a UUID can be
  read back and use letters, digits, \<open>-\<close> and \<open>_\<close> only.
\<close>

definition url_safe :: "nat \<Rightarrow> bool" where
  "url_safe c \<longleftrightarrow> (97 \<le> c \<and> c \<le> 122) \<or> (65 \<le> c \<and> c \<le> 90) \<or> (48 \<le> c \<and> c \<le> 57) \<or> c = 45 \<or> c = 95"

definition lib_ok :: "lib \<Rightarrow> bool" where
  "lib_ok L \<longleftrightarrow>
     (\<forall>k m. length (hmac_sha256 L k m) = 32) \<and> (\<forall>m. length (sha256 L m) = 32) \<and>
     (\<forall>b. b64url_decode L (b64url_encode L b) = Some b) \<and>
     (\<forall>b. list_all url_safe (b64url_encode L b)) \<and>
     (\<forall>u. uuid_parse L (uuid_to_string L u) = Some u) \<and>
     (\<forall>u. list_all url_safe (uuid_to_string L u))"

lemma lib_okD:
  assumes "lib_ok L"
  shows "length (hmac_sha256 L k m) = 32" "length (sha256 L m) = 32"
    "b64url_decode L (b64url_encode L b) = Some b" "list_all url_safe (b64url_encode L b)"
    "uuid_parse L (uuid_to_string L u) = Some u" "list_all url_safe (uuid_to_string L u)"
  using assms by (simp_all add: lib_ok_def)

lemma toy_lib_ok: "lib_ok toy_lib"
  using toy_encode_letters set_show_nat
  by (fastforce simp: lib_ok_def toy_decode_encode parse_digits_show_nat list_all_iff url_safe_def)

text \<open>No other request runs.\<close>

definition no_others :: env where
  "no_others k w = w"

lemma after_no_others: "after_others no_others k op w = op w"
  by (simp add: after_others_def seq_def bind_def interfere_def no_others_def)

lemma no_others_alone: "after_others no_others k f = f"
  by (rule ext) (simp add: after_no_others)

end
