(* ===== verification/Repo_Users.thy ===== *)
theory Repo_Users
  imports Concrete "HOL-Library.List_Lexorder"
begin

text \<open>
  \<open>cm-db/src/repo/users.rs\<close>: accounts and roles. Reading back a row parses its status and
  account type; inserting and changing an address are arbitrated by the unique index on the
  normalised address.
\<close>

record user =
  usr_id :: uuid
  usr_email :: "ustr option"
  usr_display_name :: ustr
  usr_status :: user_status
  usr_account_type :: account_type
  usr_email_verified_at :: "time option"
  usr_created_at :: time

definition user_status_parse :: "ustr \<Rightarrow> user_status res" where
  "user_status_parse value =
     (case find (\<lambda>s. user_status_str s = value) [Active, Suspended, Deleted] of
        Some s \<Rightarrow> Inr s
      | None \<Rightarrow> Inl (Internal (lit ''unknown user status in database: '' @ value)))"

definition can_authenticate :: "user_status \<Rightarrow> bool" where
  "can_authenticate s \<longleftrightarrow> s = Active"

definition account_type_parse_request :: "ustr \<Rightarrow> account_type res" where
  "account_type_parse_request value =
     (case find (\<lambda>k. account_type_str k = value) [Homeowner, Contractor] of
        Some k \<Rightarrow> Inr k
      | None \<Rightarrow> Inl (Invalid (lit ''Account type must be one of: '' @
            account_type_str Homeowner @ lit '', '' @ account_type_str Contractor @ lit ''.'')))"

definition account_type_parse :: "ustr \<Rightarrow> account_type res" where
  "account_type_parse value =
     (case find (\<lambda>k. account_type_str k = value) [Homeowner, Contractor] of
        Some k \<Rightarrow> Inr k
      | None \<Rightarrow> Inl (Internal (lit ''unknown account type in database: '' @ value)))"

definition may_claim_a_listing :: "account_type \<Rightarrow> bool" where
  "may_claim_a_listing k \<longleftrightarrow> k = Contractor"

definition may_hire :: "account_type \<Rightarrow> bool" where
  "may_hire k \<longleftrightarrow> k = Homeowner"

definition role_parse :: "ustr \<Rightarrow> role option" where
  "role_parse value = find (\<lambda>r. role_str r = value) [RHomeowner, RContractor, RModerator, RAdmin]"

text \<open>\<open>TryFrom<UserRow> for User\<close>.\<close>

definition user_of_row :: "user_row \<Rightarrow> user res" where
  "user_of_row r =
     (case user_status_parse (u_status r) of
        Inl e \<Rightarrow> Inl e
      | Inr st \<Rightarrow>
          (case account_type_parse (u_account_type r) of
             Inl e \<Rightarrow> Inl e
           | Inr k \<Rightarrow>
               Inr \<lparr>usr_id = u_id r, usr_email = u_email r, usr_display_name = u_display_name r,
                    usr_status = st, usr_account_type = k,
                    usr_email_verified_at = u_email_verified_at r,
                    usr_created_at = u_created_at r\<rparr>))"

definition email_taken :: "lib \<Rightarrow> ustr option \<Rightarrow> user_row list \<Rightarrow> bool" where
  "email_taken L email us =
     (case email of None \<Rightarrow> False | Some e \<Rightarrow> email_norm L e \<in> set (user_norms L us))"

definition new_user_row :: "time \<Rightarrow> uuid \<Rightarrow> ustr option \<Rightarrow> ustr \<Rightarrow> account_type \<Rightarrow> user_row" where
  "new_user_row now i email display_name k =
     \<lparr>u_id = i, u_email = email, u_display_name = display_name, u_status = lit ''active'',
      u_account_type = account_type_str k, u_email_verified_at = None, u_created_at = now\<rparr>"

definition users_insert ::
  "lib \<Rightarrow> uuid \<Rightarrow> ustr option \<Rightarrow> ustr \<Rightarrow> account_type \<Rightarrow> user m" where
  "users_insert L i email display_name k =
     bind (sql (\<lambda>now d.
       let row = new_user_row now i email display_name k in
       if \<not> users_check L row then Inl (internal ''check constraint of users'')
       else if user_exists d i then Inl (internal ''users_pkey'')
       else if email_taken L email (users d) then
         Inl (conflict ''That email address is already registered.'')
       else Inr (row, d\<lparr>users := users d @ [row]\<rparr>)))
     (\<lambda>row. of_res (user_of_row row))"

definition set_user :: "uuid \<Rightarrow> (user_row \<Rightarrow> user_row) \<Rightarrow> db \<Rightarrow> db" where
  "set_user i f d = d\<lparr>users := map (\<lambda>r. if u_id r = i then f r else r) (users d)\<rparr>"

definition users_update_email :: "lib \<Rightarrow> uuid \<Rightarrow> ustr \<Rightarrow> user m" where
  "users_update_email L i email =
     bind (sql (\<lambda>now d.
       case find (\<lambda>r. u_id r = i) (users d) of
         None \<Rightarrow> Inl (internal ''no rows returned'')
       | Some r \<Rightarrow>
           let row = r\<lparr>u_email := Some email, u_email_verified_at := Some now\<rparr> in
           if \<not> users_check L row then Inl (internal ''check constraint of users'')
           else if email_taken L (Some email) (filter (\<lambda>x. u_id x \<noteq> i) (users d)) then
             Inl (conflict ''That email address is already registered.'')
           else Inr (row, set_user i (\<lambda>_. row) d)))
     (\<lambda>row. of_res (user_of_row row))"

definition opt_user :: "user_row option \<Rightarrow> user option res" where
  "opt_user r =
     (case r of
        None \<Rightarrow> Inr None
      | Some row \<Rightarrow> (case user_of_row row of Inl e \<Rightarrow> Inl e | Inr u \<Rightarrow> Inr (Some u)))"

definition users_find_by_email :: "lib \<Rightarrow> ustr \<Rightarrow> user option m" where
  "users_find_by_email L email =
     bind (query (\<lambda>now d.
       find (\<lambda>r. case u_email r of None \<Rightarrow> False | Some e \<Rightarrow> email_norm L e = email_norm L email)
         (users d)))
     (\<lambda>row. of_res (opt_user row))"

definition users_find_by_id :: "uuid \<Rightarrow> user option m" where
  "users_find_by_id i =
     bind (query (\<lambda>now d. find (\<lambda>r. u_id r = i) (users d))) (\<lambda>row. of_res (opt_user row))"

definition users_mark_email_verified :: "uuid \<Rightarrow> unit m" where
  "users_mark_email_verified i =
     execute (\<lambda>now. set_user i (\<lambda>r.
       if u_email_verified_at r = None then r\<lparr>u_email_verified_at := Some now\<rparr> else r))"

fun parse_roles :: "ustr list \<Rightarrow> role list res" where
  "parse_roles [] = Inr []"
| "parse_roles (n # ns) =
     (case role_parse n of
        None \<Rightarrow> Inl (Internal (lit ''unknown role in database: '' @ n))
      | Some r \<Rightarrow> (case parse_roles ns of Inl e \<Rightarrow> Inl e | Inr rs \<Rightarrow> Inr (r # rs)))"

definition users_roles :: "uuid \<Rightarrow> role list m" where
  "users_roles i =
     bind (query (\<lambda>now d. sort (map r_role (filter (\<lambda>r. r_user_id r = i) (user_roles d)))))
       (\<lambda>names. of_res (parse_roles names))"

definition has_role_row :: "db \<Rightarrow> uuid \<Rightarrow> role \<Rightarrow> bool" where
  "has_role_row d i rl \<longleftrightarrow> (\<exists>r \<in> set (user_roles d). r_user_id r = i \<and> r_role r = role_str rl)"

definition users_grant_role :: "uuid \<Rightarrow> role \<Rightarrow> uuid option \<Rightarrow> bool m" where
  "users_grant_role i rl granted_by =
     sql (\<lambda>now d.
       if has_role_row d i rl then Inr (False, d)
       else if \<not> user_exists d i \<or> (case granted_by of None \<Rightarrow> False | Some g \<Rightarrow> \<not> user_exists d g) then
         Inl (internal ''user_roles foreign key'')
       else Inr (True, d\<lparr>user_roles := user_roles d @
              [\<lparr>r_user_id = i, r_role = role_str rl, r_granted_by = granted_by\<rparr>]\<rparr>))"

definition users_revoke_role :: "uuid \<Rightarrow> role \<Rightarrow> bool m" where
  "users_revoke_role i rl =
     sql (\<lambda>now d.
       Inr (has_role_row d i rl,
            d\<lparr>user_roles := filter (\<lambda>r. \<not> (r_user_id r = i \<and> r_role r = role_str rl)) (user_roles d)\<rparr>))"

subsection \<open>Parsing\<close>

lemma user_status_parse_str [simp]: "user_status_parse (user_status_str s) = Inr s"
  by (cases s) (simp_all add: user_status_parse_def lit_def)

lemma account_type_parse_str [simp]: "account_type_parse (account_type_str k) = Inr k"
  by (cases k) (simp_all add: account_type_parse_def lit_def)

lemma role_parse_str [simp]: "role_parse (role_str r) = Some r"
  by (cases r) (simp_all add: role_parse_def lit_def)

lemma user_of_row_id: "user_of_row r = Inr u \<Longrightarrow> usr_id u = u_id r \<and> usr_email u = u_email r"
  by (auto simp: user_of_row_def split: sum.splits)

lemma parse_statusD: "user_status_parse v = Inr s \<Longrightarrow> user_status_str s = v"
  by (auto simp: user_status_parse_def simp del: find.simps split: option.splits dest!: find_Some_in)

text \<open>A row that passes the constraints of its table always parses.\<close>

lemma user_of_row_total: "users_check L r \<Longrightarrow> \<exists>u. user_of_row r = Inr u"
proof -
  assume c: "users_check L r"
  then obtain s where "u_status r = user_status_str s"
    unfolding users_check_def by (metis insertE singletonD user_status_str.simps)
  moreover from c obtain k where "u_account_type r = account_type_str k"
    unfolding users_check_def by (metis insertE singletonD account_type_str.simps)
  ultimately show ?thesis by (simp add: user_of_row_def)
qed

subsection \<open>What the reads return\<close>

lemma opt_user_Some_iff:
  "opt_user r = Inr (Some u) \<longleftrightarrow> (\<exists>row. r = Some row \<and> user_of_row row = Inr u)"
  by (auto simp: opt_user_def split: option.splits sum.splits)

lemma opt_user_None_iff: "opt_user r = Inr None \<longleftrightarrow> r = None"
  by (auto simp: opt_user_def split: option.splits sum.splits)

lemma users_find_by_id_SomeD:
  "users_find_by_id i w = (Inr (Some u), w') \<Longrightarrow>
   w' = w\<lparr>w_calls := Suc (w_calls w)\<rparr> \<and> usr_id u = i \<and>
   (\<exists>r \<in> set (users (w_db w)). u_id r = i \<and> user_of_row r = Inr u)"
  by (auto simp: users_find_by_id_def run_iffs opt_user_Some_iff dest!: find_Some_in
        dest: user_of_row_id)

lemma users_find_by_id_world:
  "users_find_by_id i w = (r, w') \<Longrightarrow> w' = w\<lparr>w_calls := Suc (w_calls w)\<rparr>"
  by (cases r) (auto simp: users_find_by_id_def run_iffs)

lemma users_find_by_email_world:
  "users_find_by_email L e w = (r, w') \<Longrightarrow> w' = w\<lparr>w_calls := Suc (w_calls w)\<rparr>"
  by (cases r) (auto simp: users_find_by_email_def run_iffs)

lemma users_find_by_email_SomeD:
  "users_find_by_email L email w = (Inr (Some u), w') \<Longrightarrow>
   (\<exists>r \<in> set (users (w_db w)). user_of_row r = Inr u \<and>
      (\<exists>e. u_email r = Some e \<and> email_norm L e = email_norm L email))"
  by (auto simp: users_find_by_email_def run_iffs opt_user_Some_iff split: option.splits
        dest!: find_Some_in)

subsection \<open>Writes keep the invariant\<close>

lemma same_keys_subset: "map k ys = map k xs \<Longrightarrow> k ` set xs \<subseteq> k ` set ys"
  by (metis list.set_map order_refl)

lemma user_norms_append [simp]: "user_norms L (a @ b) = user_norms L a @ user_norms L b"
  by (simp add: user_norms_def map_filter_def)

lemma keeps_users_insert [keeps_intros]: "keeps (db_ok L) (users_insert L i e n k)"
  unfolding users_insert_def
proof (intro keeps_bind keeps_of_res keeps_sql)
  fix now d x d'
  assume ok: "db_ok L d" and run:
    "(let row = new_user_row now i e n k in
       if \<not> users_check L row then Inl (internal ''check constraint of users'')
       else if user_exists d i then Inl (internal ''users_pkey'')
       else if email_taken L e (users d) then
         Inl (conflict ''That email address is already registered.'')
       else Inr (row, d\<lparr>users := users d @ [row]\<rparr>)) = Inr (x, d')"
  let ?r = "new_user_row now i e n k"
  from run have c: "users_check L ?r" "\<not> user_exists d i" "\<not> email_taken L e (users d)"
    and d': "d' = d\<lparr>users := users d @ [?r]\<rparr>"
    by (auto simp: Let_def split: if_splits)
  have norms: "distinct (user_norms L (users d @ [?r]))"
    using ok c(3) by (auto simp: db_ok_def users_ok_def email_taken_def new_user_row_def
        user_norms_def map_filter_def split: option.splits)
  have "users_ok L d'"
    using ok c norms by (auto simp: db_ok_def users_ok_def user_exists_def d' new_user_row_def)
  then show "db_ok L d'"
    using ok unfolding d' by (intro db_ok_users) (auto simp: db_ok_def)
qed

lemma set_user_ids [simp]:
  "(\<And>r. u_id (f r) = u_id r) \<Longrightarrow> map u_id (users (set_user i f d)) = map u_id (users d)"
  by (auto simp: set_user_def comp_def)

lemma set_user_norms:
  "(\<And>r. u_email (f r) = u_email r) \<Longrightarrow>
   user_norms L (map (\<lambda>r. if u_id r = i then f r else r) us) = user_norms L us"
  by (induction us) (auto simp: user_norms_def map_filter_def)

lemma db_ok_set_user:
  assumes "db_ok L d" and "\<And>r. u_id (f r) = u_id r" and "\<And>r. u_email (f r) = u_email r"
    and "\<And>r. users_check L r \<Longrightarrow> users_check L (f r)"
  shows "db_ok L (set_user i f d)"
proof -
  let ?us = "map (\<lambda>r. if u_id r = i then f r else r) (users d)"
  have ids: "map u_id ?us = map u_id (users d)" using assms(2) by (auto simp: comp_def)
  have "distinct (map u_id ?us)"
    unfolding ids using assms(1) by (simp add: db_ok_def users_ok_def)
  then have "users_ok L (d\<lparr>users := ?us\<rparr>)"
    using assms by (auto simp: db_ok_def users_ok_def set_user_norms list_all_iff)
  moreover have "u_id ` set (users d) \<subseteq> u_id ` set ?us"
    by (rule same_keys_subset [OF ids])
  ultimately show ?thesis
    using assms(1) unfolding set_user_def by (intro db_ok_users)
qed

lemma keeps_users_mark_email_verified [keeps_intros]:
  "keeps (db_ok L) (users_mark_email_verified i)"
  unfolding users_mark_email_verified_def
  by (intro keeps_execute db_ok_set_user) (auto simp: users_check_def)

lemma keeps_users_find_by_id [keeps_intros]: "keeps P (users_find_by_id i)"
  by (simp add: users_find_by_id_def keeps_intros)

lemma keeps_users_find_by_email [keeps_intros]: "keeps P (users_find_by_email L e)"
  by (simp add: users_find_by_email_def keeps_intros)

lemma keeps_users_roles [keeps_intros]: "keeps P (users_roles i)"
  by (simp add: users_roles_def keeps_intros)

lemma keeps_users_grant_role [keeps_intros]: "keeps (db_ok L) (users_grant_role i rl g)"
  unfolding users_grant_role_def by (rule keeps_sql) (auto split: if_splits)

lemma keeps_users_revoke_role [keeps_intros]: "keeps (db_ok L) (users_revoke_role i rl)"
  unfolding users_revoke_role_def by (rule keeps_sql) auto

lemma user_norms_replace:
  assumes "distinct (map u_id us)" and "distinct (user_norms L us)"
    and "email_norm L e \<notin> set (user_norms L (filter (\<lambda>x. u_id x \<noteq> i) us))"
    and "u_email row = Some e"
  shows "distinct (user_norms L (map (\<lambda>r. if u_id r = i then row else r) us))"
  using assms
proof (induction us)
  case Nil
  then show ?case by (simp add: user_norms_def map_filter_def)
next
  case (Cons u us)
  have sub: "set (user_norms L (map (\<lambda>r. if u_id r = i then row else r) us)) \<subseteq>
      insert (email_norm L e) (set (user_norms L us))"
    using Cons.prems(4) by (auto simp: user_norms_def map_filter_def split: if_splits)
  have same: "u_id u = i \<Longrightarrow> map (\<lambda>r. if u_id r = i then row else r) us = us"
    using Cons.prems(1) by (intro map_idI) (auto simp: image_iff)
  have filt: "u_id u = i \<Longrightarrow> filter (\<lambda>x. u_id x \<noteq> i) us = us"
    using Cons.prems(1) by (intro filter_True) (auto simp: image_iff)
  show ?case
  proof (cases "u_id u = i")
    case True
    with Cons.prems same [OF True] filt [OF True] show ?thesis
      by (auto simp: user_norms_def map_filter_def split: if_splits option.splits)
  next
    case False
    with Cons sub show ?thesis
      by (auto simp: user_norms_def map_filter_def split: if_splits option.splits)
  qed
qed

lemma keeps_users_update_email [keeps_intros]: "keeps (db_ok L) (users_update_email L i e)"
  unfolding users_update_email_def
proof (intro keeps_bind keeps_of_res keeps_sql)
  fix now d x d'
  assume ok: "db_ok L d" and run: "(case find (\<lambda>r. u_id r = i) (users d) of
         None \<Rightarrow> Inl (internal ''no rows returned'')
       | Some r \<Rightarrow>
           let row = r\<lparr>u_email := Some e, u_email_verified_at := Some now\<rparr> in
           if \<not> users_check L row then Inl (internal ''check constraint of users'')
           else if email_taken L (Some e) (filter (\<lambda>x. u_id x \<noteq> i) (users d)) then
             Inl (conflict ''That email address is already registered.'')
           else Inr (row, set_user i (\<lambda>_. row) d)) = Inr (x, d')"
  then obtain r where r: "find (\<lambda>r. u_id r = i) (users d) = Some r"
    and c: "users_check L x" and free: "\<not> email_taken L (Some e) (filter (\<lambda>y. u_id y \<noteq> i) (users d))"
    and x: "x = r\<lparr>u_email := Some e, u_email_verified_at := Some now\<rparr>"
    and d': "d' = set_user i (\<lambda>_. x) d"
    by (auto simp: Let_def split: option.splits if_splits)
  let ?us = "map (\<lambda>r. if u_id r = i then x else r) (users d)"
  from find_Some_in [OF r] have ids: "map u_id ?us = map u_id (users d)" by (auto simp: x comp_def)
  have "distinct (user_norms L ?us)"
    using ok free by (intro user_norms_replace [where e = e])
      (auto simp: db_ok_def users_ok_def email_taken_def x)
  moreover have "distinct (map u_id ?us)"
    unfolding ids using ok by (simp add: db_ok_def users_ok_def)
  ultimately have "users_ok L (d\<lparr>users := ?us\<rparr>)"
    using ok c by (auto simp: db_ok_def users_ok_def list_all_iff)
  moreover have "u_id ` set (users d) \<subseteq> u_id ` set ?us"
    by (rule same_keys_subset [OF ids])
  ultimately show "db_ok L d'"
    using ok unfolding d' set_user_def by (intro db_ok_users)
qed

end
