(* ===== verification/Repo_Passwords.thy ===== *)
theory Repo_Passwords
  imports Repo_Users
begin

text \<open>
  \<open>cm-db/src/repo/passwords.rs\<close>: password credentials and the lockout counter. The two
  conditional updates (\<open>replace_hash\<close>, \<open>upgrade_hash\<close>) are compare-and-swaps; the locale
  \<open>compare_and_swap\<close> states what such an update promises and what follows for racing callers,
  and both updates are interpretations of it. \<open>FOR UPDATE\<close> needs no operation of its own:
  a \<open>transaction\<close> of the model is atomic.
\<close>

definition max_failed_attempts :: int where
  "max_failed_attempts = 8"

definition lockout_minutes :: int where
  "lockout_minutes = 15"

definition is_locked_at :: "credential_row \<Rightarrow> time \<Rightarrow> bool" where
  "is_locked_at c now = (case c_locked_until c of None \<Rightarrow> False | Some until \<Rightarrow> now < until)"

definition find_credential :: "uuid \<Rightarrow> db \<Rightarrow> credential_row option" where
  "find_credential i d = find (\<lambda>c. c_user_id c = i) (credentials d)"

definition set_credential :: "uuid \<Rightarrow> (credential_row \<Rightarrow> credential_row) \<Rightarrow> db \<Rightarrow> db" where
  "set_credential i f d =
     d\<lparr>credentials := map (\<lambda>c. if c_user_id c = i then f c else c) (credentials d)\<rparr>"

definition new_credential :: "time \<Rightarrow> uuid \<Rightarrow> ustr \<Rightarrow> credential_row" where
  "new_credential now i h =
     \<lparr>c_user_id = i, c_password_hash = h, c_failed_attempts = 0, c_locked_until = None,
      c_password_changed_at = now\<rparr>"

definition insert_credential :: "time \<Rightarrow> uuid \<Rightarrow> ustr \<Rightarrow> db \<Rightarrow> (unit \<times> db) res" where
  "insert_credential now i h d =
     (let row = new_credential now i h in
      if \<not> credentials_check row then Inl (internal ''check constraint of password_credentials'')
      else if \<not> user_exists d i then Inl (internal ''password_credentials foreign key'')
      else Inr ((), d\<lparr>credentials := credentials d @ [row]\<rparr>))"

definition passwords_insert :: "uuid \<Rightarrow> ustr \<Rightarrow> unit m" where
  "passwords_insert i h =
     sql (\<lambda>now d.
       if find_credential i d \<noteq> None then Inl (internal ''password_credentials_pkey'')
       else insert_credential now i h d)"

definition passwords_find :: "uuid \<Rightarrow> credential_row option m" where
  "passwords_find i = query (\<lambda>now d. find_credential i d)"

definition passwords_set_hash :: "uuid \<Rightarrow> ustr \<Rightarrow> unit m" where
  "passwords_set_hash i h =
     sql (\<lambda>now d.
       if find_credential i d = None then insert_credential now i h d
       else if \<not> starts_with (lit ''$argon2id$'') h then
         Inl (internal ''check constraint of password_credentials'')
       else Inr ((), set_credential i (\<lambda>c. c\<lparr>c_password_hash := h, c_failed_attempts := 0,
              c_locked_until := None\<rparr>) d))"

definition passwords_find_for_update :: "uuid \<Rightarrow> credential_row option m" where
  "passwords_find_for_update i = query (\<lambda>now d. find_credential i d)"

definition fail_credential :: "time \<Rightarrow> credential_row \<Rightarrow> credential_row" where
  "fail_credential now c =
     c\<lparr>c_failed_attempts := c_failed_attempts c + 1,
       c_locked_until :=
         (if max_failed_attempts \<le> c_failed_attempts c + 1
          then Some (now + minutes lockout_minutes) else c_locked_until c)\<rparr>"

definition passwords_record_failure :: "uuid \<Rightarrow> credential_row m" where
  "passwords_record_failure i =
     sql (\<lambda>now d.
       case find_credential i d of
         None \<Rightarrow> Inl (internal ''no rows returned'')
       | Some c \<Rightarrow>
           if \<not> pg_int_ok (c_failed_attempts c + 1) then Inl (internal ''integer out of range'')
           else Inr (fail_credential now c, set_credential i (fail_credential now) d))"

definition passwords_clear_failures :: "uuid \<Rightarrow> unit m" where
  "passwords_clear_failures i =
     execute (\<lambda>now. set_credential i (\<lambda>c. c\<lparr>c_failed_attempts := 0, c_locked_until := None\<rparr>))"

definition credential_matches :: "uuid \<Rightarrow> ustr \<Rightarrow> db \<Rightarrow> bool" where
  "credential_matches i expected d =
     (case find_credential i d of None \<Rightarrow> False | Some c \<Rightarrow> c_password_hash c = expected)"

definition replace_credential :: "time \<Rightarrow> ustr \<Rightarrow> credential_row \<Rightarrow> credential_row" where
  "replace_credential now h c =
     c\<lparr>c_password_hash := h, c_password_changed_at := now, c_failed_attempts := 0,
       c_locked_until := None\<rparr>"

definition replace_hash_stmt :: "uuid \<Rightarrow> ustr \<Rightarrow> ustr \<Rightarrow> time \<Rightarrow> db \<Rightarrow> (bool \<times> db) res" where
  "replace_hash_stmt i expected h now d =
     (if \<not> credential_matches i expected d then Inr (False, d)
      else if \<not> starts_with (lit ''$argon2id$'') h then
        Inl (internal ''check constraint of password_credentials'')
      else Inr (True, set_credential i (replace_credential now h) d))"

definition passwords_replace_hash :: "uuid \<Rightarrow> ustr \<Rightarrow> ustr \<Rightarrow> bool m" where
  "passwords_replace_hash i expected h = sql (replace_hash_stmt i expected h)"

definition upgrade_hash_stmt :: "uuid \<Rightarrow> ustr \<Rightarrow> ustr \<Rightarrow> time \<Rightarrow> db \<Rightarrow> (bool \<times> db) res" where
  "upgrade_hash_stmt i expected h now d =
     (if \<not> credential_matches i expected d then Inr (False, d)
      else if \<not> starts_with (lit ''$argon2id$'') h then
        Inl (internal ''check constraint of password_credentials'')
      else Inr (True, set_credential i (\<lambda>c. c\<lparr>c_password_hash := h\<rparr>) d))"

definition passwords_upgrade_hash :: "uuid \<Rightarrow> ustr \<Rightarrow> ustr \<Rightarrow> bool m" where
  "passwords_upgrade_hash i expected h = sql (upgrade_hash_stmt i expected h)"

definition current_hash :: "uuid \<Rightarrow> db \<Rightarrow> ustr option" where
  "current_hash i d = map_option c_password_hash (find_credential i d)"

subsection \<open>Reading after writing\<close>

lemma find_credential_SomeD:
  "find_credential i d = Some c \<Longrightarrow> c \<in> set (credentials d) \<and> c_user_id c = i"
  unfolding find_credential_def by (rule find_Some_in)

lemma find_map_if:
  assumes "\<And>c. k (f c) = k c"
  shows "find (\<lambda>c. k c = j) (map (\<lambda>c. if k c = i then f c else c) cs) =
         map_option (\<lambda>c. if j = i then f c else c) (find (\<lambda>c. k c = j) cs)"
  using assms by (induction cs) auto

lemma find_set_credential:
  "(\<And>c. c_user_id (f c) = c_user_id c) \<Longrightarrow>
   find_credential j (set_credential i f d) =
     map_option (\<lambda>c. if j = i then f c else c) (find_credential j d)"
  by (simp add: find_credential_def set_credential_def find_map_if)

lemma find_credential_frame [simp]:
  "find_credential i (d\<lparr>users := x1\<rparr>) = find_credential i d"
  "find_credential i (d\<lparr>sessions := x2\<rparr>) = find_credential i d"
  "find_credential i (d\<lparr>auth_tokens := x3\<rparr>) = find_credential i d"
  "find_credential i (d\<lparr>oauth_identities := x4\<rparr>) = find_credential i d"
  "find_credential i (d\<lparr>user_roles := x5\<rparr>) = find_credential i d"
  "find_credential i (d\<lparr>email_outbox := x6\<rparr>) = find_credential i d"
  "find_credential i (d\<lparr>audit_log := x7\<rparr>) = find_credential i d"
  "find_credential i (d\<lparr>geocode_queue := x8\<rparr>) = find_credential i d"
  by (simp_all add: find_credential_def)

subsection \<open>Writes keep the invariant\<close>

lemma db_ok_set_credential:
  assumes "db_ok L d" and "\<And>c. c_user_id (f c) = c_user_id c"
    and "\<And>c. credentials_check c \<Longrightarrow> credentials_check (f c)"
  shows "db_ok L (set_credential i f d)"
proof -
  let ?cs = "map (\<lambda>c. if c_user_id c = i then f c else c) (credentials d)"
  have ids: "map c_user_id ?cs = map c_user_id (credentials d)" using assms(2) by (auto simp: comp_def)
  have "distinct (map c_user_id ?cs)"
    unfolding ids using assms(1) by (simp add: db_ok_def credentials_ok_def)
  then have "credentials_ok (d\<lparr>credentials := ?cs\<rparr>)"
    using assms by (auto simp: db_ok_def credentials_ok_def list_all_iff)
  then show ?thesis
    using assms(1) unfolding set_credential_def by (intro db_ok_credentialsI)
qed

lemma db_ok_insert_credential:
  "db_ok L d \<Longrightarrow> find_credential i d = None \<Longrightarrow> insert_credential now i h d = Inr (x, d') \<Longrightarrow> db_ok L d'"
  by (frule db_okD(2))
    (auto simp: insert_credential_def Let_def credentials_ok_def new_credential_def
       find_credential_def find_None_all split: if_splits intro!: db_ok_credentialsI)

lemma keeps_passwords_insert [keeps_intros]: "keeps (db_ok L) (passwords_insert i h)"
  unfolding passwords_insert_def
  by (rule keeps_sql) (auto split: if_splits intro: db_ok_insert_credential)

lemma keeps_passwords_find [keeps_intros]:
  "keeps P (passwords_find i)" "keeps P (passwords_find_for_update i)"
  by (simp_all add: passwords_find_def passwords_find_for_update_def keeps_intros)

lemma keeps_passwords_set_hash [keeps_intros]: "keeps (db_ok L) (passwords_set_hash i h)"
  unfolding passwords_set_hash_def
  by (rule keeps_sql)
    (auto split: if_splits intro: db_ok_insert_credential
       intro!: db_ok_set_credential simp: credentials_check_def)

lemma credentials_check_fail: "credentials_check c \<Longrightarrow> credentials_check (fail_credential now c)"
  by (simp add: credentials_check_def fail_credential_def)

lemma keeps_passwords_record_failure [keeps_intros]: "keeps (db_ok L) (passwords_record_failure i)"
  unfolding passwords_record_failure_def
  by (rule keeps_sql)
    (auto split: option.splits if_splits intro!: db_ok_set_credential
       simp: credentials_check_fail, auto simp: fail_credential_def)

lemma keeps_passwords_clear_failures [keeps_intros]: "keeps (db_ok L) (passwords_clear_failures i)"
  unfolding passwords_clear_failures_def
  by (rule keeps_execute, rule db_ok_set_credential) (auto simp: credentials_check_def)

lemma keeps_passwords_replace_hash [keeps_intros]:
  "keeps (db_ok L) (passwords_replace_hash i e h)" "keeps (db_ok L) (passwords_upgrade_hash i e h)"
  unfolding passwords_replace_hash_def passwords_upgrade_hash_def
  by (rule keeps_sql, auto simp: replace_hash_stmt_def upgrade_hash_stmt_def replace_credential_def
        credentials_check_def split: if_splits intro!: db_ok_set_credential)+

subsection \<open>Compare and swap\<close>

locale compare_and_swap =
  fixes current :: "'s \<Rightarrow> 'v option"
    and cas :: "'v \<Rightarrow> 'v \<Rightarrow> 's \<Rightarrow> (bool \<times> 's) res"
  assumes cas_True: "cas expected new s = Inr (True, s') \<Longrightarrow>
      current s = Some expected \<and> current s' = Some new"
    and cas_False: "cas expected new s = Inr (False, s') \<Longrightarrow>
      current s \<noteq> Some expected \<and> s' = s"
begin

text \<open>Two racing swaps that both started from the same value: the second one loses.\<close>

lemma second_swap_loses:
  assumes "cas old new1 s = Inr (True, s1)" and "new1 \<noteq> old"
    and "cas old new2 s1 = Inr (b, s2)"
  shows "\<not> b \<and> s2 = s1 \<and> current s2 = Some new1"
proof -
  from cas_True [OF assms(1)] have "current s1 = Some new1" by simp
  with assms(2,3) have "\<not> b" using cas_True [of old new2 s1 s2] by auto
  with assms(3) have "s2 = s1" using cas_False [of old new2 s1 s2] by simp
  with \<open>\<not> b\<close> \<open>current s1 = Some new1\<close> show ?thesis by simp
qed

end

lemma replace_hash_stmt_current:
  "replace_hash_stmt i expected h now d = Inr (True, d') \<Longrightarrow>
   current_hash i d = Some expected \<and> current_hash i d' = Some h"
  by (auto simp: replace_hash_stmt_def current_hash_def credential_matches_def find_set_credential
        replace_credential_def split: if_splits option.splits)

interpretation replace_cas: compare_and_swap "current_hash i" "\<lambda>e h. replace_hash_stmt i e h now"
  for i now
proof unfold_locales
  fix expected new s s'
  show "replace_hash_stmt i expected new now s = Inr (True, s') \<Longrightarrow>
      current_hash i s = Some expected \<and> current_hash i s' = Some new"
    by (rule replace_hash_stmt_current)
  show "replace_hash_stmt i expected new now s = Inr (False, s') \<Longrightarrow>
      current_hash i s \<noteq> Some expected \<and> s' = s"
    by (auto simp: replace_hash_stmt_def current_hash_def credential_matches_def
          split: if_splits option.splits)
qed

interpretation upgrade_cas: compare_and_swap "current_hash i" "\<lambda>e h. upgrade_hash_stmt i e h now"
  for i now
  by unfold_locales
    (auto simp: upgrade_hash_stmt_def current_hash_def credential_matches_def find_set_credential
       split: if_splits option.splits)

subsection \<open>The lockout\<close>

text \<open>One failure after another, each with the time of its statement.\<close>

fun record_failures :: "uuid \<Rightarrow> time list \<Rightarrow> db \<Rightarrow> db" where
  "record_failures i [] d = d"
| "record_failures i (now # ts) d = record_failures i ts (set_credential i (fail_credential now) d)"

lemma record_failures_credential:
  "find_credential i d = Some c \<Longrightarrow>
   find_credential i (record_failures i ts d) = Some (fold fail_credential ts c)"
  by (induction ts arbitrary: d c) (auto simp: find_set_credential fail_credential_def)

lemma fold_fail_attempts:
  "c_failed_attempts (fold fail_credential ts c) = c_failed_attempts c + int (length ts)"
  by (induction ts arbitrary: c) (auto simp: fail_credential_def)

lemma fold_fail_locked:
  "c_failed_attempts c + int (length ts) < max_failed_attempts \<Longrightarrow>
   c_locked_until (fold fail_credential ts c) = c_locked_until c"
  by (induction ts arbitrary: c) (auto simp: fail_credential_def)

text \<open>
  The lockout: starting from a cleared credential, the first seven wrong passwords leave the
  account unlocked at every instant, and the eighth locks it for exactly fifteen minutes from
  its own statement, whatever the times of the attempts.
\<close>

theorem lockout_after_eight_failures:
  assumes "find_credential i d = Some c" and "c_failed_attempts c = 0" and "c_locked_until c = None"
    and "length ts = 7"
  shows "(\<forall>k \<le> 7. \<exists>c'. find_credential i (record_failures i (take k ts) d) = Some c' \<and>
            (\<forall>t'. \<not> is_locked_at c' t')) \<and>
         (\<exists>c'. find_credential i (record_failures i (ts @ [now]) d) = Some c' \<and>
            c_failed_attempts c' = 8 \<and>
            (\<forall>t'. is_locked_at c' t' \<longleftrightarrow> t' < now + 15 * 60 * 1000000))"
proof -
  have early: "\<exists>c'. find_credential i (record_failures i (take k ts) d) = Some c' \<and>
      (\<forall>t'. \<not> is_locked_at c' t')" if "k \<le> 7" for k
  proof -
    have "c_failed_attempts c + int (length (take k ts)) < max_failed_attempts"
      using assms(2,4) that by (simp add: max_failed_attempts_def)
    from fold_fail_locked [OF this] show ?thesis
      using assms(1,3) by (simp add: record_failures_credential is_locked_at_def)
  qed
  let ?c7 = "fold fail_credential ts c"
  have "c_failed_attempts ?c7 = 7" using assms(2,4) by (simp add: fold_fail_attempts)
  then have "fail_credential now ?c7 =
      ?c7\<lparr>c_failed_attempts := 8, c_locked_until := Some (now + 15 * 60 * 1000000)\<rparr>"
    by (simp add: fail_credential_def max_failed_attempts_def lockout_minutes_def time_defs)
  then have "find_credential i (record_failures i (ts @ [now]) d) =
      Some (?c7\<lparr>c_failed_attempts := 8, c_locked_until := Some (now + 15 * 60 * 1000000)\<rparr>)"
    using assms(1) by (simp add: record_failures_credential)
  then have "\<exists>c'. find_credential i (record_failures i (ts @ [now]) d) = Some c' \<and>
      c_failed_attempts c' = 8 \<and> (\<forall>t'. is_locked_at c' t' \<longleftrightarrow> t' < now + 15 * 60 * 1000000)"
    by (simp add: is_locked_at_def)
  with early show ?thesis by blast
qed

definition example_credential_db :: db where
  "example_credential_db = empty_db\<lparr>credentials := [new_credential 0 7 (lit ''$argon2id$x'')]\<rparr>"

theorem lockout_after_eight_failures_witness:
  "\<exists>c'. find_credential 7 (record_failures 7 ([1, 2, 3, 4, 5, 6, 7] @ [8]) example_credential_db) =
     Some c' \<and> c_failed_attempts c' = 8 \<and> is_locked_at c' 9"
proof -
  have "find_credential 7 example_credential_db = Some (new_credential 0 7 (lit ''$argon2id$x''))"
    by (simp add: example_credential_db_def find_credential_def new_credential_def)
  from lockout_after_eight_failures [OF this, of "[1, 2, 3, 4, 5, 6, 7]" 8]
  show ?thesis by (auto simp: new_credential_def)
qed

end
