(* ===== verification/Repo_Sessions.thy ===== *)
theory Repo_Sessions
  imports Repo_Passwords
begin

text \<open>
  \<open>cm-db/src/repo/sessions.rs\<close>: session rows are looked up by the digest of their token, extended
  by use up to their absolute ceiling, and revoked one by one or all together.
\<close>

definition new_session ::
  "time \<Rightarrow> uuid \<Rightarrow> uuid \<Rightarrow> bytes \<Rightarrow> time \<Rightarrow> time \<Rightarrow> bytes option \<Rightarrow> ustr option \<Rightarrow> session_row" where
  "new_session now i uid token_hash idle_expires_at absolute_expires_at ip_hash user_agent =
     \<lparr>s_id = i, s_user_id = uid, s_token_hash = token_hash,
      s_idle_expires_at = idle_expires_at, s_absolute_expires_at = absolute_expires_at,
      s_last_seen_at = now, s_revoked_at = None, s_revoked_reason = None,
      s_ip_hash = ip_hash, s_user_agent = user_agent, s_created_at = now\<rparr>"

definition sessions_insert ::
  "uuid \<Rightarrow> uuid \<Rightarrow> bytes \<Rightarrow> time \<Rightarrow> time \<Rightarrow> bytes option \<Rightarrow> ustr option \<Rightarrow> session_row m" where
  "sessions_insert i uid token_hash idle_expires_at absolute_expires_at ip_hash user_agent =
     sql (\<lambda>now d.
       let row = new_session now i uid token_hash idle_expires_at absolute_expires_at ip_hash
                   user_agent in
       if \<not> sessions_check row then Inl (internal ''check constraint of sessions'')
       else if i \<in> s_id ` set (sessions d) then Inl (internal ''sessions_pkey'')
       else if token_hash \<in> s_token_hash ` set (sessions d) then
         Inl (internal ''sessions_token_hash_key'')
       else if \<not> user_exists d uid then Inl (internal ''sessions foreign key'')
       else Inr (row, d\<lparr>sessions := sessions d @ [row]\<rparr>))"

definition live_session :: "time \<Rightarrow> session_row \<Rightarrow> bool" where
  "live_session now r \<longleftrightarrow>
     s_revoked_at r = None \<and> now < s_idle_expires_at r \<and> now < s_absolute_expires_at r"

definition sessions_find_live :: "bytes \<Rightarrow> session_row option m" where
  "sessions_find_live token_hash =
     query (\<lambda>now d. find (\<lambda>r. s_token_hash r = token_hash \<and> live_session now r) (sessions d))"

definition touch_session :: "time \<Rightarrow> uuid \<Rightarrow> time \<Rightarrow> int \<Rightarrow> session_row \<Rightarrow> session_row" where
  "touch_session now i idle_expires_at min_interval_secs r =
     (if s_id r = i \<and> s_revoked_at r = None \<and> s_last_seen_at r < now - secs min_interval_secs
      then r\<lparr>s_idle_expires_at := min idle_expires_at (s_absolute_expires_at r),
             s_last_seen_at := now\<rparr>
      else r)"

definition sessions_touch :: "uuid \<Rightarrow> time \<Rightarrow> int \<Rightarrow> unit m" where
  "sessions_touch i idle_expires_at min_interval_secs =
     execute (\<lambda>now d.
       d\<lparr>sessions := map (touch_session now i idle_expires_at min_interval_secs) (sessions d)\<rparr>)"

definition revoke_row :: "time \<Rightarrow> revocation_reason \<Rightarrow> session_row \<Rightarrow> session_row" where
  "revoke_row now reason r = r\<lparr>s_revoked_at := Some now, s_revoked_reason := Some reason\<rparr>"

definition revoke_where ::
  "time \<Rightarrow> revocation_reason \<Rightarrow> (session_row \<Rightarrow> bool) \<Rightarrow> db \<Rightarrow> db" where
  "revoke_where now reason p d =
     d\<lparr>sessions := map (\<lambda>r. if p r \<and> s_revoked_at r = None then revoke_row now reason r else r)
        (sessions d)\<rparr>"

definition count_revocable :: "(session_row \<Rightarrow> bool) \<Rightarrow> db \<Rightarrow> nat" where
  "count_revocable p d = length (filter (\<lambda>r. p r \<and> s_revoked_at r = None) (sessions d))"

definition sessions_revoke :: "uuid \<Rightarrow> revocation_reason \<Rightarrow> bool m" where
  "sessions_revoke i reason =
     sql (\<lambda>now d. Inr (count_revocable (\<lambda>r. s_id r = i) d = 1,
                       revoke_where now reason (\<lambda>r. s_id r = i) d))"

definition of_user_except :: "uuid \<Rightarrow> uuid option \<Rightarrow> session_row \<Rightarrow> bool" where
  "of_user_except uid except r \<longleftrightarrow>
     s_user_id r = uid \<and> (case except of None \<Rightarrow> True | Some k \<Rightarrow> s_id r \<noteq> k)"

definition sessions_revoke_all_for_user ::
  "uuid \<Rightarrow> revocation_reason \<Rightarrow> uuid option \<Rightarrow> nat m" where
  "sessions_revoke_all_for_user uid reason except =
     sql (\<lambda>now d. Inr (count_revocable (of_user_except uid except) d,
                       revoke_where now reason (of_user_except uid except) d))"

text \<open>The sessions of an account that a token could still be resolved to.\<close>

definition live_sessions :: "time \<Rightarrow> uuid \<Rightarrow> db \<Rightarrow> session_row list" where
  "live_sessions now uid d = filter (\<lambda>r. s_user_id r = uid \<and> live_session now r) (sessions d)"

subsection \<open>Writes keep the invariant\<close>

lemma sessions_ok_map:
  assumes "sessions_ok d" and "\<And>r. s_id (f r) = s_id r" and "\<And>r. s_user_id (f r) = s_user_id r"
    and "\<And>r. s_token_hash (f r) = s_token_hash r"
    and "\<And>r. sessions_check r \<Longrightarrow> sessions_check (f r)"
  shows "sessions_ok (d\<lparr>sessions := map f (sessions d)\<rparr>)"
  using assms by (simp add: sessions_ok_def list_all_iff comp_def)

lemma keeps_sessions_insert [keeps_intros]:
  "keeps (db_ok L) (sessions_insert i uid h idle ceil ip ua)"
  unfolding sessions_insert_def
proof (rule keeps_sql)
  fix now d x d'
  assume ok: "db_ok L d" and run: "(let row = new_session now i uid h idle ceil ip ua in
       if \<not> sessions_check row then Inl (internal ''check constraint of sessions'')
       else if i \<in> s_id ` set (sessions d) then Inl (internal ''sessions_pkey'')
       else if h \<in> s_token_hash ` set (sessions d) then
         Inl (internal ''sessions_token_hash_key'')
       else if \<not> user_exists d uid then Inl (internal ''sessions foreign key'')
       else Inr (row, d\<lparr>sessions := sessions d @ [row]\<rparr>)) = Inr (x, d')"
  show "db_ok L d'"
    using db_okD(3) [OF ok] ok run
    by (auto simp: Let_def sessions_ok_def new_session_def split: if_splits intro!: db_ok_sessionsI)
qed

lemma keeps_sessions_find_live [keeps_intros]: "keeps P (sessions_find_live h)"
  by (simp add: sessions_find_live_def keeps_intros)

lemma keeps_sessions_touch [keeps_intros]: "keeps (db_ok L) (sessions_touch i idle n)"
  unfolding sessions_touch_def
  by (intro keeps_execute db_ok_sessionsI sessions_ok_map)
    (auto simp: touch_session_def sessions_check_def dest: db_okD)

lemma db_ok_revoke_where: "db_ok L d \<Longrightarrow> db_ok L (revoke_where now reason p d)"
  unfolding revoke_where_def
  by (intro db_ok_sessionsI sessions_ok_map)
    (auto simp: revoke_row_def sessions_check_def dest: db_okD)

lemma keeps_sessions_revoke [keeps_intros]:
  "keeps (db_ok L) (sessions_revoke i reason)"
  "keeps (db_ok L) (sessions_revoke_all_for_user uid reason except)"
  unfolding sessions_revoke_def sessions_revoke_all_for_user_def
  by (rule keeps_sql, auto intro: db_ok_revoke_where)+

subsection \<open>What the operations do to live sessions\<close>

lemma live_revoke_where:
  "live_sessions t uid (revoke_where now reason p d) =
     filter (\<lambda>r. \<not> p r) (live_sessions t uid d)"
proof -
  have "filter (\<lambda>r. s_user_id r = uid \<and> live_session t r)
      (map (\<lambda>r. if p r \<and> s_revoked_at r = None then revoke_row now reason r else r) xs) =
    filter (\<lambda>r. \<not> p r) (filter (\<lambda>r. s_user_id r = uid \<and> live_session t r) xs)" for xs
    by (induction xs) (auto simp: live_session_def revoke_row_def)
  then show ?thesis by (simp add: live_sessions_def revoke_where_def)
qed

lemma live_sessions_frame [simp]:
  "live_sessions t uid (d\<lparr>users := x1\<rparr>) = live_sessions t uid d"
  "live_sessions t uid (d\<lparr>credentials := x2\<rparr>) = live_sessions t uid d"
  "live_sessions t uid (d\<lparr>auth_tokens := x3\<rparr>) = live_sessions t uid d"
  "live_sessions t uid (d\<lparr>oauth_identities := x4\<rparr>) = live_sessions t uid d"
  "live_sessions t uid (d\<lparr>email_outbox := x5\<rparr>) = live_sessions t uid d"
  "live_sessions t uid (d\<lparr>audit_log := x6\<rparr>) = live_sessions t uid d"
  "live_sessions t uid (d\<lparr>user_roles := x7\<rparr>) = live_sessions t uid d"
  "live_sessions t uid (d\<lparr>geocode_queue := x8\<rparr>) = live_sessions t uid d"
  by (simp_all add: live_sessions_def)

lemma sessions_insert_InrD:
  "sessions_insert i uid h idle ceil ip ua w = (Inr row, w') \<Longrightarrow>
   row = new_session (w_clock w) i uid h idle ceil ip ua \<and> sessions_check row \<and>
   i \<notin> s_id ` set (sessions (w_db w)) \<and> h \<notin> s_token_hash ` set (sessions (w_db w)) \<and>
   user_exists (w_db w) uid \<and>
   w' = w\<lparr>w_calls := Suc (w_calls w),
          w_db := (w_db w)\<lparr>sessions := sessions (w_db w) @ [row]\<rparr>\<rparr>"
  by (auto simp: sessions_insert_def sql_Inr_iff Let_def split: if_splits)

lemma sessions_find_live_SomeD:
  "sessions_find_live h w = (Inr (Some r), w') \<Longrightarrow>
   r \<in> set (sessions (w_db w)) \<and> s_token_hash r = h \<and> live_session (w_clock w) r \<and>
   w' = w\<lparr>w_calls := Suc (w_calls w)\<rparr>"
  by (auto simp: sessions_find_live_def query_Inr_iff dest!: sym [of "Some r"] find_Some_in)

text \<open>
  A session in constant use still ends: extending the idle window never moves it past the
  absolute ceiling, never moves the ceiling, never revives a revoked session and never touches
  another session; and a second request within the minimum interval writes nothing.
\<close>

theorem touch_respects_the_ceiling:
  assumes "sessions_check r"
  shows "s_idle_expires_at (touch_session now i idle n r) \<le> s_absolute_expires_at r \<and>
    s_absolute_expires_at (touch_session now i idle n r) = s_absolute_expires_at r \<and>
    s_revoked_at (touch_session now i idle n r) = s_revoked_at r \<and>
    sessions_check (touch_session now i idle n r) \<and>
    (s_id r \<noteq> i \<or> s_revoked_at r \<noteq> None \<longrightarrow> touch_session now i idle n r = r) \<and>
    (now < later + secs n \<longrightarrow>
       touch_session now i idle' n (r\<lparr>s_last_seen_at := later\<rparr>) = r\<lparr>s_last_seen_at := later\<rparr>) \<and>
    (live_session t (touch_session now i idle n r) \<longrightarrow> t < s_absolute_expires_at r)"
  using assms by (auto simp: touch_session_def sessions_check_def live_session_def)

definition example_session :: session_row where
  "example_session = new_session 0 1 2 (replicate 32 0) 100 200 None None"

theorem touch_respects_the_ceiling_witness:
  "sessions_check example_session \<and>
   s_idle_expires_at (touch_session 70000000 1 9000000000 60 example_session) \<le> 200 \<and>
   s_idle_expires_at (touch_session 70000000 1 9000000000 60 example_session) \<noteq> 100"
proof -
  have c: "sessions_check example_session"
    by (simp add: example_session_def new_session_def sessions_check_def)
  then show ?thesis
    using touch_respects_the_ceiling [OF c, of 70000000 1 9000000000 60]
    by (simp add: example_session_def new_session_def touch_session_def secs_def)
qed

end
