(* ===== verification/Repo_Auth_Tokens.thy ===== *)
theory Repo_Auth_Tokens
  imports Repo_Sessions
begin

text \<open>
  \<open>cm-db/src/repo/auth_tokens.rs\<close>: emailed codes and reset links. Issuing consumes the account's
  open tokens of the same purpose first; a guess at a code and the consumption of a link are one
  \<open>UPDATE\<close> each. The locale \<open>single_use\<close> is the contract of such a store, with the lemma that no
  sequence of attempts succeeds twice; codes and links are its two interpretations.
\<close>

definition consume_open :: "time \<Rightarrow> uuid \<Rightarrow> purpose \<Rightarrow> db \<Rightarrow> db" where
  "consume_open now uid p d =
     d\<lparr>auth_tokens := map (\<lambda>r. if open_token uid p r then r\<lparr>t_consumed_at := Some now\<rparr> else r)
        (auth_tokens d)\<rparr>"

definition new_token :: "time \<Rightarrow> uuid \<Rightarrow> uuid \<Rightarrow> purpose \<Rightarrow> bytes \<Rightarrow> int \<Rightarrow> token_row" where
  "new_token now i uid p h ttl_secs =
     \<lparr>t_id = i, t_user_id = uid, t_purpose = p, t_token_hash = h,
      t_expires_at = now + secs ttl_secs, t_consumed_at = None, t_attempts = 0\<rparr>"

definition insert_token :: "time \<Rightarrow> token_row \<Rightarrow> db \<Rightarrow> (unit \<times> db) res" where
  "insert_token now row d =
     (if \<not> auth_tokens_check row then Inl (internal ''check constraint of auth_tokens'')
      else if t_id row \<in> t_id ` set (auth_tokens d) then Inl (internal ''auth_tokens_pkey'')
      else if t_token_hash row \<in> t_token_hash ` set (auth_tokens d) then
        Inl (internal ''auth_tokens_token_hash_key'')
      else if \<not> user_exists d (t_user_id row) then Inl (internal ''auth_tokens foreign key'')
      else Inr ((), d\<lparr>auth_tokens := auth_tokens d @ [row]\<rparr>))"

definition tokens_issue :: "uuid \<Rightarrow> uuid \<Rightarrow> purpose \<Rightarrow> bytes \<Rightarrow> int \<Rightarrow> unit m" where
  "tokens_issue i uid p h ttl_secs =
     seq (execute (\<lambda>now. consume_open now uid p))
         (sql (\<lambda>now. insert_token now (new_token now i uid p h ttl_secs)))"

datatype code_outcome = Matched uuid | Wrong | Gone

definition guessable :: "time \<Rightarrow> uuid \<Rightarrow> purpose \<Rightarrow> token_row \<Rightarrow> bool" where
  "guessable now cid p r \<longleftrightarrow>
     t_id r = cid \<and> t_purpose r = p \<and> t_consumed_at r = None \<and> now < t_expires_at r"

definition spend_attempt :: "time \<Rightarrow> bytes \<Rightarrow> int \<Rightarrow> token_row \<Rightarrow> token_row" where
  "spend_attempt now h max_attempts r =
     r\<lparr>t_attempts := t_attempts r + 1,
       t_consumed_at :=
         (if t_token_hash r = h \<or> max_attempts \<le> t_attempts r + 1 then Some now else None)\<rparr>"

definition verify_code_stmt ::
  "uuid \<Rightarrow> purpose \<Rightarrow> bytes \<Rightarrow> int \<Rightarrow> time \<Rightarrow> db \<Rightarrow> (code_outcome \<times> db) res" where
  "verify_code_stmt cid p h max_attempts now d =
     (case find (guessable now cid p) (auth_tokens d) of
        None \<Rightarrow> Inr (Gone, d)
      | Some r \<Rightarrow>
          if \<not> pg_int_ok (t_attempts r + 1) then Inl (internal ''integer out of range'')
          else Inr (if t_token_hash r = h then Matched (t_user_id r) else Wrong,
                d\<lparr>auth_tokens := map (\<lambda>x. if guessable now cid p x
                    then spend_attempt now h max_attempts x else x) (auth_tokens d)\<rparr>))"

definition tokens_verify_code :: "uuid \<Rightarrow> purpose \<Rightarrow> bytes \<Rightarrow> int \<Rightarrow> code_outcome m" where
  "tokens_verify_code cid p h max_attempts = sql (verify_code_stmt cid p h max_attempts)"

definition tokens_challenge_user :: "uuid \<Rightarrow> uuid option m" where
  "tokens_challenge_user cid =
     query (\<lambda>now d. map_option t_user_id (find (guessable now cid LoginCode) (auth_tokens d)))"

definition usable_link :: "time \<Rightarrow> bytes \<Rightarrow> purpose \<Rightarrow> token_row \<Rightarrow> bool" where
  "usable_link now h p r \<longleftrightarrow>
     t_token_hash r = h \<and> t_purpose r = p \<and> t_consumed_at r = None \<and> now < t_expires_at r"

definition tokens_peek_link :: "bytes \<Rightarrow> purpose \<Rightarrow> uuid option m" where
  "tokens_peek_link h p =
     query (\<lambda>now d. map_option t_user_id (find (usable_link now h p) (auth_tokens d)))"

definition consume_link_stmt ::
  "bytes \<Rightarrow> purpose \<Rightarrow> time \<Rightarrow> db \<Rightarrow> uuid option \<times> db" where
  "consume_link_stmt h p now d =
     (map_option t_user_id (find (usable_link now h p) (auth_tokens d)),
      d\<lparr>auth_tokens := map (\<lambda>x. if usable_link now h p x then x\<lparr>t_consumed_at := Some now\<rparr> else x)
          (auth_tokens d)\<rparr>)"

definition tokens_consume_link :: "bytes \<Rightarrow> purpose \<Rightarrow> uuid option m" where
  "tokens_consume_link h p = sql (\<lambda>now d. Inr (consume_link_stmt h p now d))"

definition prunable_token :: "time \<Rightarrow> int \<Rightarrow> token_row \<Rightarrow> bool" where
  "prunable_token now grace_days r \<longleftrightarrow>
     t_expires_at r < now - days (as_i32 grace_days) \<or>
     (case t_consumed_at r of None \<Rightarrow> False | Some t \<Rightarrow> t < now - days (as_i32 grace_days))"

definition tokens_prune_expired :: "time \<Rightarrow> int \<Rightarrow> nat \<Rightarrow> nat m" where
  "tokens_prune_expired now grace_days batch =
     sql (\<lambda>_ d. Inr (min batch (length (filter (prunable_token now grace_days) (auth_tokens d))),
       d\<lparr>auth_tokens := delete_batch (prunable_token now grace_days) batch (auth_tokens d)\<rparr>))"

subsection \<open>Writes keep the invariant\<close>

lemma tokens_ok_map:
  assumes "tokens_ok d" and "\<And>r. t_id (f r) = t_id r" and "\<And>r. t_user_id (f r) = t_user_id r"
    and "\<And>r. t_token_hash (f r) = t_token_hash r"
    and "\<And>r. auth_tokens_check r \<Longrightarrow> auth_tokens_check (f r)"
  shows "tokens_ok (d\<lparr>auth_tokens := map f (auth_tokens d)\<rparr>)"
  using assms by (simp add: tokens_ok_def list_all_iff comp_def)

lemma one_open_token_map:
  assumes "one_open_token d" and "\<And>r uid p. open_token uid p (f r) \<Longrightarrow> open_token uid p r"
  shows "one_open_token (d\<lparr>auth_tokens := map f (auth_tokens d)\<rparr>)"
  unfolding one_open_token_def
proof (intro allI)
  fix uid p
  have "length (filter (open_token uid p) (map f (auth_tokens d))) \<le>
      length (filter (open_token uid p) (auth_tokens d))"
    by (rule length_filter_map_le) (rule assms(2))
  also have "\<dots> \<le> 1" using assms(1) by (simp add: one_open_token_def)
  finally show "length (filter (open_token uid p) (auth_tokens (d\<lparr>auth_tokens := map f (auth_tokens d)\<rparr>))) \<le> 1"
    by simp
qed

lemma db_ok_map_tokens:
  assumes "db_ok L d" and "\<And>r. t_id (f r) = t_id r" and "\<And>r. t_user_id (f r) = t_user_id r"
    and "\<And>r. t_token_hash (f r) = t_token_hash r"
    and "\<And>r. auth_tokens_check r \<Longrightarrow> auth_tokens_check (f r)"
    and "\<And>r uid p. open_token uid p (f r) \<Longrightarrow> open_token uid p r"
  shows "db_ok L (d\<lparr>auth_tokens := map f (auth_tokens d)\<rparr>)"
  using assms by (intro db_ok_tokensI tokens_ok_map one_open_token_map) (auto dest: db_okD)

lemma db_ok_consume_open: "db_ok L d \<Longrightarrow> db_ok L (consume_open now uid p d)"
  unfolding consume_open_def
  by (rule db_ok_map_tokens) (auto simp: auth_tokens_check_def open_token_def split: if_splits)

lemma no_open_after_consume:
  "list_all (\<lambda>r. \<not> open_token uid p r) (auth_tokens (consume_open now uid p d))"
  by (simp add: consume_open_def list_all_map_iff open_token_def)

lemma db_ok_insert_token:
  assumes ok: "db_ok L d" and run: "insert_token now row d = Inr (x, d')"
    and none: "list_all (\<lambda>r. \<not> open_token (t_user_id row) (t_purpose row) r) (auth_tokens d)"
  shows "db_ok L d'"
proof -
  from run have c: "auth_tokens_check row" "t_id row \<notin> t_id ` set (auth_tokens d)"
      "t_token_hash row \<notin> t_token_hash ` set (auth_tokens d)" "user_exists d (t_user_id row)"
    and d': "d' = d\<lparr>auth_tokens := auth_tokens d @ [row]\<rparr>"
    by (auto simp: insert_token_def split: if_splits)
  have "tokens_ok d'" using db_okD(4) [OF ok] c by (auto simp: tokens_ok_def d')
  moreover have "length (filter (open_token uid p) (auth_tokens d')) \<le> 1" for uid p
  proof (cases "open_token uid p row")
    case True
    then have "uid = t_user_id row" and "p = t_purpose row" by (auto simp: open_token_def)
    with none have "filter (open_token uid p) (auth_tokens d) = []"
      by (auto simp: filter_empty_conv list_all_iff)
    then show ?thesis by (simp add: d')
  next
    case False
    then show ?thesis using db_okD(5) [OF ok] by (simp add: d' one_open_token_def)
  qed
  ultimately show ?thesis
    using ok unfolding d' by (intro db_ok_tokensI) (auto simp: one_open_token_def)
qed

text \<open>
  The two statements of \<open>issue\<close> keep the invariant together, also when the second one fails: the
  insert alone would not, since the account could hold an open token.
\<close>

lemma keeps_tokens_issue [keeps_intros]: "keeps (db_ok L) (tokens_issue i uid p h ttl)"
proof (rule keepsI)
  fix w r w'
  assume ok: "db_ok L (w_db w)" and run: "tokens_issue i uid p h ttl w = (r, w')"
  show "db_ok L (w_db w')"
  proof (cases r)
    case (Inl e)
    with run ok show ?thesis
      by (auto simp: tokens_issue_def run_iffs db_ok_consume_open)
  next
    case (Inr x)
    with run obtain now where
      "insert_token now (new_token now i uid p h ttl) (consume_open now uid p (w_db w)) = Inr (x, w_db w')"
      by (auto simp: tokens_issue_def run_iffs)
    then show ?thesis
      by (rule db_ok_insert_token [OF db_ok_consume_open [OF ok]])
        (use no_open_after_consume in \<open>auto simp: new_token_def\<close>)
  qed
qed

lemma keeps_tokens_verify_code [keeps_intros]: "keeps (db_ok L) (tokens_verify_code cid p h n)"
  unfolding tokens_verify_code_def verify_code_stmt_def
  by (rule keeps_sql)
    (auto split: option.splits if_splits intro!: db_ok_map_tokens
       simp: spend_attempt_def auth_tokens_check_def open_token_def guessable_def)

lemma keeps_tokens_reads [keeps_intros]:
  "keeps P (tokens_challenge_user cid)" "keeps P (tokens_peek_link h p)"
  by (simp_all add: tokens_challenge_user_def tokens_peek_link_def keeps_intros)

lemma db_ok_consume_link: "db_ok L d \<Longrightarrow> db_ok L (snd (consume_link_stmt h p now d))"
  unfolding consume_link_stmt_def snd_conv
  by (rule db_ok_map_tokens) (auto simp: auth_tokens_check_def open_token_def split: if_splits)

lemma keeps_tokens_consume_link [keeps_intros]: "keeps (db_ok L) (tokens_consume_link h p)"
  unfolding tokens_consume_link_def
  by (rule keeps_sql) (metis Inr_inject db_ok_consume_link snd_conv)

lemma keeps_tokens_prune [keeps_intros]: "keeps (db_ok L) (tokens_prune_expired now g b)"
  unfolding tokens_prune_expired_def
proof (rule keeps_sql)
  fix t d x d'
  assume ok: "db_ok L d" and
    "Inr (min b (length (filter (prunable_token now g) (auth_tokens d))),
       d\<lparr>auth_tokens := delete_batch (prunable_token now g) b (auth_tokens d)\<rparr>) = (Inr (x, d') :: (nat \<times> db) res)"
  then have d': "d' = d\<lparr>auth_tokens := delete_batch (prunable_token now g) b (auth_tokens d)\<rparr>" by simp
  have "tokens_ok d'"
    using db_okD(4) [OF ok] set_delete_batch
    by (auto simp: tokens_ok_def d' list_all_iff distinct_map_delete_batch dest!: set_delete_batch [THEN subsetD])
  moreover have "one_open_token d'"
    using db_okD(5) [OF ok]
    by (auto simp: one_open_token_def d' intro: order_trans [OF length_filter_delete_batch_le])
  ultimately show "db_ok L d'" using ok unfolding d' by (intro db_ok_tokensI)
qed

subsection \<open>Single use\<close>

locale single_use =
  fixes step :: "'e \<Rightarrow> 's \<Rightarrow> 'r \<times> 's"
    and success :: "'r \<Rightarrow> bool"
    and spent :: "'s \<Rightarrow> bool"
    and inv :: "'s \<Rightarrow> bool"
  assumes inv_step: "inv s \<Longrightarrow> step e s = (r, s') \<Longrightarrow> inv s'"
    and success_spends: "inv s \<Longrightarrow> step e s = (r, s') \<Longrightarrow> success r \<Longrightarrow> \<not> spent s \<and> spent s'"
    and spent_stays: "inv s \<Longrightarrow> step e s = (r, s') \<Longrightarrow> spent s \<Longrightarrow> spent s'"
begin

lemma none_after_spent: "inv s \<Longrightarrow> spent s \<Longrightarrow> filter success (fst (run_steps step es s)) = []"
proof (induction es arbitrary: s)
  case (Cons e es)
  obtain r s1 where s: "step e s = (r, s1)" by (cases "step e s")
  with Cons.prems have "spent s1" and "inv s1" and "\<not> success r"
    using spent_stays inv_step success_spends by blast+
  with Cons.IH [of s1] s show ?case by (simp del: run_steps.simps)
qed simp

lemma at_most_one_success: "inv s \<Longrightarrow> length (filter success (fst (run_steps step es s))) \<le> 1"
proof (induction es arbitrary: s)
  case (Cons e es)
  obtain r s1 where s: "step e s = (r, s1)" by (cases "step e s")
  with Cons.prems have "inv s1" using inv_step by blast
  show ?case
  proof (cases "success r")
    case True
    with s Cons.prems have "spent s1" using success_spends by blast
    from none_after_spent [OF \<open>inv s1\<close> this] s show ?thesis by (simp del: run_steps.simps)
  next
    case False
    with Cons.IH [OF \<open>inv s1\<close>] s show ?thesis by (simp del: run_steps.simps)
  qed
qed simp

end

text \<open>One guess, as a step: the statement's time and the presented digest are its input.\<close>

definition guess_step ::
  "uuid \<Rightarrow> purpose \<Rightarrow> int \<Rightarrow> time \<times> bytes \<Rightarrow> db \<Rightarrow> code_outcome res \<times> db" where
  "guess_step cid p max_attempts g d =
     (case verify_code_stmt cid p (snd g) max_attempts (fst g) d of
        Inl e \<Rightarrow> (Inl e, d)
      | Inr (out, d') \<Rightarrow> (Inr out, d'))"

fun is_matched :: "code_outcome res \<Rightarrow> bool" where
  "is_matched (Inr (Matched _)) = True"
| "is_matched _ = False"

fun is_gone :: "code_outcome res \<Rightarrow> bool" where
  "is_gone (Inr Gone) = True"
| "is_gone _ = False"

definition code_spent :: "uuid \<Rightarrow> purpose \<Rightarrow> db \<Rightarrow> bool" where
  "code_spent cid p d \<longleftrightarrow>
     list_all (\<lambda>r. t_id r = cid \<and> t_purpose r = p \<longrightarrow> t_consumed_at r \<noteq> None) (auth_tokens d)"

definition token_ids_distinct :: "db \<Rightarrow> bool" where
  "token_ids_distinct d \<longleftrightarrow> distinct (map t_id (auth_tokens d))"

lemma guess_step_cases:
  assumes "guess_step cid p n g d = (r, d')"
  obtains (gone) "r = Inr Gone" "d' = d" "find (guessable (fst g) cid p) (auth_tokens d) = None"
  | (error) e where "r = Inl e" "d' = d"
      "\<exists>x. find (guessable (fst g) cid p) (auth_tokens d) = Some x \<and> \<not> pg_int_ok (t_attempts x + 1)"
  | (guess) x where "find (guessable (fst g) cid p) (auth_tokens d) = Some x"
      "r = Inr (if t_token_hash x = snd g then Matched (t_user_id x) else Wrong)"
      "d' = d\<lparr>auth_tokens := map (\<lambda>y. if guessable (fst g) cid p y
                 then spend_attempt (fst g) (snd g) n y else y) (auth_tokens d)\<rparr>"
  using assms by (auto simp: guess_step_def verify_code_stmt_def split: option.splits if_splits)

lemma guess_step_distinct: "guess_step cid p n g d = (r, d') \<Longrightarrow> token_ids_distinct d \<Longrightarrow> token_ids_distinct d'"
proof (erule guess_step_cases)
  fix x
  assume "d' = d\<lparr>auth_tokens := map (\<lambda>y. if guessable (fst g) cid p y
                 then spend_attempt (fst g) (snd g) n y else y) (auth_tokens d)\<rparr>"
    and "token_ids_distinct d"
  moreover have "t_id \<circ> (\<lambda>y. if guessable (fst g) cid p y then spend_attempt (fst g) (snd g) n y else y) = t_id"
    by (auto simp: spend_attempt_def)
  ultimately show "token_ids_distinct d'" by (simp add: token_ids_distinct_def)
qed auto

interpretation code_use: single_use "guess_step cid p n" is_matched "code_spent cid p" token_ids_distinct
  for cid p n
proof unfold_locales
  fix s e r s'
  assume inv: "token_ids_distinct s" and st: "guess_step cid p n e s = (r, s')"
  show "token_ids_distinct s'" using st inv by (rule guess_step_distinct)
  show "code_spent cid p s'" if "code_spent cid p s"
    using st
  proof (cases rule: guess_step_cases)
    case (guess x)
    with that find_Some_in [OF guess(1)] show ?thesis
      by (auto simp: code_spent_def list_all_iff guessable_def)
  qed (use that in simp_all)
  assume "is_matched r"
  with st obtain x where x: "find (guessable (fst e) cid p) (auth_tokens s) = Some x"
    and hit: "t_token_hash x = snd e"
    and s': "s' = s\<lparr>auth_tokens := map (\<lambda>y. if guessable (fst e) cid p y
                 then spend_attempt (fst e) (snd e) n y else y) (auth_tokens s)\<rparr>"
    by (elim guess_step_cases) (auto split: if_splits)
  from find_Some_in [OF x] have x_in: "x \<in> set (auth_tokens s)" "guessable (fst e) cid p x" by auto
  then have "\<not> code_spent cid p s" by (auto simp: code_spent_def list_all_iff guessable_def)
  moreover have only: "y = x" if "y \<in> set (auth_tokens s)" "t_id y = cid" for y
    using inv x_in that by (auto simp: token_ids_distinct_def guessable_def dest: distinct_map_eqD)
  have "code_spent cid p s'"
    using only x_in hit by (auto simp: code_spent_def s' list_all_map_iff spend_attempt_def)
  ultimately show "\<not> code_spent cid p s \<and> code_spent cid p s'" by blast
qed

text \<open>One redemption of a link: its input is the statement's time.\<close>

definition link_step :: "bytes \<Rightarrow> purpose \<Rightarrow> time \<Rightarrow> db \<Rightarrow> uuid option \<times> db" where
  "link_step h p now d = consume_link_stmt h p now d"

definition link_spent :: "bytes \<Rightarrow> purpose \<Rightarrow> db \<Rightarrow> bool" where
  "link_spent h p d \<longleftrightarrow>
     list_all (\<lambda>r. t_token_hash r = h \<and> t_purpose r = p \<longrightarrow> t_consumed_at r \<noteq> None) (auth_tokens d)"

definition token_hashes_distinct :: "db \<Rightarrow> bool" where
  "token_hashes_distinct d \<longleftrightarrow> distinct (map t_token_hash (auth_tokens d))"

interpretation link_use: single_use "link_step h p" "\<lambda>r. r \<noteq> None" "link_spent h p" token_hashes_distinct
  for h p
proof unfold_locales
  fix s e r s'
  assume inv: "token_hashes_distinct s" and st: "link_step h p e s = (r, s')"
  then have s': "s' = s\<lparr>auth_tokens := map (\<lambda>x. if usable_link e h p x
      then x\<lparr>t_consumed_at := Some e\<rparr> else x) (auth_tokens s)\<rparr>"
    and r: "r = map_option t_user_id (find (usable_link e h p) (auth_tokens s))"
    by (auto simp: link_step_def consume_link_stmt_def)
  have "t_token_hash \<circ> (\<lambda>x. if usable_link e h p x then x\<lparr>t_consumed_at := Some e\<rparr> else x) = t_token_hash"
    by auto
  then show "token_hashes_distinct s'" using inv by (simp add: token_hashes_distinct_def s')
  show "link_spent h p s \<Longrightarrow> link_spent h p s'"
    by (auto simp: link_spent_def s' list_all_map_iff list_all_iff)
  assume "r \<noteq> None"
  with r obtain x where "find (usable_link e h p) (auth_tokens s) = Some x" by auto
  from find_Some_in [OF this] have x: "x \<in> set (auth_tokens s)" "usable_link e h p x" by auto
  then have "\<not> link_spent h p s" by (auto simp: link_spent_def list_all_iff usable_link_def)
  moreover have "y = x" if "y \<in> set (auth_tokens s)" "t_token_hash y = h" for y
    using inv x that by (auto simp: token_hashes_distinct_def usable_link_def dest: distinct_map_eqD)
  then have "link_spent h p s'"
    using x by (auto simp: link_spent_def s' list_all_map_iff usable_link_def)
  ultimately show "\<not> link_spent h p s \<and> link_spent h p s'" by blast
qed

subsection \<open>Properties\<close>

lemma guess_step_row:
  assumes "guess_step cid p n g d = (out, d')" and "token_ids_distinct d" and "n < 2 ^ 31"
    and "r \<in> set (auth_tokens d)" and "t_id r = cid"
    and "t_consumed_at r = None \<longrightarrow> 0 \<le> t_attempts r \<and> t_attempts r < n"
  shows "(is_gone out \<and> d' = d) \<or>
    (t_consumed_at r = None \<and> spend_attempt (fst g) (snd g) n r \<in> set (auth_tokens d'))"
  using assms(1)
proof (cases rule: guess_step_cases)
  case gone
  then show ?thesis by simp
next
  case (error e)
  then obtain x where x: "find (guessable (fst g) cid p) (auth_tokens d) = Some x"
    and bad: "\<not> pg_int_ok (t_attempts x + 1)" by blast
  from find_Some_in [OF x] assms(2,4,5) have "x = r" and "t_consumed_at r = None"
    by (auto simp: token_ids_distinct_def guessable_def dest: distinct_map_eqD)
  with bad assms(3,6) show ?thesis by (auto simp: pg_int_ok_def)
next
  case (guess x)
  from find_Some_in [OF guess(1)] assms(2,4,5) have "x = r" and "guessable (fst g) cid p r"
    by (auto simp: token_ids_distinct_def guessable_def dest: distinct_map_eqD)
  with guess(3) assms(4) show ?thesis by (auto simp: guessable_def)
qed

lemma guesses_bound:
  "token_ids_distinct d \<Longrightarrow> r \<in> set (auth_tokens d) \<Longrightarrow> t_id r = cid \<Longrightarrow> n < 2 ^ 31 \<Longrightarrow>
   t_consumed_at r = None \<longrightarrow> 0 \<le> t_attempts r \<and> t_attempts r < n \<Longrightarrow>
   length (filter (\<lambda>out. \<not> is_gone out) (fst (run_steps (guess_step cid p n) gs d))) \<le>
     (if t_consumed_at r = None then nat (n - t_attempts r) else 0)"
proof (induction gs arbitrary: d r)
  case (Cons g gs)
  obtain out d' where st: "guess_step cid p n g d = (out, d')" by (cases "guess_step cid p n g d")
  have dist: "token_ids_distinct d'" using st Cons.prems(1) by (rule guess_step_distinct)
  from guess_step_row [OF st Cons.prems(1,4,2,3,5)]
  consider (gone) "is_gone out" "d' = d"
    | (spent) "t_consumed_at r = None" "spend_attempt (fst g) (snd g) n r \<in> set (auth_tokens d')"
    by (elim disjE conjE)
  then show ?case
  proof cases
    case gone
    with Cons.IH [OF Cons.prems] st show ?thesis by (simp del: run_steps.simps)
  next
    case spent
    let ?r = "spend_attempt (fst g) (snd g) n r"
    have "t_id ?r = cid" using Cons.prems(3) by (simp add: spend_attempt_def)
    moreover have "t_consumed_at ?r = None \<longrightarrow> 0 \<le> t_attempts ?r \<and> t_attempts ?r < n"
      using spent(1) Cons.prems(5) by (auto simp: spend_attempt_def)
    ultimately have "length (filter (\<lambda>out. \<not> is_gone out)
        (fst (run_steps (guess_step cid p n) gs d'))) \<le>
        (if t_consumed_at ?r = None then nat (n - t_attempts ?r) else 0)"
      using Cons.IH [OF dist spent(2)] Cons.prems(4) by blast
    also have "\<dots> \<le> nat (n - t_attempts r) - 1"
      using spent(1) by (auto simp: spend_attempt_def)
    finally show ?thesis
      using spent(1) Cons.prems(5) st by (simp del: run_steps.simps) linarith
  qed
qed simp

text \<open>
  C28. A code can never be guessed at more than \<open>max_attempts\<close> times: for any sequence of guesses at
  one challenge, whatever their times and digests, at most \<open>n\<close> of them are answered anything but
  \<open>Gone\<close>, and at most one of them matches.
\<close>

theorem code_guesses_are_capped:
  assumes "token_ids_distinct d" and "r \<in> set (auth_tokens d)" and "t_id r = cid"
    and "t_attempts r = 0" and "0 < n" and "n < 2 ^ 31"
  shows "length (filter (\<lambda>out. \<not> is_gone out) (fst (run_steps (guess_step cid p n) gs d))) \<le> nat n \<and>
    length (filter is_matched (fst (run_steps (guess_step cid p n) gs d))) \<le> 1"
proof
  have "length (filter (\<lambda>out. \<not> is_gone out) (fst (run_steps (guess_step cid p n) gs d))) \<le>
      (if t_consumed_at r = None then nat (n - t_attempts r) else 0)"
    using assms by (intro guesses_bound) auto
  also have "\<dots> \<le> nat n" using assms(4) by simp
  finally show "length (filter (\<lambda>out. \<not> is_gone out) (fst (run_steps (guess_step cid p n) gs d))) \<le> nat n" .
  show "length (filter is_matched (fst (run_steps (guess_step cid p n) gs d))) \<le> 1"
    using assms(1) by (rule code_use.at_most_one_success)
qed

definition example_token_db :: db where
  "example_token_db = empty_db\<lparr>auth_tokens := [new_token 0 3 9 LoginCode (replicate 32 5) 600]\<rparr>"

theorem code_guesses_are_capped_witness:
  "length (filter (\<lambda>out. \<not> is_gone out)
     (fst (run_steps (guess_step 3 LoginCode 5)
       (replicate 9 (1, []) @ [(2, replicate 32 5)]) example_token_db))) \<le> nat 5 \<and>
   fst (guess_step 3 LoginCode 5 (2, replicate 32 5) example_token_db) = Inr (Matched 9)"
proof -
  have d: "token_ids_distinct example_token_db"
    by (simp add: token_ids_distinct_def example_token_db_def)
  have r: "new_token 0 3 9 LoginCode (replicate 32 5) 600 \<in> set (auth_tokens example_token_db)"
    by (simp add: example_token_db_def)
  from code_guesses_are_capped [OF d r, of 3 5 LoginCode "replicate 9 (1, []) @ [(2, replicate 32 5)]"]
  show ?thesis
    by (simp add: new_token_def guess_step_def verify_code_stmt_def example_token_db_def
        guessable_def pg_int_ok_def secs_def)
qed

text \<open>
  A reset link is spent exactly once: for any sequence of confirmations of the same link, at
  whatever times, at most one is told which account it belongs to; and peeking at a link names
  the account that consuming it at the same instant would.
\<close>

theorem links_are_single_use:
  assumes "token_hashes_distinct d"
  shows "length (filter (\<lambda>r. r \<noteq> None) (fst (run_steps (link_step h p) ts d))) \<le> 1 \<and>
    (\<forall>w. w_db w = d \<longrightarrow> w_fault w (w_calls w) = None \<longrightarrow>
       fst (tokens_peek_link h p w) = Inr (fst (link_step h p (w_clock w) d)))"
  using link_use.at_most_one_success [OF assms]
  by (auto simp: tokens_peek_link_def query_def sql_def bind_def round_trip_def link_step_def
        consume_link_stmt_def)

theorem links_are_single_use_witness:
  "length (filter (\<lambda>r. r \<noteq> None)
     (fst (run_steps (link_step (replicate 32 5) LoginCode) [1, 2, 3] example_token_db))) \<le> 1 \<and>
   fst (link_step (replicate 32 5) LoginCode 1 example_token_db) = Some 9"
proof -
  have d: "token_hashes_distinct example_token_db"
    by (simp add: token_hashes_distinct_def example_token_db_def)
  from links_are_single_use [OF d, of "replicate 32 5" LoginCode "[1, 2, 3]"]
  show ?thesis
    by (simp add: link_step_def consume_link_stmt_def usable_link_def example_token_db_def
        new_token_def secs_def)
qed

lemma tokens_issue_InrD:
  assumes "tokens_issue i uid p h ttl w = (Inr x, w')"
  shows "auth_tokens (w_db w') =
      auth_tokens (consume_open (w_clock w) uid p (w_db w)) @ [new_token (w_clock w) i uid p h ttl] \<and>
    w_db w' = (w_db w)\<lparr>auth_tokens := auth_tokens (w_db w')\<rparr> \<and> user_exists (w_db w) uid \<and>
    i \<notin> t_id ` set (auth_tokens (w_db w)) \<and> h \<notin> t_token_hash ` set (auth_tokens (w_db w)) \<and>
    w_clock w' = w_clock w \<and> w_rates w' = w_rates w"
proof -
  have img: "k ` set (auth_tokens (consume_open t uid p d)) = k ` set (auth_tokens d)"
    if "\<And>r. k (r\<lparr>t_consumed_at := Some t\<rparr>) = k r" for k :: "token_row \<Rightarrow> 'k" and t d
  proof -
    have "map k (auth_tokens (consume_open t uid p d)) = map k (auth_tokens d)"
      using that by (auto simp: consume_open_def)
    then show ?thesis by (metis list.set_map)
  qed
  from assms show ?thesis
    by (auto simp: tokens_issue_def run_iffs insert_token_def img new_token_def split: if_splits)
      (auto simp: consume_open_def)
qed

text \<open>
  A fresh code or link always invalidates its predecessor: after a successful issue, the new
  token is the only open one of its account and purpose, and no guess at an older one, at any
  later instant, is answered anything but \<open>Gone\<close>.
\<close>

theorem issue_invalidates_predecessors:
  assumes "tokens_issue i uid p h ttl w = (Inr x, w')"
  shows "filter (open_token uid p) (auth_tokens (w_db w')) = [new_token (w_clock w) i uid p h ttl] \<and>
    (\<forall>r \<in> set (auth_tokens (w_db w)). t_user_id r = uid \<and> t_purpose r = p \<and>
       token_ids_distinct (w_db w') \<longrightarrow>
       fst (guess_step (t_id r) p n g (w_db w')) = Inr Gone)"
proof -
  let ?old = "auth_tokens (consume_open (w_clock w) uid p (w_db w))"
  let ?new = "new_token (w_clock w) i uid p h ttl"
  from tokens_issue_InrD [OF assms] have toks: "auth_tokens (w_db w') = ?old @ [?new]"
    and fresh: "i \<notin> t_id ` set (auth_tokens (w_db w))" by auto
  have closed: "list_all (\<lambda>r. \<not> open_token uid p r) ?old" by (rule no_open_after_consume)
  have 1: "filter (open_token uid p) (auth_tokens (w_db w')) = [?new]"
    using closed unfolding toks
    by (simp add: list_all_iff filter_empty_conv) (simp add: new_token_def open_token_def)
  have "fst (guess_step (t_id r) p n g (w_db w')) = Inr Gone"
    if r: "r \<in> set (auth_tokens (w_db w))" "t_user_id r = uid" "t_purpose r = p"
      and dist: "token_ids_distinct (w_db w')" for r
  proof -
    let ?r = "if open_token uid p r then r\<lparr>t_consumed_at := Some (w_clock w)\<rparr> else r"
    have r': "?r \<in> set ?old" using r(1) by (auto simp: consume_open_def)
    have "\<not> guessable t (t_id r) p y" if y: "y \<in> set (auth_tokens (w_db w'))" for t y
    proof
      assume gy: "guessable t (t_id r) p y"
      have "?r \<in> set (auth_tokens (w_db w'))" and "t_id ?r = t_id r" using r' by (auto simp: toks)
      with gy y dist have "y = ?r"
        using distinct_map_eqD [of t_id "auth_tokens (w_db w')" y ?r]
        by (simp add: token_ids_distinct_def guessable_def)
      with gy r closed r' show False by (auto simp: guessable_def open_token_def split: if_splits)
    qed
    then have "find (guessable (fst g) (t_id r) p) (auth_tokens (w_db w')) = None"
      by (simp add: find_None_all)
    then show ?thesis by (simp add: guess_step_def verify_code_stmt_def)
  qed
  with 1 show ?thesis by blast
qed

definition example_user :: user_row where
  "example_user = new_user_row 0 9 (Some (lit ''a@b.c'')) (lit ''A'') Homeowner"

theorem issue_invalidates_predecessors_witness:
  "filter (open_token 9 LoginCode) (auth_tokens (w_db (snd (tokens_issue 4 9 LoginCode (replicate 32 6)
       600 (calm_world (example_token_db\<lparr>users := [example_user]\<rparr>) 50))))) =
     [new_token 50 4 9 LoginCode (replicate 32 6) 600] \<and>
   fst (guess_step 3 LoginCode 5 (60, replicate 32 5) (w_db (snd (tokens_issue 4 9 LoginCode
       (replicate 32 6) 600 (calm_world (example_token_db\<lparr>users := [example_user]\<rparr>) 50))))) = Inr Gone"
proof -
  let ?w = "calm_world (example_token_db\<lparr>users := [example_user]\<rparr>) 50"
  let ?w' = "snd (tokens_issue 4 9 LoginCode (replicate 32 6) 600 ?w)"
  have neq: "replicate 32 (6 :: byte) \<noteq> replicate 32 5" by (simp add: replicate_eq_replicate)
  have ex: "user_exists (w_db ?w) 9"
    by (simp add: user_exists_def example_user_def new_user_row_def)
  have run: "tokens_issue 4 9 LoginCode (replicate 32 6) 600 ?w = (Inr (), ?w')"
    using ex neq by (simp add: tokens_issue_def seq_def bind_def execute_def sql_def round_trip_def
        insert_token_def auth_tokens_check_def new_token_def example_token_db_def consume_open_def
        open_token_def user_exists_def)
  have dist: "token_ids_distinct (w_db ?w')"
    using tokens_issue_InrD [OF run]
    by (simp add: token_ids_distinct_def example_token_db_def consume_open_def open_token_def new_token_def)
  have r: "new_token 0 3 9 LoginCode (replicate 32 5) 600 \<in> set (auth_tokens (w_db ?w))"
    by (simp add: example_token_db_def)
  note main = issue_invalidates_predecessors [OF run, of 5 "(60, replicate 32 5)"]
  from bspec [OF conjunct2 [OF main] r] dist
  have "fst (guess_step 3 LoginCode 5 (60, replicate 32 5) (w_db ?w')) = Inr Gone"
    by (simp add: new_token_def)
  with conjunct1 [OF main] show ?thesis by simp
qed

end
