(* ===== verification/Repo_Oauth.thy ===== *)
theory Repo_Oauth
  imports Repo_Users
begin

text \<open>
  \<open>cm-db/src/repo/oauth.rs\<close>: federated identities, keyed by provider and subject. The address the
  provider asserted is stored but no query of the file reads it; \<open>oauth_lookup_ignores_email\<close> says so.
\<close>

definition provider_parse :: "ustr \<Rightarrow> provider option" where
  "provider_parse value = find (\<lambda>p. provider_str p = value) [Google, Facebook]"

record oauth_identity =
  oi_id :: uuid
  oi_user_id :: uuid
  oi_provider :: provider
  oi_subject :: ustr
  oi_created_at :: time

definition identity_of_row :: "provider \<Rightarrow> oauth_row \<Rightarrow> oauth_identity" where
  "identity_of_row p r =
     \<lparr>oi_id = o_id r, oi_user_id = o_user_id r, oi_provider = p, oi_subject = o_subject r,
      oi_created_at = o_created_at r\<rparr>"

definition oauth_find_by_subject :: "provider \<Rightarrow> ustr \<Rightarrow> oauth_identity option m" where
  "oauth_find_by_subject p subject =
     query (\<lambda>now d. map_option (identity_of_row p)
       (find (\<lambda>r. o_provider r = p \<and> o_subject r = subject) (oauth_identities d)))"

definition oauth_exists_for_user :: "uuid \<Rightarrow> provider \<Rightarrow> bool m" where
  "oauth_exists_for_user uid p =
     query (\<lambda>now d. \<exists>r \<in> set (oauth_identities d). o_user_id r = uid \<and> o_provider r = p)"

fun parse_providers :: "ustr list \<Rightarrow> provider list option" where
  "parse_providers [] = Some []"
| "parse_providers (v # vs) =
     (case (provider_parse v, parse_providers vs) of
        (Some p, Some ps) \<Rightarrow> Some (p # ps)
      | _ \<Rightarrow> None)"

definition oauth_providers_for_user :: "uuid \<Rightarrow> provider list m" where
  "oauth_providers_for_user uid =
     bind (query (\<lambda>now d. sort (map (\<lambda>r. provider_str (o_provider r))
             (filter (\<lambda>r. o_user_id r = uid) (oauth_identities d)))))
       (\<lambda>rows. case parse_providers rows of
          None \<Rightarrow> throw (internal ''unknown provider in oauth_identities'')
        | Some ps \<Rightarrow> ret ps)"

definition new_identity ::
  "time \<Rightarrow> uuid \<Rightarrow> uuid \<Rightarrow> provider \<Rightarrow> ustr \<Rightarrow> ustr option \<Rightarrow> ustr option \<Rightarrow> bool \<Rightarrow> oauth_row" where
  "new_identity now i uid p subject firebase_uid email verified =
     \<lparr>o_id = i, o_user_id = uid, o_provider = p, o_subject = subject,
      o_firebase_uid = firebase_uid, o_email_at_link = email,
      o_email_verified_at_link = verified, o_last_login_at = Some now, o_created_at = now\<rparr>"

definition oauth_insert ::
  "uuid \<Rightarrow> uuid \<Rightarrow> provider \<Rightarrow> ustr \<Rightarrow> ustr option \<Rightarrow> ustr option \<Rightarrow> bool \<Rightarrow> unit m" where
  "oauth_insert i uid p subject firebase_uid email verified =
     sql (\<lambda>now d.
       let row = new_identity now i uid p subject firebase_uid email verified in
       if \<not> oauth_check row then Inl (internal ''check constraint of oauth_identities'')
       else if i \<in> o_id ` set (oauth_identities d) then Inl (internal ''oauth_identities_pkey'')
       else if \<exists>r \<in> set (oauth_identities d). o_provider r = p \<and> o_subject r = subject then
         Inl (conflict ''That identity is already linked to an account.'')
       else if \<exists>r \<in> set (oauth_identities d). o_user_id r = uid \<and> o_provider r = p then
         Inl (conflict ''This account already has an identity with that provider.'')
       else if \<not> user_exists d uid then Inl (internal ''oauth_identities foreign key'')
       else Inr ((), d\<lparr>oauth_identities := oauth_identities d @ [row]\<rparr>))"

definition oauth_touch_login :: "uuid \<Rightarrow> unit m" where
  "oauth_touch_login i =
     execute (\<lambda>now d. d\<lparr>oauth_identities :=
       map (\<lambda>r. if o_id r = i then r\<lparr>o_last_login_at := Some now\<rparr> else r) (oauth_identities d)\<rparr>)"

subsection \<open>Writes keep the invariant\<close>

lemma keeps_oauth_reads [keeps_intros]:
  "keeps P (oauth_find_by_subject p s)" "keeps P (oauth_exists_for_user u p)"
  "keeps P (oauth_providers_for_user u)"
  by (auto simp: oauth_find_by_subject_def oauth_exists_for_user_def oauth_providers_for_user_def
      intro!: keeps_intros)

lemma keeps_oauth_insert [keeps_intros]: "keeps (db_ok L) (oauth_insert i uid p s f e v)"
  unfolding oauth_insert_def
proof (rule keeps_sql)
  fix now d x d'
  assume ok: "db_ok L d" and run: "(let row = new_identity now i uid p s f e v in
       if \<not> oauth_check row then Inl (internal ''check constraint of oauth_identities'')
       else if i \<in> o_id ` set (oauth_identities d) then Inl (internal ''oauth_identities_pkey'')
       else if \<exists>r \<in> set (oauth_identities d). o_provider r = p \<and> o_subject r = s then
         Inl (conflict ''That identity is already linked to an account.'')
       else if \<exists>r \<in> set (oauth_identities d). o_user_id r = uid \<and> o_provider r = p then
         Inl (conflict ''This account already has an identity with that provider.'')
       else if \<not> user_exists d uid then Inl (internal ''oauth_identities foreign key'')
       else Inr ((), d\<lparr>oauth_identities := oauth_identities d @ [row]\<rparr>)) = Inr (x, d')"
  show "db_ok L d'"
    using db_okD(6) [OF ok] ok run
    by (auto simp: Let_def oauth_ok_def new_identity_def split: if_splits intro!: db_ok_oauthI)
qed

lemma oauth_ok_map:
  assumes "oauth_ok d" and "\<And>r. o_provider (f r) = o_provider r" and "\<And>r. o_user_id (f r) = o_user_id r"
    and "\<And>r. o_subject (f r) = o_subject r"
    and "\<And>r. oauth_check r \<Longrightarrow> oauth_check (f r)"
  shows "oauth_ok (d\<lparr>oauth_identities := map f (oauth_identities d)\<rparr>)"
  using assms by (simp add: oauth_ok_def list_all_iff comp_def)

lemma keeps_oauth_touch_login [keeps_intros]: "keeps (db_ok L) (oauth_touch_login i)"
  unfolding oauth_touch_login_def
  by (intro keeps_execute db_ok_oauthI oauth_ok_map) (auto simp: oauth_check_def dest: db_okD)

subsection \<open>What the operations return\<close>

lemma provider_parse_str [simp]: "provider_parse (provider_str p) = Some p"
  by (cases p) (simp_all add: provider_parse_def lit_def)

lemma parse_providers_total: "set vs \<subseteq> range provider_str \<Longrightarrow> \<exists>ps. parse_providers vs = Some ps"
  by (induction vs) (auto split: option.splits)

lemma oauth_find_by_subject_SomeD:
  "oauth_find_by_subject p s w = (Inr (Some oi), w') \<Longrightarrow>
   w' = w\<lparr>w_calls := Suc (w_calls w)\<rparr> \<and>
   (\<exists>r \<in> set (oauth_identities (w_db w)). o_provider r = p \<and> o_subject r = s \<and>
      oi = identity_of_row p r)"
  by (auto simp: oauth_find_by_subject_def query_Inr_iff dest!: sym [of "Some oi"] find_Some_in)

lemma oauth_find_by_subject_NoneD:
  "oauth_find_by_subject p s w = (Inr None, w') \<Longrightarrow>
   w' = w\<lparr>w_calls := Suc (w_calls w)\<rparr> \<and>
   (\<forall>r \<in> set (oauth_identities (w_db w)). \<not> (o_provider r = p \<and> o_subject r = s))"
  by (auto simp: oauth_find_by_subject_def query_Inr_iff find_None_all dest!: sym [of None])

lemma oauth_insert_InrD:
  "oauth_insert i uid p s f e v w = (Inr x, w') \<Longrightarrow>
   user_exists (w_db w) uid \<and>
   w' = w\<lparr>w_calls := Suc (w_calls w), w_db := (w_db w)\<lparr>oauth_identities :=
     oauth_identities (w_db w) @ [new_identity (w_clock w) i uid p s f e v]\<rparr>\<rparr>"
  by (auto simp: oauth_insert_def sql_Inr_iff Let_def split: if_splits)

definition erase_emails :: "db \<Rightarrow> db" where
  "erase_emails d = d\<lparr>oauth_identities :=
     map (\<lambda>r. r\<lparr>o_email_at_link := None, o_email_verified_at_link := False\<rparr>) (oauth_identities d)\<rparr>"

text \<open>
  An identity is never found by its address: the address and the verification flag stored with
  an identity have no influence on which identity, and so which account, a sign-in resolves to.
\<close>

theorem oauth_lookup_ignores_email:
  "fst (oauth_find_by_subject p s (w\<lparr>w_db := erase_emails (w_db w)\<rparr>)) =
     fst (oauth_find_by_subject p s w)"
proof -
  have "map_option (identity_of_row p) (find (\<lambda>r. o_provider r = p \<and> o_subject r = s)
      (map (\<lambda>r. r\<lparr>o_email_at_link := None, o_email_verified_at_link := False\<rparr>) rs)) =
    map_option (identity_of_row p) (find (\<lambda>r. o_provider r = p \<and> o_subject r = s) rs)" for rs
    by (induction rs) (auto simp: identity_of_row_def)
  then show ?thesis
    by (simp add: oauth_find_by_subject_def query_def sql_def bind_def round_trip_def erase_emails_def
        split: option.splits)
qed

end
