(* ===== verification/Repo_Audit.thy ===== *)
theory Repo_Audit
  imports Repo_Users "HOL-Library.Product_Lexorder"
begin

text \<open>\<open>cm-db/src/repo/audit.rs\<close>: the append-only audit log.\<close>

record audit_event =
  ev_actor_user_id :: "uuid option"
  ev_actor_kind :: actor_kind
  ev_action :: ustr
  ev_subject_table :: ustr
  ev_subject_id :: "uuid option"
  ev_data :: json_object
  ev_request_id :: "ustr option"
  ev_ip_hash :: "bytes option"

definition audit_event_new :: "string \<Rightarrow> string \<Rightarrow> audit_event" where
  "audit_event_new action subject_table =
     \<lparr>ev_actor_user_id = None, ev_actor_kind = ActorUser, ev_action = lit action,
      ev_subject_table = lit subject_table, ev_subject_id = None, ev_data = [],
      ev_request_id = None, ev_ip_hash = None\<rparr>"

definition ev_actor :: "actor_kind \<Rightarrow> uuid option \<Rightarrow> audit_event \<Rightarrow> audit_event" where
  "ev_actor kind uid e = e\<lparr>ev_actor_kind := kind, ev_actor_user_id := uid\<rparr>"

definition ev_subject :: "uuid \<Rightarrow> audit_event \<Rightarrow> audit_event" where
  "ev_subject i e = e\<lparr>ev_subject_id := Some i\<rparr>"

definition ev_with_data :: "json_object \<Rightarrow> audit_event \<Rightarrow> audit_event" where
  "ev_with_data j e = e\<lparr>ev_data := j\<rparr>"

definition ev_with_request :: "ustr option \<Rightarrow> audit_event \<Rightarrow> audit_event" where
  "ev_with_request r e = e\<lparr>ev_request_id := r\<rparr>"

definition audit_row_of :: "time \<Rightarrow> uuid \<Rightarrow> audit_event \<Rightarrow> audit_row" where
  "audit_row_of now i e =
     \<lparr>a_id = i, a_actor_user_id = ev_actor_user_id e, a_actor_kind = ev_actor_kind e,
      a_action = ev_action e, a_subject_table = ev_subject_table e,
      a_subject_id = ev_subject_id e, a_data = ev_data e, a_request_id = ev_request_id e,
      a_ip_hash = ev_ip_hash e, a_created_at = now\<rparr>"

definition audit_record :: "audit_event \<Rightarrow> uuid m" where
  "audit_record e =
     bind new_id (\<lambda>i.
       sql (\<lambda>now d.
         let row = audit_row_of now i e in
         if \<not> audit_check row then Inl (internal ''check constraint of audit_log'')
         else if i \<in> a_id ` set (audit_log d) then Inl (internal ''audit_log_pkey'')
         else if (case ev_actor_user_id e of None \<Rightarrow> False | Some u \<Rightarrow> \<not> user_exists d u) then
           Inl (internal ''audit_log foreign key'')
         else Inr (i, d\<lparr>audit_log := audit_log d @ [row]\<rparr>)))"

definition audit_for_subject :: "ustr \<Rightarrow> uuid \<Rightarrow> nat \<Rightarrow> (ustr \<times> json_object) list m" where
  "audit_for_subject subject_table subject_id limit =
     query (\<lambda>now d. map (\<lambda>r. (a_action r, a_data r)) (take limit (rev
       (sort_key (\<lambda>r. (a_created_at r, a_id r))
         (filter (\<lambda>r. a_subject_table r = subject_table \<and> a_subject_id r = Some subject_id)
           (audit_log d))))))"

lemma audit_record_InrD:
  assumes "audit_record e w = (Inr i, w')"
  shows "w' = w\<lparr>w_next_id := Suc (w_next_id w), w_calls := Suc (w_calls w),
      w_db := (w_db w)\<lparr>audit_log := audit_log (w_db w) @ [audit_row_of (w_clock w) i e]\<rparr>\<rparr>"
  using assms by (auto simp: audit_record_def run_iffs Let_def split: if_splits)

lemma keeps_audit_record:
  assumes "\<And>d x. P d \<Longrightarrow> P (d\<lparr>audit_log := x\<rparr>)"
  shows "keeps P (audit_record e)"
  unfolding audit_record_def
  by (intro keeps_bind keeps_new_id keeps_sql) (auto simp: Let_def assms split: if_splits)

lemma keeps_audit_record_db_ok [keeps_intros]: "keeps (db_ok L) (audit_record e)"
  by (rule keeps_audit_record) simp

end
