(* ===== verification/Work_Queue.thy ===== *)
theory Work_Queue
  imports Db_Monad
begin

text \<open>
  What the two work queues (the email outbox and the geocode queue) share: choosing the due rows
  of a claim, updating the chosen ones, and the contract \<open>work_queue\<close> of a claim statement, from
  which it follows that no two claims, by any workers at any times, hand out the same row.
\<close>

text \<open>\<open>SELECT id ... WHERE due ORDER BY at LIMIT n\<close>, and \<open>UPDATE ... WHERE id IN ids\<close>.\<close>

definition due_rows :: "('r \<Rightarrow> bool) \<Rightarrow> ('r \<Rightarrow> time) \<Rightarrow> nat \<Rightarrow> 'r list \<Rightarrow> 'r list" where
  "due_rows due at limit rows = take limit (sort_key at (filter due rows))"

definition update_ids :: "('r \<Rightarrow> uuid) \<Rightarrow> uuid list \<Rightarrow> ('r \<Rightarrow> 'r) \<Rightarrow> 'r list \<Rightarrow> 'r list" where
  "update_ids key ids f rows = map (\<lambda>r. if key r \<in> set ids then f r else r) rows"

lemma due_rows_sound: "r \<in> set (due_rows due at n rows) \<Longrightarrow> r \<in> set rows \<and> due r"
  by (auto simp: due_rows_def dest!: in_set_takeD)

lemma length_due_rows: "length (due_rows due at n rows) \<le> n"
  by (simp add: due_rows_def)

lemma distinct_due_rows:
  assumes "distinct (map key rows)"
  shows "distinct (map key (due_rows due at n rows))"
proof -
  have "distinct (map key (filter due rows))" using assms by (rule distinct_map_filter)
  then have "distinct (map key (sort_key at (filter due rows)))"
    by (simp add: distinct_map inj_on_def)
  then show ?thesis by (simp add: due_rows_def flip: take_map)
qed

text \<open>When there is room, every due row is chosen.\<close>

lemma due_rows_all: "length (filter due rows) \<le> n \<Longrightarrow> set (due_rows due at n rows) = {r \<in> set rows. due r}"
  by (simp add: due_rows_def)

lemma update_ids_keys: "(\<And>r. key (f r) = key r) \<Longrightarrow> map key (update_ids key ids f rows) = map key rows"
  by (auto simp: update_ids_def)

lemma find_update_ids:
  assumes "\<And>r. key (f r) = key r"
  shows "find (\<lambda>r. key r = i) (update_ids key ids f rows) =
    map_option (\<lambda>r. if i \<in> set ids then f r else r) (find (\<lambda>r. key r = i) rows)"
  using assms by (induction rows) (auto simp: update_ids_def)

locale work_queue =
  fixes row :: "'s \<Rightarrow> uuid \<Rightarrow> 'r option"
    and claimable :: "time \<Rightarrow> 'r \<Rightarrow> bool"
    and busy :: "'r \<Rightarrow> bool"
    and inv :: "'s \<Rightarrow> bool"
    and claim :: "time \<times> ustr \<times> nat \<Rightarrow> 's \<Rightarrow> uuid list \<times> 's"
  assumes claim_inv: "inv s \<Longrightarrow> claim (now, worker, n) s = (ids, s') \<Longrightarrow> inv s'"
    and claim_distinct: "inv s \<Longrightarrow> claim (now, worker, n) s = (ids, s') \<Longrightarrow> distinct ids \<and> length ids \<le> n"
    and claim_due: "inv s \<Longrightarrow> claim (now, worker, n) s = (ids, s') \<Longrightarrow> i \<in> set ids \<Longrightarrow>
      \<exists>r. row s i = Some r \<and> claimable now r"
    and claim_locks: "inv s \<Longrightarrow> claim (now, worker, n) s = (ids, s') \<Longrightarrow> i \<in> set ids \<Longrightarrow>
      \<exists>r. row s' i = Some r \<and> busy r"
    and claim_frame: "inv s \<Longrightarrow> claim (now, worker, n) s = (ids, s') \<Longrightarrow> i \<notin> set ids \<Longrightarrow>
      row s' i = row s i"
    and busy_not_claimable: "busy r \<Longrightarrow> \<not> claimable now r"
begin

lemma busy_stays:
  assumes "inv s" and "claim (now, worker, n) s = (ids, s')" and "row s i = Some r" and "busy r"
  shows "i \<notin> set ids \<and> row s' i = Some r"
proof -
  have "i \<notin> set ids"
    using claim_due [OF assms(1,2), of i] assms(3,4) busy_not_claimable by auto
  with claim_frame [OF assms(1,2)] assms(3) show ?thesis by simp
qed

lemma busy_never_claimed:
  "inv s \<Longrightarrow> row s i = Some r \<Longrightarrow> busy r \<Longrightarrow> i \<notin> set (concat (fst (run_steps claim es s)))"
proof (induction es arbitrary: s)
  case (Cons e es)
  obtain now worker n where e: "e = (now, worker, n)" by (cases e)
  obtain ids s' where c: "claim e s = (ids, s')" by (cases "claim e s")
  with busy_stays [of s now worker n ids s' i r] Cons e claim_inv [of s now worker n ids s']
  show ?case by (simp del: run_steps.simps)
qed simp

lemma claims_disjoint: "inv s \<Longrightarrow> distinct (concat (fst (run_steps claim es s)))"
proof (induction es arbitrary: s)
  case (Cons e es)
  obtain now worker n where e: "e = (now, worker, n)" by (cases e)
  obtain ids s' where c: "claim e s = (ids, s')" by (cases "claim e s")
  have inv': "inv s'" using claim_inv Cons.prems c e by blast
  have "i \<notin> set (concat (fst (run_steps claim es s')))" if i: "i \<in> set ids" for i
    using claim_locks [of s now worker n ids s' i] Cons.prems c e i busy_never_claimed [OF inv'] by auto
  with Cons.IH [OF inv'] claim_distinct [of s now worker n ids s'] Cons.prems c e
  show ?case by (auto simp del: run_steps.simps)
qed simp

end

end
