(* ===== verification/Repo_Outbox.thy ===== *)
theory Repo_Outbox
  imports Work_Queue Repo_Users
begin

text \<open>
  \<open>cm-db/src/repo/email_outbox.rs\<close>: mail is enqueued in the transaction that creates the reason for
  it; workers claim due rows, mark them sent or failed, and requeue those of a crashed worker.
  \<open>outbox_step\<close> is the transition relation of the table and \<open>outbox_reachable\<close> its runs.
\<close>

record new_email =
  ne_user_id :: uuid
  ne_recipient :: ustr
  ne_kind :: mail_kind
  ne_subject :: ustr
  ne_body_text :: ustr
  ne_body_html :: "ustr option"
  ne_unsubscribe_url :: "ustr option"

record claimed =
  cl_id :: uuid
  cl_recipient :: ustr
  cl_subject :: ustr
  cl_body_text :: ustr
  cl_body_html :: "ustr option"
  cl_unsubscribe_url :: "ustr option"
  cl_attempts :: int

definition outbox_row_of :: "time \<Rightarrow> uuid \<Rightarrow> new_email \<Rightarrow> outbox_row" where
  "outbox_row_of now i e =
     \<lparr>m_id = i, m_user_id = ne_user_id e, m_recipient = ne_recipient e, m_kind = ne_kind e,
      m_subject = ne_subject e, m_body_text = ne_body_text e, m_body_html = ne_body_html e,
      m_unsubscribe_url = ne_unsubscribe_url e, m_status = Queued, m_attempts = 0,
      m_next_attempt_at = now, m_locked_at = None, m_locked_by = None,
      m_provider_message_id = None, m_last_error = None, m_updated_at = now\<rparr>"

definition enqueue_stmt :: "uuid \<Rightarrow> new_email \<Rightarrow> time \<Rightarrow> db \<Rightarrow> (uuid \<times> db) res" where
  "enqueue_stmt i e now d =
     (let row = outbox_row_of now i e in
      if \<not> outbox_check row then Inl (internal ''check constraint of email_outbox'')
      else if i \<in> m_id ` set (email_outbox d) then Inl (internal ''email_outbox_pkey'')
      else if \<not> user_exists d (ne_user_id e) then Inl (internal ''email_outbox foreign key'')
      else Inr (i, d\<lparr>email_outbox := email_outbox d @ [row]\<rparr>))"

definition outbox_enqueue :: "new_email \<Rightarrow> uuid m" where
  "outbox_enqueue e = bind new_id (\<lambda>i. sql (enqueue_stmt i e))"

definition claimed_of_row :: "outbox_row \<Rightarrow> claimed" where
  "claimed_of_row r =
     \<lparr>cl_id = m_id r, cl_recipient = m_recipient r, cl_subject = m_subject r,
      cl_body_text = m_body_text r, cl_body_html = m_body_html r,
      cl_unsubscribe_url = m_unsubscribe_url r, cl_attempts = m_attempts r\<rparr>"

definition mail_due :: "time \<Rightarrow> outbox_row \<Rightarrow> bool" where
  "mail_due now r \<longleftrightarrow> m_status r = Queued \<and> m_next_attempt_at r \<le> now"

definition lock_mail :: "time \<Rightarrow> ustr \<Rightarrow> outbox_row \<Rightarrow> outbox_row" where
  "lock_mail now worker r =
     r\<lparr>m_status := InProgress, m_locked_at := Some now, m_locked_by := Some worker,
       m_updated_at := now\<rparr>"

definition outbox_claim_stmt :: "ustr \<Rightarrow> nat \<Rightarrow> time \<Rightarrow> db \<Rightarrow> (claimed list \<times> db) res" where
  "outbox_claim_stmt worker limit now d =
     (let due = due_rows (mail_due now) m_next_attempt_at limit (email_outbox d) in
      if due \<noteq> [] \<and> 120 < length worker then
        Inl (internal ''check constraint of email_outbox'')
      else Inr (map claimed_of_row due,
        d\<lparr>email_outbox := update_ids m_id (map m_id due) (lock_mail now worker) (email_outbox d)\<rparr>))"

definition outbox_claim :: "ustr \<Rightarrow> nat \<Rightarrow> claimed list m" where
  "outbox_claim worker limit = sql (outbox_claim_stmt worker limit)"

definition find_mail :: "db \<Rightarrow> uuid \<Rightarrow> outbox_row option" where
  "find_mail d i = find (\<lambda>r. m_id r = i) (email_outbox d)"

definition set_mail :: "uuid \<Rightarrow> (outbox_row \<Rightarrow> outbox_row) \<Rightarrow> db \<Rightarrow> db" where
  "set_mail i f d = d\<lparr>email_outbox := update_ids m_id [i] f (email_outbox d)\<rparr>"

definition sent_mail :: "time \<Rightarrow> ustr option \<Rightarrow> outbox_row \<Rightarrow> outbox_row" where
  "sent_mail now pid r =
     r\<lparr>m_status := Sent, m_provider_message_id := pid, m_locked_at := None, m_locked_by := None,
       m_last_error := None, m_updated_at := now\<rparr>"

definition outbox_mark_sent :: "uuid \<Rightarrow> ustr option \<Rightarrow> unit m" where
  "outbox_mark_sent i pid =
     sql (\<lambda>now d.
       if find_mail d i \<noteq> None \<and> \<not> opt_len_le 200 pid then
         Inl (internal ''check constraint of email_outbox'')
       else Inr ((), set_mail i (sent_mail now pid) d))"

definition failed_mail :: "time \<Rightarrow> ustr \<Rightarrow> int \<Rightarrow> int \<Rightarrow> outbox_row \<Rightarrow> outbox_row" where
  "failed_mail now error backoff_secs max_attempts r =
     r\<lparr>m_attempts := m_attempts r + 1, m_last_error := Some error, m_locked_at := None,
       m_locked_by := None,
       m_status := (if max_attempts \<le> m_attempts r + 1 then Failed else Queued),
       m_next_attempt_at := now + secs backoff_secs, m_updated_at := now\<rparr>"

definition message_status_read :: "ustr \<Rightarrow> message_status" where
  "message_status_read status =
     (case find (\<lambda>c. message_status_str c = status) [Queued, InProgress, Sent, Failed] of
        None \<Rightarrow> Queued
      | Some c \<Rightarrow> c)"

definition mark_failed_stmt ::
  "uuid \<Rightarrow> ustr \<Rightarrow> int \<Rightarrow> int \<Rightarrow> time \<Rightarrow> db \<Rightarrow> (ustr \<times> db) res" where
  "mark_failed_stmt i error backoff_secs max_attempts now d =
     (case find_mail d i of
        None \<Rightarrow> Inl (internal ''no rows returned'')
      | Some r \<Rightarrow>
          if \<not> pg_int_ok (m_attempts r + 1) then Inl (internal ''integer out of range'')
          else Inr (message_status_str (m_status (failed_mail now error backoff_secs max_attempts r)),
                    set_mail i (failed_mail now error backoff_secs max_attempts) d))"

definition outbox_mark_failed :: "uuid \<Rightarrow> ustr \<Rightarrow> int \<Rightarrow> int \<Rightarrow> message_status m" where
  "outbox_mark_failed i error backoff_secs max_attempts =
     bind (sql (mark_failed_stmt i (take 2000 error) backoff_secs max_attempts))
       (\<lambda>status. ret (message_status_read status))"

definition stalled_mail :: "time \<Rightarrow> int \<Rightarrow> outbox_row \<Rightarrow> bool" where
  "stalled_mail now stale_after_secs r \<longleftrightarrow>
     m_status r = InProgress \<and>
     (case m_locked_at r of None \<Rightarrow> False | Some t \<Rightarrow> t < now - secs stale_after_secs)"

definition requeued_mail :: "time \<Rightarrow> outbox_row \<Rightarrow> outbox_row" where
  "requeued_mail now r =
     r\<lparr>m_status := Queued, m_locked_at := None, m_locked_by := None, m_updated_at := now\<rparr>"

definition requeue_mail :: "time \<Rightarrow> int \<Rightarrow> db \<Rightarrow> db" where
  "requeue_mail now stale_after_secs d =
     d\<lparr>email_outbox := map (\<lambda>r. if stalled_mail now stale_after_secs r
         then requeued_mail now r else r) (email_outbox d)\<rparr>"

definition outbox_requeue_stalled :: "int \<Rightarrow> nat m" where
  "outbox_requeue_stalled stale_after_secs =
     sql (\<lambda>now d. Inr (length (filter (stalled_mail now stale_after_secs) (email_outbox d)),
                       requeue_mail now stale_after_secs d))"

text \<open>\<open>SELECT status, count(*) ... GROUP BY status ORDER BY status\<close>.\<close>

definition count_by :: "ustr list \<Rightarrow> (ustr \<times> nat) list" where
  "count_by vs = map (\<lambda>v. (v, count_list vs v)) (sort (remdups vs))"

definition outbox_depth :: "(ustr \<times> nat) list m" where
  "outbox_depth = query (\<lambda>now d. count_by (map (\<lambda>r. message_status_str (m_status r)) (email_outbox d)))"

definition outbox_status_of :: "uuid \<Rightarrow> (ustr \<times> int \<times> ustr option) option m" where
  "outbox_status_of i =
     query (\<lambda>now d. map_option (\<lambda>r. (message_status_str (m_status r), m_attempts r, m_last_error r))
       (find_mail d i))"

subsection \<open>Frames and inversion\<close>

lemma keeps_outbox [keeps_intros]:
  "keeps (db_ok L) (outbox_enqueue e)" "keeps (db_ok L) (outbox_claim worker n)"
  "keeps (db_ok L) (outbox_mark_sent i pid)" "keeps (db_ok L) (outbox_mark_failed i err b k)"
  "keeps (db_ok L) (outbox_requeue_stalled s)"
  by (auto simp: outbox_enqueue_def outbox_claim_def outbox_mark_sent_def outbox_mark_failed_def
      outbox_requeue_stalled_def enqueue_stmt_def outbox_claim_stmt_def mark_failed_stmt_def
      set_mail_def requeue_mail_def Let_def
      intro!: keeps_intros keeps_sql split: if_splits option.splits)

lemma outbox_enqueue_InrD:
  assumes "outbox_enqueue e w = (Inr i, w')"
  shows "w' = w\<lparr>w_next_id := Suc (w_next_id w), w_calls := Suc (w_calls w),
      w_db := (w_db w)\<lparr>email_outbox := email_outbox (w_db w) @ [outbox_row_of (w_clock w) i e]\<rparr>\<rparr>"
  using assms by (auto simp: outbox_enqueue_def enqueue_stmt_def run_iffs Let_def split: if_splits)

lemma message_status_read_str [simp]: "message_status_read (message_status_str s) = s"
  by (cases s) (simp_all add: message_status_read_def lit_def)

lemma update_ids_single: "update_ids key [i] f rows = map (\<lambda>r. if key r = i then f r else r) rows"
  by (simp add: update_ids_def)

lemma find_set_mail:
  "(\<And>r. m_id (f r) = m_id r) \<Longrightarrow>
   find_mail (set_mail i f d) j = map_option (\<lambda>r. if j = i then f r else r) (find_mail d j)"
  by (simp add: find_mail_def set_mail_def find_update_ids)

subsection \<open>Claims are exclusive\<close>

definition mail_ids_distinct :: "db \<Rightarrow> bool" where
  "mail_ids_distinct d \<longleftrightarrow> distinct (map m_id (email_outbox d))"

text \<open>One claim as a step: its input is the time, the worker's name and the limit.\<close>

definition outbox_claim_step :: "time \<times> ustr \<times> nat \<Rightarrow> db \<Rightarrow> uuid list \<times> db" where
  "outbox_claim_step e d =
     (case e of (now, worker, limit) \<Rightarrow>
        (case outbox_claim_stmt worker limit now d of
           Inl err \<Rightarrow> ([], d)
         | Inr (cs, d') \<Rightarrow> (map cl_id cs, d')))"

lemma outbox_claim_step_iff:
  "outbox_claim_step (now, worker, n) d = (ids, d') \<longleftrightarrow>
     (let due = due_rows (mail_due now) m_next_attempt_at n (email_outbox d) in
      if due \<noteq> [] \<and> 120 < length worker then ids = [] \<and> d' = d
      else ids = map m_id due \<and>
        d' = d\<lparr>email_outbox := update_ids m_id ids (lock_mail now worker) (email_outbox d)\<rparr>)"
  by (auto simp: outbox_claim_step_def outbox_claim_stmt_def Let_def claimed_of_row_def comp_def)

lemma lock_mail_id [simp]: "m_id (lock_mail now worker r) = m_id r"
  by (simp add: lock_mail_def)

interpretation outbox_queue: work_queue find_mail mail_due "\<lambda>r. m_status r = InProgress"
  mail_ids_distinct outbox_claim_step
proof unfold_locales
  fix s now worker n ids s' i
  assume inv: "mail_ids_distinct s" and c: "outbox_claim_step (now, worker, n) s = (ids, s')"
  then have keys: "map m_id (email_outbox s') = map m_id (email_outbox s)"
    by (auto simp: outbox_claim_step_iff Let_def update_ids_keys split: if_splits)
  then show "mail_ids_distinct s'" using inv by (simp add: mail_ids_distinct_def)
  show "distinct ids \<and> length ids \<le> n"
    using c inv by (auto simp: outbox_claim_step_iff Let_def mail_ids_distinct_def distinct_due_rows
        length_due_rows split: if_splits)
  have due: "\<exists>r. find_mail s i = Some r \<and> mail_due now r \<and>
      find_mail s' i = Some (lock_mail now worker r)" if i: "i \<in> set ids"
  proof -
    from c i obtain r where r: "r \<in> set (due_rows (mail_due now) m_next_attempt_at n (email_outbox s))"
        "m_id r = i" and s': "s' = s\<lparr>email_outbox := update_ids m_id ids (lock_mail now worker) (email_outbox s)\<rparr>"
      by (auto simp: outbox_claim_step_iff Let_def split: if_splits)
    from due_rows_sound [OF r(1)] have m: "r \<in> set (email_outbox s)" "mail_due now r" by auto
    have "find_mail s i = Some r"
      using find_unique [of m_id "email_outbox s" r] inv m r(2)
      by (simp add: mail_ids_distinct_def find_mail_def)
    moreover from this have "find_mail s' i = Some (lock_mail now worker r)"
      using i by (simp add: s' find_mail_def find_update_ids)
    ultimately show ?thesis using m(2) by blast
  qed
  show "i \<in> set ids \<Longrightarrow> \<exists>r. find_mail s i = Some r \<and> mail_due now r" using due by blast
  show "i \<in> set ids \<Longrightarrow> \<exists>r. find_mail s' i = Some r \<and> m_status r = InProgress"
    using due by (auto simp: lock_mail_def)
  show "i \<notin> set ids \<Longrightarrow> find_mail s' i = find_mail s i"
    using c by (auto simp: outbox_claim_step_iff Let_def find_mail_def find_update_ids option.map_ident
        split: if_splits)
qed (simp add: mail_due_def)


definition example_mail :: "uuid \<Rightarrow> outbox_row" where
  "example_mail i = outbox_row_of 0 i \<lparr>ne_user_id = 9, ne_recipient = lit ''a@b.c'',
     ne_kind = KLoginCode, ne_subject = [], ne_body_text = [], ne_body_html = None,
     ne_unsubscribe_url = None\<rparr>"


subsection \<open>The life of a message\<close>

inductive outbox_step :: "db \<Rightarrow> db \<Rightarrow> bool" where
  step_enqueue: "enqueue_stmt i e now d = Inr (x, d') \<Longrightarrow> outbox_step d d'"
| step_claim: "outbox_claim_stmt worker n now d = Inr (cs, d') \<Longrightarrow> outbox_step d d'"
| step_sent: "opt_len_le 200 pid \<Longrightarrow> outbox_step d (set_mail i (sent_mail now pid) d)"
| step_failed: "mark_failed_stmt i (take 2000 err) backoff k now d = Inr (st, d') \<Longrightarrow> outbox_step d d'"
| step_requeue: "outbox_step d (requeue_mail now stale d)"

inductive outbox_reachable :: "db \<Rightarrow> bool" where
  start: "email_outbox d = [] \<Longrightarrow> outbox_reachable d"
| step: "outbox_reachable d \<Longrightarrow> outbox_step d d' \<Longrightarrow> outbox_reachable d'"

inductive_cases outbox_stepE: "outbox_step d d'"

text \<open>A message is locked exactly while it is in progress, and its row passes the constraints.\<close>

definition mail_ok :: "outbox_row \<Rightarrow> bool" where
  "mail_ok r \<longleftrightarrow> (m_status r = InProgress) = (m_locked_at r \<noteq> None) \<and> outbox_check r"

definition outbox_ok :: "db \<Rightarrow> bool" where
  "outbox_ok d \<longleftrightarrow> mail_ids_distinct d \<and> list_all mail_ok (email_outbox d)"

lemma outbox_ok_map:
  assumes "outbox_ok d" and "\<And>r. m_id (f r) = m_id r" and "\<And>r. mail_ok r \<Longrightarrow> mail_ok (f r)"
  shows "outbox_ok (d\<lparr>email_outbox := map f (email_outbox d)\<rparr>)"
  using assms by (simp add: outbox_ok_def mail_ids_distinct_def list_all_iff comp_def)

lemma outbox_ok_update_ids:
  assumes "outbox_ok d" and "\<And>r. m_id (f r) = m_id r"
    and "\<And>r. r \<in> set (email_outbox d) \<Longrightarrow> m_id r \<in> set ids \<Longrightarrow> mail_ok r \<Longrightarrow> mail_ok (f r)"
  shows "outbox_ok (d\<lparr>email_outbox := update_ids m_id ids f (email_outbox d)\<rparr>)"
proof -
  have "map m_id (update_ids m_id ids f (email_outbox d)) = map m_id (email_outbox d)"
    using assms(2) by (rule update_ids_keys)
  moreover have "list_all mail_ok (update_ids m_id ids f (email_outbox d))"
    using assms(1,3) by (auto simp: update_ids_def outbox_ok_def list_all_iff)
  ultimately show ?thesis using assms(1) by (simp add: outbox_ok_def mail_ids_distinct_def)
qed

lemma outbox_step_ok: "outbox_step d d' \<Longrightarrow> outbox_ok d \<Longrightarrow> outbox_ok d'"
proof (erule outbox_stepE)
  fix i e now x
  assume ok: "outbox_ok d" and "enqueue_stmt i e now d = Inr (x, d')"
  then show "outbox_ok d'"
    by (auto simp: enqueue_stmt_def Let_def outbox_ok_def mail_ids_distinct_def mail_ok_def
        outbox_row_of_def split: if_splits)
next
  fix worker n now cs
  assume ok: "outbox_ok d" and c: "outbox_claim_stmt worker n now d = Inr (cs, d')"
  let ?due = "due_rows (mail_due now) m_next_attempt_at n (email_outbox d)"
  from c have d': "d' = d\<lparr>email_outbox := update_ids m_id (map m_id ?due) (lock_mail now worker) (email_outbox d)\<rparr>"
    and len: "?due \<noteq> [] \<Longrightarrow> length worker \<le> 120"
    by (auto simp: outbox_claim_stmt_def Let_def split: if_splits)
  have "mail_ok (lock_mail now worker r)" if "m_id r \<in> set (map m_id ?due)" "mail_ok r" for r
    using that len by (cases ?due) (auto simp: mail_ok_def lock_mail_def outbox_check_def opt_len_le_def)
  then show "outbox_ok d'" unfolding d' using ok by (intro outbox_ok_update_ids) auto
next
  fix pid i now
  assume ok: "outbox_ok d" and "opt_len_le 200 pid" and "d' = set_mail i (sent_mail now pid) d"
  then show "outbox_ok d'" unfolding set_mail_def
    by (simp only:) (rule outbox_ok_update_ids, auto simp: sent_mail_def mail_ok_def outbox_check_def opt_len_le_def)
next
  fix i err b k now st
  assume ok: "outbox_ok d" and f: "mark_failed_stmt i (take 2000 err) b k now d = Inr (st, d')"
  then have d': "d' = set_mail i (failed_mail now (take 2000 err) b k) d"
    by (auto simp: mark_failed_stmt_def split: option.splits if_splits)
  show "outbox_ok d'" unfolding d' set_mail_def using ok
    by (rule outbox_ok_update_ids) (auto simp: failed_mail_def mail_ok_def outbox_check_def opt_len_le_def)
next
  fix now stale
  assume ok: "outbox_ok d" and "d' = requeue_mail now stale d"
  then show "outbox_ok d'" unfolding requeue_mail_def
    by (simp only:) (rule outbox_ok_map, auto simp: requeued_mail_def mail_ok_def outbox_check_def opt_len_le_def)
qed

lemma outbox_reachable_ok: "outbox_reachable d \<Longrightarrow> outbox_ok d"
  by (induction rule: outbox_reachable.induct)
    (auto simp: outbox_ok_def mail_ids_distinct_def dest: outbox_step_ok [unfolded outbox_ok_def mail_ids_distinct_def])

text \<open>
  A crashed worker loses no mail: in every reachable state of the outbox, each message in
  progress carries the time of its claim, and any requeue that runs more than the stale interval
  after that time makes it claimable again at once, with nothing else about it changed. No message
  is ever both claimable and in progress, and message ids stay unique.
\<close>

theorem crashed_worker_loses_no_mail:
  assumes "outbox_reachable d" and "r \<in> set (email_outbox d)" and "m_status r = InProgress"
  shows "\<exists>t. m_locked_at r = Some t \<and>
    (\<forall>now stale. t < now - secs stale \<longrightarrow>
       find_mail (requeue_mail now stale d) (m_id r) =
         Some (r\<lparr>m_status := Queued, m_locked_at := None, m_locked_by := None, m_updated_at := now\<rparr>)) \<and>
    (\<forall>now. \<not> mail_due now r)"
proof -
  from outbox_reachable_ok [OF assms(1)] have dist: "distinct (map m_id (email_outbox d))"
    and ok: "mail_ok r" using assms(2) by (auto simp: outbox_ok_def mail_ids_distinct_def list_all_iff)
  from ok assms(3) obtain t where t: "m_locked_at r = Some t" by (auto simp: mail_ok_def)
  have "find_mail (requeue_mail now stale d) (m_id r) = Some (requeued_mail now r)"
    if late: "t < now - secs stale" for now stale
  proof -
    let ?rows = "map (\<lambda>r. if stalled_mail now stale r then requeued_mail now r else r) (email_outbox d)"
    have "map m_id ?rows = map m_id (email_outbox d)" by (auto simp: requeued_mail_def)
    then have "distinct (map m_id ?rows)" using dist by metis
    moreover have "requeued_mail now r \<in> set ?rows"
      using assms(2,3) t late by (force simp: stalled_mail_def)
    ultimately have "find (\<lambda>y. m_id y = m_id (requeued_mail now r)) ?rows = Some (requeued_mail now r)"
      by (rule find_unique)
    then show ?thesis by (simp add: find_mail_def requeue_mail_def requeued_mail_def)
  qed
  with t assms(3) show ?thesis by (auto simp: requeued_mail_def mail_due_def)
qed

definition claimed_example :: db where
  "claimed_example = snd (outbox_claim_step (5, lit ''w'', 1) (empty_db\<lparr>users := [new_user_row 0 9 None (lit ''A'') Homeowner],
     email_outbox := [example_mail 1]\<rparr>))"

theorem crashed_worker_loses_no_mail_witness:
  "\<exists>r. r \<in> set (email_outbox claimed_example) \<and> m_status r = InProgress \<and>
     (\<exists>y. find_mail (requeue_mail (secs 700) 600 claimed_example) (m_id r) = Some y \<and>
          m_status y = Queued)"
proof -
  let ?u = "new_user_row 0 9 None (lit ''A'') Homeowner"
  let ?d0 = "empty_db\<lparr>users := [?u]\<rparr>"
  let ?d1 = "empty_db\<lparr>users := [?u], email_outbox := [example_mail 1]\<rparr>"
  let ?e = "\<lparr>ne_user_id = 9, ne_recipient = lit ''a@b.c'', ne_kind = KLoginCode, ne_subject = [],
     ne_body_text = [], ne_body_html = None, ne_unsubscribe_url = None\<rparr>"
  have "outbox_reachable ?d0" by (rule outbox_reachable.start) (simp add: empty_db_def)
  moreover have "enqueue_stmt 1 ?e 0 ?d0 = Inr (1, ?d1)"
    by (simp add: enqueue_stmt_def outbox_row_of_def outbox_check_def opt_len_le_def user_exists_def
        new_user_row_def example_mail_def lit_def empty_db_def)
  ultimately have r1: "outbox_reachable ?d1" by (blast intro: outbox_reachable.step step_enqueue)
  have "outbox_claim_stmt (lit ''w'') 1 5 ?d1 = Inr ([claimed_of_row (example_mail 1)],
      ?d1\<lparr>email_outbox := [lock_mail 5 (lit ''w'') (example_mail 1)]\<rparr>)"
    by (simp add: outbox_claim_stmt_def due_rows_def mail_due_def example_mail_def outbox_row_of_def
        lit_def update_ids_def)
  then have "outbox_claim_stmt (lit ''w'') 1 5 ?d1 = Inr ([claimed_of_row (example_mail 1)], claimed_example)"
    and rows: "email_outbox claimed_example = [lock_mail 5 (lit ''w'') (example_mail 1)]"
    by (simp_all add: claimed_example_def outbox_claim_step_def)
  then have reach: "outbox_reachable claimed_example"
    using r1 by (blast intro: outbox_reachable.step step_claim)
  let ?r = "lock_mail 5 (lit ''w'') (example_mail 1)"
  have r: "?r \<in> set (email_outbox claimed_example)" "m_status ?r = InProgress" "m_locked_at ?r = Some 5"
    by (simp_all add: rows lock_mail_def)
  from crashed_worker_loses_no_mail [OF reach r(1,2)] r(3)
  have "find_mail (requeue_mail (secs 700) 600 claimed_example) (m_id ?r) =
      Some (?r\<lparr>m_status := Queued, m_locked_at := None, m_locked_by := None, m_updated_at := secs 700\<rparr>)"
    by (auto simp: secs_def)
  with r show ?thesis by (intro exI [of _ ?r]) simp
qed

end
