(* ===== verification/Auth_Hash.thy ===== *)
theory Auth_Hash
  imports Concrete
begin

text \<open>
  \<open>cm-auth/src/hash.rs\<close> and \<open>token.rs\<close>: digests and opaque tokens. The domain of a keyed digest and
  its value are separated by a zero byte.
\<close>

definition digest_token :: "lib \<Rightarrow> ustr \<Rightarrow> bytes" where
  "digest_token L token = sha256 L (as_bytes token)"

text \<open>The three \<open>update\<close> calls feed the MAC the concatenation of their arguments.\<close>

definition mac_input :: "string \<Rightarrow> ustr \<Rightarrow> bytes" where
  "mac_input domain value = as_bytes (lit domain) @ [0] @ as_bytes value"

definition peppered :: "lib \<Rightarrow> ustr \<Rightarrow> string \<Rightarrow> ustr \<Rightarrow> bytes" where
  "peppered L pepper domain value = hmac_sha256 L (as_bytes pepper) (mac_input domain value)"

definition hash_ip :: "lib \<Rightarrow> ustr \<Rightarrow> ustr \<Rightarrow> bytes" where
  "hash_ip L pepper address = peppered L pepper ''ip'' address"

definition rate_limit_bucket :: "lib \<Rightarrow> ustr \<Rightarrow> ustr \<Rightarrow> bytes" where
  "rate_limit_bucket L pepper bucket = peppered L pepper ''ratelimit'' bucket"

definition unsubscribe_token :: "lib \<Rightarrow> ustr \<Rightarrow> ustr \<Rightarrow> ustr" where
  "unsubscribe_token L pepper saved_search_id =
     b64url_encode L (peppered L pepper ''unsubscribe:saved_search'' saved_search_id)"

definition verify_unsubscribe :: "lib \<Rightarrow> ustr \<Rightarrow> ustr \<Rightarrow> ustr \<Rightarrow> bool" where
  "verify_unsubscribe L pepper saved_search_id presented \<longleftrightarrow>
     as_bytes (unsubscribe_token L pepper saved_search_id) = as_bytes presented"

definition token_bytes :: nat where
  "token_bytes = 32"

definition token_generate :: "lib \<Rightarrow> ustr m" where
  "token_generate L = bind (getrandom token_bytes) (\<lambda>bytes. ret (b64url_encode L bytes))"

lemma keeps_token_generate [keeps_intros]: "keeps P (token_generate L)"
  by (simp add: token_generate_def keeps_intros)

lemma token_generate_world:
  "token_generate L w = (r, w') \<Longrightarrow> w' = w\<lparr>w_draws := Suc (w_draws w)\<rparr>"
  by (cases r) (auto simp: token_generate_def run_iffs dest: getrandom_world)

lemma token_generate_Inr: "token_generate L w = (Inr t, w') \<Longrightarrow> \<exists>b. t = b64url_encode L b \<and> length b = 32"
  by (auto simp: token_generate_def token_bytes_def run_iffs getrandom_def split: option.splits)

subsection \<open>Domain separation\<close>

lemma utf8_char_nonzero: "0 \<in> set (utf8_char c) \<Longrightarrow> c < 2 ^ 21 \<Longrightarrow> c = 0"
proof -
  assume z: "0 \<in> set (utf8_char c)" and c: "c < 2 ^ 21"
  have nz: "(of_nat k :: byte) = 0 \<longleftrightarrow> k = 0" if "k < 256" for k
    using that by (auto simp: word_of_nat_eq_0_iff dest: dvd_imp_le)
  show ?thesis
  proof (cases "c < 128")
    case True
    with z nz [of c] show ?thesis by (simp add: utf8_char_def)
  next
    case False
    have "c div 262144 < 8" using c by (simp add: div_less_iff_less_mult)
    moreover have "c div 64 < 32" if "c < 2048" using that by (simp add: div_less_iff_less_mult)
    moreover have "c div 4096 < 16" if "c < 65536" using that by (simp add: div_less_iff_less_mult)
    moreover have "128 + k mod 64 < 256" for k :: nat by (simp add: less_le_trans [of _ "128 + 64"])
    ultimately show ?thesis
      using z False nz [of "192 + c div 64"] nz [of "128 + c mod 64"] nz [of "224 + c div 4096"]
        nz [of "128 + c div 64 mod 64"] nz [of "240 + c div 262144"] nz [of "128 + c div 4096 mod 64"]
      by (auto simp: utf8_char_def split: if_splits)
  qed
qed

text \<open>Text without a NUL character is separated from what follows by the zero byte.\<close>

definition nul_free :: "ustr \<Rightarrow> bool" where
  "nul_free s \<longleftrightarrow> list_all (\<lambda>c. c \<noteq> 0 \<and> c < 2 ^ 21) s"

lemma as_bytes_nonzero: "nul_free s \<Longrightarrow> 0 \<notin> set (as_bytes s)"
  using utf8_char_nonzero by (auto simp: nul_free_def as_bytes_def list_all_iff)

lemma zero_separated: "0 \<notin> set a \<Longrightarrow> 0 \<notin> set b \<Longrightarrow> a @ 0 # x = b @ 0 # y \<Longrightarrow> a = b \<and> x = (y :: bytes)"
proof (induction a arbitrary: b)
  case Nil
  then show ?case by (cases b) auto
next
  case (Cons c a)
  then show ?case by (cases b) auto
qed

text \<open>The domains of the program's keyed digests.\<close>

definition pepper_domains :: "string list" where
  "pepper_domains = [''ip'', ''ratelimit'', ''unsubscribe:saved_search'', ''csrf'', ''login_code'',
     ''email_verify'', ''device'']"

lemma as_bytes_ascii: "list_all (\<lambda>c. c < 128) s \<Longrightarrow> as_bytes s = map of_nat s"
  by (induction s) (auto simp: as_bytes_def utf8_char_def)

lemma as_bytes_ascii_inj:
  assumes "list_all (\<lambda>c. c < 128) s" and "list_all (\<lambda>c. c < 128) t" and "as_bytes s = as_bytes t"
  shows "s = t"
proof -
  have "(of_nat a :: byte) = of_nat b \<Longrightarrow> a = b" if "a < 128" "b < 128" for a b
    using that by (simp add: word_of_nat_eq_iff take_bit_nat_eq_self)
  then have "inj_on (of_nat :: nat \<Rightarrow> byte) (set s \<union> set t)"
    using assms(1,2) by (auto simp: inj_on_def list_all_iff)
  with assms show ?thesis by (simp add: as_bytes_ascii map_inj_on)
qed

lemma lit_inj: "lit a = lit b \<longleftrightarrow> a = b"
  unfolding lit_def by (rule inj_map_eq_map) (simp add: inj_def)

lemma pepper_domain_ascii: "d \<in> set pepper_domains \<Longrightarrow> list_all (\<lambda>c. 0 < c \<and> c < 128) (lit d)"
  by (auto simp: pepper_domains_def lit_def)

lemma pepper_domain_bytes:
  "d \<in> set pepper_domains \<Longrightarrow> nul_free (lit d)"
  "d1 \<in> set pepper_domains \<Longrightarrow> d2 \<in> set pepper_domains \<Longrightarrow> as_bytes (lit d1) = as_bytes (lit d2) \<Longrightarrow> d1 = d2"
proof -
  show "nul_free (lit d)" if "d \<in> set pepper_domains"
    using pepper_domain_ascii [OF that] by (auto simp: nul_free_def list_all_iff)
  assume "d1 \<in> set pepper_domains" "d2 \<in> set pepper_domains" "as_bytes (lit d1) = as_bytes (lit d2)"
  then have "lit d1 = lit d2"
    using pepper_domain_ascii by (intro as_bytes_ascii_inj) (auto simp: list_all_iff)
  then show "d1 = d2" by (simp add: lit_inj)
qed

text \<open>
  One pepper serves several uses without one being usable for another: the MAC inputs of two
  of the program's seven domains never coincide, whatever the values (also values that contain a
  zero byte), and within one domain two values give the same input only when their bytes agree.
\<close>

theorem peppered_domain_separation:
  assumes "d1 \<in> set pepper_domains" and "d2 \<in> set pepper_domains"
    and "mac_input d1 v1 = mac_input d2 v2"
  shows "d1 = d2 \<and> as_bytes v1 = as_bytes v2"
  using zero_separated [of "as_bytes (lit d1)" "as_bytes (lit d2)" "as_bytes v1" "as_bytes v2"] assms
    as_bytes_nonzero pepper_domain_bytes by (simp add: mac_input_def)

theorem peppered_domain_separation_witness:
  "mac_input ''csrf'' (lit ''x'') \<noteq> mac_input ''device'' (lit ''x'') \<and>
   mac_input ''csrf'' (lit ''x'') = mac_input ''csrf'' (lit ''x'')"
  using peppered_domain_separation [of "''csrf''" "''device''" "lit ''x''" "lit ''x''"]
    peppered_domain_separation [of "''csrf''" "''csrf''" "lit ''x''" "lit ''x''"]
  by (auto simp: pepper_domains_def)

end
