(* ===== verification/Core_Origin.thy ===== *)
theory Core_Origin
  imports Core_Error
begin

text \<open>
  \<open>cm-core/src/config.rs\<close>: the deployment environment, the log format and the strict parser of an
  origin, whose normal form is what CSRF checking compares.
\<close>

datatype environment = Development | Staging | Production

fun environment_str :: "environment \<Rightarrow> ustr" where
  "environment_str Development = lit ''development''"
| "environment_str Staging = lit ''staging''"
| "environment_str Production = lit ''production''"

definition is_production :: "environment \<Rightarrow> bool" where
  "is_production e \<longleftrightarrow> e = Production"

definition environment_of_str :: "ustr \<Rightarrow> environment option" where
  "environment_of_str s =
     (let v = to_ascii_lowercase (trim s) in
      if v \<in> {lit ''development'', lit ''dev'', lit ''local''} then Some Development
      else if v \<in> {lit ''staging'', lit ''stage''} then Some Staging
      else if v \<in> {lit ''production'', lit ''prod''} then Some Production
      else None)"

datatype log_format = Json | Pretty

definition log_format_of_str :: "ustr \<Rightarrow> log_format option" where
  "log_format_of_str s =
     (let v = to_ascii_lowercase (trim s) in
      if v = lit ''json'' then Some Json
      else if v \<in> {lit ''pretty'', lit ''text''} then Some Pretty
      else None)"

record origin =
  or_normalised :: ustr
  or_secure :: bool

definition split_host_port :: "ustr \<Rightarrow> ustr + (ustr \<times> ustr option)" where
  "split_host_port rest =
     (case strip_prefix [91] rest of
        Some inner \<Rightarrow>
          (case split_once 93 inner of
             None \<Rightarrow> Inl (lit ''unclosed '' @ [39, 91, 39] @ lit '' in an IPv6 host'')
           | Some (host, after) \<Rightarrow>
               if after = [] then Inr ([91] @ host @ [93], None)
               else (case strip_prefix [58] after of
                       Some port \<Rightarrow> Inr ([91] @ host @ [93], Some port)
                     | None \<Rightarrow> Inl (lit ''expected '' @ [39, 58, 39] @ lit '' or nothing after '' @ [39, 93, 39])))
      | None \<Rightarrow>
          (case split_once 58 rest of
             Some (host, port) \<Rightarrow>
               if 58 \<notin> set host \<and> 58 \<notin> set port then Inr (host, Some port)
               else Inl (lit ''bracket an IPv6 host, e.g. https://[::1]:8080'')
           | None \<Rightarrow> Inr (rest, None)))"

definition parse_port :: "ustr option \<Rightarrow> ustr + nat option" where
  "parse_port port_text =
     (case port_text of
        None \<Rightarrow> Inr None
      | Some t \<Rightarrow>
          (case parse_unsigned 16 t of
             None \<Rightarrow> Inl ([34] @ t @ [34] @ lit '' is not a valid port'')
           | Some n \<Rightarrow> Inr (Some n)))"

definition render_origin :: "ustr \<Rightarrow> bool \<Rightarrow> ustr \<Rightarrow> nat option \<Rightarrow> ustr" where
  "render_origin scheme secure host port =
     (let default_port = (if secure then 443 else 80) in
      case port of
        Some n \<Rightarrow> if n \<noteq> default_port then scheme @ lit ''://'' @ host @ [58] @ show_nat n
                  else scheme @ lit ''://'' @ host
      | None \<Rightarrow> scheme @ lit ''://'' @ host)"

definition origin_parse :: "ustr \<Rightarrow> ustr + origin" where
  "origin_parse raw0 =
     (let raw = trim raw0 in
      case split_once_str (lit ''://'') raw of
        None \<Rightarrow> Inl (lit ''expected scheme://host[:port]'')
      | Some (scheme0, rest) \<Rightarrow>
          let scheme = to_ascii_lowercase scheme0 in
          if scheme \<noteq> lit ''https'' \<and> scheme \<noteq> lit ''http'' then
            Inl (lit ''unsupported scheme '' @ [34] @ scheme @ [34] @ lit ''; use http or https'')
          else let secure = (scheme = lit ''https'') in
          if 47 \<in> set rest \<or> 63 \<in> set rest \<or> 35 \<in> set rest then
            Inl (lit ''must not contain a path, query or fragment (and no trailing slash)'')
          else if 64 \<in> set rest then Inl (lit ''must not contain credentials'')
          else if rest = [] then Inl (lit ''expected a host'')
          else
            (case split_host_port rest of
               Inl e \<Rightarrow> Inl e
             | Inr (host0, port_text) \<Rightarrow>
                 (case parse_port port_text of
                    Inl e \<Rightarrow> Inl e
                  | Inr port \<Rightarrow>
                      let host = to_ascii_lowercase host0 in
                      if host = [] \<or> host = [91, 93] then Inl (lit ''expected a host'')
                      else Inr \<lparr>or_normalised = render_origin scheme secure host port,
                                or_secure = secure\<rparr>)))"

subsection \<open>The normal form is a fixed point\<close>

lemma lower_idem [simp]: "to_ascii_lowercase (to_ascii_lowercase s) = to_ascii_lowercase s"
  by (simp add: to_ascii_lowercase_def ascii_lower_def)

lemma set_lower: "c \<in> set (to_ascii_lowercase s) \<Longrightarrow> c \<notin> set s \<Longrightarrow> 97 \<le> c \<and> c \<le> 122"
  by (auto simp: to_ascii_lowercase_def ascii_lower_def split: if_splits)

lemma lower_Nil_iff [simp]: "to_ascii_lowercase s = [] \<longleftrightarrow> s = []"
  by (simp add: to_ascii_lowercase_def)

lemma lower_append [simp]: "to_ascii_lowercase (a @ b) = to_ascii_lowercase a @ to_ascii_lowercase b"
  by (simp add: to_ascii_lowercase_def)

lemma lower_bracket [simp]: "to_ascii_lowercase (91 # s) = 91 # to_ascii_lowercase s"
  "to_ascii_lowercase [93] = [93]"
  by (simp_all add: to_ascii_lowercase_def ascii_lower_def)

lemma split_scheme [simp]:
  "split_once_str (lit ''://'') (lit ''https'' @ lit ''://'' @ r) = Some (lit ''https'', r)"
  "split_once_str (lit ''://'') (lit ''http'' @ lit ''://'' @ r) = Some (lit ''http'', r)"
  by (simp_all add: lit_def)

lemma split_once_str_append:
  "split_once_str p s = Some (a, b) \<Longrightarrow> s = a @ p @ b"
proof (induction p s arbitrary: a b rule: split_once_str.induct)
  case (2 p x xs)
  then show ?case
    by (auto simp: strip_prefix_Some_iff split: option.splits)
qed (simp split: if_splits)

lemma parse_unsigned_show_nat: "n < 2 ^ 16 \<Longrightarrow> parse_unsigned 16 (show_nat n) = Some n"
proof -
  assume n: "n < 2 ^ 16"
  obtain c r where s: "show_nat n = c # r" using show_nat_nonempty by (cases "show_nat n") auto
  then have "c \<noteq> 43" using set_show_nat [of c n] by auto
  with s n show ?thesis
    using parse_digits_show_nat [of n] by (simp add: parse_unsigned_def strip_plus_def)
qed

text \<open>Hosts and ports a successful parse produces are split back the same way.\<close>

lemma split_host_port_again:
  assumes "split_host_port rest = Inr (host, port)"
  shows "split_host_port (to_ascii_lowercase host) = Inr (to_ascii_lowercase host, None) \<and>
    (58 \<notin> set p \<longrightarrow> split_host_port (to_ascii_lowercase host @ [58] @ p) =
      Inr (to_ascii_lowercase host, Some p)) \<and> set host \<subseteq> set rest \<union> {91, 93}"
proof (cases "strip_prefix [91] rest")
  case (Some inner)
  with assms obtain h after where h: "split_once 93 inner = Some (h, after)" "host = [91] @ h @ [93]"
    by (auto simp: split_host_port_def split: option.splits if_splits prod.splits)
  from h(1) have "93 \<notin> set h" and inner: "inner = h @ 93 # after" by (auto simp: split_once_Some_iff)
  then have "93 \<notin> set (to_ascii_lowercase h)" using set_lower by fastforce
  then have s: "split_once 93 (to_ascii_lowercase h @ 93 # r) = Some (to_ascii_lowercase h, r)" for r
    by (rule split_once_append)
  from Some have "rest = 91 # inner" by (simp add: strip_prefix_Some_iff del: strip_prefix.simps)
  with inner h(2) have "set host \<subseteq> set rest \<union> {91, 93}" by auto
  with s [of "[]"] s [of "58 # p"] h(2) show ?thesis
    by (simp add: split_host_port_def)
next
  case None
  with assms have host: "58 \<notin> set host" "set host \<subseteq> set rest" "strip_prefix [91] host = None"
    by (auto simp: split_host_port_def split_once_None_iff split_once_Some_iff strip_prefix_None_iff
        split: option.splits if_splits prod.splits simp del: strip_prefix.simps)
  let ?h = "to_ascii_lowercase host"
  have n: "58 \<notin> set ?h" using host(1) set_lower by fastforce
  have hd: "strip_prefix [91] (?h @ r) = None" if "58 # q = r \<or> r = []" for r q
    using host(3) that by (cases host) (auto simp: to_ascii_lowercase_def ascii_lower_def split: if_splits)
  from n have "split_once 58 ?h = None" by (simp add: split_once_None_iff)
  moreover from n have "split_once 58 (?h @ 58 # p) = Some (?h, p)" by (rule split_once_append)
  ultimately show ?thesis
    using hd [of _ "[]"] hd [of p "58 # p"] n host(2) by (auto simp: split_host_port_def)
qed

lemma parse_port_bound: "parse_port t = Inr (Some n) \<Longrightarrow> n < 2 ^ 16"
  by (auto simp: parse_port_def parse_unsigned_def split: option.splits if_splits)

lemma show_nat_no: "58 \<notin> set (show_nat n)" "47 \<notin> set (show_nat n)" "63 \<notin> set (show_nat n)"
  "35 \<notin> set (show_nat n)" "64 \<notin> set (show_nat n)"
  using set_show_nat by fastforce+

lemma set_lit_scheme: "c \<in> set (lit ''https'') \<or> c \<in> set (lit ''http'') \<or> c \<in> set (lit ''://'') \<Longrightarrow>
  \<not> is_whitespace c"
  by (auto simp: lit_def is_whitespace_def)

lemma show_nat_not_space: "c \<in> set (show_nat n) \<Longrightarrow> \<not> is_whitespace c"
  using set_show_nat [of c n] by (auto simp: is_whitespace_def)

text \<open>Parsing what \<open>render_origin\<close> printed.\<close>

lemma origin_parse_render:
  assumes split: "split_host_port rest = Inr (host0, pt)" and port: "\<And>n. port = Some n \<Longrightarrow> n < 2 ^ 16"
    and scheme: "scheme = (if secure then lit ''https'' else lit ''http'')"
    and host: "host = to_ascii_lowercase host0" "host \<noteq> []" "host \<noteq> [91, 93]"
    and clean: "\<And>c. c \<in> set rest \<Longrightarrow> c \<notin> {47, 63, 35, 64} \<and> \<not> is_whitespace c"
  shows "origin_parse (render_origin scheme secure host port) =
    Inr \<lparr>or_normalised = render_origin scheme secure host port, or_secure = secure\<rparr>"
proof -
  define tail where "tail = (case port of Some n \<Rightarrow>
      if n \<noteq> (if secure then 443 else 80) then [58] @ show_nat n else [] | None \<Rightarrow> [])"
  define pt' where "pt' = (case port of Some n \<Rightarrow>
      if n \<noteq> (if secure then 443 else 80) then Some n else None | None \<Rightarrow> None)"
  have r: "render_origin scheme secure host port = scheme @ lit ''://'' @ host @ tail"
    by (simp add: render_origin_def tail_def Let_def split: option.splits)
  from split_host_port_again [OF split] have in_rest: "set host0 \<subseteq> set rest \<union> {91, 93}" by blast
  have host_clean: "c \<notin> {47, 63, 35, 64} \<and> \<not> is_whitespace c" if "c \<in> set host" for c
  proof (cases "c \<in> set host0")
    case True
    with in_rest have "c \<in> set rest \<or> c = 91 \<or> c = 93" by auto
    with clean show ?thesis by (elim disjE) (auto simp: is_whitespace_def)
  next
    case False
    with that host(1) set_lower [of c host0] have "97 \<le> c" "c \<le> 122" by auto
    then show ?thesis by (auto simp: is_whitespace_def)
  qed
  have tail_clean: "c \<notin> {47, 63, 35, 64} \<and> \<not> is_whitespace c" if "c \<in> set tail" for c
  proof -
    from that have "48 \<le> c \<and> c \<le> 58"
      using set_show_nat by (fastforce simp: tail_def split: option.splits if_splits)
    then show ?thesis by (auto simp: is_whitespace_def)
  qed
  have "trim (scheme @ lit ''://'' @ host @ tail) = scheme @ lit ''://'' @ host @ tail"
    using set_lit_scheme host_clean tail_clean by (intro trim_id) (auto simp: scheme split: if_splits)
  moreover have "split_once_str (lit ''://'') (scheme @ lit ''://'' @ host @ tail) = Some (scheme, host @ tail)"
    by (simp add: scheme)
  moreover have "to_ascii_lowercase scheme = scheme" "(scheme = lit ''https'') = secure"
      "scheme = lit ''https'' \<or> scheme = lit ''http''"
    by (auto simp: scheme lit_def to_ascii_lowercase_def ascii_lower_def)
  moreover have "split_host_port (host @ tail) = Inr (host, map_option show_nat pt')"
    using split_host_port_again [OF split, of "show_nat (the port)"] host(1) show_nat_no(1)
    by (auto simp: tail_def pt'_def split: option.splits)
  moreover have "parse_port (map_option show_nat pt') = Inr pt'"
    using port parse_unsigned_show_nat by (auto simp: parse_port_def pt'_def split: option.splits)
  moreover have "render_origin scheme secure host pt' = scheme @ lit ''://'' @ host @ tail"
    by (auto simp: render_origin_def pt'_def tail_def Let_def split: option.splits)
  moreover have "set (host @ tail) \<inter> {47, 63, 35, 64} = {}" using host_clean tail_clean by auto
  ultimately show ?thesis
    using host unfolding r origin_parse_def by (auto simp: Let_def)
qed

text \<open>
  The normal form of an origin is a fixed point: for every text without white space that parses
  as an origin, parsing its normal form succeeds and gives the same origin back, so the comparison
  of normal forms in the CSRF check does not depend on how the configured origin was spelled.
\<close>

theorem origin_normal_form_is_fixed:
  assumes "origin_parse raw = Inr p" and "list_all (\<lambda>c. \<not> is_whitespace c) raw"
  shows "origin_parse (or_normalised p) = Inr p"
proof -
  from assms(2) have t: "trim raw = raw" by (intro trim_id) (auto simp: list_all_iff)
  from assms(1) obtain scheme0 rest host0 pt port where
    raw: "split_once_str (lit ''://'') raw = Some (scheme0, rest)"
    and sch: "to_ascii_lowercase scheme0 = lit ''https'' \<or> to_ascii_lowercase scheme0 = lit ''http''"
    and clean: "set rest \<inter> {47, 63, 35, 64} = {}"
    and split: "split_host_port rest = Inr (host0, pt)" and port: "parse_port pt = Inr port"
    and host: "to_ascii_lowercase host0 \<noteq> []" "to_ascii_lowercase host0 \<noteq> [91, 93]"
    and p: "p = \<lparr>or_normalised = render_origin (to_ascii_lowercase scheme0)
        (to_ascii_lowercase scheme0 = lit ''https'') (to_ascii_lowercase host0) port,
      or_secure = (to_ascii_lowercase scheme0 = lit ''https'')\<rparr>"
    unfolding origin_parse_def t
    by (auto simp: Let_def split: option.splits prod.splits if_splits sum.splits)
  from split_once_str_append [OF raw] assms(2)
  have "\<And>c. c \<in> set rest \<Longrightarrow> c \<notin> {47, 63, 35, 64} \<and> \<not> is_whitespace c"
    using clean by (auto simp: list_all_iff)
  moreover have "\<And>n. port = Some n \<Longrightarrow> n < 2 ^ 16" using port parse_port_bound by blast
  ultimately have "origin_parse (render_origin (to_ascii_lowercase scheme0)
        (to_ascii_lowercase scheme0 = lit ''https'') (to_ascii_lowercase host0) port) = Inr p"
    unfolding p using sch host by (intro origin_parse_render [OF split]) auto
  then show ?thesis by (simp add: p)
qed

theorem origin_normal_form_is_fixed_witness:
  "origin_parse (lit ''HTTPS://App.Example:443'') =
     Inr \<lparr>or_normalised = lit ''https://app.example'', or_secure = True\<rparr> \<and>
   origin_parse (lit ''https://app.example'') =
     Inr \<lparr>or_normalised = lit ''https://app.example'', or_secure = True\<rparr>"
proof -
  have "origin_parse (lit ''HTTPS://App.Example:443'') =
      Inr \<lparr>or_normalised = lit ''https://app.example'', or_secure = True\<rparr>"
    by (simp add: origin_parse_def Let_def trim_def trim_by_def is_whitespace_def lit_def
        to_ascii_lowercase_def ascii_lower_def split_host_port_def parse_port_def parse_unsigned_def
        strip_plus_def parse_digits_def is_digit_def digits_value_def render_origin_def)
  moreover have "list_all (\<lambda>c. \<not> is_whitespace c) (lit ''HTTPS://App.Example:443'')"
    by (simp add: lit_def is_whitespace_def)
  ultimately show ?thesis using origin_normal_form_is_fixed by fastforce
qed

end
