(* ===== verification/Auth_Csrf.thy ===== *)
theory Auth_Csrf
  imports Auth_Hash Core_Origin
begin

text \<open>
  \<open>cm-auth/src/csrf.rs\<close>: the token of a session is derived from its id, and a state-changing request
  must echo it and, when it names an origin, name the site's. \<open>ct_eq\<close> is equality of bytes.
\<close>

datatype http_method = GET | HEAD | OPTIONS | TRACE | POST | PUT | DELETE | CONNECT | PATCH | Extension ustr

definition token_for_session :: "lib \<Rightarrow> ustr \<Rightarrow> uuid \<Rightarrow> ustr" where
  "token_for_session L pepper session_id =
     b64url_encode L (peppered L pepper ''csrf'' (uuid_to_string L session_id))"

definition method_requires_check :: "http_method \<Rightarrow> bool" where
  "method_requires_check meth \<longleftrightarrow> meth \<notin> {GET, HEAD, OPTIONS, TRACE}"

definition csrf_verify ::
  "lib \<Rightarrow> ustr \<Rightarrow> origin \<Rightarrow> uuid \<Rightarrow> ustr option \<Rightarrow> ustr option \<Rightarrow> unit res" where
  "csrf_verify L pepper site_origin session_id presented origin_header =
     (let origin_ok =
        (case origin_header of
           None \<Rightarrow> True
         | Some h \<Rightarrow>
             (case origin_parse h of
                Inl _ \<Rightarrow> False
              | Inr parsed \<Rightarrow> or_normalised parsed = or_normalised site_origin)) in
      if \<not> origin_ok then Inl Forbidden
      else
        (case presented of
           None \<Rightarrow> Inl Forbidden
         | Some p \<Rightarrow>
             if as_bytes (token_for_session L pepper session_id) = as_bytes p then Inr ()
             else Inl Forbidden))"

text \<open>
  The CSRF check accepts exactly the derived token from the right place: a request passes if and
  only if it presents the bytes of the token derived from its session and its origin, when it names
  one, parses to the site's normal form; everything else, a missing header or an unparsable origin
  included, is \<open>Forbidden\<close>; and every method but the four safe ones is checked.
\<close>

theorem csrf_accepts_exactly_the_derived_token:
  "(csrf_verify L pepper site sid presented org = Inr () \<longleftrightarrow>
      (\<exists>p. presented = Some p \<and> as_bytes p = as_bytes (token_for_session L pepper sid)) \<and>
      (org = None \<or> (\<exists>h q. org = Some h \<and> origin_parse h = Inr q \<and>
          or_normalised q = or_normalised site))) \<and>
   (csrf_verify L pepper site sid presented org = Inr () \<or>
    csrf_verify L pepper site sid presented org = Inl Forbidden) \<and>
   {meth. \<not> method_requires_check meth} = {GET, HEAD, OPTIONS, TRACE}"
  by (auto simp: csrf_verify_def Let_def method_requires_check_def split: option.splits sum.splits)

end
