(* ===== verification/Auth_Cookie.thy ===== *)
theory Auth_Cookie
  imports Cm_Prelude
begin

text \<open>
  \<open>cm-auth/src/cookie.rs\<close>: building \<open>Set-Cookie\<close> values and reading one cookie out of a \<open>Cookie\<close>
  header. A \<open>Duration\<close> is in microseconds here and \<open>as_secs\<close> rounds down.
\<close>

definition session_cookie_name :: ustr where
  "session_cookie_name = lit ''__Host-cm_session''"

definition csrf_cookie_name :: ustr where
  "csrf_cookie_name = lit ''__Host-cm_csrf''"

definition same_site :: ustr where
  "same_site = lit ''Lax''"

definition as_secs :: "duration \<Rightarrow> nat" where
  "as_secs d = nat (d div 1000000)"

definition cookie_build :: "ustr \<Rightarrow> ustr \<Rightarrow> duration \<Rightarrow> bool \<Rightarrow> ustr" where
  "cookie_build name value max_age http_only =
     name @ lit ''='' @ value @ lit ''; Path=/; Secure; SameSite='' @ same_site @
     lit ''; Max-Age='' @ show_nat (as_secs max_age) @
     (if http_only then lit ''; HttpOnly'' else [])"

definition cookie_session :: "ustr \<Rightarrow> duration \<Rightarrow> ustr" where
  "cookie_session token max_age = cookie_build session_cookie_name token max_age True"

definition cookie_csrf :: "ustr \<Rightarrow> duration \<Rightarrow> ustr" where
  "cookie_csrf token max_age = cookie_build csrf_cookie_name token max_age False"

definition cookie_clear :: "ustr \<Rightarrow> bool \<Rightarrow> ustr" where
  "cookie_clear name http_only = cookie_build name [] (secs 0) http_only"

definition clear_session :: ustr where
  "clear_session = cookie_clear session_cookie_name True"

definition clear_csrf :: ustr where
  "clear_csrf = cookie_clear csrf_cookie_name False"

fun find_map :: "('a \<Rightarrow> 'b option) \<Rightarrow> 'a list \<Rightarrow> 'b option" where
  "find_map f [] = None"
| "find_map f (x # xs) = (case f x of Some y \<Rightarrow> Some y | None \<Rightarrow> find_map f xs)"

definition cookie_pair :: "ustr \<Rightarrow> ustr \<Rightarrow> ustr option" where
  "cookie_pair name pair =
     (case split_once 61 pair of
        None \<Rightarrow> None
      | Some (key, value) \<Rightarrow> if trim key = name then Some (trim value) else None)"

definition cookie_read :: "ustr \<Rightarrow> ustr \<Rightarrow> ustr option" where
  "cookie_read header name = find_map (cookie_pair name) (split_on 59 header)"

subsection \<open>Reading back what a browser sends\<close>

text \<open>The \<open>Cookie\<close> header of a cookie jar: \<open>name=value\<close> pairs separated by \<open>"; "\<close> (RFC 6265, 5.4).\<close>

definition jar_pair :: "ustr \<times> ustr \<Rightarrow> ustr" where
  "jar_pair c = fst c @ [61] @ snd c"

fun cookie_header :: "(ustr \<times> ustr) list \<Rightarrow> ustr" where
  "cookie_header [] = []"
| "cookie_header [c] = jar_pair c"
| "cookie_header (c # cs) = jar_pair c @ [59, 32] @ cookie_header cs"

definition cookie_octets :: "ustr \<Rightarrow> bool" where
  "cookie_octets s \<longleftrightarrow> list_all (\<lambda>c. c \<noteq> 59 \<and> \<not> is_whitespace c) s"

definition jar_ok :: "(ustr \<times> ustr) list \<Rightarrow> bool" where
  "jar_ok jar \<longleftrightarrow> list_all (\<lambda>c. cookie_octets (fst c) \<and> 61 \<notin> set (fst c) \<and> cookie_octets (snd c)) jar"

lemma trim_space: "trim (32 # s) = trim s"
  by (simp add: trim_def trim_by_def is_whitespace_def)

lemma cookie_pair_jar:
  assumes "cookie_octets (fst c)" and "61 \<notin> set (fst c)" and "cookie_octets (snd c)"
  shows "cookie_pair n (jar_pair c) = (if fst c = n then Some (snd c) else None)"
    and "cookie_pair n (32 # jar_pair c) = (if fst c = n then Some (snd c) else None)"
proof -
  have t: "trim (fst c) = fst c" "trim (snd c) = snd c"
    using assms by (auto simp: cookie_octets_def list_all_iff intro!: trim_id)
  have "split_once 61 (fst c @ 61 # snd c) = Some (fst c, snd c)"
    using assms(2) by (rule split_once_append)
  with t show "cookie_pair n (jar_pair c) = (if fst c = n then Some (snd c) else None)"
    and "cookie_pair n (32 # jar_pair c) = (if fst c = n then Some (snd c) else None)"
    by (cases c; simp add: cookie_pair_def jar_pair_def trim_space)+
qed

lemma jar_pair_no_semicolon: "cookie_octets (fst c) \<Longrightarrow> cookie_octets (snd c) \<Longrightarrow> 59 \<notin> set (jar_pair c)"
  by (auto simp: jar_pair_def cookie_octets_def list_all_iff)

lemma split_on_header:
  "jar_ok (c # cs) \<Longrightarrow>
   split_on 59 (cookie_header (c # cs)) = jar_pair c # map (\<lambda>x. 32 # jar_pair x) cs"
proof (induction cs arbitrary: c)
  case Nil
  then show ?case by (simp add: jar_ok_def split_on_no_sep jar_pair_no_semicolon)
next
  case (Cons d ds)
  then have c: "59 \<notin> set (jar_pair c)" by (simp add: jar_ok_def jar_pair_no_semicolon)
  have "split_on 59 (cookie_header (c # d # ds)) = jar_pair c # split_on 59 (32 # cookie_header (d # ds))"
    using split_on_hd_append [OF c, of "32 # cookie_header (d # ds)"] by simp
  also have "split_on 59 (32 # cookie_header (d # ds)) = (32 # jar_pair d) # map (\<lambda>x. 32 # jar_pair x) ds"
    using Cons.IH [of d] Cons.prems by (simp add: jar_ok_def)
  finally show ?case by simp
qed

lemma find_map_pairs:
  "jar_ok cs \<Longrightarrow> find_map (cookie_pair n) (map (\<lambda>x. 32 # jar_pair x) cs) = map_of cs n"
  by (induction cs) (auto simp: jar_ok_def cookie_pair_jar)

text \<open>
  Round trip of the cookie header: for every cookie jar whose names and values use cookie
  octets, reading a name out of the header a browser sends returns the value of the first cookie
  of that name, and \<open>None\<close> exactly when the jar has no such cookie. A name that is a prefix, a
  suffix or a value of another is never confused with it.
\<close>

theorem cookie_header_roundtrip:
  assumes "jar_ok jar"
  shows "cookie_read (cookie_header jar) name = map_of jar name"
proof (cases jar)
  case Nil
  then show ?thesis by (simp add: cookie_read_def cookie_pair_def)
next
  case (Cons c cs)
  with assms have "jar_ok cs" by (simp add: jar_ok_def)
  from assms Cons show ?thesis
    by (simp only: cookie_read_def split_on_header find_map.simps)
      (auto simp: find_map_pairs [OF \<open>jar_ok cs\<close>] cookie_pair_jar jar_ok_def)
qed

theorem cookie_header_roundtrip_witness:
  "cookie_read (cookie_header [(lit ''a'', lit ''1''), (session_cookie_name, lit ''tok'')])
     session_cookie_name = Some (lit ''tok'')"
proof -
  have "jar_ok [(lit ''a'', lit ''1''), (session_cookie_name, lit ''tok'')]"
    by (simp add: jar_ok_def cookie_octets_def lit_def is_whitespace_def session_cookie_name_def)
  from cookie_header_roundtrip [OF this] show ?thesis
    by (simp add: session_cookie_name_def lit_def)
qed

text \<open>
  Every cookie the server sets is acceptable under the \<open>__Host-\<close> prefix rules: split at its
  semicolons it is the name and value followed by exactly \<open>Path=/\<close>, \<open>Secure\<close>, \<open>SameSite=Lax\<close> and
  \<open>Max-Age\<close> (no \<open>Domain\<close>); the session cookie is \<open>HttpOnly\<close> and the CSRF cookie is not; clearing
  keeps the attributes, empties the value and sets the age to zero.
\<close>

theorem cookie_attributes:
  assumes "59 \<notin> set token"
  shows "split_on 59 (cookie_session token age) =
      [session_cookie_name @ lit ''='' @ token, lit '' Path=/'', lit '' Secure'', lit '' SameSite=Lax'',
       lit '' Max-Age='' @ show_nat (as_secs age), lit '' HttpOnly''] \<and>
    split_on 59 (cookie_csrf token age) =
      [csrf_cookie_name @ lit ''='' @ token, lit '' Path=/'', lit '' Secure'', lit '' SameSite=Lax'',
       lit '' Max-Age='' @ show_nat (as_secs age)] \<and>
    split_on 59 clear_session =
      [session_cookie_name @ lit ''='', lit '' Path=/'', lit '' Secure'', lit '' SameSite=Lax'',
       lit '' Max-Age=0'', lit '' HttpOnly''] \<and>
    starts_with (lit ''__Host-'') (cookie_session token age) \<and>
    starts_with (lit ''__Host-'') (cookie_csrf token age)"
proof -
  have split: "split_on 59 (cookie_build (lit n) v age h) =
      [lit n @ lit ''='' @ v, lit '' Path=/'', lit '' Secure'', lit '' SameSite=Lax'',
       lit '' Max-Age='' @ show_nat (as_secs age)] @ (if h then [lit '' HttpOnly''] else [])"
    if n: "59 \<notin> set (lit n)" and v: "59 \<notin> set v" for n v h age
  proof -
    have d: "59 \<notin> set (show_nat k)" for k using set_show_nat by fastforce
    let ?m = "lit '' Max-Age='' @ show_nat (as_secs age)"
    have m: "59 \<notin> set ?m" using d by (simp add: lit_def)
    have tail: "split_on 59 (?m @ (if h then lit ''; HttpOnly'' else [])) =
        ?m # (if h then [lit '' HttpOnly''] else [])"
      using split_on_hd_append [OF m, of "lit '' HttpOnly''"] split_on_no_sep [OF m]
      by (auto simp: lit_def)
    have 1: "59 \<notin> set (lit n @ lit ''='' @ v)" using n v by (simp add: lit_def)
    have 2: "59 \<notin> set (lit '' Path=/'')" "59 \<notin> set (lit '' Secure'')" "59 \<notin> set (lit '' SameSite=Lax'')"
      by (simp_all add: lit_def)
    have "cookie_build (lit n) v age h = (lit n @ lit ''='' @ v) @ 59 # (lit '' Path=/'' @ 59 #
        (lit '' Secure'' @ 59 # (lit '' SameSite=Lax'' @ 59 #
          (?m @ (if h then lit ''; HttpOnly'' else [])))))"
      by (simp add: cookie_build_def same_site_def lit_def)
    then show ?thesis
      by (simp only: split_on_hd_append [OF 1] split_on_hd_append [OF 2(1)] split_on_hd_append [OF 2(2)]
          split_on_hd_append [OF 2(3)] tail) simp
  qed
  have names: "59 \<notin> set (lit ''__Host-cm_session'')" "59 \<notin> set (lit ''__Host-cm_csrf'')"
    by (simp_all add: lit_def)
  have zero: "lit '' Max-Age='' @ show_nat 0 = lit '' Max-Age=0''"
    by (simp add: lit_def show_nat.simps [of 0])
  have "starts_with (lit ''__Host-'') (lit ''__Host-'' @ r)" for r by (auto simp: starts_with_iff)
  moreover have "cookie_session token age = lit ''__Host-'' @ drop 7 (cookie_session token age)"
    and "cookie_csrf token age = lit ''__Host-'' @ drop 7 (cookie_csrf token age)"
    by (simp_all add: cookie_session_def cookie_csrf_def cookie_build_def session_cookie_name_def
        csrf_cookie_name_def lit_def)
  ultimately have st: "starts_with (lit ''__Host-'') (cookie_session token age)"
      "starts_with (lit ''__Host-'') (cookie_csrf token age)" by metis+
  show ?thesis
    using split [OF names(1) assms, of age True] split [OF names(2) assms, of age False]
      split [OF names(1), of "[]" "secs 0" True] st zero
    by (simp add: cookie_session_def cookie_csrf_def clear_session_def cookie_clear_def
        session_cookie_name_def csrf_cookie_name_def as_secs_def secs_def)
qed

theorem cookie_attributes_witness:
  "split_on 59 (cookie_csrf (lit ''t'') (secs 60)) =
      [csrf_cookie_name @ lit ''='' @ lit ''t'', lit '' Path=/'', lit '' Secure'', lit '' SameSite=Lax'',
       lit '' Max-Age='' @ show_nat (as_secs (secs 60))]"
  using cookie_attributes [of "lit ''t''" "secs 60"] by (simp add: lit_def)

end
