(* ===== verification/Auth_Login_Code.thy ===== *)
theory Auth_Login_Code
  imports Auth_Hash Auth_Cookie
begin

text \<open>
  \<open>cm-auth/src/login_code.rs\<close>: six-digit codes and the remembered-device cookie. The rejection
  sampling of \<open>generate_code\<close> is an unbounded loop in the source; here it carries a bound on its
  rounds, and \<open>generate_code_enough_fuel\<close> says that the bound is invisible whenever one of the
  draws within it is accepted.
\<close>

definition code_len :: nat where "code_len = 6"
definition code_ttl_secs :: int where "code_ttl_secs = 600"
definition max_code_attempts :: int where "max_code_attempts = 5"
definition device_ttl :: duration where "device_ttl = secs (90 * 86400)"
definition device_cookie_name :: ustr where "device_cookie_name = lit ''__Host-cm_device''"

definition from_le_bytes :: "bytes \<Rightarrow> nat" where
  "from_le_bytes bs = foldr (\<lambda>b acc. unat b + 256 * acc) bs 0"

text \<open>The format \<open>{:06}\<close>.\<close>

definition pad6 :: "nat \<Rightarrow> ustr" where
  "pad6 n = replicate (6 - length (show_nat n)) 48 @ show_nat n"

fun generate_code :: "nat \<Rightarrow> ustr m" where
  "generate_code 0 = throw (internal ''generate_code: out of rounds'')"
| "generate_code (Suc fuel) =
     bind (getrandom 4) (\<lambda>bytes.
       let value = from_le_bytes bytes in
       if value < 4000000000 then ret (pad6 (value mod 1000000))
       else generate_code fuel)"

definition code_hash :: "lib \<Rightarrow> ustr \<Rightarrow> uuid \<Rightarrow> ustr \<Rightarrow> bytes" where
  "code_hash L pepper challenge_id code =
     peppered L pepper ''login_code'' (uuid_to_string L challenge_id @ lit '':'' @ code)"

definition email_verify_hash :: "lib \<Rightarrow> ustr \<Rightarrow> uuid \<Rightarrow> ustr \<Rightarrow> ustr \<Rightarrow> bytes" where
  "email_verify_hash L pepper challenge_id code address =
     peppered L pepper ''email_verify''
       (uuid_to_string L challenge_id @ lit '':'' @ code @ lit '':'' @ to_lowercase L address)"

definition device_signature :: "lib \<Rightarrow> ustr \<Rightarrow> uuid \<Rightarrow> int \<Rightarrow> bytes" where
  "device_signature L pepper user_id expires_unix =
     peppered L pepper ''device'' (uuid_to_string L user_id @ lit '':'' @ show_int expires_unix)"

definition device_value :: "lib \<Rightarrow> ustr \<Rightarrow> uuid \<Rightarrow> time \<Rightarrow> ustr" where
  "device_value L pepper user_id expires_at =
     (let expires = timestamp expires_at in
      uuid_to_string L user_id @ [46] @ show_int expires @ [46] @
      b64url_encode L (device_signature L pepper user_id expires))"

definition device_cookie :: "ustr \<Rightarrow> ustr" where
  "device_cookie value =
     device_cookie_name @ lit ''='' @ value @
     lit ''; Path=/; Secure; SameSite=Lax; HttpOnly; Max-Age='' @ show_nat (as_secs device_ttl)"

definition device_remembers :: "lib \<Rightarrow> ustr \<Rightarrow> ustr \<Rightarrow> uuid \<Rightarrow> time \<Rightarrow> bool" where
  "device_remembers L pepper presented user_id now =
     (case splitn 3 46 presented of
        [claimed_user, claimed_expiry, claimed_signature] \<Rightarrow>
          (case (uuid_parse L claimed_user, parse_i64 claimed_expiry, b64url_decode L claimed_signature) of
             (Some u, Some expires, Some signature) \<Rightarrow>
               if u \<noteq> user_id \<or> expires \<le> timestamp now then False
               else device_signature L pepper user_id expires = signature
           | _ \<Rightarrow> False)
      | _ \<Rightarrow> False)"

subsection \<open>Codes\<close>

lemma keeps_generate_code [keeps_intros]: "keeps P (generate_code fuel)"
  by (induction fuel) (auto simp: Let_def intro!: keeps_intros)

lemma generate_code_world:
  "generate_code fuel w = (r, w') \<Longrightarrow> \<exists>n. w' = w\<lparr>w_draws := n\<rparr>"
proof (induction fuel arbitrary: w)
  case 0
  then show ?case by (auto intro: exI [of _ "w_draws w"])
next
  case (Suc fuel)
  obtain r1 w1 where g: "getrandom 4 w = (r1, w1)" by (cases "getrandom 4 w")
  from getrandom_world [OF g] have w1: "w1 = w\<lparr>w_draws := Suc (w_draws w)\<rparr>" .
  from Suc.prems g consider "w' = w1" | "generate_code fuel w1 = (r, w')"
    by (auto simp: bind_def Let_def split: sum.splits if_splits)
  then show ?case
  proof cases
    case 2
    from Suc.IH [OF 2] w1 show ?thesis by auto
  qed (use w1 in blast)
qed

lemma show_nat_length_6: "n < 1000000 \<Longrightarrow> length (show_nat n) \<le> 6"
proof -
  have step: "length (show_nat n) \<le> Suc k" if "n < 10 * m" "\<And>i. i < m \<Longrightarrow> length (show_nat i) \<le> k" for n m k :: nat
  proof (cases "n < 10")
    case True
    then show ?thesis by (simp add: show_nat.simps [of n])
  next
    case False
    with that show ?thesis by (simp add: show_nat.simps [of n] div_less_iff_less_mult mult.commute)
  qed
  have 1: "n < 10 \<Longrightarrow> length (show_nat n) \<le> 1" for n by (simp add: show_nat.simps [of n])
  have 2: "n < 100 \<Longrightarrow> length (show_nat n) \<le> 2" for n using step [of n 10 1] 1 by simp
  have 3: "n < 1000 \<Longrightarrow> length (show_nat n) \<le> 3" for n using step [of n 100 2] 2 by simp
  have 4: "n < 10000 \<Longrightarrow> length (show_nat n) \<le> 4" for n using step [of n 1000 3] 3 by simp
  have 5: "n < 100000 \<Longrightarrow> length (show_nat n) \<le> 5" for n using step [of n 10000 4] 4 by simp
  show "n < 1000000 \<Longrightarrow> length (show_nat n) \<le> 6" using step [of n 100000 5] 5 by simp
qed

lemma pad6_shape: "n < 1000000 \<Longrightarrow> length (pad6 n) = code_len \<and> list_all is_digit (pad6 n)"
  using show_nat_length_6 [of n] show_nat_digits [of n]
  by (auto simp: pad6_def code_len_def list_all_iff is_digit_def)

lemma digits_value_append: "digits_value (replicate k 48 @ s) = digits_value s"
  by (induction k) (simp_all add: digits_value_def)

text \<open>
  Codes are six digits and uniform: whatever the random numbers and the bound on the rounds, a
  generated code is six decimal digits; and of the four-byte draws exactly four thousand lead to
  each code, since the accepted draws are the values below four billion.
\<close>

theorem generated_codes_are_six_uniform_digits:
  "(\<forall>fuel w code w'. generate_code fuel w = (Inr code, w') \<longrightarrow>
      length code = 6 \<and> list_all is_digit code) \<and>
   (\<forall>k < 1000000. card {v. v < 4000000000 \<and> pad6 (v mod 1000000) = pad6 k} = 4000)"
proof (intro conjI allI impI)
  fix fuel w code w'
  assume "generate_code fuel w = (Inr code, w')"
  then obtain v :: nat where "code = pad6 (v mod 1000000)"
    by (induction fuel arbitrary: w) (auto simp: bind_Inr_iff Let_def split: if_splits)
  with pad6_shape [of "v mod 1000000"] show "length code = 6" "list_all is_digit code"
    by (simp_all add: code_len_def)
next
  fix k :: nat
  assume k: "k < 1000000"
  have inj: "pad6 a = pad6 b \<Longrightarrow> a = b" for a b
    by (metis digits_value_append digits_value_show_nat pad6_def)
  have "{v. v < 4000000000 \<and> pad6 (v mod 1000000) = pad6 k} = (\<lambda>i. i * 1000000 + k) ` {..<4000}"
  proof (intro set_eqI iffI)
    fix v :: nat
    assume "v \<in> {v. v < 4000000000 \<and> pad6 (v mod 1000000) = pad6 k}"
    then have v: "v < 4000000000" "v mod 1000000 = k" using inj by auto
    then have "v = v div 1000000 * 1000000 + k" and "v div 1000000 < 4000"
      by (auto simp: div_less_iff_less_mult)
    then show "v \<in> (\<lambda>i. i * 1000000 + k) ` {..<4000}" by blast
  next
    fix v :: nat
    assume "v \<in> (\<lambda>i. i * 1000000 + k) ` {..<4000}"
    then obtain i where "v = i * 1000000 + k" "i < 4000" by auto
    with k show "v \<in> {v. v < 4000000000 \<and> pad6 (v mod 1000000) = pad6 k}" by simp
  qed
  moreover have "inj_on (\<lambda>i. i * 1000000 + k) {..<4000}" by (simp add: inj_on_def)
  ultimately show "card {v. v < 4000000000 \<and> pad6 (v mod 1000000) = pad6 k} = 4000"
    by (simp add: card_image)
qed

theorem generated_codes_are_six_uniform_digits_witness:
  "(\<exists>code w'. generate_code 1 (calm_world empty_db 0) = (Inr code, w') \<and> length code = 6) \<and>
   card {v. v < 4000000000 \<and> pad6 (v mod 1000000) = pad6 7} = 4000"
proof -
  have "\<exists>code w'. generate_code 1 (calm_world empty_db 0) = (Inr code, w')"
    by (simp add: bind_def getrandom_def from_le_bytes_def ret_def upt_rec)
  then show ?thesis using generated_codes_are_six_uniform_digits by fastforce
qed

text \<open>The bound is invisible once a draw within it is accepted or fails.\<close>

lemma generate_code_enough_fuel:
  "generate_code fuel w = (r, w') \<Longrightarrow> r \<noteq> Inl (internal ''generate_code: out of rounds'') \<Longrightarrow>
   generate_code (fuel + k) w = (r, w')"
proof (induction fuel arbitrary: w)
  case (Suc fuel)
  obtain r1 w1 where g: "getrandom 4 w = (r1, w1)" by (cases "getrandom 4 w")
  with Suc show ?case by (auto simp: bind_def Let_def split: sum.splits if_splits)
qed simp

subsection \<open>The remembered device\<close>

lemma splitn_device:
  assumes "46 \<notin> set a" and "46 \<notin> set b"
  shows "splitn 3 46 (a @ [46] @ b @ [46] @ c) = [a, b, c]"
  using split_once_append [OF assms(1), of "b @ 46 # c"] split_once_append [OF assms(2), of c]
  by (simp add: numeral_3_eq_3)

text \<open>
  The device cookie remembers exactly the account it was issued for, until it expires: a cookie
  value issued for an account and an expiry is accepted for an account at an instant if and only
  if it is the same account and the instant's second is before the expiry's. Nothing is accepted
  that does not carry the keyed signature of the very account and expiry it claims.
\<close>

theorem device_cookie_remembers_its_account:
  assumes "lib_ok L" and "- (2 ^ 63) \<le> timestamp expires_at" and "timestamp expires_at < 2 ^ 63"
  shows "(device_remembers L pepper (device_value L pepper uid expires_at) uid' now \<longleftrightarrow>
      uid' = uid \<and> timestamp now < timestamp expires_at) \<and>
    (device_remembers L pepper presented uid' now \<longrightarrow>
      (\<exists>a b c expires. splitn 3 46 presented = [a, b, c] \<and> uuid_parse L a = Some uid' \<and>
         parse_i64 b = Some expires \<and> timestamp now < expires \<and>
         b64url_decode L c = Some (device_signature L pepper uid' expires)))"
proof
  have u: "46 \<notin> set (uuid_to_string L uid)"
    using lib_okD(6) [OF assms(1), of uid] by (auto simp: list_all_iff url_safe_def)
  have e: "46 \<notin> set (show_int (timestamp expires_at))" using set_show_int by fastforce
  show "device_remembers L pepper (device_value L pepper uid expires_at) uid' now \<longleftrightarrow>
      uid' = uid \<and> timestamp now < timestamp expires_at"
    using splitn_device [OF u e] lib_okD(3,5) [OF assms(1)] parse_i64_show_int [OF assms(2,3)]
    by (auto simp: device_remembers_def device_value_def Let_def)
  show "device_remembers L pepper presented uid' now \<longrightarrow>
      (\<exists>a b c expires. splitn 3 46 presented = [a, b, c] \<and> uuid_parse L a = Some uid' \<and>
         parse_i64 b = Some expires \<and> timestamp now < expires \<and>
         b64url_decode L c = Some (device_signature L pepper uid' expires))"
    by (auto simp: device_remembers_def simp del: splitn.simps split: list.splits option.splits if_splits)
qed

theorem device_cookie_remembers_its_account_witness:
  "lib_ok toy_lib \<and>
   device_remembers toy_lib (lit ''p'') (device_value toy_lib (lit ''p'') 5 (secs 100)) 5 (secs 99) \<and>
   \<not> device_remembers toy_lib (lit ''p'') (device_value toy_lib (lit ''p'') 5 (secs 100)) 6 (secs 99)"
  using device_cookie_remembers_its_account [OF toy_lib_ok, of "secs 100" "lit ''p''" 5 5 "secs 99"]
    device_cookie_remembers_its_account [OF toy_lib_ok, of "secs 100" "lit ''p''" 5 6 "secs 99"] toy_lib_ok
  by (simp add: time_defs)

end
