(* ===== verification/Auth_Password.thy ===== *)
theory Auth_Password
  imports Auth_Hash
begin

text \<open>
  \<open>cm-auth/src/password.rs\<close>: the password policy and Argon2id hashing. Argon2 itself is a parameter:
  hashing takes the password's bytes and a fresh salt (numbered by the random draws), reading a
  stored hash may fail, and so may verifying. The semaphore of \<open>run_bounded\<close> only delays work and
  is not modelled.
\<close>

definition m_cost_kib :: nat where "m_cost_kib = 19 * 1024"
definition t_cost :: nat where "t_cost = 2"
definition p_cost :: nat where "p_cost = 1"
definition min_password_len :: nat where "min_password_len = 12"
definition max_password_len :: nat where "max_password_len = 1024"

definition denylist :: "ustr list" where
  "denylist = map lit
    [''123456789012'', ''1234567890123'', ''12345678901234'', ''123456789012345'',
     ''1234567890123456'', ''passwordpassword'', ''password123456'', ''password1234567'',
     ''qwertyuiopasdfgh'', ''qwertyuiop123456'', ''adminadminadmin'', ''letmeinletmein'',
     ''iloveyouiloveyou'', ''welcome123456'', ''abcdefghijklmnop'', ''aaaaaaaaaaaa'',
     ''111111111111'', ''000000000000'', ''trustno1trustno1'', ''correcthorsebatterystaple'']"

definition check_policy :: "lib \<Rightarrow> ustr \<Rightarrow> ustr \<Rightarrow> unit res" where
  "check_policy L password email =
     (if length password < min_password_len then
        Inl (Invalid (lit ''Password must be at least '' @ show_nat min_password_len @ lit '' characters.''))
      else if max_password_len < utf8_len password then
        Inl (Invalid (lit ''Password must be at most '' @ show_nat max_password_len @ lit '' bytes.''))
      else let lowered = to_lowercase L password in
        if lowered \<in> set denylist then
          Inl (invalid ''That password is too common. Choose something less guessable.'')
        else let local_part = to_lowercase L (trim (hd (split_on 64 email))) in
          if 4 \<le> length local_part \<and> contains_str local_part lowered then
            Inl (invalid ''Password must not contain your email address.'')
          else Inr ())"

definition hash_blocking :: "lib \<Rightarrow> ustr \<Rightarrow> ustr m" where
  "hash_blocking L password w =
     (case argon2_hash L (as_bytes password) (w_draws w) of
        Inl e \<Rightarrow> (Inl (Internal (lit ''hashing failed: '' @ e)), w\<lparr>w_draws := Suc (w_draws w)\<rparr>)
      | Inr h \<Rightarrow> (Inr h, w\<lparr>w_draws := Suc (w_draws w)\<rparr>))"

definition verify_blocking :: "lib \<Rightarrow> ustr \<Rightarrow> ustr \<Rightarrow> bool res" where
  "verify_blocking L password phc =
     (case phc_error L phc of
        Some e \<Rightarrow> Inl (Internal (lit ''stored hash is unreadable: '' @ e))
      | None \<Rightarrow>
          (case argon2_verify L (as_bytes password) phc of
             Inl e \<Rightarrow> Inl (Internal (lit ''verification failed: '' @ e))
           | Inr b \<Rightarrow> Inr b))"

record hasher =
  h_decoy_hash :: ustr

definition hasher_new :: "lib \<Rightarrow> hasher m" where
  "hasher_new L =
     bind (token_generate L) (\<lambda>filler.
     bind (hash_blocking L filler) (\<lambda>decoy. ret \<lparr>h_decoy_hash = decoy\<rparr>))"

definition hasher_hash :: "lib \<Rightarrow> ustr \<Rightarrow> ustr m" where
  "hasher_hash L password = hash_blocking L password"

definition hasher_verify :: "lib \<Rightarrow> ustr \<Rightarrow> ustr \<Rightarrow> bool m" where
  "hasher_verify L password phc = of_res (verify_blocking L password phc)"

definition verify_decoy :: "lib \<Rightarrow> hasher \<Rightarrow> ustr \<Rightarrow> unit m" where
  "verify_decoy L h password = bind (hasher_verify L password (h_decoy_hash h)) (\<lambda>_. ret ())"

definition needs_rehash :: "lib \<Rightarrow> ustr \<Rightarrow> bool" where
  "needs_rehash L phc =
     (if phc_error L phc \<noteq> None then True
      else (case phc_params L phc of
              None \<Rightarrow> True
            | Some (mc, tc, pc) \<Rightarrow> mc < m_cost_kib \<or> tc < t_cost \<or> pc \<noteq> p_cost))"

lemma keeps_hash_blocking [keeps_intros]: "keeps P (hash_blocking L p)"
  by (auto simp: keeps_def hash_blocking_def split: sum.splits)

lemma hash_blocking_world: "hash_blocking L p w = (r, w') \<Longrightarrow> w' = w\<lparr>w_draws := Suc (w_draws w)\<rparr>"
  by (auto simp: hash_blocking_def split: sum.splits)

lemma keeps_hasher [keeps_intros]:
  "keeps P (hasher_hash L p)" "keeps P (hasher_verify L p h)" "keeps P (verify_decoy L hs p)"
  by (simp_all add: hasher_hash_def hasher_verify_def verify_decoy_def keeps_intros)

lemma verify_decoy_world: "verify_decoy L h p w = (r, w') \<Longrightarrow> w' = w"
  by (cases r) (auto simp: verify_decoy_def hasher_verify_def run_iffs)

lemma hasher_verify_iff: "hasher_verify L p h w = (r, w') \<longleftrightarrow> r = verify_blocking L p h \<and> w' = w"
  by (auto simp: hasher_verify_def)

lemma check_policy_Inl: "check_policy L p e = Inl err \<Longrightarrow> \<exists>msg. err = Invalid msg"
  by (auto simp: check_policy_def Let_def split: if_splits)

text \<open>
  The password policy: a password is accepted if and only if it has at least 12 characters and
  at most 1024 bytes, is not one of the denied ones up to letter case, and does not contain the
  local part of the address when that has four characters or more; a refusal is always a client
  error that leaves the password out. No entry of the denylist is dead: each would pass the
  length rules.
\<close>

theorem password_policy_characterised:
  "(check_policy L password email = Inr () \<longleftrightarrow>
      12 \<le> length password \<and> utf8_len password \<le> 1024 \<and>
      to_lowercase L password \<notin> set denylist \<and>
      (let lp = to_lowercase L (trim (hd (split_on 64 email))) in
       4 \<le> length lp \<longrightarrow> \<not> (\<exists>a b. to_lowercase L password = a @ lp @ b))) \<and>
   (check_policy L password email = Inr () \<or> error_status (projl (check_policy L password email)) = 400) \<and>
   list_all (\<lambda>p. 12 \<le> length p \<and> utf8_len p \<le> 1024) denylist"
proof (intro conjI)
  show "check_policy L password email = Inr () \<longleftrightarrow>
      12 \<le> length password \<and> utf8_len password \<le> 1024 \<and>
      to_lowercase L password \<notin> set denylist \<and>
      (let lp = to_lowercase L (trim (hd (split_on 64 email))) in
       4 \<le> length lp \<longrightarrow> \<not> (\<exists>a b. to_lowercase L password = a @ lp @ b))"
    by (simp add: check_policy_def Let_def min_password_len_def max_password_len_def
        contains_str_iff not_less)
  show "check_policy L password email = Inr () \<or> error_status (projl (check_policy L password email)) = 400"
    by (simp add: check_policy_def Let_def)
  have "12 \<le> length p \<and> utf8_len p \<le> 1024" if "p \<in> set denylist" for p
  proof -
    from that have "list_all (\<lambda>c. c < 128) p" and "12 \<le> length p" and "length p \<le> 1024"
      by (auto simp: denylist_def lit_def)
    then show ?thesis by (simp add: utf8_len_def as_bytes_ascii)
  qed
  then show "list_all (\<lambda>p. 12 \<le> length p \<and> utf8_len p \<le> 1024) denylist"
    by (simp add: list_all_iff)
qed

theorem password_policy_characterised_witness:
  "check_policy toy_lib (lit ''sturdy-mailbox-7'') (lit ''anna@b.c'') = Inr () \<and>
   check_policy toy_lib (lit ''anna-mailbox-7'') (lit ''anna@b.c'') \<noteq> Inr ()"
proof
  have "utf8_len (lit ''sturdy-mailbox-7'') = 16"
    by (simp add: utf8_len_def as_bytes_def utf8_char_def lit_def)
  then show "check_policy toy_lib (lit ''sturdy-mailbox-7'') (lit ''anna@b.c'') = Inr ()"
    using password_policy_characterised [of toy_lib "lit ''sturdy-mailbox-7''" "lit ''anna@b.c''"]
    by (simp add: check_policy_def Let_def min_password_len_def max_password_len_def denylist_def
        to_ascii_lowercase_def ascii_lower_def lit_def trim_def trim_by_def is_whitespace_def starts_with_def)
  show "check_policy toy_lib (lit ''anna-mailbox-7'') (lit ''anna@b.c'') \<noteq> Inr ()"
    by (simp add: check_policy_def Let_def to_ascii_lowercase_def ascii_lower_def lit_def trim_def
        trim_by_def is_whitespace_def starts_with_def)
qed

end
