(* ===== verification/Bounded_Delete.thy ===== *)
theory Bounded_Delete
  imports Db_Monad
begin

text \<open>
  The loop that housekeeping runs around a bounded delete: repeat the statement until it finds
  fewer rows than it may remove, or the pass is out of batches. The locale \<open>bounded_delete\<close> is the
  contract of one such statement; its lemmas say what a whole pass does to the table. The sweep
  of the rate-limit counters and the prunes of the tables are its interpretations.
\<close>

fun drain_loop :: "nat \<Rightarrow> nat \<Rightarrow> nat m \<Rightarrow> nat \<Rightarrow> nat m" where
  "drain_loop 0 batch step removed = ret removed"
| "drain_loop (Suc k) batch step removed =
     bind step (\<lambda>n. if n < batch then ret (removed + n)
                    else drain_loop k batch step (removed + n))"

lemma keeps_drain_loop [keeps_intros]: "keeps P step \<Longrightarrow> keeps P (drain_loop k b step r)"
  by (induction k arbitrary: r) (auto intro!: keeps_intros)

locale bounded_delete =
  fixes rows :: "world \<Rightarrow> 'r list"
    and doomed :: "'r \<Rightarrow> bool"
    and batch :: nat
    and step :: "nat m"
  assumes step_Inr: "step w = (Inr n, w') \<Longrightarrow>
      rows w' = delete_batch doomed batch (rows w) \<and> n = min batch (length (filter doomed (rows w)))"
    and step_Inl: "step w = (Inl e, w') \<Longrightarrow> rows w' = rows w"
begin

abbreviation live :: "world \<Rightarrow> 'r list" where
  "live w \<equiv> filter (\<lambda>x. \<not> doomed x) (rows w)"

lemma drain_keeps_live: "drain_loop k batch step removed w = (out, w') \<Longrightarrow> live w' = live w"
proof (induction k arbitrary: removed w)
  case (Suc k)
  obtain r w1 where s: "step w = (r, w1)" by (cases "step w")
  show ?case
  proof (cases r)
    case (Inl e)
    with s Suc.prems show ?thesis by (auto simp: bind_def dest: step_Inl)
  next
    case (Inr n)
    with s have l: "live w1 = live w" by (auto simp: filter_not_delete_batch dest!: step_Inr)
    with s Inr Suc.prems Suc.IH [of "removed + n" w1] show ?thesis
      by (auto simp: bind_def split: if_splits)
  qed
qed simp

lemma drain_counts:
  "drain_loop k batch step removed w = (Inr gone, w') \<Longrightarrow>
   removed \<le> gone \<and> length (rows w') + (gone - removed) = length (rows w) \<and>
   gone - removed \<le> k * batch"
proof (induction k arbitrary: removed w)
  case (Suc k)
  from Suc.prems obtain n w1 where s: "step w = (Inr n, w1)"
    and rest: "if n < batch then gone = removed + n \<and> w' = w1
               else drain_loop k batch step (removed + n) w1 = (Inr gone, w')"
    by (auto simp: bind_Inr_iff split: if_splits)
  from step_Inr [OF s] have n: "n = min batch (length (filter doomed (rows w)))"
    and r1: "length (rows w1) = length (rows w) - n" by (auto simp: length_delete_batch)
  have "n \<le> length (rows w)" unfolding n by (simp add: min.coboundedI2)
  with rest Suc.IH [of "removed + n" w1] r1 n show ?case
    by (cases "n < batch") (auto simp: algebra_simps)
qed simp

text \<open>A pass either empties the table of doomed rows or has used all of its batches.\<close>

lemma drain_complete:
  "drain_loop k batch step removed w = (Inr gone, w') \<Longrightarrow>
   filter doomed (rows w') = [] \<or> gone - removed = k * batch"
proof (induction k arbitrary: removed w)
  case (Suc k)
  from Suc.prems obtain n w1 where s: "step w = (Inr n, w1)"
    and rest: "if n < batch then gone = removed + n \<and> w' = w1
               else drain_loop k batch step (removed + n) w1 = (Inr gone, w')"
    by (auto simp: bind_Inr_iff split: if_splits)
  show ?case
  proof (cases "n < batch")
    case True
    with step_Inr [OF s] have "length (filter doomed (rows w1)) = 0"
      by (auto simp: length_filter_delete_batch)
    with True rest show ?thesis by simp
  next
    case False
    with step_Inr [OF s] have "n = batch" by auto
    with False rest Suc.IH [of "removed + n" w1] drain_counts [of k "removed + n" w1 gone w']
    show ?thesis by (auto simp: algebra_simps)
  qed
qed simp

text \<open>The summary the properties of the passes are read off from.\<close>

lemma drain_pass:
  assumes "drain_loop k batch step 0 w = (Inr gone, w')"
  shows "live w' = live w \<and> length (rows w') + gone = length (rows w) \<and> gone \<le> k * batch \<and>
    (filter doomed (rows w') = [] \<or> gone = k * batch)"
  using drain_keeps_live [OF assms] drain_counts [OF assms] drain_complete [OF assms] by simp

end

end
