(* ===== verification/Repo_Rate_Limit.thy ===== *)
theory Repo_Rate_Limit
  imports Bounded_Delete Concrete
begin

text \<open>
  \<open>cm-db/src/repo/rate_limit.rs\<close>: fixed-window counters. \<open>hit_stmt\<close> is the upsert on the counter
  table; \<open>rate_hit\<close> runs it on its own connection, so it changes \<open>w_rates\<close> and nothing a
  transaction could roll back. A history of hits and sweeps (\<open>rate_event\<close>) is the setting of the
  cap: at most \<open>limit\<close> requests of a bucket are allowed in one window.
\<close>

record decision =
  dec_count :: int
  dec_limit :: int
  dec_window_start :: time
  dec_window :: duration

definition is_allowed :: "decision \<Rightarrow> bool" where
  "is_allowed d \<longleftrightarrow> dec_count d \<le> dec_limit d"

text \<open>\<open>to_std\<close> fails on a negative duration; a second is then the answer.\<close>

definition retry_after :: "decision \<Rightarrow> time \<Rightarrow> duration" where
  "retry_after d now =
     (let left = dec_window_start d + dec_window d - now in
      max (if 0 \<le> left then left else secs 1) (secs 1))"

text \<open>\<open>DateTime::from_timestamp\<close> on whole seconds: chrono's range of years.\<close>

definition from_timestamp :: "int \<Rightarrow> time option" where
  "from_timestamp s =
     (if - 8334601228800 \<le> s \<and> s \<le> 8210266876799 then Some (secs s) else None)"

definition window_secs :: "duration \<Rightarrow> int" where
  "window_secs window = max (window div 1000000) 1"

definition window_start_of :: "duration \<Rightarrow> time \<Rightarrow> time option" where
  "window_start_of window now =
     from_timestamp (timestamp now - timestamp now mod window_secs window)"

definition is_window :: "bytes \<Rightarrow> time \<Rightarrow> rate_row \<Rightarrow> bool" where
  "is_window b ws r \<longleftrightarrow> k_bucket r = b \<and> k_window_start r = ws"

definition hit_stmt :: "bytes \<Rightarrow> time \<Rightarrow> time \<Rightarrow> rate_row list \<Rightarrow> (int \<times> rate_row list) res" where
  "hit_stmt b ws expires_at rows =
     (let row = \<lparr>k_bucket = b, k_window_start = ws, k_count = 1, k_expires_at = expires_at\<rparr> in
      if \<not> rate_check row then Inl (internal ''check constraint of rate_limit_counters'')
      else (case find (is_window b ws) rows of
              None \<Rightarrow> Inr (1, rows @ [row])
            | Some r \<Rightarrow>
                if \<not> pg_int_ok (k_count r + 1) then Inl (internal ''integer out of range'')
                else Inr (k_count r + 1,
                  map (\<lambda>x. if is_window b ws x then x\<lparr>k_count := k_count x + 1\<rparr> else x) rows)))"

definition hit_rows ::
  "bytes \<Rightarrow> int \<Rightarrow> duration \<Rightarrow> time \<Rightarrow> rate_row list \<Rightarrow> (decision \<times> rate_row list) res" where
  "hit_rows b limit window now rows =
     (case window_start_of window now of
        None \<Rightarrow> Inl (internal ''window start is out of range'')
      | Some ws \<Rightarrow>
          (case hit_stmt b ws (ws + window) rows of
             Inl e \<Rightarrow> Inl e
           | Inr (n, rows') \<Rightarrow>
               Inr (\<lparr>dec_count = n, dec_limit = limit, dec_window_start = ws,
                     dec_window = window\<rparr>, rows')))"

definition rate_sql :: "(rate_row list \<Rightarrow> ('a \<times> rate_row list) res) \<Rightarrow> 'a m" where
  "rate_sql q = bind round_trip (\<lambda>_ w.
     case q (w_rates w) of
       Inl e \<Rightarrow> (Inl e, w)
     | Inr (x, rows) \<Rightarrow> (Inr x, w\<lparr>w_rates := rows\<rparr>))"

definition rate_hit :: "bytes \<Rightarrow> int \<Rightarrow> duration \<Rightarrow> time \<Rightarrow> decision m" where
  "rate_hit b limit window now = rate_sql (hit_rows b limit window now)"

definition expired_window :: "time \<Rightarrow> rate_row \<Rightarrow> bool" where
  "expired_window now r \<longleftrightarrow> k_expires_at r \<le> now"

definition sweep_expired :: "time \<Rightarrow> nat \<Rightarrow> nat m" where
  "sweep_expired now batch =
     rate_sql (\<lambda>rows. Inr (min batch (length (filter (expired_window now) rows)),
                           delete_batch (expired_window now) batch rows))"

subsection \<open>Inversion and frames\<close>

lemma rate_sql_Inr_iff:
  "rate_sql q w = (Inr x, w') \<longleftrightarrow>
     w_fault w (w_calls w) = None \<and>
     (\<exists>rows. q (w_rates w) = Inr (x, rows) \<and>
        w' = w\<lparr>w_calls := Suc (w_calls w), w_rates := rows\<rparr>)"
  by (auto simp: rate_sql_def bind_def round_trip_def split: option.splits sum.splits)

lemma rate_sql_Inl_iff:
  "rate_sql q w = (Inl e, w') \<longleftrightarrow>
     w' = w\<lparr>w_calls := Suc (w_calls w)\<rparr> \<and>
     ((\<exists>c. w_fault w (w_calls w) = Some c \<and> e = Internal c) \<or>
      w_fault w (w_calls w) = None \<and> q (w_rates w) = Inl e)"
  by (auto simp: rate_sql_def bind_def round_trip_def split: option.splits sum.splits)

lemma keeps_rate_sql [keeps_intros]: "keeps P (rate_sql q)"
proof (rule keepsI)
  fix w r w'
  assume "P (w_db w)" and "rate_sql q w = (r, w')"
  then show "P (w_db w')" by (cases r) (auto simp: rate_sql_Inr_iff rate_sql_Inl_iff)
qed

lemma keeps_rate_hit [keeps_intros]: "keeps P (rate_hit b l win now)"
  by (simp add: rate_hit_def keeps_intros)

lemma keeps_sweep_expired [keeps_intros]: "keeps P (sweep_expired now b)"
  by (simp add: sweep_expired_def keeps_intros)

interpretation sweep_delete: bounded_delete w_rates "expired_window now" b "sweep_expired now b"
  for now b
  by unfold_locales (auto simp: sweep_expired_def rate_sql_Inr_iff rate_sql_Inl_iff)

subsection \<open>Windows\<close>

lemma window_start_bounds:
  assumes "window_start_of window now = Some ws" and "secs 1 \<le> window"
  shows "ws \<le> now \<and> now < ws + window"
proof -
  let ?w = "window_secs window"
  have w: "?w = window div 1000000" using assms(2) by (simp add: window_secs_def secs_def)
  have ws: "ws = 1000000 * (timestamp now - timestamp now mod ?w)"
    using assms(1) by (auto simp: window_start_of_def from_timestamp_def secs_def split: if_splits)
  have m: "0 \<le> timestamp now mod ?w" "timestamp now mod ?w < ?w"
    by (simp_all add: window_secs_def)
  have bound: "1000000 * (q - m) \<le> now \<and> now < 1000000 * (q - m) + window"
    if "now = 1000000 * q + k" "0 \<le> k" "k < 1000000" "1000000 * w \<le> window" "0 \<le> m" "m < w"
    for q k m w :: int
    using that by (simp add: algebra_simps)
  have "1000000 * ?w \<le> window" unfolding w by presburger
  moreover have "now = 1000000 * timestamp now + now mod 1000000" by (simp add: timestamp_def)
  moreover have "0 \<le> now mod 1000000" "now mod 1000000 < 1000000" by simp_all
  ultimately show ?thesis
    using bound [of "timestamp now" "now mod 1000000" ?w "timestamp now mod ?w"] m unfolding ws by blast
qed

text \<open>
  A refused request is told a wait it can act on: for every window of at least a second the
  answer lies between one second and the window's length, and for a whole number of seconds it is
  the time left whenever that is a second or more; the request falls inside its window.
\<close>

theorem retry_after_bounds:
  assumes "hit_rows b limit window now rows = Inr (d, rows')" and "secs 1 \<le> window"
  shows "secs 1 \<le> retry_after d now \<and> retry_after d now \<le> window \<and>
    dec_window_start d \<le> now \<and> now < dec_window_start d + window \<and>
    (secs 1 \<le> dec_window_start d + window - now \<longrightarrow>
       now + retry_after d now = dec_window_start d + window)"
proof -
  from assms(1) have ws: "window_start_of window now = Some (dec_window_start d)"
    and win: "dec_window d = window"
    by (auto simp: hit_rows_def split: option.splits sum.splits prod.splits)
  from window_start_bounds [OF ws assms(2)] assms(2) show ?thesis
    by (auto simp: retry_after_def win Let_def secs_def)
qed

theorem retry_after_bounds_witness:
  "\<exists>d rows'. hit_rows (replicate 32 0) 10 (hours 1) 5000000000 [] = Inr (d, rows') \<and>
     retry_after d 5000000000 = 2200 * 1000000"
proof -
  obtain d rows' where r: "hit_rows (replicate 32 0) 10 (hours 1) 5000000000 [] = Inr (d, rows')"
    and ws: "dec_window_start d = 3600000000"
    by (simp add: hit_rows_def window_start_of_def window_secs_def from_timestamp_def time_defs
        hit_stmt_def rate_check_def)
  from retry_after_bounds [OF r] ws have "retry_after d 5000000000 = 2200 * 1000000"
    by (simp add: time_defs)
  with r show ?thesis by blast
qed

subsection \<open>The cap\<close>

datatype rate_event = Hit bytes int duration time | Sweep time nat

fun event_time :: "rate_event \<Rightarrow> time" where
  "event_time (Hit b limit window now) = now"
| "event_time (Sweep now batch) = now"

fun rate_step :: "rate_event \<Rightarrow> rate_row list \<Rightarrow> (bytes \<times> decision) option \<times> rate_row list" where
  "rate_step (Hit b limit window now) rows =
     (case hit_rows b limit window now rows of
        Inl e \<Rightarrow> (None, rows)
      | Inr (d, rows') \<Rightarrow> (Some (b, d), rows'))"
| "rate_step (Sweep now batch) rows = (None, delete_batch (expired_window now) batch rows)"

definition admitted :: "bytes \<Rightarrow> time \<Rightarrow> (bytes \<times> decision) option \<Rightarrow> bool" where
  "admitted b ws a =
     (case a of None \<Rightarrow> False | Some (b', d) \<Rightarrow> b' = b \<and> dec_window_start d = ws \<and> is_allowed d)"

text \<open>Every hit on the bucket is made under one policy.\<close>

fun under_policy :: "bytes \<Rightarrow> int \<Rightarrow> duration \<Rightarrow> rate_event \<Rightarrow> bool" where
  "under_policy b limit window (Hit b' limit' window' now) \<longleftrightarrow>
     (b' = b \<longrightarrow> limit' = limit \<and> window' = window)"
| "under_policy b limit window (Sweep now batch) \<longleftrightarrow> True"

lemma admitted_None [simp]: "\<not> admitted b ws None"
  by (simp add: admitted_def)

lemma admitted_Some [simp]:
  "admitted b ws (Some (b', d)) \<longleftrightarrow> b' = b \<and> dec_window_start d = ws \<and> is_allowed d"
  by (simp add: admitted_def)

lemma find_map_same: "(\<And>x. P (f x) = P x) \<Longrightarrow> find P (map f xs) = map_option f (find P xs)"
  by (induction xs) auto

lemma find_delete_batch:
  "find P xs = Some r \<Longrightarrow> \<not> q r \<Longrightarrow> find P (delete_batch q n xs) = Some r"
  by (induction q n xs rule: delete_batch.induct) (auto split: if_splits)

lemma find_delete_batch_None: "find P xs = None \<Longrightarrow> find P (delete_batch q n xs) = None"
  using set_delete_batch [of q n xs] by (auto simp: find_None_all)

definition window_row :: "bytes \<Rightarrow> time \<Rightarrow> rate_row list \<Rightarrow> rate_row option" where
  "window_row b ws rows = find (is_window b ws) rows"

definition row_count :: "rate_row option \<Rightarrow> int" where
  "row_count r = (case r of None \<Rightarrow> 0 | Some x \<Rightarrow> k_count x)"

lemma hit_rows_InrD:
  assumes "hit_rows b limit window now rows = Inr (d, rows')"
  shows "window_start_of window now = Some (dec_window_start d)" and "dec_limit d = limit"
    and "dec_count d = row_count (window_row b (dec_window_start d) rows) + 1"
    and "\<exists>x. window_row b (dec_window_start d) rows' = Some x \<and> k_count x = dec_count d \<and>
       k_expires_at x = (case window_row b (dec_window_start d) rows of
          None \<Rightarrow> dec_window_start d + window | Some y \<Rightarrow> k_expires_at y)"
proof -
  have win: "is_window b ws x" if "find (is_window b ws) rows = Some x" for ws x
    using find_Some_in [OF that] by simp
  have upd: "find (is_window b ws)
      (map (\<lambda>x. if is_window b ws x then x\<lparr>k_count := k_count x + 1\<rparr> else x) rows) =
    map_option (\<lambda>x. x\<lparr>k_count := k_count x + 1\<rparr>) (find (is_window b ws) rows)" for ws
  proof -
    have "find (is_window b ws)
        (map (\<lambda>x. if is_window b ws x then x\<lparr>k_count := k_count x + 1\<rparr> else x) rows) =
      map_option (\<lambda>x. if is_window b ws x then x\<lparr>k_count := k_count x + 1\<rparr> else x)
        (find (is_window b ws) rows)"
      by (rule find_map_same) (simp add: is_window_def)
    then show ?thesis using win [of ws] by (cases "find (is_window b ws) rows") auto
  qed
  have new: "is_window b ws \<lparr>k_bucket = b, k_window_start = ws, k_count = n, k_expires_at = t\<rparr>" for ws n t
    by (simp add: is_window_def)
  show "window_start_of window now = Some (dec_window_start d)" and "dec_limit d = limit"
    and "dec_count d = row_count (window_row b (dec_window_start d) rows) + 1"
    and "\<exists>x. window_row b (dec_window_start d) rows' = Some x \<and> k_count x = dec_count d \<and>
       k_expires_at x = (case window_row b (dec_window_start d) rows of
          None \<Rightarrow> dec_window_start d + window | Some y \<Rightarrow> k_expires_at y)"
    using assms
    by (auto simp: hit_rows_def hit_stmt_def Let_def window_row_def row_count_def find_append upd new
          split: option.splits sum.splits prod.splits if_splits)
qed

lemma hit_rows_frame:
  assumes "hit_rows b' limit window now rows = Inr (d, rows')" and "b' \<noteq> b \<or> dec_window_start d \<noteq> ws"
  shows "window_row b ws rows' = window_row b ws rows"
proof -
  have "map_option (\<lambda>x. if is_window b' ws' x then x\<lparr>k_count := k_count x + 1\<rparr> else x)
      (find (is_window b ws) rows) = find (is_window b ws) rows"
    if "b' \<noteq> b \<or> ws' \<noteq> ws" for ws'
    using that by (cases "find (is_window b ws) rows") (auto simp: is_window_def dest!: find_Some_in)
  with assms show ?thesis
    by (auto simp: hit_rows_def hit_stmt_def Let_def window_row_def find_map_same is_window_def
          find_append split: option.splits sum.splits prod.splits if_splits)
qed

lemma none_admitted_late:
  assumes "\<forall>e \<in> set es. under_policy b limit window e \<and> ws + window \<le> event_time e"
    and "secs 1 \<le> window"
  shows "filter (admitted b ws) (fst (run_steps rate_step es rows)) = []"
  using assms(1)
proof (induction es arbitrary: rows)
  case (Cons e es)
  have "\<not> admitted b ws (fst (rate_step e rows))"
  proof (cases e)
    case (Hit b' l win now)
    show ?thesis
    proof (cases "hit_rows b' l win now rows")
      case (Inr p)
      obtain d rows' where p: "p = (d, rows')" by (cases p)
      from hit_rows_InrD(1) [of b' l win now rows d rows'] Inr p
      have "window_start_of win now = Some (dec_window_start d)" by simp
      with Cons.prems Hit assms(2) window_start_bounds [of win now "dec_window_start d"]
      show ?thesis using Inr p by auto
    qed (simp add: Hit)
  qed simp
  with Cons show ?case by (simp del: run_steps.simps)
qed simp

lemma admitted_bound:
  assumes "secs 1 \<le> window"
  shows "sorted (map event_time es) \<Longrightarrow> \<forall>e \<in> set es. under_policy b limit window e \<Longrightarrow>
    (\<And>x. window_row b ws rows = Some x \<Longrightarrow> k_expires_at x = ws + window) \<Longrightarrow>
    length (filter (admitted b ws) (fst (run_steps rate_step es rows))) \<le>
      nat (limit - row_count (window_row b ws rows))"
proof (induction es arbitrary: rows)
  case (Cons e es)
  have later: "sorted (map event_time es)" "\<forall>e \<in> set es. under_policy b limit window e"
    using Cons.prems by auto
  show ?case
  proof (cases e)
    case (Sweep t n)
    let ?rows = "delete_batch (expired_window t) n rows"
    show ?thesis
    proof (cases "ws + window \<le> t")
      case True
      with Cons.prems Sweep have "\<forall>e \<in> set es. under_policy b limit window e \<and> ws + window \<le> event_time e"
        by auto
      from none_admitted_late [OF this assms] Sweep show ?thesis
        by (simp del: run_steps.simps)
    next
      case False
      then have same: "window_row b ws ?rows = window_row b ws rows"
        using Cons.prems(3) unfolding window_row_def
        by (cases "find (is_window b ws) rows")
          (auto simp: find_delete_batch_None expired_window_def intro!: find_delete_batch)
      from Cons.IH [OF later, of ?rows] Cons.prems(3) Sweep show ?thesis
        by (simp add: same del: run_steps.simps)
    qed
  next
    case (Hit b' l win now)
    show ?thesis
    proof (cases "hit_rows b' l win now rows")
      case (Inl err)
      with Cons.IH [OF later Cons.prems(3)] Hit show ?thesis
        by (simp del: run_steps.simps)
    next
      case (Inr p)
      then obtain d rows' where run: "hit_rows b' l win now rows = Inr (d, rows')" by (cases p) auto
      show ?thesis
      proof (cases "b' = b \<and> dec_window_start d = ws")
        case False
        with hit_rows_frame [OF run, of b ws] Cons.IH [OF later, of rows'] Cons.prems(3) Hit run
        show ?thesis by (auto simp del: run_steps.simps)
      next
        case True
        with Cons.prems(2) Hit have pol: "l = limit" "win = window" by auto
        note inv = hit_rows_InrD [OF run]
        from inv(4) True pol Cons.prems(3) obtain x where
          x: "window_row b ws rows' = Some x" "k_count x = dec_count d" "k_expires_at x = ws + window"
          by (auto split: option.splits)
        have "length (filter (admitted b ws) (fst (run_steps rate_step es rows'))) \<le>
            nat (limit - dec_count d)"
          using Cons.IH [OF later, of rows'] x by (simp add: row_count_def)
        moreover have "dec_count d = row_count (window_row b ws rows) + 1"
          using inv(3) True by simp
        ultimately show ?thesis
          using Hit run True pol inv(2)
          by (auto simp: is_allowed_def simp del: run_steps.simps)
      qed
    qed
  qed
qed simp

text \<open>
  C29. The rate limit is a cap: in any history of hits and sweeps with non-decreasing times, in
  which the bucket is always hit under one policy, at most \<open>limit\<close> requests of the bucket are
  allowed in one window, however they interleave with hits on other buckets and with the
  background deletion of elapsed windows.
\<close>

theorem rate_limit_caps_every_window:
  assumes "sorted (map event_time es)" and "\<forall>e \<in> set es. under_policy b limit window e"
    and "secs 1 \<le> window" and "window_row b ws rows = None"
  shows "length (filter (admitted b ws) (fst (run_steps rate_step es rows))) \<le> nat limit"
  using admitted_bound [OF assms(3,1,2), of ws rows] assms(4) by (simp add: row_count_def)

theorem rate_limit_caps_every_window_witness:
  "length (filter (admitted (replicate 32 0) 0) (fst (run_steps rate_step
     [Hit (replicate 32 0) 1 (secs 60) 5, Sweep 6 10, Hit (replicate 32 0) 1 (secs 60) 7] []))) \<le> nat 1 \<and>
   admitted (replicate 32 0) 0 (fst (rate_step (Hit (replicate 32 0) 1 (secs 60) 5) []))"
proof -
  let ?es = "[Hit (replicate 32 0) 1 (secs 60) 5, Sweep 6 10, Hit (replicate 32 0) 1 (secs 60) 7]"
  have "sorted (map event_time ?es)" and "\<forall>e \<in> set ?es. under_policy (replicate 32 0) 1 (secs 60) e"
    and "secs 1 \<le> secs 60" and "window_row (replicate 32 0) 0 [] = None"
    by (simp_all add: secs_def window_row_def)
  from rate_limit_caps_every_window [OF this] show ?thesis
    by (simp add: hit_rows_def window_start_of_def window_secs_def from_timestamp_def time_defs
        hit_stmt_def rate_check_def admitted_def is_allowed_def del: run_steps.simps)
qed

end
