(* ===== verification/Auth_Ratelimit.thy ===== *)
theory Auth_Ratelimit
  imports Auth_Hash Repo_Rate_Limit
begin

text \<open>
  \<open>cm-auth/src/ratelimit.rs\<close>: the policies, \<open>enforce\<close> and the sweeper. \<open>enforce\<close> counts on a
  connection of its own, so no rollback of the guarded work undoes the count.
\<close>

record policy =
  p_name :: ustr
  p_limit :: int
  p_window :: duration

definition mk_policy :: "string \<Rightarrow> int \<Rightarrow> duration \<Rightarrow> policy" where
  "mk_policy name limit window = \<lparr>p_name = lit name, p_limit = limit, p_window = window\<rparr>"

definition register_per_ip :: policy where
  "register_per_ip = mk_policy ''register:ip'' 10 (hours 1)"
definition suggest_per_ip :: policy where
  "suggest_per_ip = mk_policy ''suggest:ip'' 600 (minutes 5)"
definition login_per_ip :: policy where
  "login_per_ip = mk_policy ''login:ip'' 20 (minutes 15)"
definition federated_sign_in_per_ip :: policy where
  "federated_sign_in_per_ip = mk_policy ''federated_sign_in:ip'' 30 (minutes 15)"
definition link_identity_per_user :: policy where
  "link_identity_per_user = mk_policy ''link_identity:user'' 5 (hours 1)"
definition password_change_per_user :: policy where
  "password_change_per_user = mk_policy ''password_change:user'' 5 (hours 1)"
definition login_code_issue_per_user :: policy where
  "login_code_issue_per_user = mk_policy ''login_code_issue:user'' 6 (hours 1)"
definition login_code_verify_per_challenge :: policy where
  "login_code_verify_per_challenge = mk_policy ''login_code_verify:challenge'' 20 (minutes 15)"
definition password_reset_request_per_ip :: policy where
  "password_reset_request_per_ip = mk_policy ''password_reset_request:ip'' 5 (hours 1)"
definition password_reset_request_per_email :: policy where
  "password_reset_request_per_email = mk_policy ''password_reset_request:email'' 3 (hours 1)"

definition bucket_key :: "policy \<Rightarrow> ustr \<Rightarrow> ustr" where
  "bucket_key p subject = p_name p @ lit '':'' @ subject"

definition enforce :: "lib \<Rightarrow> ustr \<Rightarrow> policy \<Rightarrow> ustr \<Rightarrow> time \<Rightarrow> unit m" where
  "enforce L pepper p subject now =
     (let bucket = rate_limit_bucket L pepper (bucket_key p subject) in
      seq acquire
        (bind (rate_hit bucket (p_limit p) (p_window p) now) (\<lambda>decision.
           if is_allowed decision then ret ()
           else throw (TooManyRequests (retry_after decision now)))))"

definition sweep_batch :: nat where "sweep_batch = 5000"
definition sweep_max_batches :: nat where "sweep_max_batches = 20"

definition sweep :: "time \<Rightarrow> nat m" where
  "sweep now =
     seq acquire (drain_loop sweep_max_batches sweep_batch (sweep_expired now sweep_batch) 0)"

subsection \<open>What enforcing does\<close>

lemma acquire_world: "acquire w = (r, w') \<Longrightarrow> w' = w\<lparr>w_calls := Suc (w_calls w)\<rparr>"
  by (simp add: acquire_def round_trip_world)

lemma enforce_db: "enforce L pep p s now w = (r, w') \<Longrightarrow> w_db w' = w_db w \<and> w_clock w' = w_clock w"
  by (cases r) (auto simp: enforce_def Let_def run_iffs rate_hit_def rate_sql_Inr_iff rate_sql_Inl_iff
      split: if_splits dest!: acquire_world)

lemma keeps_enforce [keeps_intros]: "keeps P (enforce L pep p s now)"
  by (rule keepsI) (auto dest!: enforce_db)

lemma keeps_sweep [keeps_intros]: "keeps P (sweep now)"
  by (simp add: sweep_def keeps_intros)

lemma enforce_hit:
  assumes "enforce L pep p s now w = (r, w')" and "r = Inr () \<or> (\<exists>t. r = Inl (TooManyRequests t))"
  shows "\<exists>d. hit_rows (rate_limit_bucket L pep (bucket_key p s)) (p_limit p) (p_window p) now (w_rates w) =
      Inr (d, w_rates w') \<and> (r = Inr () \<longleftrightarrow> is_allowed d) \<and>
      (\<forall>t. r = Inl (TooManyRequests t) \<longrightarrow> t = retry_after d now)"
proof -
  have no: "hit_rows b l win now rows \<noteq> Inl (TooManyRequests t)" for b l win rows t
    by (auto simp: hit_rows_def hit_stmt_def Let_def split: option.splits sum.splits if_splits prod.splits)
  show ?thesis
    using assms
    by (cases r) (auto simp: enforce_def Let_def run_iffs rate_hit_def rate_sql_Inr_iff rate_sql_Inl_iff
        no acquire_def round_trip_def split: if_splits option.splits)
qed

text \<open>
  Refusals count too, and outlive a rollback: whenever \<open>enforce\<close> answers at all (allowed or too
  many), the bucket's counter in the current window went up by exactly one, the tables are
  untouched, an enclosing transaction that fails does not take the count back, and a refusal
  happens exactly when the new count exceeds the policy's limit.
\<close>

theorem enforce_counts_every_request:
  assumes "enforce L pep p s now w = (r, w')" and "r = Inr () \<or> (\<exists>t. r = Inl (TooManyRequests t))"
    and "window_start_of (p_window p) now = Some ws"
  shows "row_count (window_row (rate_limit_bucket L pep (bucket_key p s)) ws (w_rates w')) =
      row_count (window_row (rate_limit_bucket L pep (bucket_key p s)) ws (w_rates w)) + 1 \<and>
    w_db w' = w_db w \<and> w_rates (rollback_to w0 w') = w_rates w' \<and>
    (r = Inr () \<longleftrightarrow>
      row_count (window_row (rate_limit_bucket L pep (bucket_key p s)) ws (w_rates w')) \<le> p_limit p)"
proof -
  from enforce_hit [OF assms(1,2)] obtain d where
    h: "hit_rows (rate_limit_bucket L pep (bucket_key p s)) (p_limit p) (p_window p) now (w_rates w) =
      Inr (d, w_rates w')" and a: "r = Inr () \<longleftrightarrow> is_allowed d" by blast
  note inv = hit_rows_InrD [OF h]
  have "dec_window_start d = ws" using inv(1) assms(3) by simp
  with inv a enforce_db [OF assms(1)] show ?thesis
    by (auto simp: row_count_def is_allowed_def rollback_to_def)
qed

theorem enforce_counts_every_request_witness:
  "\<exists>w'. enforce toy_lib [] login_per_ip (lit ''x'') 0 (calm_world empty_db 0) = (Inr (), w') \<and>
     row_count (window_row (rate_limit_bucket toy_lib [] (bucket_key login_per_ip (lit ''x''))) 0 (w_rates w')) = 1"
proof -
  let ?b = "rate_limit_bucket toy_lib [] (bucket_key login_per_ip (lit ''x''))"
  have len: "length ?b = 32" by (simp add: rate_limit_bucket_def peppered_def)
  have win: "window_start_of (p_window login_per_ip) 0 = Some 0"
    by (simp add: window_start_of_def from_timestamp_def login_per_ip_def mk_policy_def time_defs window_secs_def)
  obtain w' where run: "enforce toy_lib [] login_per_ip (lit ''x'') 0 (calm_world empty_db 0) = (Inr (), w')"
    using len win by (simp add: enforce_def Let_def seq_def bind_def acquire_def round_trip_def rate_hit_def
        rate_sql_def hit_rows_def hit_stmt_def rate_check_def is_allowed_def ret_def)
      (simp add: login_per_ip_def mk_policy_def time_defs)
  from enforce_counts_every_request [OF run _ win] run show ?thesis
    by (auto simp: window_row_def row_count_def)
qed

subsection \<open>Buckets\<close>

definition policies :: "policy list" where
  "policies = [register_per_ip, suggest_per_ip, login_per_ip, federated_sign_in_per_ip,
     link_identity_per_user, password_change_per_user, login_code_issue_per_user,
     login_code_verify_per_challenge, password_reset_request_per_ip, password_reset_request_per_email]"

lemmas policy_defs = policies_def register_per_ip_def suggest_per_ip_def login_per_ip_def
  federated_sign_in_per_ip_def link_identity_per_user_def password_change_per_user_def
  login_code_issue_per_user_def login_code_verify_per_challenge_def
  password_reset_request_per_ip_def password_reset_request_per_email_def mk_policy_def

text \<open>A name is two words without a colon, joined by one.\<close>

lemma policy_name_shape: "p \<in> set policies \<Longrightarrow> \<exists>a b. p_name p = a @ 58 # b \<and> 58 \<notin> set a \<and> 58 \<notin> set b"
proof -
  assume "p \<in> set policies"
  then have "case split_once 58 (p_name p) of None \<Rightarrow> False | Some (a, b) \<Rightarrow> 58 \<notin> set b"
    by (auto simp: policy_defs lit_def)
  then obtain a b where "split_once 58 (p_name p) = Some (a, b)" and "58 \<notin> set b"
    by (auto split: option.splits)
  then show ?thesis unfolding split_once_Some_iff by blast
qed

lemma policy_names_distinct: "distinct (map p_name policies)"
  by (simp add: policy_defs lit_inj)

lemma bucket_key_name:
  assumes "p \<in> set policies" and "q \<in> set policies" and "bucket_key p s = bucket_key q t"
  shows "p_name p = p_name q \<and> s = t"
proof -
  obtain a b where p: "p_name p = a @ 58 # b" "58 \<notin> set a" "58 \<notin> set b"
    using policy_name_shape [OF assms(1)] by blast
  obtain a' b' where q: "p_name q = a' @ 58 # b'" "58 \<notin> set a'" "58 \<notin> set b'"
    using policy_name_shape [OF assms(2)] by blast
  from assms(3) have eq: "a @ 58 # (b @ 58 # s) = a' @ 58 # (b' @ 58 # t)"
    by (simp add: bucket_key_def p(1) q(1) lit_def)
  have "Some (a, b @ 58 # s) = Some (a', b' @ 58 # t)"
    using split_once_append [OF p(2), of "b @ 58 # s"] split_once_append [OF q(2), of "b' @ 58 # t"] eq
    by metis
  then have "a = a'" and "b @ 58 # s = b' @ 58 # t" by auto
  moreover from this(2) have "Some (b, s) = Some (b', t)"
    using split_once_append [OF p(3), of s] split_once_append [OF q(3), of t] by metis
  ultimately show ?thesis using p(1) q(1) by simp
qed

text \<open>
  Two policies never share a bucket: the keys of two of the ten policies coincide only for the
  same policy and the same subject, whatever characters (colons included) the subjects contain;
  every policy allows at least one request and has a window of at least a second.
\<close>

theorem policies_count_separately:
  assumes "p \<in> set policies" and "q \<in> set policies" and "bucket_key p s = bucket_key q t"
  shows "p = q \<and> s = t \<and> 1 \<le> p_limit p \<and> secs 1 \<le> p_window p"
proof -
  from bucket_key_name [OF assms] have n: "p_name p = p_name q" and "s = t" by auto
  from n assms(1,2) have "p = q" using distinct_map_eqD [OF policy_names_distinct] by blast
  moreover have "1 \<le> p_limit p \<and> secs 1 \<le> p_window p"
    using assms(1) by (auto simp: policy_defs time_defs)
  ultimately show ?thesis using \<open>s = t\<close> by simp
qed

theorem policies_count_separately_witness:
  "bucket_key login_per_ip (lit ''1.2.3.4'') \<noteq> bucket_key register_per_ip (lit ''1.2.3.4'')"
proof
  assume "bucket_key login_per_ip (lit ''1.2.3.4'') = bucket_key register_per_ip (lit ''1.2.3.4'')"
  from policies_count_separately [OF _ _ this] show False by (simp add: policy_defs)
qed

text \<open>
  A sweep deletes elapsed windows only, at most a hundred thousand rows, and reports how many: a
  window that has not elapsed is never touched, the number returned is the number of rows that
  went, and the sweep leaves an elapsed window behind only when it has used all of its batches.
\<close>

theorem sweep_deletes_elapsed_windows_only:
  assumes "sweep now w = (Inr n, w')"
  shows "filter (\<lambda>r. \<not> expired_window now r) (w_rates w') = filter (\<lambda>r. \<not> expired_window now r) (w_rates w) \<and>
    length (w_rates w') + n = length (w_rates w) \<and> n \<le> 100000 \<and>
    (filter (expired_window now) (w_rates w') = [] \<or> n = 100000) \<and> w_db w' = w_db w"
proof -
  from assms obtain u w1 where a: "acquire w = (Inr u, w1)"
    and d: "drain_loop sweep_max_batches sweep_batch (sweep_expired now sweep_batch) 0 w1 = (Inr n, w')"
    by (auto simp: sweep_def seq_Inr_iff)
  have "keeps (\<lambda>x. x = w_db w1) (drain_loop sweep_max_batches sweep_batch (sweep_expired now sweep_batch) 0)"
    by (intro keeps_intros)
  with d have "w_db w' = w_db w1" by (auto dest: keepsD)
  with sweep_delete.drain_pass [OF d] acquire_world [OF a] show ?thesis
    by (simp add: sweep_max_batches_def sweep_batch_def)
qed

theorem sweep_deletes_elapsed_windows_only_witness:
  "\<exists>w'. sweep 5 (calm_world empty_db 0) = (Inr 0, w') \<and> w_rates w' = []"
proof -
  have "sweep 5 = seq acquire (drain_loop (Suc 19) 5000 (sweep_expired 5 5000) 0)"
    by (simp add: sweep_def sweep_max_batches_def sweep_batch_def)
  then obtain w' where "sweep 5 (calm_world empty_db 0) = (Inr 0, w')"
    unfolding drain_loop.simps
    by (simp add: seq_def bind_def acquire_def round_trip_def sweep_expired_def rate_sql_def ret_def)
  with sweep_deletes_elapsed_windows_only [OF this] show ?thesis by auto
qed

end
