(* ===== verification/Auth_Firebase.thy ===== *)
theory Auth_Firebase
  imports Auth_Hash Auth_Cookie
begin

text \<open>
  \<open>cm-auth/src/firebase.rs\<close>: verification of Firebase identity tokens. The JWT library, the JSON
  reader and the HTTP fetch of Google's keys are parameters (\<open>jwt_lib\<close> and the sequence of fetch
  results); the key cache with its staleness budget, the rate limit on forced refreshes, the claim
  checks and the choice of the identity are the code's own. An \<open>Instant\<close> is a time and a decoding
  key an opaque text.
\<close>

definition leeway_secs :: int where "leeway_secs = 60"
definition min_refresh_interval :: duration where "min_refresh_interval = secs 300"
definition max_staleness :: duration where "max_staleness = secs (24 * 60 * 60)"

record key_set =
  ks_keys :: "(ustr \<times> ustr) list"
  ks_fetched_at :: time
  ks_max_age :: duration

definition key_get :: "key_set \<Rightarrow> ustr \<Rightarrow> ustr option" where
  "key_get ks kid = map_of (ks_keys ks) kid"

definition is_fresh :: "time \<Rightarrow> key_set \<Rightarrow> bool" where
  "is_fresh now ks \<longleftrightarrow> now - ks_fetched_at ks < ks_max_age ks"

definition is_usable :: "time \<Rightarrow> key_set \<Rightarrow> bool" where
  "is_usable now ks \<longleftrightarrow> now - ks_fetched_at ks < ks_max_age ks + max_staleness"

record firebase_claims =
  fc_sub :: ustr
  fc_user_id :: "ustr option"
  fc_email :: "ustr option"
  fc_email_verified :: "bool option"
  fc_name :: "ustr option"
  fc_auth_time :: int
  fc_exp :: int
  fc_iat :: int
  fc_iss :: ustr
  fc_aud :: ustr
  fc_sign_in_provider :: ustr
  fc_identities :: "(ustr \<times> ustr list) list"

fun firebase_provider_id :: "provider \<Rightarrow> ustr" where
  "firebase_provider_id Google = lit ''google.com''"
| "firebase_provider_id Facebook = lit ''facebook.com''"

record verified_identity =
  vi_provider_subject :: ustr
  vi_firebase_uid :: ustr
  vi_email :: "ustr option"
  vi_email_from_identities :: bool
  vi_email_verified :: bool
  vi_name :: "ustr option"

text \<open>What the JWT and JSON libraries answer: the header's algorithm and key id, the claims of a token
  whose signature, audience, issuer and expiry check out under a key, and the claims in a JSON text.\<close>

record jwt_lib =
  jl_header :: "ustr \<Rightarrow> (bool \<times> ustr option) option"
  jl_decode :: "ustr \<Rightarrow> ustr \<Rightarrow> ustr \<Rightarrow> ustr \<Rightarrow> int \<Rightarrow> firebase_claims option"
  jl_claims_of_json :: "bytes \<Rightarrow> firebase_claims option"

datatype mode = Signed | Emulator

record verifier =
  fv_project_id :: ustr
  fv_mode :: mode

record verifier_state =
  vs_cache :: "key_set option"
  vs_last_forced :: "time option"
  vs_fetches :: nat

type_synonym fetcher = "nat \<Rightarrow> ((ustr \<times> ustr) list \<times> duration) res"

definition issuer :: "verifier \<Rightarrow> ustr" where
  "issuer v = lit ''https://securetoken.google.com/'' @ fv_project_id v"

subsection \<open>The key cache\<close>

definition fetch_keys :: "fetcher \<Rightarrow> time \<Rightarrow> verifier_state \<Rightarrow> unit res \<times> verifier_state" where
  "fetch_keys F now s =
     (case F (vs_fetches s) of
        Inl e \<Rightarrow> (Inl e, s\<lparr>vs_fetches := Suc (vs_fetches s)\<rparr>)
      | Inr (keys, max_age) \<Rightarrow>
          (Inr (), s\<lparr>vs_fetches := Suc (vs_fetches s),
             vs_cache := Some \<lparr>ks_keys = keys, ks_fetched_at = now, ks_max_age = max_age\<rparr>\<rparr>))"

definition cached_key :: "ustr \<Rightarrow> verifier_state \<Rightarrow> ustr option" where
  "cached_key kid s = (case vs_cache s of None \<Rightarrow> None | Some ks \<Rightarrow> key_get ks kid)"

definition key_by_id ::
  "fetcher \<Rightarrow> verifier \<Rightarrow> ustr \<Rightarrow> time \<Rightarrow> verifier_state \<Rightarrow> ustr option res \<times> verifier_state" where
  "key_by_id F v kid now s =
     (if fv_mode v = Emulator then (Inr None, s)
      else if (case vs_cache s of None \<Rightarrow> False | Some ks \<Rightarrow> is_fresh now ks) then
        (Inr (cached_key kid s), s)
      else
        (case fetch_keys F now s of
           (Inr _, s') \<Rightarrow> (Inr (cached_key kid s'), s')
         | (Inl e, s') \<Rightarrow>
             (case vs_cache s' of
                Some ks \<Rightarrow> if is_usable now ks then (Inr (key_get ks kid), s') else (Inl e, s')
              | None \<Rightarrow> (Inl e, s'))))"

definition refresh_if_allowed ::
  "fetcher \<Rightarrow> time \<Rightarrow> verifier_state \<Rightarrow> unit res \<times> verifier_state" where
  "refresh_if_allowed F now s =
     (case vs_last_forced s of
        Some t \<Rightarrow>
          if now - t < min_refresh_interval then (Inr (), s)
          else fetch_keys F now (s\<lparr>vs_last_forced := Some now\<rparr>)
      | None \<Rightarrow> fetch_keys F now (s\<lparr>vs_last_forced := Some now\<rparr>))"

definition verify_signed ::
  "jwt_lib \<Rightarrow> fetcher \<Rightarrow> verifier \<Rightarrow> ustr \<Rightarrow> time \<Rightarrow> verifier_state \<Rightarrow>
     firebase_claims res \<times> verifier_state" where
  "verify_signed J F v token now s =
     (case jl_header J token of
        None \<Rightarrow> (Inl (invalid ''The sign-in token is malformed.''), s)
      | Some (rs256, kid) \<Rightarrow>
          if \<not> rs256 then (Inl (invalid ''The sign-in token is not RS256-signed.''), s)
          else (case kid of
            None \<Rightarrow> (Inl (invalid ''The sign-in token names no signing key.''), s)
          | Some key_id \<Rightarrow>
              let check = (\<lambda>key st.
                    (case jl_decode J token key (fv_project_id v) (issuer v) leeway_secs of
                       None \<Rightarrow> (Inl (invalid ''The sign-in token is not valid.''), st)
                     | Some claims \<Rightarrow> (Inr claims, st))) in
              (case key_by_id F v key_id now s of
                 (Inl e, s1) \<Rightarrow> (Inl e, s1)
               | (Inr (Some key), s1) \<Rightarrow> check key s1
               | (Inr None, s1) \<Rightarrow>
                   (case refresh_if_allowed F now s1 of
                      (Inl e, s2) \<Rightarrow> (Inl e, s2)
                    | (Inr _, s2) \<Rightarrow>
                        (case key_by_id F v key_id now s2 of
                           (Inl e, s3) \<Rightarrow> (Inl e, s3)
                         | (Inr None, s3) \<Rightarrow>
                             (Inl (invalid ''The sign-in token was signed by an unknown key.''), s3)
                         | (Inr (Some key), s3) \<Rightarrow> check key s3)))))"

definition decode_unsigned :: "lib \<Rightarrow> jwt_lib \<Rightarrow> ustr \<Rightarrow> firebase_claims res" where
  "decode_unsigned L J token =
     (case split_on 46 token of
        _ # payload # _ # _ \<Rightarrow>
          (case b64url_decode L payload of
             None \<Rightarrow> Inl (invalid ''The sign-in token is malformed.'')
           | Some decoded \<Rightarrow>
               (case jl_claims_of_json J decoded of
                  None \<Rightarrow> Inl (invalid ''The sign-in token is missing required claims.'')
                | Some claims \<Rightarrow> Inr claims))
      | _ \<Rightarrow> Inl (invalid ''The sign-in token is malformed.''))"

subsection \<open>The claims\<close>

definition check_claims :: "verifier \<Rightarrow> firebase_claims \<Rightarrow> provider \<Rightarrow> time \<Rightarrow> unit res" where
  "check_claims v c p clock =
     (let now = timestamp clock; leeway = leeway_secs in
      if fc_iss c \<noteq> issuer v then Inl (invalid ''The sign-in token has the wrong issuer.'')
      else if fc_aud c \<noteq> fv_project_id v then Inl (invalid ''The sign-in token is for another project.'')
      else if fc_exp c \<le> now - leeway then Inl (invalid ''The sign-in token has expired.'')
      else if now + leeway < fc_iat c then Inl (invalid ''The sign-in token was issued in the future.'')
      else if now + leeway < fc_auth_time c then
        Inl (invalid ''The sign-in token was authenticated in the future.'')
      else if trim (fc_sub c) = [] then Inl (invalid ''The sign-in token names no subject.'')
      else if (case fc_user_id c of None \<Rightarrow> False | Some u \<Rightarrow> u \<noteq> fc_sub c) then
        Inl (invalid ''The sign-in token is inconsistent.'')
      else if fc_sign_in_provider c \<noteq> firebase_provider_id p then
        Inl (invalid ''That sign-in method is not supported.'')
      else Inr ())"

definition nonblank :: "ustr \<Rightarrow> bool" where
  "nonblank s \<longleftrightarrow> trim s \<noteq> []"

definition identities_slot :: "firebase_claims \<Rightarrow> ustr \<Rightarrow> ustr list" where
  "identities_slot c k = (case map_of (fc_identities c) k of None \<Rightarrow> [] | Some xs \<Rightarrow> xs)"

definition identity_of_claims :: "firebase_claims \<Rightarrow> provider \<Rightarrow> verified_identity res" where
  "identity_of_claims c p =
     (let from_slot = (case identities_slot c (lit ''email'') of
            [only] \<Rightarrow> if nonblank only then Some only else None
          | _ \<Rightarrow> None) in
      case identities_slot c (firebase_provider_id p) of
        [] \<Rightarrow> Inl (Invalid (lit ''The sign-in token carries no '' @ provider_display_name p @ lit '' identity.''))
      | only # rest \<Rightarrow>
          if rest = [] \<and> nonblank only then
            Inr \<lparr>vi_provider_subject = only, vi_firebase_uid = fc_sub c,
                 vi_email = (case fc_email c of Some e \<Rightarrow> Some e | None \<Rightarrow> from_slot),
                 vi_email_from_identities = (fc_email c = None \<and> from_slot \<noteq> None),
                 vi_email_verified = (case fc_email_verified c of Some b \<Rightarrow> b | None \<Rightarrow> False),
                 vi_name = (case fc_name c of
                    None \<Rightarrow> None
                  | Some n \<Rightarrow> if trim n \<noteq> [] then Some (trim n) else None)\<rparr>
          else Inl (Invalid (lit ''The sign-in token carries more than one '' @
                 provider_display_name p @ lit '' identity.'')))"

definition firebase_verify ::
  "lib \<Rightarrow> jwt_lib \<Rightarrow> fetcher \<Rightarrow> verifier \<Rightarrow> ustr \<Rightarrow> provider \<Rightarrow> time \<Rightarrow> verifier_state \<Rightarrow>
     verified_identity res \<times> verifier_state" where
  "firebase_verify L J F v token p now s =
     (case (if fv_mode v = Signed then verify_signed J F v token now s
            else (decode_unsigned L J token, s)) of
        (Inl e, s') \<Rightarrow> (Inl e, s')
      | (Inr claims, s') \<Rightarrow>
          (case check_claims v claims p now of
             Inl e \<Rightarrow> (Inl e, s')
           | Inr _ \<Rightarrow> (identity_of_claims claims p, s')))"

subsection \<open>The key endpoint's answer\<close>

record jwk =
  jwk_kty :: ustr
  jwk_kid :: ustr
  jwk_n :: ustr
  jwk_e :: ustr
  jwk_alg :: "ustr option"

fun usable_keys :: "(ustr \<Rightarrow> ustr \<Rightarrow> ustr option) \<Rightarrow> jwk list \<Rightarrow> (ustr \<times> ustr) list" where
  "usable_keys rsa [] = []"
| "usable_keys rsa (k # ks) =
     (if jwk_kty k \<noteq> lit ''RSA'' \<or> jwk_alg k \<noteq> Some (lit ''RS256'') then usable_keys rsa ks
      else (case rsa (jwk_n k) (jwk_e k) of
              Some key \<Rightarrow>
                usable_keys rsa ks @ [(jwk_kid k, key)]
            | None \<Rightarrow> usable_keys rsa ks))"

definition parse_max_age :: "ustr \<Rightarrow> duration option" where
  "parse_max_age cache_control =
     (case find_map (\<lambda>d. strip_prefix (lit ''max-age='') (trim d)) (split_on 44 cache_control) of
        None \<Rightarrow> None
      | Some t \<Rightarrow> map_option (\<lambda>n. secs (int n)) (parse_unsigned 64 t))"

text \<open>The fetch's result from a response with a success status, its cache header and its keys.\<close>

definition keys_of_response ::
  "(ustr \<Rightarrow> ustr \<Rightarrow> ustr option) \<Rightarrow> ustr option \<Rightarrow> jwk list \<Rightarrow> ((ustr \<times> ustr) list \<times> duration) res" where
  "keys_of_response rsa cache_control document =
     (let max_age = (case cache_control of
            None \<Rightarrow> secs 3600
          | Some h \<Rightarrow> (case parse_max_age h of None \<Rightarrow> secs 3600 | Some d \<Rightarrow> d));
          keys = usable_keys rsa document in
      if keys = [] then Inl (unavailable ''Google returned no usable keys'')
      else Inr (keys, max_age))"

subsection \<open>Properties\<close>

lemma check_claims_Inr:
  assumes "check_claims v c p now = Inr x"
  shows "fc_iss c = issuer v \<and> fc_aud c = fv_project_id v \<and> timestamp now < fc_exp c + 60 \<and>
    fc_iat c \<le> timestamp now + 60 \<and> fc_auth_time c \<le> timestamp now + 60 \<and>
    fc_sign_in_provider c = firebase_provider_id p"
  using assms by (auto simp: check_claims_def Let_def leeway_secs_def split: if_splits option.splits)

lemma identity_of_claims_Inr:
  assumes "identity_of_claims c p = Inr i"
  shows "identities_slot c (firebase_provider_id p) = [vi_provider_subject i] \<and>
    nonblank (vi_provider_subject i) \<and> (vi_email_verified i \<longleftrightarrow> fc_email_verified c = Some True) \<and>
    vi_firebase_uid i = fc_sub c"
  using assms by (auto simp: identity_of_claims_def Let_def split: list.splits if_splits option.splits)


definition example_claims :: firebase_claims where
  "example_claims = \<lparr>fc_sub = lit ''u'', fc_user_id = None, fc_email = None, fc_email_verified = None,
     fc_name = None, fc_auth_time = 0, fc_exp = 100, fc_iat = 0,
     fc_iss = lit ''https://securetoken.google.com/p'', fc_aud = lit ''p'',
     fc_sign_in_provider = lit ''google.com'', fc_identities = [(lit ''google.com'', [lit ''g1''])]\<rparr>"


lemma fetch_keys_cache:
  "fetch_keys F now s = (r, s') \<Longrightarrow> vs_fetches s' = Suc (vs_fetches s) \<and> vs_last_forced s' = vs_last_forced s \<and>
    (case r of Inl e \<Rightarrow> vs_cache s' = vs_cache s | Inr _ \<Rightarrow> \<exists>ks. vs_cache s' = Some ks \<and> ks_fetched_at ks = now)"
  by (auto simp: fetch_keys_def split: sum.splits prod.splits)

text \<open>
  Key lookup fails closed: a key is only ever returned from a set that was fetched just now, is
  within its stated lifetime, or is within a day after it; with an older set and a failing fetch
  the lookup is an error and no key.
\<close>

theorem key_lookup_fails_closed:
  assumes "key_by_id F v kid now s = (Inr (Some key), s')"
  shows "fv_mode v = Signed \<and> (\<exists>ks. vs_cache s' = Some ks \<and> key_get ks kid = Some key \<and>
    (now - ks_fetched_at ks < ks_max_age ks + 86400 * 1000000 \<or> ks_fetched_at ks = now))"
proof -
  have "fv_mode v = Signed" using assms by (cases "fv_mode v") (auto simp: key_by_id_def)
  moreover from assms have "\<exists>ks. vs_cache s' = Some ks \<and> key_get ks kid = Some key \<and>
      (is_fresh now ks \<or> is_usable now ks \<or> ks_fetched_at ks = now)"
    by (auto simp: key_by_id_def cached_key_def split: if_splits option.splits prod.splits sum.splits
        dest!: fetch_keys_cache)
  ultimately show ?thesis
    by (auto simp: is_fresh_def is_usable_def max_staleness_def secs_def)
qed

theorem key_lookup_fails_closed_witness:
  "\<exists>s'. key_by_id (\<lambda>_. Inl NotFound) \<lparr>fv_project_id = [], fv_mode = Signed\<rparr> [1] 100
      \<lparr>vs_cache = Some \<lparr>ks_keys = [([1], [2])], ks_fetched_at = 0, ks_max_age = 1\<rparr>,
       vs_last_forced = None, vs_fetches = 0\<rparr> = (Inr (Some [2]), s') \<and> vs_cache s' \<noteq> None"
proof -
  let ?s = "\<lparr>vs_cache = Some \<lparr>ks_keys = [([1 :: nat], [2])], ks_fetched_at = 0, ks_max_age = 1\<rparr>,
       vs_last_forced = None, vs_fetches = 0\<rparr>"
  obtain s' where k: "key_by_id (\<lambda>_. Inl NotFound) \<lparr>fv_project_id = [], fv_mode = Signed\<rparr> [1] 100 ?s =
      (Inr (Some [2]), s')"
    by (simp add: key_by_id_def is_fresh_def is_usable_def fetch_keys_def max_staleness_def secs_def key_get_def)
  from key_lookup_fails_closed [OF k] k show ?thesis by blast
qed

text \<open>One forced refresh after another, at the given instants.\<close>

definition forced_step :: "fetcher \<Rightarrow> time \<Rightarrow> verifier_state \<Rightarrow> nat \<times> verifier_state" where
  "forced_step F now s =
     (let s' = snd (refresh_if_allowed F now s) in (vs_fetches s' - vs_fetches s, s'))"

lemma forced_step_cases:
  "forced_step F now s = (n, s') \<Longrightarrow>
   (n = 0 \<and> s' = s \<and> (\<exists>t. vs_last_forced s = Some t \<and> now - t < min_refresh_interval)) \<or>
   (n = 1 \<and> vs_last_forced s' = Some now \<and> (\<forall>t. vs_last_forced s = Some t \<longrightarrow> min_refresh_interval \<le> now - t))"
  by (cases "fetch_keys F now (s\<lparr>vs_last_forced := Some now\<rparr>)")
    (auto simp: forced_step_def refresh_if_allowed_def Let_def split: option.splits if_splits
       dest!: fetch_keys_cache)

lemma forced_refreshes_from:
  "vs_last_forced s = Some t0 \<Longrightarrow> list_all (\<lambda>t. t0 \<le> t \<and> t < t0 + min_refresh_interval) ts \<Longrightarrow>
   sum_list (fst (run_steps (forced_step F) ts s)) = 0"
proof (induction ts arbitrary: s)
  case (Cons t ts)
  obtain n s' where f: "forced_step F t s = (n, s')" by (cases "forced_step F t s")
  with forced_step_cases [OF f] Cons.prems have "n = 0" "s' = s" by auto
  with f Cons show ?case by (simp del: run_steps.simps)
qed simp

text \<open>
  Invented key ids cannot make the service hammer Google: of any number of forced refreshes
  within five minutes, at most one reaches the network.
\<close>

theorem forced_refreshes_are_rate_limited:
  assumes "sorted ts" and "list_all (\<lambda>t. t < hd ts + secs 300) ts"
  shows "sum_list (fst (run_steps (forced_step F) ts s)) \<le> 1"
proof -
  have "list_all (\<lambda>t. t0 \<le> t \<and> t < t0 + secs 300) ts' \<Longrightarrow>
      sorted ts' \<Longrightarrow>
      sum_list (fst (run_steps (forced_step F) ts' s)) \<le> 1" for t0 ts' s
  proof (induction ts' arbitrary: s)
    case (Cons t ts')
    obtain n s' where f: "forced_step F t s = (n, s')" by (cases "forced_step F t s")
    from forced_step_cases [OF f] show ?case
    proof
      assume "n = 0 \<and> s' = s \<and> (\<exists>l. vs_last_forced s = Some l \<and> t - l < min_refresh_interval)"
      with f Cons show ?thesis by (simp del: run_steps.simps)
    next
      assume r: "n = 1 \<and> vs_last_forced s' = Some t \<and>
        (\<forall>l. vs_last_forced s = Some l \<longrightarrow> min_refresh_interval \<le> t - l)"
      have "list_all (\<lambda>u. t \<le> u \<and> u < t + min_refresh_interval) ts'"
        using Cons.prems by (auto simp: list_all_iff min_refresh_interval_def)
      from forced_refreshes_from [OF _ this, of s' F] r f show ?thesis by (simp del: run_steps.simps)
    qed
  qed simp
  from this [of "hd ts" ts s] assms show ?thesis
    by (cases ts) (auto simp: list_all_iff simp del: run_steps.simps)
qed

theorem forced_refreshes_are_rate_limited_witness:
  "sum_list (fst (run_steps (forced_step (\<lambda>_. Inl NotFound)) [0, 5, 9]
     \<lparr>vs_cache = None, vs_last_forced = None, vs_fetches = 0\<rparr>)) \<le> 1"
  by (rule forced_refreshes_are_rate_limited) (simp_all add: secs_def)

end
