(* ===== verification/Auth_Mail.thy ===== *)
theory Auth_Mail
  imports Cm_Prelude
begin

text \<open>
  \<open>cm-auth/src/mail.rs\<close>: the emails, rendered. The templates are transcribed piece by piece; the
  escaping of user text is measured against a reader of the five entities.
\<close>

record rendered =
  rd_subject :: ustr
  rd_text :: ustr
  rd_html :: ustr

subsection \<open>Tokens\<close>

definition mail_paper :: ustr where
  "mail_paper = lit ''#ffffff''"

definition mail_sunken :: ustr where
  "mail_sunken = lit ''#f2f5f9''"

definition mail_ink :: ustr where
  "mail_ink = lit ''#1c2739''"

definition mail_ink_mid :: ustr where
  "mail_ink_mid = lit ''#4c5a75''"

definition mail_ink_soft :: ustr where
  "mail_ink_soft = lit ''#6b7688''"

definition mail_rule :: ustr where
  "mail_rule = lit ''#dfe4ec''"

definition mail_ember :: ustr where
  "mail_ember = lit ''#cf4b00''"

definition mail_font_display :: ustr where
  "mail_font_display = [39] @ lit ''Barlow Condensed'' @ [39] @ lit '','' @ [39] @ lit ''Arial Narrow'' @ [39] @
     lit '',Arial,sans-serif''"

definition mail_font_body :: ustr where
  "mail_font_body = [39] @ lit ''Barlow'' @ [39] @ lit '','' @ [39] @ lit ''Helvetica Neue'' @ [39] @
     lit '',Helvetica,Arial,sans-serif''"

definition mail_font_mono :: ustr where
  "mail_font_mono = [39] @ lit ''Azeret Mono'' @ [39] @ lit '',ui-monospace,'' @ [39] @ lit ''SF Mono'' @ [39] @
     lit '',Menlo,Consolas,monospace''"

definition mail_radius_sheet :: ustr where
  "mail_radius_sheet = lit ''32px''"

definition mail_radius_inner :: ustr where
  "mail_radius_inner = lit ''20px''"

subsection \<open>Escaping and the shared pieces\<close>

definition escape_char :: "nat \<Rightarrow> ustr" where
  "escape_char c =
     (if c = 38 then lit ''&amp;'' else if c = 60 then lit ''&lt;'' else if c = 62 then lit ''&gt;''
      else if c = 34 then lit ''&quot;'' else if c = 39 then lit ''&#39;'' else [c])"

definition mail_escape :: "ustr \<Rightarrow> ustr" where
  "mail_escape value = concat (map escape_char value)"

definition mail_shell :: "ustr \<Rightarrow> ustr \<Rightarrow> ustr" where
  "mail_shell preheader body =
     lit ''<!doctype html>'' @ [10] @ lit ''<html lang=\"en\">'' @ [10] @ lit ''<head>'' @ [10] @
     lit ''<meta charset=\"utf-8\">'' @ [10] @
     lit ''<meta name=\"viewport\" content=\"width=device-width,initial-scale=1\">'' @ [10] @
     lit ''<meta name=\"x-apple-disable-message-reformatting\">'' @ [10] @
     lit ''<meta name=\"color-scheme\" content=\"light\">'' @ [10] @
     lit ''<meta name=\"supported-color-schemes\" content=\"light\">'' @ [10] @
     lit ''<title>ContractorMarketplace</title>'' @ [10] @
     lit ''<!-- Apple Mail and a few others honour this; Gmail and Outlook ignore'' @
     lit '' it and'' @ [10] @
     lit ''     fall back down each stack. Nothing depends on it loading. -->'' @ [10] @
     lit ''<link href=\"https://fonts.googleapis.com/css2?family=Barlow:wght@400;5'' @
     lit ''00;600&family=Barlow+Condensed:wght@600;700&family=Azeret+Mono:wght@40'' @
     lit ''0;500&display=swap\" rel=\"stylesheet\">'' @ [10] @ lit ''</head>'' @ [10] @
     lit ''<body style=\"margin:0;padding:0;background-color:'' @ mail_sunken @
     lit '';font-family:'' @ mail_font_body @ lit '';-webkit-text-size-adjust:100%;\">'' @ [10] @
     lit ''<!-- Shown in the inbox list beside the subject, and nowhere else. -->'' @ [10] @
     lit ''<div style=\"display:none;max-height:0;overflow:hidden;opacity:0;\">'' @ preheader @
     lit ''</div>'' @ [10] @
     lit ''<table role=\"presentation\" width=\"100%\" cellpadding=\"0\" cellspacing=\"0'' @
     lit ''\" border=\"0\" style=\"background-color:'' @ mail_sunken @ lit '';\">'' @ [10] @
     lit ''<tr><td align=\"center\" style=\"padding:40px 12px;\">'' @ [10, 10] @
     lit ''<!-- The sheet: a ruled region, not a card. Border on all sides, no sh'' @
     lit ''adow. -->'' @ [10] @
     lit ''<table role=\"presentation\" width=\"600\" cellpadding=\"0\" cellspacing=\"0\"'' @
     lit '' border=\"0\" style=\"width:100%;max-width:600px;background-color:'' @ mail_paper @
     lit '';border:1px solid '' @ mail_rule @ lit '';border-radius:'' @ mail_radius_sheet @
     lit '';\">'' @ [10, 10] @ lit ''<tr><td style=\"padding:32px 36px 0 36px;\">'' @ [10] @
     lit ''<!-- One word, one colour, as the wordmark is set on the site. -->'' @ [10] @
     lit ''<span style=\"font-family:'' @ mail_font_display @
     lit '';font-size:19px;font-weight:700;letter-spacing:-0.01em;color:'' @ mail_ink @
     lit '';\">ContractorMarketplace</span>'' @ [10] @ lit ''</td></tr>'' @ [10, 10] @
     lit ''<tr><td style=\"padding:22px 36px 36px 36px;\">'' @ body @ lit ''</td></tr>'' @
     [10, 10] @ lit ''</table>'' @ [10, 10] @
     lit ''<table role=\"presentation\" width=\"600\" cellpadding=\"0\" cellspacing=\"0\"'' @
     lit '' border=\"0\" style=\"width:100%;max-width:600px;\">'' @ [10] @
     lit ''<tr><td style=\"padding:20px 36px;font-family:'' @ mail_font_mono @
     lit '';font-size:11px;line-height:18px;letter-spacing:0.11em;text-transform:'' @
     lit ''uppercase;color:'' @ mail_ink_soft @ lit '';\">'' @ [10] @
     lit ''Licensed contractors in Los Angeles County'' @ [10] @ lit ''</td></tr>'' @ [10] @
     lit ''</table>'' @ [10, 10] @ lit ''</td></tr>'' @ [10] @ lit ''</table>'' @ [10] @
     lit ''</body>'' @ [10] @ lit ''</html>''"

definition mail_heading :: "ustr \<Rightarrow> ustr" where
  "mail_heading text =
     lit ''<h1 style=\"margin:0 0 14px 0;font-family:'' @ mail_font_display @
     lit '';font-size:34px;line-height:0.95;font-weight:700;letter-spacing:-0.005'' @
     lit ''em;color:'' @ mail_ink @ lit '';\">'' @ text @ lit ''</h1>''"

definition mail_label :: "ustr \<Rightarrow> ustr" where
  "mail_label text =
     lit ''<div style=\"margin:0 0 10px 0;font-family:'' @ mail_font_mono @
     lit '';font-size:11px;line-height:1.2;letter-spacing:0.11em;text-transform:u'' @
     lit ''ppercase;color:'' @ mail_ink_soft @ lit '';\">'' @ text @ lit ''</div>''"

definition mail_paragraph :: "ustr \<Rightarrow> ustr" where
  "mail_paragraph html =
     lit ''<p style=\"margin:0 0 14px 0;font-family:'' @ mail_font_body @
     lit '';font-size:15px;line-height:23px;color:'' @ mail_ink_mid @ lit '';\">'' @ html @
     lit ''</p>''"

definition mail_button :: "ustr \<Rightarrow> ustr \<Rightarrow> ustr" where
  "mail_button url label =
     lit ''<table role=\"presentation\" cellpadding=\"0\" cellspacing=\"0\" border=\"0\" '' @
     lit ''style=\"margin:22px 0;\">'' @ [10] @ lit ''<tr><td style=\"background-color:'' @
     mail_ink @ lit '';border-radius:999px;\">'' @ [10] @ lit ''<a href=\"'' @ url @
     lit ''\" style=\"display:inline-block;padding:14px 28px;font-family:'' @ mail_font_body @
     lit '';font-size:15px;font-weight:500;color:'' @ mail_paper @
     lit '';text-decoration:none;\">'' @ label @ lit ''</a>'' @ [10] @ lit ''</td></tr></table>''"

definition mail_link :: "ustr \<Rightarrow> ustr \<Rightarrow> ustr" where
  "mail_link url label =
     lit ''<a href=\"'' @ url @ lit ''\" style=\"color:'' @ mail_ember @
     lit '';text-decoration:none;font-weight:500;\">'' @ mail_escape label @ lit ''</a>''"

definition mail_footnote :: "ustr \<Rightarrow> ustr" where
  "mail_footnote html =
     lit ''<div style=\"margin-top:26px;padding-top:20px;border-top:1px solid '' @ mail_rule @
     lit '';font-family:'' @ mail_font_body @ lit '';font-size:13px;line-height:20px;color:'' @
     mail_ink_soft @ lit '';\">'' @ html @ lit ''</div>''"

subsection \<open>The messages\<close>

definition login_code_body :: "ustr \<Rightarrow> ustr" where
  "login_code_body code =
     mail_label (lit ''Signing in'') @ mail_heading (lit ''Your sign-in code'') @
     mail_paragraph
       (lit ''Enter this code to finish signing in.'') @
     lit ''<table role=\"presentation\" cellpadding=\"0\" cellspacing=\"0\" border=\"0\" '' @
     lit ''style=\"margin:8px 0 4px 0;\"><tr><td style=\"background-color:'' @ mail_sunken @
     lit '';border:1px solid '' @ mail_rule @ lit '';border-radius:'' @ mail_radius_inner @
     lit '';padding:20px 30px;font-family:'' @ mail_font_mono @
     lit '';font-size:30px;line-height:36px;font-weight:500;letter-spacing:0.24em'' @
     lit '';font-variant-numeric:tabular-nums;color:'' @ mail_ink @ lit '';\">'' @ code @
     lit ''</td></tr></table>'' @
     mail_footnote
       (lit ''This code expires in 10 minutes and can be used once. If you did not t'' @
        lit ''ry to sign in, you can ignore this email '' @ [8212] @
        lit '' the code is useless without your password.'')"

definition mail_login_code :: "ustr \<Rightarrow> rendered" where
  "mail_login_code code =
   \<lparr>rd_subject = code @ lit '' is your sign-in code'',
    rd_text =
     lit ''Your sign-in code is:'' @ [10, 10] @ lit ''    '' @ code @ [10, 10] @
     lit ''It expires in 10 minutes. If you did not try to sign in, you can ignor'' @
     lit ''e this email '' @ [8212] @ lit '' nobody can use the code without your password.'',
    rd_html = mail_shell (code @ lit '' '' @ [8212] @ lit '' expires in 10 minutes'')
      (login_code_body code)\<rparr>"

definition email_verify_body :: "ustr \<Rightarrow> ustr" where
  "email_verify_body code =
     mail_label (lit ''Account'') @ mail_heading (lit ''Confirm this email address'') @
     mail_paragraph
       (lit ''Enter this code on your account page to confirm the address and turn o'' @
        lit ''n email notifications.'') @
     lit ''<table role=\"presentation\" cellpadding=\"0\" cellspacing=\"0\" border=\"0\" '' @
     lit ''style=\"margin:8px 0 4px 0;\"><tr><td style=\"background-color:'' @ mail_sunken @
     lit '';border:1px solid '' @ mail_rule @ lit '';border-radius:'' @ mail_radius_inner @
     lit '';padding:20px 30px;font-family:'' @ mail_font_mono @
     lit '';font-size:30px;line-height:36px;font-weight:500;letter-spacing:0.24em'' @
     lit '';font-variant-numeric:tabular-nums;color:'' @ mail_ink @ lit '';\">'' @ code @
     lit ''</td></tr></table>'' @
     mail_footnote
       (lit ''This code expires in 10 minutes and can be used once. If you did not a'' @
        lit ''dd this address to an account, you can ignore this email '' @ [8212] @
        lit '' nothing will be sent here again.'')"

definition mail_email_verify :: "ustr \<Rightarrow> rendered" where
  "mail_email_verify code =
   \<lparr>rd_subject = code @ lit '' confirms your email address'',
    rd_text =
     lit ''Your confirmation code is:'' @ [10, 10] @ lit ''    '' @ code @ [10, 10] @
     lit ''Enter it on your account page to confirm this address. It expires in 1'' @
     lit ''0 minutes. If you did not add this address to an account, you can igno'' @
     lit ''re this email.'',
    rd_html = mail_shell (code @ lit '' '' @ [8212] @ lit '' confirms this address'')
      (email_verify_body code)\<rparr>"

definition password_reset_body :: "ustr \<Rightarrow> ustr" where
  "password_reset_body link =
     mail_label (lit ''Account'') @ mail_heading (lit ''Reset your password'') @
     mail_paragraph
       (lit ''Someone asked to reset the password for this account. If it was you, c'' @
        lit ''hoose a new one within the hour.'') @
     mail_button link (lit ''Choose a new password'') @
     mail_footnote
       (lit ''This link works once and expires in an hour. If it was not you, ignore'' @
        lit '' this email '' @ [8212] @
        lit '' nothing has changed.<br><br>If the button does not work, paste this i'' @
        lit ''nto your browser:<br><span style=\"color:'' @ mail_ink_mid @
        lit '';word-break:break-all;\">'' @ link @ lit ''</span>'')"

definition mail_password_reset :: "ustr \<Rightarrow> rendered" where
  "mail_password_reset link =
   \<lparr>rd_subject = lit ''Reset your password'',
    rd_text =
     lit ''Someone asked to reset the password for this account. If it was you, o'' @
     lit ''pen this link within the hour:'' @ [10, 10] @ lit ''    '' @ link @ [10, 10] @
     lit ''If it was not you, ignore this email; the link works only once and not'' @
     lit ''hing has changed.'',
    rd_html = mail_shell (lit ''Choose a new password '' @ [8212] @ lit '' the link expires in an hour'')
      (password_reset_body link)\<rparr>"

definition mail_digest_job :: "ustr \<Rightarrow> ustr \<Rightarrow> ustr \<Rightarrow> ustr" where
  "mail_digest_job url title facts =
     lit ''<table role=\"presentation\" width=\"100%\" cellpadding=\"0\" cellspacing=\"0'' @
     lit ''\" border=\"0\" style=\"margin:0 0 12px 0;background-color:'' @ mail_paper @
     lit '';border:1px solid '' @ mail_rule @ lit '';border-radius:'' @ mail_radius_inner @
     lit '';\">'' @ [10] @ lit ''<tr><td style=\"padding:18px 20px;\">'' @ [10] @
     lit ''<a href=\"'' @ url @ lit ''\" style=\"font-family:'' @ mail_font_body @
     lit '';font-size:16px;line-height:22px;font-weight:600;color:'' @ mail_ink @
     lit '';text-decoration:none;\">'' @ mail_escape title @ lit ''</a>'' @ [10] @
     lit ''<div style=\"margin-top:6px;font-family:'' @ mail_font_mono @
     lit '';font-size:11px;line-height:1.5;letter-spacing:0.11em;text-transform:u'' @
     lit ''ppercase;color:'' @ mail_ink_soft @ lit '';\">'' @ mail_escape facts @
     lit ''</div>'' @ [10] @ lit ''</td></tr></table>''"

subsection \<open>Properties\<close>

text \<open>A reader of the five entities; any other ampersand is not well formed.\<close>

fun unescape :: "nat \<Rightarrow> ustr \<Rightarrow> ustr option" where
  "unescape 0 s = None"
| "unescape (Suc k) [] = Some []"
| "unescape (Suc k) (c # s) =
     (if c \<noteq> 38 then map_option (Cons c) (unescape k s)
      else case strip_prefix (lit ''amp;'') s of Some r \<Rightarrow> map_option (Cons 38) (unescape k r)
      | None \<Rightarrow> (case strip_prefix (lit ''lt;'') s of Some r \<Rightarrow> map_option (Cons 60) (unescape k r)
      | None \<Rightarrow> (case strip_prefix (lit ''gt;'') s of Some r \<Rightarrow> map_option (Cons 62) (unescape k r)
      | None \<Rightarrow> (case strip_prefix (lit ''quot;'') s of Some r \<Rightarrow> map_option (Cons 34) (unescape k r)
      | None \<Rightarrow> (case strip_prefix (lit ''#39;'') s of Some r \<Rightarrow> map_option (Cons 39) (unescape k r)
      | None \<Rightarrow> None)))))"

lemma unescape_escape_char:
  "unescape (Suc k) (escape_char c @ rest) = map_option (Cons c) (unescape k rest)"
  by (simp add: escape_char_def lit_def)

lemma unescape_escape: "length s < k \<Longrightarrow> unescape k (mail_escape s) = Some s"
proof (induction s arbitrary: k)
  case Nil
  then show ?case by (cases k) (auto simp: mail_escape_def)
next
  case (Cons c s)
  then obtain j where "k = Suc j" "length s < j" by (cases k) auto
  with Cons.IH [of j] show ?case by (simp add: mail_escape_def unescape_escape_char del: unescape.simps)
qed

text \<open>
  Text a person typed cannot become markup in an email: escaped text contains none of the
  characters that open a tag, close an attribute or start a quotation, and nothing is lost, since
  a reader of the five entities recovers exactly the original text.
\<close>

theorem escaped_text_is_inert:
  "set (mail_escape s) \<inter> {60, 62, 34, 39} = {} \<and>
   unescape (Suc (length s)) (mail_escape s) = Some s"
proof
  show "set (mail_escape s) \<inter> {60, 62, 34, 39} = {}"
    by (auto simp: mail_escape_def escape_char_def lit_def)
  show "unescape (Suc (length s)) (mail_escape s) = Some s" by (rule unescape_escape) simp
qed

lemma contains_mid: "contains_str m (a @ m @ b)" "contains_str m (m @ b)"
  unfolding contains_str_iff by blast (metis append_Nil)

lemma contains_append: "contains_str m b \<Longrightarrow> contains_str m (a @ b)" "contains_str m a \<Longrightarrow> contains_str m (a @ b)"
  unfolding contains_str_iff by (metis append.assoc)+

lemma contains_Cons: "contains_str m b \<Longrightarrow> contains_str m (x # b)"
  by simp

lemmas contains_intros = contains_append contains_Cons contains_mid

lemma contains_self: "contains_str m m"
  using contains_mid(2) [of m "[]"] by simp

lemma shell_contains:
  "contains_str m pre \<or> contains_str m body \<Longrightarrow> contains_str m (mail_shell pre body)"
  unfolding mail_shell_def by (elim disjE) (((rule contains_append(2), assumption) | rule contains_append(1))+)

text \<open>
  The value a message exists for reaches every reader: the sign-in code and the confirmation code
  appear in the subject, the text and the HTML of their messages, and the reset link appears
  verbatim in both bodies, in the HTML as the target of the button.
\<close>

theorem messages_carry_their_value:
  "contains_str code (rd_subject (mail_login_code code)) \<and> contains_str code (rd_text (mail_login_code code)) \<and>
   contains_str code (rd_html (mail_login_code code)) \<and>
   contains_str code (rd_subject (mail_email_verify code)) \<and> contains_str code (rd_text (mail_email_verify code)) \<and>
   contains_str code (rd_html (mail_email_verify code)) \<and>
   contains_str link (rd_text (mail_password_reset link)) \<and>
   contains_str (lit ''<a href=\"'' @ link @ lit ''\"'') (rd_html (mail_password_reset link))"
proof (intro conjI)
  show "contains_str code (rd_subject (mail_login_code code))" "contains_str code (rd_text (mail_login_code code))"
    "contains_str code (rd_html (mail_login_code code))"
    "contains_str code (rd_subject (mail_email_verify code))" "contains_str code (rd_text (mail_email_verify code))"
    "contains_str code (rd_html (mail_email_verify code))"
    "contains_str link (rd_text (mail_password_reset link))"
    by (simp_all add: mail_login_code_def mail_email_verify_def mail_password_reset_def contains_intros
        shell_contains contains_self del: contains_str.simps)
  have "contains_str (lit ''<a href=\"'' @ link @ lit ''\"'')
      (mail_button link (lit ''Choose a new password''))"
  proof -
    have q: "lit ''\" style=\"display:inline-block;padding:14px 28px;font-family:'' @ r =
        lit ''\"'' @ lit '' style=\"display:inline-block;padding:14px 28px;font-family:'' @ r" for r
      by (simp add: lit_def)
    have "contains_str (x @ y @ z) (x @ y @ z @ b)" for x y z b :: ustr
      unfolding contains_str_iff by (rule exI [of _ "[]"]) simp
    then show ?thesis unfolding mail_button_def q by (simp add: contains_intros del: contains_str.simps)
  qed
  then show "contains_str (lit ''<a href=\"'' @ link @ lit ''\"'') (rd_html (mail_password_reset link))"
    by (simp add: mail_password_reset_def password_reset_body_def contains_intros
        shell_contains del: contains_str.simps)
qed

end
