(* ===== verification/Auth_Service.thy ===== *)
theory Auth_Service
  imports Repo_Sessions Repo_Auth_Tokens Repo_Oauth Repo_Audit Repo_Outbox
    Auth_Csrf Auth_Login_Code Auth_Password Auth_Ratelimit Auth_Firebase Auth_Mail
begin

text \<open>
  \<open>cm-auth/src/service.rs\<close>: the account operations, composed as the code composes them. Before every
  statement on a connection of its own and before every transaction an operation lets other
  requests run: \<open>after_others env k\<close> applies the \<open>k\<close>-th of an arbitrary family of changes of the
  world. A transaction itself runs alone. The properties of the operations are in
  \<open>Auth_Login_Properties\<close>, \<open>Auth_Account_Properties\<close>, \<open>Auth_Session_Properties\<close>,
  \<open>Auth_Registration_Properties\<close>, \<open>Auth_Errors\<close> and \<open>Auth_Invariant\<close>.
\<close>

text \<open>
  A transaction the code may leave early without an error: \<open>Inl x\<close> drops it (a rollback) and returns
  \<open>x\<close>; \<open>Inr y\<close> commits and returns \<open>y\<close>.
\<close>

definition transaction_early :: "('a + 'a) m \<Rightarrow> 'a m" where
  "transaction_early body w =
     (case bind round_trip (\<lambda>_. body) w of
        (Inl e, w') \<Rightarrow> (Inl e, rollback_to w w')
      | (Inr (Inl x), w') \<Rightarrow> (Inr x, rollback_to w w')
      | (Inr (Inr y), w') \<Rightarrow>
          (case round_trip w' of
             (Inl e, w'') \<Rightarrow> (Inl e, rollback_to w w'')
           | (Inr _, w'') \<Rightarrow> (Inr y, w'')))"

definition touch_interval_secs :: int where "touch_interval_secs = 60"
definition reset_ttl_secs :: int where "reset_ttl_secs = 3600"

record request_context =
  rc_client_ip :: "ustr option"
  rc_user_agent :: "ustr option"
  rc_request_id :: "ustr option"

record issued_session =
  is_session_id :: uuid
  is_token :: ustr
  is_csrf_token :: ustr
  is_absolute_expires_at :: time
  is_max_age :: duration

record authenticated =
  au_session_id :: uuid
  au_user :: user
  au_roles :: "role list"
  au_csrf_token :: ustr
  au_session_expires_at :: time

definition has_role :: "authenticated \<Rightarrow> role \<Rightarrow> bool" where
  "has_role a r \<longleftrightarrow> r \<in> set (au_roles a)"

datatype precheck =
    NoAccount
  | Inactive uuid
  | NoPassword uuid
  | Locked uuid
  | Proceed uuid ustr

record login_outcome =
  lo_user :: user
  lo_session :: issued_session

record challenge =
  ch_challenge_id :: uuid
  ch_email :: ustr

datatype login_result = Session login_outcome | Challenged challenge

record firebase_setup =
  fs_jwt :: jwt_lib
  fs_fetcher :: fetcher
  fs_verifier :: verifier
  fs_state :: verifier_state

record service =
  sv_pepper :: ustr
  sv_hasher :: hasher
  sv_site_origin :: origin
  sv_session_idle :: duration
  sv_session_absolute :: duration
  sv_absolute_max_age :: duration
  sv_firebase :: "firebase_setup option"
  sv_code_rounds :: nat

record firebase_config =
  fbc_project_id :: ustr
  fbc_emulator_host :: "ustr option"

record auth_config =
  ac_hash_pepper :: ustr
  ac_session_idle :: duration
  ac_session_absolute :: duration
  ac_firebase :: "firebase_config option"

text \<open>
  The verifier the service starts with: empty key cache, and unsigned tokens only when an emulator is
  configured. \<open>client\<close> is the outcome of building the HTTP client that fetches Google's keys; an
  emulator needs none.
\<close>

definition firebase_new :: "jwt_lib \<Rightarrow> fetcher res \<Rightarrow> fetcher \<Rightarrow> firebase_config \<Rightarrow> firebase_setup res" where
  "firebase_new J client no_fetch c =
     (let setup = (\<lambda>F m. \<lparr>fs_jwt = J, fs_fetcher = F,
            fs_verifier = \<lparr>fv_project_id = fbc_project_id c, fv_mode = m\<rparr>,
            fs_state = \<lparr>vs_cache = None, vs_last_forced = None, vs_fetches = 0\<rparr>\<rparr>) in
      if fbc_emulator_host c \<noteq> None then Inr (setup no_fetch Emulator)
      else (case client of Inl e \<Rightarrow> Inl e | Inr F \<Rightarrow> Inr (setup F Signed)))"

text \<open>\<open>ChronoDuration::from_std\<close>: at most \<open>i64::MAX\<close> milliseconds.\<close>

definition from_std :: "duration \<Rightarrow> duration res" where
  "from_std d = (if d \<le> (2 ^ 63 - 1) * 1000 then Inr d else Inl (internal ''out of range''))"

definition service_new ::
  "lib \<Rightarrow> jwt_lib \<Rightarrow> fetcher res \<Rightarrow> fetcher \<Rightarrow> auth_config \<Rightarrow> origin \<Rightarrow> nat \<Rightarrow> service m" where
  "service_new L J client no_fetch cfg site_origin rounds =
     bind (case ac_firebase cfg of
             None \<Rightarrow> ret None
           | Some c \<Rightarrow> bind (of_res (firebase_new J client no_fetch c)) (\<lambda>fb. ret (Some fb))) (\<lambda>fb.
     bind (hasher_new L) (\<lambda>h.
     bind (of_res (from_std (ac_session_idle cfg))) (\<lambda>idle.
     bind (of_res (from_std (ac_session_absolute cfg))) (\<lambda>ceiling. ret
       \<lparr>sv_pepper = ac_hash_pepper cfg, sv_hasher = h, sv_site_origin = site_origin,
        sv_session_idle = idle, sv_session_absolute = ceiling,
        sv_absolute_max_age = ac_session_absolute cfg, sv_firebase = fb,
        sv_code_rounds = rounds\<rparr>))))"

definition client_key :: "request_context \<Rightarrow> ustr" where
  "client_key ctx = (case rc_client_ip ctx of Some a \<Rightarrow> a | None \<Rightarrow> lit ''unknown'')"

definition ip_hash :: "lib \<Rightarrow> service \<Rightarrow> request_context \<Rightarrow> bytes option" where
  "ip_hash L sv ctx = map_option (hash_ip L (sv_pepper sv)) (rc_client_ip ctx)"

definition issue_session :: "lib \<Rightarrow> service \<Rightarrow> uuid \<Rightarrow> request_context \<Rightarrow> time \<Rightarrow> issued_session m" where
  "issue_session L sv uid ctx now =
     bind (token_generate L) (\<lambda>raw.
     bind new_id (\<lambda>session_id.
     let absolute_expires_at = now + sv_session_absolute sv;
         idle_expires_at = min (now + sv_session_idle sv) absolute_expires_at in
     seq (sessions_insert session_id uid (digest_token L raw) idle_expires_at absolute_expires_at
            (ip_hash L sv ctx) (rc_user_agent ctx))
     (ret \<lparr>is_session_id = session_id, is_token = raw,
           is_csrf_token = token_for_session L (sv_pepper sv) session_id,
           is_absolute_expires_at = absolute_expires_at,
           is_max_age = sv_absolute_max_age sv\<rparr>)))"

definition event :: "lib \<Rightarrow> service \<Rightarrow> string \<Rightarrow> request_context \<Rightarrow> audit_event" where
  "event L sv action ctx =
     (audit_event_new action ''users'')\<lparr>ev_request_id := rc_request_id ctx, ev_ip_hash := ip_hash L sv ctx\<rparr>"

text \<open>The events whose actor and subject are one account.\<close>

definition user_event ::
  "lib \<Rightarrow> service \<Rightarrow> string \<Rightarrow> request_context \<Rightarrow> uuid \<Rightarrow> json_object \<Rightarrow> audit_event" where
  "user_event L sv action ctx uid j =
     ev_with_data j (ev_subject uid (ev_actor ActorUser (Some uid) (event L sv action ctx)))"

text \<open>A deliberately loose check of an address.\<close>

definition looks_like_email :: "ustr \<Rightarrow> bool" where
  "looks_like_email value =
     (if 254 < utf8_len value \<or> list_ex is_whitespace value then False
      else (case split_once 64 value of
              None \<Rightarrow> False
            | Some (local, domain) \<Rightarrow>
                local \<noteq> [] \<and> domain \<noteq> [] \<and> 46 \<in> set domain \<and> 64 \<notin> set domain))"

subsection \<open>Registration and challenges\<close>

definition code_mail :: "uuid \<Rightarrow> ustr \<Rightarrow> mail_kind \<Rightarrow> rendered \<Rightarrow> new_email" where
  "code_mail uid recipient kind r =
     \<lparr>ne_user_id = uid, ne_recipient = recipient, ne_kind = kind, ne_subject = rd_subject r,
      ne_body_text = rd_text r, ne_body_html = Some (rd_html r), ne_unsubscribe_url = None\<rparr>"

definition issue_challenge :: "lib \<Rightarrow> service \<Rightarrow> uuid \<Rightarrow> ustr \<Rightarrow> challenge m" where
  "issue_challenge L sv uid email =
     bind new_id (\<lambda>challenge_id.
     bind (generate_code (sv_code_rounds sv)) (\<lambda>code.
     seq (tokens_issue challenge_id uid LoginCode (code_hash L (sv_pepper sv) challenge_id code) code_ttl_secs)
     (seq (outbox_enqueue (code_mail uid email KLoginCode (mail_login_code code)))
     (ret \<lparr>ch_challenge_id = challenge_id, ch_email = email\<rparr>))))"

definition register_tx ::
  "lib \<Rightarrow> service \<Rightarrow> ustr \<Rightarrow> ustr \<Rightarrow> ustr \<Rightarrow> account_type \<Rightarrow> request_context \<Rightarrow> challenge m" where
  "register_tx L sv email display_name password_hash k ctx =
     bind new_id (\<lambda>i.
     bind (users_insert L i (Some email) display_name k) (\<lambda>user.
     seq (passwords_insert (usr_id user) password_hash)
     (bind (issue_challenge L sv (usr_id user) email) (\<lambda>ch.
     seq (audit_record (user_event L sv ''auth.registered'' ctx (usr_id user)
            [(lit ''challenge_id'', JUuid (ch_challenge_id ch))]))
     (ret ch)))))"

definition register ::
  "lib \<Rightarrow> service \<Rightarrow> env \<Rightarrow> ustr \<Rightarrow> ustr \<Rightarrow> ustr \<Rightarrow> account_type \<Rightarrow> request_context \<Rightarrow> challenge m" where
  "register L sv env email0 display_name0 password k ctx =
     bind utc_now (\<lambda>now.
     seq (after_others env 0 (enforce L (sv_pepper sv) register_per_ip (client_key ctx) now))
     (let email = trim email0; display_name = trim display_name0 in
      if display_name = [] then throw (invalid ''A display name is required.'')
      else if \<not> looks_like_email email then throw (invalid ''Enter a valid email address.'')
      else
        seq (of_res (check_policy L password email))
        (bind (hasher_hash L password) (\<lambda>password_hash.
         after_others env 1 (transaction (register_tx L sv email display_name password_hash k ctx))))))"

definition verification_target :: "user \<Rightarrow> ustr option \<Rightarrow> ustr res" where
  "verification_target user new_email =
     (let by_email = (case usr_email user of
            Some e \<Rightarrow> Inr e
          | None \<Rightarrow> Inl (Invalid (lit ''This account has no email address yet '' @ [8212] @
                lit '' enter one to confirm.''))) in
      case new_email of
        None \<Rightarrow> by_email
      | Some v \<Rightarrow>
          let address = trim v in
          if address = [] then by_email
          else if \<not> looks_like_email address then Inl (invalid ''Enter a valid email address.'')
          else Inr address)"

definition request_email_verification ::
  "lib \<Rightarrow> service \<Rightarrow> env \<Rightarrow> uuid \<Rightarrow> ustr option \<Rightarrow> request_context \<Rightarrow> challenge m" where
  "request_email_verification L sv env uid new_email ctx =
     bind utc_now (\<lambda>now.
     seq (after_others env 0 (enforce L (sv_pepper sv) login_code_issue_per_user (uuid_to_string L uid) now))
     (after_others env 1 (transaction (
        bind (users_find_by_id uid) (\<lambda>found.
        case found of
          None \<Rightarrow> throw Unauthenticated
        | Some user \<Rightarrow>
            bind (of_res (verification_target user new_email)) (\<lambda>target.
            seq (enforce L (sv_pepper sv) password_reset_request_per_email (to_lowercase L target) now)
            (bind new_id (\<lambda>challenge_id.
             bind (generate_code (sv_code_rounds sv)) (\<lambda>code.
             seq (tokens_issue challenge_id uid EmailVerify
                   (email_verify_hash L (sv_pepper sv) challenge_id code target) code_ttl_secs)
             (seq (outbox_enqueue (code_mail uid target KEmailVerify (mail_email_verify code)))
             (seq (audit_record (user_event L sv ''auth.email_verify_requested'' ctx uid
                    [(lit ''challenge_id'', JUuid challenge_id),
                     (lit ''address_is_new'', JBool (new_email \<noteq> None))]))
             (ret \<lparr>ch_challenge_id = challenge_id, ch_email = target\<rparr>))))))))))))"

text \<open>\<open>None\<close>: the failure was recorded and committed, and the caller is told the code was wrong.\<close>

definition confirm_email_tx ::
  "lib \<Rightarrow> service \<Rightarrow> uuid \<Rightarrow> uuid \<Rightarrow> ustr \<Rightarrow> ustr \<Rightarrow> request_context \<Rightarrow> user option m" where
  "confirm_email_tx L sv uid challenge_id code email ctx =
     bind (tokens_verify_code challenge_id EmailVerify
             (email_verify_hash L (sv_pepper sv) challenge_id (trim code) email) max_code_attempts) (\<lambda>outcome.
     case outcome of
       Matched owner \<Rightarrow>
         if owner \<noteq> uid then throw Unauthenticated
         else
           bind (users_find_by_id uid) (\<lambda>found.
           case found of
             None \<Rightarrow> throw Unauthenticated
           | Some current \<Rightarrow>
               bind (if (case usr_email current of None \<Rightarrow> False | Some e \<Rightarrow> eq_ignore_ascii_case e email)
                     then seq (users_mark_email_verified uid)
                       (bind (users_find_by_id uid) (\<lambda>again.
                        case again of None \<Rightarrow> throw Unauthenticated | Some u \<Rightarrow> ret u))
                     else users_update_email L uid email) (\<lambda>user.
               seq (audit_record (user_event L sv ''auth.email_verified'' ctx uid
                      [(lit ''challenge_id'', JUuid challenge_id)]))
               (ret (Some user))))
     | _ \<Rightarrow>
         seq (audit_record (user_event L sv ''auth.email_verify_failed'' ctx uid
                [(lit ''challenge_id'', JUuid challenge_id)]))
         (ret None))"

definition confirm_email ::
  "lib \<Rightarrow> service \<Rightarrow> env \<Rightarrow> uuid \<Rightarrow> uuid \<Rightarrow> ustr \<Rightarrow> ustr \<Rightarrow> request_context \<Rightarrow> user m" where
  "confirm_email L sv env uid challenge_id code email0 ctx =
     bind utc_now (\<lambda>now.
     seq (after_others env 0 (enforce L (sv_pepper sv) login_code_verify_per_challenge
            (uuid_to_string L challenge_id) now))
     (bind (after_others env 1 (transaction (confirm_email_tx L sv uid challenge_id code (trim email0) ctx)))
        (\<lambda>r. case r of
           None \<Rightarrow> throw (invalid ''That code is incorrect or has expired.'')
         | Some user \<Rightarrow> ret user)))"

subsection \<open>Signing in with a password\<close>

definition record_failed_login ::
  "lib \<Rightarrow> service \<Rightarrow> uuid option \<Rightarrow> string \<Rightarrow> request_context \<Rightarrow> unit m" where
  "record_failed_login L sv uid reason ctx =
     (let e = ev_with_data [(lit ''reason'', JText (lit reason))]
                (ev_actor ActorUser uid (event L sv ''auth.login_failed'' ctx)) in
      seq (audit_record (case uid of None \<Rightarrow> e | Some u \<Rightarrow> ev_subject u e)) (ret ()))"

definition audit_failed_login ::
  "lib \<Rightarrow> service \<Rightarrow> uuid option \<Rightarrow> string \<Rightarrow> request_context \<Rightarrow> unit m" where
  "audit_failed_login L sv uid reason ctx = seq acquire (record_failed_login L sv uid reason ctx)"

definition login_precheck :: "lib \<Rightarrow> env \<Rightarrow> ustr \<Rightarrow> time \<Rightarrow> precheck m" where
  "login_precheck L env email now =
     seq (after_others env 1 acquire)
     (bind (users_find_by_email L (trim email)) (\<lambda>found.
      case found of
        None \<Rightarrow> ret NoAccount
      | Some user \<Rightarrow>
          if \<not> can_authenticate (usr_status user) then ret (Inactive (usr_id user))
          else
            bind (after_others env 2 (passwords_find (usr_id user))) (\<lambda>cred.
            case cred of
              None \<Rightarrow> ret (NoPassword (usr_id user))
            | Some c \<Rightarrow>
                if is_locked_at c now then ret (Locked (usr_id user))
                else
                  seq (if c_locked_until c \<noteq> None
                       then after_others env 3 (passwords_clear_failures (usr_id user)) else ret ())
                  (ret (Proceed (usr_id user) (c_password_hash c))))))"

definition revalidate :: "uuid \<Rightarrow> ustr \<Rightarrow> time \<Rightarrow> user m" where
  "revalidate uid verified_hash now =
     bind (passwords_find_for_update uid) (\<lambda>cred.
     case cred of
       None \<Rightarrow> throw Unauthenticated
     | Some current \<Rightarrow>
         bind (users_find_by_id uid) (\<lambda>found.
         case found of
           None \<Rightarrow> throw Unauthenticated
         | Some user \<Rightarrow>
             if \<not> can_authenticate (usr_status user) then throw Unauthenticated
             else if c_password_hash current \<noteq> verified_hash then throw Unauthenticated
             else if is_locked_at current now then throw Unauthenticated
             else ret user))"

definition upgrade_hash_if_needed :: "lib \<Rightarrow> env \<Rightarrow> uuid \<Rightarrow> ustr \<Rightarrow> ustr \<Rightarrow> unit m" where
  "upgrade_hash_if_needed L env uid verified_hash password =
     (if \<not> needs_rehash L verified_hash then ret ()
      else
        bind (hasher_hash L password) (\<lambda>upgraded.
        seq (after_others env 8 acquire)
        (seq (passwords_upgrade_hash uid verified_hash upgraded) (ret ()))))"

definition bad_password :: "lib \<Rightarrow> service \<Rightarrow> env \<Rightarrow> uuid \<Rightarrow> request_context \<Rightarrow> 'a m" where
  "bad_password L sv env uid ctx =
     seq (after_others env 4 acquire)
     (bind (passwords_record_failure uid) (\<lambda>after.
      seq (after_others env 5 (record_failed_login L sv (Some uid) ''bad_password'' ctx))
      (bind utc_now (\<lambda>t.
       seq (if is_locked_at after t then
              seq (audit_record (ev_with_data
                     [(lit ''failed_attempts'', JInt (c_failed_attempts after)),
                      (lit ''locked_until'', JTime (c_locked_until after))]
                     (ev_subject uid (ev_actor ActorSystem (Some uid) (event L sv ''auth.account_locked'' ctx)))))
              (ret ())
            else ret ())
       (throw Unauthenticated)))))"

definition login_tx ::
  "lib \<Rightarrow> service \<Rightarrow> uuid \<Rightarrow> ustr \<Rightarrow> bool \<Rightarrow> request_context \<Rightarrow> time \<Rightarrow> login_result m" where
  "login_tx L sv uid verified_hash remembered ctx now =
     bind utc_now (\<lambda>t.
     bind (revalidate uid verified_hash t) (\<lambda>user.
     seq (passwords_clear_failures uid)
     (if remembered then
        bind (issue_session L sv uid ctx now) (\<lambda>session.
        seq (audit_record (user_event L sv ''auth.login_succeeded'' ctx uid
               [(lit ''session_id'', JUuid (is_session_id session))]))
        (ret (Session \<lparr>lo_user = user, lo_session = session\<rparr>)))
      else
        (case usr_email user of
           None \<Rightarrow> throw (internal ''password account with no email'')
         | Some address \<Rightarrow>
             bind (issue_challenge L sv uid address) (\<lambda>ch.
             seq (audit_record (user_event L sv ''auth.login_challenged'' ctx uid
                    [(lit ''challenge_id'', JUuid (ch_challenge_id ch))]))
             (ret (Challenged ch)))))))"

definition login_verified ::
  "lib \<Rightarrow> service \<Rightarrow> env \<Rightarrow> uuid \<Rightarrow> ustr \<Rightarrow> ustr \<Rightarrow> ustr option \<Rightarrow> request_context \<Rightarrow> time \<Rightarrow> login_result m" where
  "login_verified L sv env uid verified_hash password device ctx now =
     (let remembered = (case device of
            None \<Rightarrow> False
          | Some value \<Rightarrow> device_remembers L (sv_pepper sv) value uid now) in
      seq (if remembered then ret ()
           else after_others env 6 (enforce L (sv_pepper sv) login_code_issue_per_user (uuid_to_string L uid) now))
      (bind (after_others env 7 (transaction (login_tx L sv uid verified_hash remembered ctx now))) (\<lambda>result.
       seq (upgrade_hash_if_needed L env uid verified_hash password)
       (ret result))))"

definition login ::
  "lib \<Rightarrow> service \<Rightarrow> env \<Rightarrow> ustr \<Rightarrow> ustr \<Rightarrow> ustr option \<Rightarrow> request_context \<Rightarrow> login_result m" where
  "login L sv env email password device ctx =
     bind utc_now (\<lambda>now.
     seq (after_others env 0 (enforce L (sv_pepper sv) login_per_ip (client_key ctx) now))
     (bind (login_precheck L env email now) (\<lambda>pre.
      case pre of
        NoAccount \<Rightarrow>
          seq (verify_decoy L (sv_hasher sv) password)
          (seq (after_others env 4 (audit_failed_login L sv None ''unknown_account'' ctx))
          (throw Unauthenticated))
      | Inactive uid \<Rightarrow>
          seq (verify_decoy L (sv_hasher sv) password)
          (seq (after_others env 4 (audit_failed_login L sv (Some uid) ''account_not_active'' ctx))
          (throw Unauthenticated))
      | NoPassword uid \<Rightarrow>
          seq (verify_decoy L (sv_hasher sv) password)
          (seq (after_others env 4 (audit_failed_login L sv (Some uid) ''no_password_set'' ctx))
          (throw Unauthenticated))
      | Locked uid \<Rightarrow>
          seq (after_others env 4 (audit_failed_login L sv (Some uid) ''account_locked'' ctx))
          (throw Unauthenticated)
      | Proceed uid verified_hash \<Rightarrow>
          bind (hasher_verify L password verified_hash) (\<lambda>verified.
          if \<not> verified then bad_password L sv env uid ctx
          else login_verified L sv env uid verified_hash password device ctx now))))"

subsection \<open>Codes\<close>

definition verify_code_tx ::
  "lib \<Rightarrow> service \<Rightarrow> uuid \<Rightarrow> request_context \<Rightarrow> time \<Rightarrow> login_outcome m" where
  "verify_code_tx L sv uid ctx now =
     bind (users_find_by_id uid) (\<lambda>found.
     case found of
       None \<Rightarrow> throw Unauthenticated
     | Some first \<Rightarrow>
         if \<not> can_authenticate (usr_status first) then throw Unauthenticated
         else
           seq (users_mark_email_verified uid)
           (bind (users_find_by_id uid) (\<lambda>again.
            case again of
              None \<Rightarrow> throw Unauthenticated
            | Some user \<Rightarrow>
                bind (issue_session L sv uid ctx now) (\<lambda>session.
                seq (audit_record (user_event L sv ''auth.login_succeeded'' ctx uid
                       [(lit ''session_id'', JUuid (is_session_id session)),
                        (lit ''via'', JText (lit ''login_code''))]))
                (ret \<lparr>lo_user = user, lo_session = session\<rparr>)))))"

definition verify_login_code ::
  "lib \<Rightarrow> service \<Rightarrow> env \<Rightarrow> uuid \<Rightarrow> ustr \<Rightarrow> request_context \<Rightarrow> (login_outcome \<times> ustr) m" where
  "verify_login_code L sv env challenge_id code ctx =
     bind utc_now (\<lambda>now.
     seq (after_others env 0 (enforce L (sv_pepper sv) login_code_verify_per_challenge
            (uuid_to_string L challenge_id) now))
     (seq (after_others env 1 acquire)
     (bind (tokens_verify_code challenge_id LoginCode
              (code_hash L (sv_pepper sv) challenge_id (trim code)) max_code_attempts) (\<lambda>outcome.
      case outcome of
        Matched uid \<Rightarrow>
          bind (after_others env 2 (transaction (verify_code_tx L sv uid ctx now))) (\<lambda>out.
          ret (out, device_value L (sv_pepper sv) uid (now + device_ttl)))
      | _ \<Rightarrow>
          seq (after_others env 2 acquire)
          (seq (audit_record (ev_with_data [(lit ''challenge_id'', JUuid challenge_id)]
                 (ev_actor ActorUser None (event L sv ''auth.login_code_failed'' ctx))))
          (throw (invalid ''That code is incorrect or has expired.'')))))))"

definition resend_login_code ::
  "lib \<Rightarrow> service \<Rightarrow> env \<Rightarrow> uuid \<Rightarrow> request_context \<Rightarrow> challenge m" where
  "resend_login_code L sv env challenge_id ctx =
     bind utc_now (\<lambda>now.
     seq (after_others env 0 acquire)
     (bind (tokens_challenge_user challenge_id) (\<lambda>owner.
      case owner of
        None \<Rightarrow> throw (invalid ''That code is incorrect or has expired.'')
      | Some uid \<Rightarrow>
          bind (after_others env 1 (users_find_by_id uid)) (\<lambda>found.
          case found of
            None \<Rightarrow> throw (invalid ''That code is incorrect or has expired.'')
          | Some user \<Rightarrow>
              seq (after_others env 2 (enforce L (sv_pepper sv) login_code_issue_per_user
                     (uuid_to_string L (usr_id user)) now))
              (after_others env 3 (transaction (
                 case usr_email user of
                   None \<Rightarrow> throw (internal ''challenged account with no email'')
                 | Some address \<Rightarrow>
                     bind (issue_challenge L sv (usr_id user) address) (\<lambda>ch.
                     seq (audit_record (user_event L sv ''auth.login_code_resent'' ctx (usr_id user)
                            [(lit ''challenge_id'', JUuid (ch_challenge_id ch))]))
                     (ret ch)))))))))"

subsection \<open>Resetting and changing a password\<close>

definition request_password_reset ::
  "lib \<Rightarrow> service \<Rightarrow> env \<Rightarrow> ustr \<Rightarrow> request_context \<Rightarrow> unit m" where
  "request_password_reset L sv env email0 ctx =
     bind utc_now (\<lambda>now.
     seq (after_others env 0 (enforce L (sv_pepper sv) password_reset_request_per_ip (client_key ctx) now))
     (let email = trim email0 in
      if \<not> looks_like_email email then throw (invalid ''Enter a valid email address.'')
      else
        seq (after_others env 1 (enforce L (sv_pepper sv) password_reset_request_per_email
               (to_lowercase L email) now))
        (seq (after_others env 2 acquire)
        (bind (users_find_by_email L email) (\<lambda>found.
         case found of
           None \<Rightarrow> ret ()
         | Some user \<Rightarrow>
             if \<not> can_authenticate (usr_status user) then ret ()
             else
               bind (token_generate L) (\<lambda>raw.
               let link = or_normalised (sv_site_origin sv) @ lit ''/reset-password?token='' @ raw in
               after_others env 3 (transaction_early (
                 bind new_id (\<lambda>i.
                 seq (tokens_issue i (usr_id user) PasswordReset (digest_token L raw) reset_ttl_secs)
                 (case usr_email user of
                    None \<Rightarrow> ret (Inl ())
                  | Some address \<Rightarrow>
                      seq (outbox_enqueue (code_mail (usr_id user) address KPasswordReset (mail_password_reset link)))
                      (seq (audit_record (user_event L sv ''auth.password_reset_requested'' ctx (usr_id user) []))
                      (ret (Inr ())))))))))))))"

definition bad_link :: app_error where
  "bad_link = invalid ''That reset link is invalid or has expired.''"

definition reset_tx :: "lib \<Rightarrow> service \<Rightarrow> bytes \<Rightarrow> uuid \<Rightarrow> ustr \<Rightarrow> request_context \<Rightarrow> unit m" where
  "reset_tx L sv digest uid new_hash ctx =
     bind (tokens_consume_link digest PasswordReset) (\<lambda>owner.
     if owner = None then throw bad_link
     else
       seq (passwords_set_hash uid new_hash)
       (bind (sessions_revoke_all_for_user uid PasswordChange None) (\<lambda>revoked.
        seq (users_mark_email_verified uid)
        (seq (audit_record (user_event L sv ''auth.password_reset_completed'' ctx uid
               [(lit ''sessions_revoked'', JInt (int revoked))]))
        (ret ())))))"

definition confirm_password_reset ::
  "lib \<Rightarrow> service \<Rightarrow> env \<Rightarrow> ustr \<Rightarrow> ustr \<Rightarrow> request_context \<Rightarrow> unit m" where
  "confirm_password_reset L sv env token new_password ctx =
     (let digest = digest_token L (trim token) in
      seq (after_others env 0 acquire)
      (bind (tokens_peek_link digest PasswordReset) (\<lambda>owner.
       case owner of
         None \<Rightarrow> throw bad_link
       | Some uid \<Rightarrow>
           bind (after_others env 1 (users_find_by_id uid)) (\<lambda>found.
           case found of
             None \<Rightarrow> throw bad_link
           | Some user \<Rightarrow>
               if \<not> can_authenticate (usr_status user) then throw bad_link
               else
                 seq (of_res (check_policy L new_password
                        (case usr_email user of None \<Rightarrow> [] | Some e \<Rightarrow> e)))
                 (bind (hasher_hash L new_password) (\<lambda>new_hash.
                  after_others env 2 (transaction (reset_tx L sv digest (usr_id user) new_hash ctx))))))))"

definition in_flight :: app_error where
  "in_flight = conflict ''This account changed while the request was in flight. Try again.''"

definition revalidate_error :: "app_error \<Rightarrow> app_error" where
  "revalidate_error e = (case e of Unauthenticated \<Rightarrow> in_flight | other \<Rightarrow> other)"

definition change_tx ::
  "lib \<Rightarrow> service \<Rightarrow> uuid \<Rightarrow> uuid \<Rightarrow> ustr \<Rightarrow> ustr \<Rightarrow> request_context \<Rightarrow> time \<Rightarrow> issued_session m" where
  "change_tx L sv uid current_session_id verified_hash new_hash ctx now =
     bind utc_now (\<lambda>t.
     seq (map_err revalidate_error (revalidate uid verified_hash t))
     (bind (passwords_replace_hash uid verified_hash new_hash) (\<lambda>swapped.
      if \<not> swapped then seq round_trip (throw in_flight)
      else
        bind (sessions_revoke_all_for_user uid PasswordChange (Some current_session_id)) (\<lambda>revoked.
        seq (sessions_revoke current_session_id Rotation)
        (bind (issue_session L sv uid ctx now) (\<lambda>session.
         seq (audit_record (user_event L sv ''auth.password_changed'' ctx uid
                [(lit ''other_sessions_revoked'', JInt (int revoked)),
                 (lit ''rotated_from'', JUuid current_session_id),
                 (lit ''rotated_to'', JUuid (is_session_id session))]))
         (ret session)))))))"

definition change_password ::
  "lib \<Rightarrow> service \<Rightarrow> env \<Rightarrow> uuid \<Rightarrow> uuid \<Rightarrow> ustr \<Rightarrow> ustr \<Rightarrow> request_context \<Rightarrow> issued_session m" where
  "change_password L sv env uid current_session_id current_password new_password ctx =
     bind utc_now (\<lambda>now.
     seq (after_others env 0 (enforce L (sv_pepper sv) password_change_per_user (uuid_to_string L uid) now))
     (seq (after_others env 1 acquire)
     (bind (users_find_by_id uid) (\<lambda>found.
      case found of
        None \<Rightarrow> throw Unauthenticated
      | Some user \<Rightarrow>
          bind (after_others env 2 (passwords_find uid)) (\<lambda>cred.
          case cred of
            None \<Rightarrow> throw (invalid ''This account has no password set.'')
          | Some credential \<Rightarrow>
              let email = (case usr_email user of None \<Rightarrow> [] | Some e \<Rightarrow> e);
                  verified_hash = c_password_hash credential in
              bind (hasher_verify L current_password verified_hash) (\<lambda>ok.
              if \<not> ok then
                seq (after_others env 3 acquire)
                (seq (audit_record (user_event L sv ''auth.password_change_failed'' ctx uid
                       [(lit ''reason'', JText (lit ''bad_current_password''))]))
                (throw (invalid ''Your current password is not correct.'')))
              else
                seq (of_res (check_policy L new_password email))
                (if current_password = new_password then
                   throw (invalid ''The new password must be different from the current one.'')
                 else
                   bind (hasher_hash L new_password) (\<lambda>new_hash.
                   after_others env 3 (transaction
                     (change_tx L sv uid current_session_id verified_hash new_hash ctx now))))))))))"

subsection \<open>Sessions\<close>

definition authenticate :: "lib \<Rightarrow> service \<Rightarrow> env \<Rightarrow> ustr \<Rightarrow> authenticated m" where
  "authenticate L sv env raw_token =
     seq (after_others env 0 acquire)
     (bind (sessions_find_live (digest_token L raw_token)) (\<lambda>found.
      case found of
        None \<Rightarrow> throw Unauthenticated
      | Some session \<Rightarrow>
          bind (after_others env 1 (users_find_by_id (s_user_id session))) (\<lambda>owner.
          case owner of
            None \<Rightarrow> throw Unauthenticated
          | Some user \<Rightarrow>
              if \<not> can_authenticate (usr_status user) then throw Unauthenticated
              else
                bind (after_others env 2 (users_roles (usr_id user))) (\<lambda>roles.
                bind utc_now (\<lambda>t.
                seq (after_others env 3 (sessions_touch (s_id session) (t + sv_session_idle sv) touch_interval_secs))
                (ret \<lparr>au_session_id = s_id session, au_user = user, au_roles = roles,
                      au_csrf_token = token_for_session L (sv_pepper sv) (s_id session),
                      au_session_expires_at = s_absolute_expires_at session\<rparr>))))))"

definition verify_csrf :: "lib \<Rightarrow> service \<Rightarrow> uuid \<Rightarrow> ustr option \<Rightarrow> ustr option \<Rightarrow> unit res" where
  "verify_csrf L sv session_id presented origin_header =
     csrf_verify L (sv_pepper sv) (sv_site_origin sv) session_id presented origin_header"

definition logout :: "lib \<Rightarrow> service \<Rightarrow> uuid \<Rightarrow> uuid \<Rightarrow> request_context \<Rightarrow> unit m" where
  "logout L sv session_id uid ctx =
     transaction (
       seq (sessions_revoke session_id Logout)
       (seq (audit_record (user_event L sv ''auth.logged_out'' ctx uid
              [(lit ''session_id'', JUuid session_id)]))
       (ret ())))"

definition logout_all :: "lib \<Rightarrow> service \<Rightarrow> uuid \<Rightarrow> request_context \<Rightarrow> nat m" where
  "logout_all L sv uid ctx =
     transaction (
       bind (sessions_revoke_all_for_user uid LogoutAll None) (\<lambda>revoked.
       seq (audit_record (user_event L sv ''auth.logged_out_all'' ctx uid
              [(lit ''sessions_revoked'', JInt (int revoked))]))
       (ret revoked)))"

definition session_cookies :: "issued_session \<Rightarrow> ustr list" where
  "session_cookies s =
     [cookie_session (is_token s) (is_max_age s), cookie_csrf (is_csrf_token s) (is_max_age s)]"

subsection \<open>Federated sign-in\<close>

definition firebase_identity :: "lib \<Rightarrow> service \<Rightarrow> ustr \<Rightarrow> provider \<Rightarrow> verified_identity m" where
  "firebase_identity L sv id_token p =
     (case sv_firebase sv of
        None \<Rightarrow> throw (unavailable ''Federated sign-in is not configured.'')
      | Some fb \<Rightarrow>
          bind utc_now (\<lambda>now. of_res
            (fst (firebase_verify L (fs_jwt fb) (fs_fetcher fb) (fs_verifier fb) id_token p now (fs_state fb)))))"

definition arrival_email :: "verified_identity \<Rightarrow> ustr option \<Rightarrow> ustr option" where
  "arrival_email identity client_email =
     (case vi_email identity of
        Some e \<Rightarrow> Some e
      | None \<Rightarrow>
          (case client_email of
             None \<Rightarrow> None
           | Some v \<Rightarrow> if looks_like_email (trim v) then Some (trim v) else None))"

definition arrival_name :: "provider \<Rightarrow> verified_identity \<Rightarrow> ustr option \<Rightarrow> ustr option \<Rightarrow> ustr" where
  "arrival_name p identity client_display_name email =
     take 120
       (case vi_name identity of
          Some n \<Rightarrow> n
        | None \<Rightarrow>
            (case (case client_display_name of
                     None \<Rightarrow> None
                   | Some n \<Rightarrow> if trim n \<noteq> [] then Some (trim n) else None) of
               Some n \<Rightarrow> n
             | None \<Rightarrow>
                 (case email of
                    Some address \<Rightarrow> hd (split_on 64 address)
                  | None \<Rightarrow> provider_display_name p @ lit '' user'')))"

definition arrival_error :: "app_error \<Rightarrow> app_error" where
  "arrival_error e =
     (case e of
        Conflict _ \<Rightarrow> conflict ''An account already uses that email address. Sign in to that account instead.''
      | other \<Rightarrow> other)"

definition first_arrival ::
  "lib \<Rightarrow> provider \<Rightarrow> verified_identity \<Rightarrow> account_type option \<Rightarrow> ustr option \<Rightarrow> ustr option \<Rightarrow> user m" where
  "first_arrival L p identity intended client_email client_display_name =
     (let email = arrival_email identity client_email;
          display_name = arrival_name p identity client_display_name email in
      case intended of
        None \<Rightarrow> throw (Invalid (lit ''No account here yet uses that '' @ provider_display_name p @
            lit '' sign-in. Create an account first and choose whether you are a homeowner or a contractor '' @
            [8212] @ lit '' it cannot be changed later.''))
      | Some account_type \<Rightarrow>
          bind new_id (\<lambda>i.
          bind (map_err arrival_error (users_insert L i (map_option trim email) display_name account_type)) (\<lambda>user.
          bind new_id (\<lambda>j.
          seq (oauth_insert j (usr_id user) p (vi_provider_subject identity) (Some (vi_firebase_uid identity))
                 (vi_email identity) (vi_email_verified identity))
          (ret user)))))"

definition returning_arrival :: "oauth_identity \<Rightarrow> user m" where
  "returning_arrival link =
     bind (users_find_by_id (oi_user_id link)) (\<lambda>found.
     case found of
       None \<Rightarrow> throw Unauthenticated
     | Some user \<Rightarrow>
         if \<not> can_authenticate (usr_status user) then throw Unauthenticated
         else seq (oauth_touch_login (oi_id link)) (ret user))"

definition claims_own_address :: "verified_identity \<Rightarrow> user \<Rightarrow> bool" where
  "claims_own_address identity user \<longleftrightarrow>
     vi_email_verified identity \<and>
     (case vi_email identity of
        None \<Rightarrow> False
      | Some claimed \<Rightarrow>
          (case usr_email user of
             None \<Rightarrow> False
           | Some own \<Rightarrow> eq_ignore_ascii_case (trim claimed) (trim own)))"

definition sign_in_tx ::
  "lib \<Rightarrow> service \<Rightarrow> provider \<Rightarrow> verified_identity \<Rightarrow> account_type option \<Rightarrow> ustr option \<Rightarrow> ustr option \<Rightarrow>
     request_context \<Rightarrow> time \<Rightarrow> login_outcome m" where
  "sign_in_tx L sv p identity intended client_email client_display_name ctx now =
     bind (oauth_find_by_subject p (vi_provider_subject identity)) (\<lambda>existing.
     bind (case existing of
             Some link \<Rightarrow> bind (returning_arrival link) (\<lambda>u. ret (u, ''auth.federated_login_succeeded''))
           | None \<Rightarrow>
               bind (first_arrival L p identity intended client_email client_display_name)
                 (\<lambda>u. ret (u, ''auth.federated_registered''))) (\<lambda>ua.
     case ua of (user, action) \<Rightarrow>
     seq (if claims_own_address identity user then users_mark_email_verified (usr_id user) else ret ())
     (bind (issue_session L sv (usr_id user) ctx now) (\<lambda>session.
      seq (audit_record (user_event L sv action ctx (usr_id user)
             [(lit ''session_id'', JUuid (is_session_id session)),
              (lit ''provider'', JText (provider_str p))]))
      (ret \<lparr>lo_user = user, lo_session = session\<rparr>)))))"

definition sign_in_with_provider ::
  "lib \<Rightarrow> service \<Rightarrow> env \<Rightarrow> provider \<Rightarrow> ustr \<Rightarrow> account_type option \<Rightarrow> ustr option \<Rightarrow> ustr option \<Rightarrow>
     request_context \<Rightarrow> login_outcome m" where
  "sign_in_with_provider L sv env p id_token intended client_email client_display_name ctx =
     bind utc_now (\<lambda>now.
     seq (after_others env 0 (enforce L (sv_pepper sv) federated_sign_in_per_ip (client_key ctx) now))
     (bind (firebase_identity L sv id_token p) (\<lambda>identity.
      after_others env 1 (transaction
        (sign_in_tx L sv p identity intended client_email client_display_name ctx now)))))"

definition link_tx ::
  "lib \<Rightarrow> service \<Rightarrow> uuid \<Rightarrow> provider \<Rightarrow> verified_identity \<Rightarrow> request_context \<Rightarrow> unit m" where
  "link_tx L sv uid p identity ctx =
     bind (oauth_exists_for_user uid p) (\<lambda>has.
     if has then throw (Conflict (lit ''This account already has a '' @ provider_display_name p @ lit '' identity linked.''))
     else
       bind (oauth_find_by_subject p (vi_provider_subject identity)) (\<lambda>other.
       if other \<noteq> None then
         throw (Conflict (lit ''That '' @ provider_display_name p @ lit '' account is already linked to another account.''))
       else
         bind new_id (\<lambda>i.
         seq (oauth_insert i uid p (vi_provider_subject identity) (Some (vi_firebase_uid identity))
                (vi_email identity) (vi_email_verified identity))
         (seq (audit_record (user_event L sv ''auth.identity_linked'' ctx uid
                [(lit ''provider'', JText (provider_str p))]))
         (ret ())))))"

definition link_provider ::
  "lib \<Rightarrow> service \<Rightarrow> env \<Rightarrow> uuid \<Rightarrow> provider \<Rightarrow> ustr \<Rightarrow> request_context \<Rightarrow> unit m" where
  "link_provider L sv env uid p id_token ctx =
     bind utc_now (\<lambda>now.
     seq (after_others env 0 (enforce L (sv_pepper sv) link_identity_per_user (uuid_to_string L uid) now))
     (bind (firebase_identity L sv id_token p) (\<lambda>identity.
      after_others env 1 (transaction (link_tx L sv uid p identity ctx)))))"

end
