(* ===== verification/Concrete_Service.thy ===== *)
theory Concrete_Service
  imports Auth_Service
begin

text \<open>
  A concrete service and one registered account, evaluated: the inputs on which the properties of the
  account operations are exercised.
\<close>

definition toy_service :: service where
  "toy_service = \<lparr>sv_pepper = lit ''pepper'', sv_hasher = \<lparr>h_decoy_hash = lit ''$argon2id$decoy''\<rparr>,
     sv_site_origin = \<lparr>or_normalised = lit ''https://app.example'', or_secure = True\<rparr>,
     sv_session_idle = hours 1, sv_session_absolute = days 1, sv_absolute_max_age = days 1,
     sv_firebase = None, sv_code_rounds = 1\<rparr>"

definition toy_ctx :: request_context where
  "toy_ctx = \<lparr>rc_client_ip = None, rc_user_agent = None, rc_request_id = None\<rparr>"

lemma length_lit [simp]: "length (lit s) = length s"
  by (simp add: lit_def)

lemmas mail_token_defs = mail_paper_def mail_sunken_def mail_ink_def mail_ink_mid_def mail_ink_soft_def
  mail_rule_def mail_ember_def mail_font_display_def mail_font_body_def mail_font_mono_def
  mail_radius_sheet_def mail_radius_inner_def

text \<open>Bounding a template piece by piece; a variable part is counted exactly.\<close>

lemma len_step: "length x \<le> 75 \<Longrightarrow> length y + (75 + c) \<le> k \<Longrightarrow> length (x @ y) + c \<le> k"
  by simp

lemma len_var: "length y + (length x + c) \<le> k \<Longrightarrow> length (x @ y) + c \<le> k"
  by simp

lemma len_start: "length x + 0 \<le> k \<Longrightarrow> length x \<le> (k :: nat)"
  by simp

lemma mail_shell_length: "length (mail_shell p b) \<le> 20000 + length p + length b"
  unfolding mail_shell_def
  by (rule len_start, ((rule len_step, (simp add: mail_token_defs; fail)) | rule len_var)+)
    (simp del: add_is_0)

lemma mail_piece_lengths:
  "length (mail_heading t) \<le> 300 + length t" "length (mail_label t) \<le> 300 + length t"
  "length (mail_paragraph t) \<le> 300 + length t" "length (mail_footnote t) \<le> 300 + length t"
  by (simp_all add: mail_heading_def mail_label_def mail_paragraph_def mail_footnote_def mail_token_defs)

lemma login_code_body_length: "length (login_code_body code) \<le> 5000 + length code"
proof -
  have "length (mail_heading t) \<le> 800" "length (mail_label t) \<le> 800" "length (mail_paragraph t) \<le> 800"
    "length (mail_footnote t) \<le> 800" if "length t \<le> 400" for t
    using mail_piece_lengths [of t] that by simp_all
  then have step: "length t \<le> 400 \<Longrightarrow> length y + (800 + c) \<le> k \<Longrightarrow> length (f t @ y) + c \<le> k"
    if "f = mail_heading \<or> f = mail_label \<or> f = mail_paragraph" for f t y c k
    using that by fastforce
  have foot: "length t \<le> 400 \<Longrightarrow> 800 + c \<le> k \<Longrightarrow> length (mail_footnote t) + c \<le> k" for t c k
    using mail_piece_lengths(4) [of t] by simp
  show ?thesis
    unfolding login_code_body_def
    by (rule len_start, ((rule step [of mail_heading] | rule step [of mail_label] | rule step [of mail_paragraph]),
          simp, (simp; fail) | (rule len_step, (simp add: mail_token_defs; fail)) | (rule foot, (simp; fail)) | rule len_var)+) simp
qed

lemma login_code_mail_fits:
  assumes "length code = 6" and "length email \<le> 254"
  shows "outbox_check (outbox_row_of now i (code_mail uid email KLoginCode (mail_login_code code)))"
  using assms mail_shell_length [of _ "login_code_body code"] login_code_body_length [of code]
  by (simp add: outbox_check_def outbox_row_of_def code_mail_def mail_login_code_def opt_len_le_def)
    (rule order_trans, assumption, simp)

end
