(* ===== verification/Quiet_Runs.thy ===== *)
theory Quiet_Runs
  imports Repo_Audit Auth_Ratelimit
begin

text \<open>
  When operations succeed: in a quiet world (no statement fails) a statement returns its value and changes exactly its
  table, and a limit that has counted little admits the request. These facts make the concrete runs of the properties
  computable step by step.
\<close>

definition quiet :: "world \<Rightarrow> bool" where
  "quiet w \<longleftrightarrow> w_fault w = (\<lambda>_. None)"

lemma bind_run: "f w = (Inr x, w1) \<Longrightarrow> bind f g w = g x w1"
  by (simp add: bind_def)

lemma seq_run: "f w = (Inr x, w1) \<Longrightarrow> seq f g w = g w1"
  by (simp add: seq_def bind_def)

lemma sql_run:
  "quiet w \<Longrightarrow> q (w_clock w) (w_db w) = Inr (x, d) \<Longrightarrow>
   sql q w = (Inr x, w\<lparr>w_calls := Suc (w_calls w), w_db := d\<rparr>)"
  by (simp add: sql_Inr_iff quiet_def)

lemma query_run:
  "quiet w \<Longrightarrow> query q w = (Inr (q (w_clock w) (w_db w)), w\<lparr>w_calls := Suc (w_calls w)\<rparr>)"
  by (simp add: query_Inr_iff quiet_def)

lemma execute_run:
  "quiet w \<Longrightarrow> execute q w = (Inr (), w\<lparr>w_calls := Suc (w_calls w), w_db := q (w_clock w) (w_db w)\<rparr>)"
  by (simp add: execute_Inr_iff quiet_def)

lemma round_trip_run: "quiet w \<Longrightarrow> round_trip w = (Inr (), w\<lparr>w_calls := Suc (w_calls w)\<rparr>)"
  by (simp add: round_trip_def quiet_def)

lemma quiet_updates [simp]:
  "quiet (w\<lparr>w_calls := a\<rparr>) = quiet w" "quiet (w\<lparr>w_db := d\<rparr>) = quiet w" "quiet (w\<lparr>w_rates := r\<rparr>) = quiet w"
  "quiet (w\<lparr>w_next_id := n\<rparr>) = quiet w" "quiet (w\<lparr>w_draws := k\<rparr>) = quiet w"
  by (simp_all add: quiet_def)

lemma transaction_run:
  assumes "quiet w" and "body (w\<lparr>w_calls := Suc (w_calls w)\<rparr>) = (Inr x, w1)" and "quiet w1"
  shows "transaction body w = (Inr x, w1\<lparr>w_calls := Suc (w_calls w1)\<rparr>)"
  using assms by (simp add: transaction_def bind_def round_trip_run ret_def)

lemma audit_record_run:
  assumes "quiet w" and "audit_check (audit_row_of (w_clock w) (w_ids w (w_next_id w)) e)"
    and "w_ids w (w_next_id w) \<notin> a_id ` set (audit_log (w_db w))"
    and "case ev_actor_user_id e of None \<Rightarrow> True | Some u \<Rightarrow> user_exists (w_db w) u"
  shows "audit_record e w = (Inr (w_ids w (w_next_id w)), w\<lparr>w_next_id := Suc (w_next_id w),
      w_calls := Suc (w_calls w), w_db := (w_db w)\<lparr>audit_log :=
        audit_log (w_db w) @ [audit_row_of (w_clock w) (w_ids w (w_next_id w)) e]\<rparr>\<rparr>)"
  using assms by (simp add: audit_record_def bind_def new_id_def sql_run Let_def split: option.splits)

text \<open>
  A light rate-limit table: no window has counted more than \<open>n\<close> requests. Enforcing a policy whose
  limit is above \<open>n\<close> succeeds and leaves the table light for \<open>n + 1\<close>.
\<close>

definition light :: "int \<Rightarrow> world \<Rightarrow> bool" where
  "light n w \<longleftrightarrow> list_all (\<lambda>r. 0 \<le> k_count r \<and> k_count r \<le> n) (w_rates w)"

lemma light_updates [simp]:
  "light n (w\<lparr>w_calls := a\<rparr>) = light n w" "light n (w\<lparr>w_db := d\<rparr>) = light n w"
  "light n (w\<lparr>w_next_id := i\<rparr>) = light n w" "light n (w\<lparr>w_draws := k\<rparr>) = light n w"
  by (simp_all add: light_def)

lemma hit_stmt_light:
  assumes "rate_check \<lparr>k_bucket = b, k_window_start = ws, k_count = 1, k_expires_at = x\<rparr>"
    and "list_all (\<lambda>r. 0 \<le> k_count r \<and> k_count r \<le> n) rows" and "0 \<le> n" and "n < 1000"
  shows "\<exists>c rows'. hit_stmt b ws x rows = Inr (c, rows') \<and> c \<le> n + 1 \<and>
     list_all (\<lambda>r. 0 \<le> k_count r \<and> k_count r \<le> n + 1) rows'"
proof (cases "find (is_window b ws) rows")
  case None
  with assms show ?thesis
    by (auto simp: hit_stmt_def Let_def list_all_iff)
next
  case (Some r)
  then have "r \<in> set rows" by (auto simp: find_Some_iff)
  with assms have "pg_int_ok (k_count r + 1)" "k_count r \<le> n" by (auto simp: pg_int_ok_def list_all_iff)
  with Some assms show ?thesis
    by (auto simp: hit_stmt_def Let_def list_all_iff)
qed

lemma enforce_run_bounded:
  assumes "quiet w" and "light n w" and "lib_ok L" and w: "secs 1 \<le> p_window p \<and> p_limit p \<le> 600" and "n + 1 \<le> p_limit p"
    and "0 \<le> n" and "0 \<le> now" and "now < 1000000000"
  shows "\<exists>rows. enforce L pep p s now w = (Inr (), w\<lparr>w_calls := Suc (Suc (w_calls w)), w_rates := rows\<rparr>) \<and>
    list_all (\<lambda>r. 0 \<le> k_count r \<and> k_count r \<le> n + 1) rows"
proof -
  let ?b = "rate_limit_bucket L pep (bucket_key p s)"
  have len: "length ?b = 32" using assms(3) by (simp add: rate_limit_bucket_def peppered_def lib_okD)
  have "0 \<le> timestamp now - timestamp now mod window_secs (p_window p)"
    and "timestamp now - timestamp now mod window_secs (p_window p) \<le> 1000"
    using assms(7,8) by (auto simp: timestamp_def window_secs_def zmod_le_nonneg_dividend intro: order_trans [of _ "now div 1000000"])
  then obtain ws where ws: "window_start_of (p_window p) now = Some ws"
    by (auto simp: window_start_of_def from_timestamp_def)
  then have chk: "rate_check \<lparr>k_bucket = ?b, k_window_start = ws, k_count = 1, k_expires_at = ws + p_window p\<rparr>"
    using len w by (simp add: rate_check_def secs_def)
  from hit_stmt_light [OF chk, of n "w_rates w"] assms w obtain c rows where
    hit: "hit_stmt ?b ws (ws + p_window p) (w_rates w) = Inr (c, rows)" "c \<le> n + 1"
      "list_all (\<lambda>r. 0 \<le> k_count r \<and> k_count r \<le> n + 1) rows"
    by (auto simp: light_def)
  have "enforce L pep p s now w = (Inr (), w\<lparr>w_calls := Suc (Suc (w_calls w)), w_rates := rows\<rparr>)"
    using hit(1,2) ws assms(1,5)
    by (simp add: enforce_def Let_def seq_def bind_def acquire_def round_trip_def rate_hit_def quiet_def
        rate_sql_def hit_rows_def is_allowed_def ret_def)
  with hit(3) show ?thesis by blast
qed

lemma enforce_calm_bounded:
  assumes "secs 1 \<le> p_window p \<and> 1 \<le> p_limit p \<and> p_limit p \<le> 600"
  shows "\<exists>rows. enforce toy_lib pep p s 0 (calm_world d 0) = (Inr (), (calm_world d 0)\<lparr>w_calls := 2, w_rates := rows\<rparr>) \<and>
    list_all (\<lambda>r. 0 \<le> k_count r \<and> k_count r \<le> 1) rows"
proof -
  have "light 0 (calm_world d 0)" "quiet (calm_world d 0)"
    by (simp_all add: quiet_def light_def)
  from enforce_run_bounded [OF this(2,1) toy_lib_ok, of p 0 pep s] assms show ?thesis
    by (simp add: numeral_2_eq_2)
qed

end
