(* ===== verification/Auth_Progress.thy ===== *)
theory Auth_Progress
  imports Concrete_Service Quiet_Runs
begin

text \<open>
  When the statements of the account operations succeed: in a quiet world (no statement fails) each
  of them returns its value and changes exactly its table. These facts make the properties'
  concrete runs computable step by step.
\<close>

lemma users_insert_run:
  assumes "quiet w" and "users_check L (new_user_row (w_clock w) i e n k)" and "\<not> user_exists (w_db w) i"
    and "\<not> email_taken L e (users (w_db w))"
  shows "\<exists>u. users_insert L i e n k w = (Inr u, w\<lparr>w_calls := Suc (w_calls w),
      w_db := (w_db w)\<lparr>users := users (w_db w) @ [new_user_row (w_clock w) i e n k]\<rparr>\<rparr>) \<and> usr_id u = i \<and>
      user_of_row (new_user_row (w_clock w) i e n k) = Inr u"
proof -
  obtain u where u: "user_of_row (new_user_row (w_clock w) i e n k) = Inr u"
    using user_of_row_total [OF assms(2)] by blast
  then have "usr_id u = i" using user_of_row_id [OF u] by (simp add: new_user_row_def)
  with u assms show ?thesis
    by (simp add: users_insert_def bind_def sql_run [where d = "(w_db w)\<lparr>users := users (w_db w) @ [new_user_row (w_clock w) i e n k]\<rparr>"
        and x = "new_user_row (w_clock w) i e n k"] Let_def of_res_def)
qed

lemma passwords_insert_run:
  assumes "quiet w" and "find_credential i (w_db w) = None" and "starts_with (lit ''$argon2id$'') h"
    and "user_exists (w_db w) i"
  shows "passwords_insert i h w = (Inr (), w\<lparr>w_calls := Suc (w_calls w),
      w_db := (w_db w)\<lparr>credentials := credentials (w_db w) @ [new_credential (w_clock w) i h]\<rparr>\<rparr>)"
  using assms by (simp add: passwords_insert_def sql_Inr_iff insert_credential_def quiet_def Let_def
      credentials_check_def new_credential_def)

lemma tokens_issue_run:
  assumes "quiet w" and "length h = 32" and "i \<notin> t_id ` set (auth_tokens (w_db w))"
    and "h \<notin> t_token_hash ` set (auth_tokens (w_db w))" and "user_exists (w_db w) uid"
  shows "\<exists>w'. tokens_issue i uid p h ttl w = (Inr (), w') \<and> quiet w' \<and> w_clock w' = w_clock w \<and>
      w_ids w' = w_ids w \<and> w_next_id w' = w_next_id w \<and> w_rng w' = w_rng w \<and> w_draws w' = w_draws w \<and> w_rates w' = w_rates w \<and>
      w_db w' = (w_db w)\<lparr>auth_tokens :=
        auth_tokens (consume_open (w_clock w) uid p (w_db w)) @ [new_token (w_clock w) i uid p h ttl]\<rparr>"
proof -
  have "map t_id (auth_tokens (consume_open t uid p d)) = map t_id (auth_tokens d)"
    and "map t_token_hash (auth_tokens (consume_open t uid p d)) = map t_token_hash (auth_tokens d)" for t d
    by (auto simp: consume_open_def)
  then have img: "t_id ` set (auth_tokens (consume_open t uid p d)) = t_id ` set (auth_tokens d)"
    "t_token_hash ` set (auth_tokens (consume_open t uid p d)) = t_token_hash ` set (auth_tokens d)" for t d
    by (metis list.set_map)+
  have ins: "insert_token (w_clock w) (new_token (w_clock w) i uid p h ttl) (consume_open (w_clock w) uid p (w_db w)) =
      Inr ((), (consume_open (w_clock w) uid p (w_db w))\<lparr>auth_tokens :=
        auth_tokens (consume_open (w_clock w) uid p (w_db w)) @ [new_token (w_clock w) i uid p h ttl]\<rparr>)"
    using assms by (auto simp: insert_token_def auth_tokens_check_def new_token_def img user_exists_def)
      (auto simp: consume_open_def)
  show ?thesis
    using assms(1) ins by (simp add: tokens_issue_def seq_run [OF execute_run] sql_run)
      (simp add: consume_open_def)
qed

lemma outbox_enqueue_run:
  assumes "quiet w" and "outbox_check (outbox_row_of (w_clock w) (w_ids w (w_next_id w)) e)"
    and "w_ids w (w_next_id w) \<notin> m_id ` set (email_outbox (w_db w))" and "user_exists (w_db w) (ne_user_id e)"
  shows "outbox_enqueue e w = (Inr (w_ids w (w_next_id w)), w\<lparr>w_next_id := Suc (w_next_id w),
      w_calls := Suc (w_calls w), w_db := (w_db w)\<lparr>email_outbox :=
        email_outbox (w_db w) @ [outbox_row_of (w_clock w) (w_ids w (w_next_id w)) e]\<rparr>\<rparr>)"
  using assms by (simp add: outbox_enqueue_def bind_def new_id_def sql_run enqueue_stmt_def Let_def)

lemma enforce_run:
  assumes "quiet w" and "light n w" and "lib_ok L" and "p \<in> set policies" and "n + 1 \<le> p_limit p"
    and "0 \<le> n" and "0 \<le> now" and "now < 1000000000"
  shows "\<exists>rows. enforce L pep p s now w = (Inr (), w\<lparr>w_calls := Suc (Suc (w_calls w)), w_rates := rows\<rparr>) \<and>
    list_all (\<lambda>r. 0 \<le> k_count r \<and> k_count r \<le> n + 1) rows"
proof (rule enforce_run_bounded)
  show "secs 1 \<le> p_window p \<and> p_limit p \<le> 600" using assms(4) by (auto simp: policy_defs time_defs)
qed (use assms in auto)

subsection \<open>Calm runs\<close>

text \<open>The worlds the concrete runs pass through.\<close>

definition calm :: "world \<Rightarrow> bool" where
  "calm w \<longleftrightarrow> quiet w \<and> w_ids w = (\<lambda>n. 100 + of_nat n) \<and> w_rng w = (\<lambda>n. Some (\<lambda>i. of_nat (n + i))) \<and>
     w_clock w = 0 \<and> w_draws w \<le> 3"

lemma calmD:
  assumes "calm w"
  shows "quiet w" "w_ids w n = 100 + of_nat n" "w_clock w = 0"
  using assms by (simp_all add: calm_def)

lemma calm_updates [simp]:
  "calm (w\<lparr>w_calls := a\<rparr>) = calm w" "calm (w\<lparr>w_db := d\<rparr>) = calm w" "calm (w\<lparr>w_rates := r\<rparr>) = calm w"
  "calm (w\<lparr>w_next_id := n\<rparr>) = calm w"
  by (simp_all add: calm_def)

lemma calm_world_calm [simp]: "calm (calm_world d 0)" "light n (calm_world d 0)"
  by (simp_all add: calm_def quiet_def light_def) (simp add: calm_world_def)

lemma generate_code_run:
  assumes "calm w" and "w_draws w \<le> 2"
  shows "\<exists>code. generate_code (Suc k) w = (Inr code, w\<lparr>w_draws := Suc (w_draws w)\<rparr>) \<and> length code = 6"
proof -
  let ?n = "w_draws w"
  let ?bs = "[of_nat ?n, of_nat (?n + 1), of_nat (?n + 2), of_nat (?n + 3)] :: bytes"
  have "[0..<4] = [0, 1, 2, 3 :: nat]" by (simp add: upt_rec)
  then have g: "getrandom 4 w = (Inr ?bs, w\<lparr>w_draws := Suc ?n\<rparr>)"
    using assms(1) by (simp add: getrandom_def calm_def)
  consider "?n = 0" | "?n = 1" | "?n = 2" using assms(2) by linarith
  then have b: "from_le_bytes ?bs < 4000000000"
    by cases (simp_all add: from_le_bytes_def)
  have "generate_code (Suc k) w = (Inr (pad6 (from_le_bytes ?bs mod 1000000)), w\<lparr>w_draws := Suc (w_draws w)\<rparr>)"
    using g b by (simp add: bind_def ret_def Let_def)
  with pad6_shape [of "from_le_bytes ?bs mod 1000000"] show ?thesis by (simp add: code_len_def)
qed

text \<open>What a calm run leaves of the world besides the tables.\<close>

definition after_run :: "world \<Rightarrow> world \<Rightarrow> nat \<Rightarrow> nat \<Rightarrow> db \<Rightarrow> bool" where
  "after_run w w' ids draws d \<longleftrightarrow>
     calm w' \<and> w_next_id w' = w_next_id w + ids \<and> w_draws w' = w_draws w + draws \<and> w_rates w' = w_rates w \<and> w_db w' = d"

lemma after_runD:
  assumes "after_run w w' i k d"
  shows "calm w'" "quiet w'" "w_next_id w' = w_next_id w + i" "w_draws w' = w_draws w + k" "w_rates w' = w_rates w"
    "w_db w' = d" "w_clock w' = 0" "w_ids w' n = 100 + of_nat n"
  using assms by (simp_all add: after_run_def calm_def)

lemma issue_challenge_run:
  assumes "calm w" and "w_draws w \<le> 2" and "lib_ok L" and "sv_code_rounds sv = Suc k" and "length email \<le> 254"
    and "auth_tokens (w_db w) = []" and "email_outbox (w_db w) = []" and "user_exists (w_db w) uid"
  shows "\<exists>ch w' ts ms. issue_challenge L sv uid email w = (Inr ch, w') \<and> ch_email ch = email \<and>
    after_run w w' 2 1 ((w_db w)\<lparr>auth_tokens := ts, email_outbox := ms\<rparr>)"
proof -
  let ?i = "w_ids w (w_next_id w)" and ?w1 = "w\<lparr>w_next_id := Suc (w_next_id w)\<rparr>"
  obtain code where code: "generate_code (Suc k) ?w1 = (Inr code, ?w1\<lparr>w_draws := Suc (w_draws w)\<rparr>)" "length code = 6"
    using generate_code_run [of ?w1 k] assms(1,2) by auto
  let ?w2 = "?w1\<lparr>w_draws := Suc (w_draws w)\<rparr>" and ?h = "code_hash L (sv_pepper sv) ?i code"
  have c2: "calm ?w2" using assms(1,2) by (simp add: calm_def)
  have len: "length ?h = 32" using assms(3) by (simp add: code_hash_def peppered_def lib_okD)
  obtain w3 where w3: "tokens_issue ?i uid LoginCode ?h code_ttl_secs ?w2 = (Inr (), w3)" "quiet w3"
    "w_clock w3 = 0" "w_ids w3 = w_ids w" "w_next_id w3 = Suc (w_next_id w)" "w_rng w3 = w_rng w"
    "w_draws w3 = Suc (w_draws w)" "w_rates w3 = w_rates w"
    "w_db w3 = (w_db w)\<lparr>auth_tokens := [new_token 0 ?i uid LoginCode ?h code_ttl_secs]\<rparr>"
    using tokens_issue_run [OF calmD(1) [OF c2] len, of ?i uid LoginCode code_ttl_secs] calmD(3) [OF c2] assms(6,8)
    by (auto simp: consume_open_def)
  let ?m = "code_mail uid email KLoginCode (mail_login_code code)"
  have en: "outbox_enqueue ?m w3 = (Inr (w_ids w (Suc (w_next_id w))), w3\<lparr>w_next_id := Suc (Suc (w_next_id w)),
      w_calls := Suc (w_calls w3), w_db := (w_db w3)\<lparr>email_outbox := [outbox_row_of 0 (w_ids w (Suc (w_next_id w))) ?m]\<rparr>\<rparr>)"
    using outbox_enqueue_run [OF w3(2), of ?m] login_code_mail_fits [OF code(2) assms(5)] w3 assms(7,8)
    by (simp add: code_mail_def user_exists_def)
  show ?thesis
    using code(1) w3(1) en assms(1,2,4) w3(2-)
    by (simp add: issue_challenge_def bind_def seq_def new_id_def ret_def after_run_def calm_def) blast
qed

text \<open>A toy token's digest never is the all-zero digest of the concrete tables' sessions.\<close>

lemma toy_digest_nonzero: "digest_token toy_lib (toy_encode (b # bs)) \<noteq> replicate 32 0"
proof -
  have "unat b < 256" using unsigned_less [of b] by simp
  then have "unat b div 16 < 16" by (simp add: less_mult_imp_div_less)
  then have c: "97 + unat b div 16 < 113" by simp
  then have "of_nat (97 + unat b div 16) \<noteq> (0 :: byte)"
    by (simp add: word_of_nat_eq_0_iff nat_dvd_not_less del: of_nat_add)
  moreover have "hd (fit32 (x # xs)) = x" "hd (replicate 32 (0 :: byte)) = 0" for x xs
    by (simp_all add: fit32_def hd_replicate)
  ultimately have ne: "fit32 (of_nat (97 + unat b div 16) # xs) \<noteq> replicate 32 (0 :: byte)" for xs
    by metis
  have "as_bytes (toy_encode (b # bs)) =
      of_nat (97 + unat b div 16) # as_bytes ((97 + unat b mod 16) # toy_encode bs)"
    using c by (simp add: as_bytes_def toy_encode_def toy_digit_def utf8_char_def)
  with ne show ?thesis by (simp add: digest_token_def del: of_nat_add)
qed

lemma issue_session_run:
  assumes "calm w" and "w_draws w \<le> 2" and "user_exists (w_db w) uid"
    and "s_token_hash ` set (sessions (w_db w)) \<subseteq> {replicate 32 0}"
    and "100 + of_nat (w_next_id w) \<notin> s_id ` set (sessions (w_db w))"
  shows "\<exists>s w' row. issue_session toy_lib toy_service uid toy_ctx 0 w = (Inr s, w') \<and>
    is_session_id s = 100 + of_nat (w_next_id w) \<and>
    after_run w w' 1 1 ((w_db w)\<lparr>sessions := sessions (w_db w) @ [row]\<rparr>)"
proof -
  let ?bs = "map (\<lambda>i. of_nat (w_draws w + i)) [0..<32] :: bytes"
  let ?raw = "toy_encode ?bs" and ?i = "100 + of_nat (w_next_id w) :: uuid"
  let ?w1 = "w\<lparr>w_draws := Suc (w_draws w), w_next_id := Suc (w_next_id w)\<rparr>"
  let ?row = "new_session 0 ?i uid (digest_token toy_lib ?raw) (hours 1) (days 1) None None"
  have "digest_token toy_lib ?raw \<noteq> replicate 32 0" by (simp add: upt_rec toy_digest_nonzero)
  with assms(4) have fresh: "digest_token toy_lib ?raw \<notin> s_token_hash ` set (sessions (w_db w))" by auto
  have "length (digest_token toy_lib ?raw) = 32" using toy_lib_ok by (simp add: digest_token_def)
  then have chk: "sessions_check ?row" by (simp add: sessions_check_def new_session_def time_defs)
  have g: "token_generate toy_lib w = (Inr ?raw, w\<lparr>w_draws := Suc (w_draws w)\<rparr>)"
    using assms(1) by (simp add: token_generate_def bind_def getrandom_def calm_def token_bytes_def ret_def)
  have ins: "sessions_insert ?i uid (digest_token toy_lib ?raw) (hours 1) (days 1) None None ?w1 =
      (Inr ?row, ?w1\<lparr>w_calls := Suc (w_calls w), w_db := (w_db w)\<lparr>sessions := sessions (w_db w) @ [?row]\<rparr>\<rparr>)"
    using assms chk fresh by (simp add: sessions_insert_def sql_Inr_iff Let_def calm_def quiet_def)
  have h: "min (hours 1) (days 1) = hours 1" by (simp add: time_defs)
  show ?thesis
    using g ins assms(1,2) h
    by (simp add: issue_session_def bind_def seq_def new_id_def ret_def after_run_def calm_def Let_def
        toy_service_def toy_ctx_def ip_hash_def) blast
qed

text \<open>An event the code records passes the audit log's checks when its action does.\<close>

lemma audit_record_calm:
  assumes "calm w" and "100 + of_nat (w_next_id w) \<notin> a_id ` set (audit_log (w_db w))"
    and "user_exists (w_db w) uid" and "btrim (lit action) \<noteq> []" and "length action \<le> 100"
  shows "\<exists>i w' row. audit_record (user_event L toy_service action toy_ctx uid j) w = (Inr i, w') \<and>
    after_run w w' 1 0 ((w_db w)\<lparr>audit_log := audit_log (w_db w) @ [row]\<rparr>)"
proof -
  let ?e = "user_event L toy_service action toy_ctx uid j"
  have "audit_check (audit_row_of 0 i ?e)" for i
    using assms(4,5) by (simp add: audit_check_def audit_row_of_def user_event_def ev_with_data_def ev_subject_def
        ev_actor_def event_def audit_event_new_def toy_ctx_def ip_hash_def opt_len_le_def btrim_def trim_by_def lit_def)
  moreover have "case ev_actor_user_id ?e of None \<Rightarrow> True | Some u \<Rightarrow> user_exists (w_db w) u"
    using assms(3) by (simp add: user_event_def ev_with_data_def ev_subject_def ev_actor_def)
  ultimately show ?thesis
    using audit_record_run [OF calmD(1) [OF assms(1)], of ?e] assms(1,2)
    by (auto simp: calmD after_run_def)
qed

subsection \<open>An account registers\<close>

definition anna :: ustr where "anna = lit ''anna@b.c''"
definition annas_password :: ustr where "annas_password = lit ''sturdy-mailbox-7''"
definition annas_hash :: ustr where "annas_hash = lit ''$argon2id$'' @ map unat (as_bytes annas_password)"

lemma anna_policy: "check_policy toy_lib annas_password anna = Inr ()"
proof -
  have "utf8_len annas_password = 16"
    by (simp add: annas_password_def utf8_len_def as_bytes_def utf8_char_def lit_def)
  then show ?thesis
    by (simp add: check_policy_def Let_def min_password_len_def max_password_len_def denylist_def
        to_ascii_lowercase_def ascii_lower_def lit_def trim_def trim_by_def is_whitespace_def starts_with_def
        anna_def annas_password_def)
qed

lemma anna_address:
  "trim anna = anna" "looks_like_email anna" "trim (lit ''Anna'') = lit ''Anna''"
  "length anna \<le> 254" "users_check toy_lib (new_user_row now i (Some anna) (lit ''Anna'') Homeowner)"
  by (simp_all add: anna_def lit_def trim_def trim_by_def is_whitespace_def looks_like_email_def utf8_len_def
      as_bytes_def utf8_char_def users_check_def new_user_row_def email_matches_check_def btrim_def)

lemma annas_hash_argon: "starts_with (lit ''$argon2id$'') annas_hash"
  by (simp add: annas_hash_def starts_with_iff)

lemma empty_tables [simp]:
  "users empty_db = []" "credentials empty_db = []" "sessions empty_db = []" "auth_tokens empty_db = []"
  "oauth_identities empty_db = []" "email_outbox empty_db = []" "audit_log empty_db = []"
  by (simp_all add: empty_db_def)

lemma toy_register_tx:
  assumes "calm w" and "w_db w = empty_db" and "w_next_id w = 0" and "w_draws w \<le> 2"
  shows "\<exists>ch w'. register_tx toy_lib toy_service anna (lit ''Anna'') annas_hash Homeowner toy_ctx w = (Inr ch, w') \<and>
    calm w' \<and> ch_email ch = anna \<and> users (w_db w') = [new_user_row 0 100 (Some anna) (lit ''Anna'') Homeowner] \<and>
    credentials (w_db w') = [new_credential 0 100 annas_hash]"
proof -
  let ?row = "new_user_row 0 100 (Some anna) (lit ''Anna'') Homeowner"
  have w: "quiet w" "w_clock w = 0" "w_ids w 0 = 100" using assms(1) by (simp_all add: calm_def)
  let ?w0 = "w\<lparr>w_next_id := 1\<rparr>"
  have n: "new_id w = (Inr 100, ?w0)" using assms(3) w by (simp add: new_id_def)
  obtain u where u: "users_insert toy_lib 100 (Some anna) (lit ''Anna'') Homeowner ?w0 =
      (Inr u, ?w0\<lparr>w_calls := Suc (w_calls w), w_db := empty_db\<lparr>users := [?row]\<rparr>\<rparr>)" and uid: "usr_id u = 100"
    using users_insert_run [of ?w0 toy_lib 100 "Some anna" "lit ''Anna''" Homeowner] assms(2) w anna_address(5)
    by (auto simp: user_exists_def email_taken_def user_norms_def List.map_filter_def)
  let ?w1 = "?w0\<lparr>w_calls := Suc (w_calls w), w_db := empty_db\<lparr>users := [?row]\<rparr>\<rparr>"
  let ?d = "empty_db\<lparr>users := [?row], credentials := [new_credential 0 100 annas_hash]\<rparr>"
  have ex: "user_exists (empty_db\<lparr>users := [?row]\<rparr>) 100" "user_exists ?d 100"
    by (simp_all add: user_exists_def new_user_row_def)
  let ?w2 = "?w1\<lparr>w_calls := Suc (Suc (w_calls w)), w_db := ?d\<rparr>"
  have p: "passwords_insert 100 annas_hash ?w1 = (Inr (), ?w2)"
    using passwords_insert_run [of ?w1 100 annas_hash] w annas_hash_argon ex
    by (simp add: find_credential_def)
  have c2: "calm ?w2" using assms(1) by simp
  obtain ch w3 ts ms where c: "issue_challenge toy_lib toy_service 100 anna ?w2 = (Inr ch, w3)" "ch_email ch = anna"
    and w3: "after_run ?w2 w3 2 1 (?d\<lparr>auth_tokens := ts, email_outbox := ms\<rparr>)"
    using issue_challenge_run [OF c2 _ toy_lib_ok, of toy_service 0 anna 100] assms(4) anna_address(4) ex
    by (auto simp: toy_service_def)
  obtain i w4 row where a: "audit_record (user_event toy_lib toy_service ''auth.registered'' toy_ctx 100
      [(lit ''challenge_id'', JUuid (ch_challenge_id ch))]) w3 = (Inr i, w4)" "after_run w3 w4 1 0
        ((?d\<lparr>auth_tokens := ts, email_outbox := ms\<rparr>)\<lparr>audit_log := [row]\<rparr>)"
    using audit_record_calm [of w3 100 "''auth.registered''" toy_lib "[(lit ''challenge_id'', JUuid (ch_challenge_id ch))]"]
      after_runD [OF w3] ex by (auto simp: user_exists_def btrim_def trim_by_def lit_def)
  have "register_tx toy_lib toy_service anna (lit ''Anna'') annas_hash Homeowner toy_ctx w = (Inr ch, w4)"
    using n u uid p c(1) a(1) by (simp add: register_tx_def bind_def seq_def ret_def)
  with after_runD(1,6) [OF a(2)] c(2) show ?thesis by simp
qed

lemma enforce_calm:
  assumes "p \<in> set policies"
  shows "\<exists>rows. enforce toy_lib pep p s 0 (calm_world d 0) = (Inr (), (calm_world d 0)\<lparr>w_calls := 2, w_rates := rows\<rparr>) \<and>
    list_all (\<lambda>r. 0 \<le> k_count r \<and> k_count r \<le> 1) rows"
  by (rule enforce_calm_bounded) (use assms in \<open>auto simp: policy_defs time_defs\<close>)

lemma toy_register:
  "\<exists>ch w'. register toy_lib toy_service no_others anna (lit ''Anna'') annas_password Homeowner toy_ctx
     (calm_world empty_db 0) = (Inr ch, w') \<and> ch_email ch = anna \<and>
     users (w_db w') = [new_user_row 0 100 (Some anna) (lit ''Anna'') Homeowner] \<and>
     credentials (w_db w') = [new_credential 0 100 annas_hash]"
proof -
  let ?w = "calm_world empty_db 0"
  obtain rows where e: "enforce toy_lib (sv_pepper toy_service) register_per_ip (client_key toy_ctx) 0 ?w =
      (Inr (), ?w\<lparr>w_calls := 2, w_rates := rows\<rparr>)"
    using enforce_calm [of register_per_ip "sv_pepper toy_service" "client_key toy_ctx" empty_db]
    by (auto simp: policies_def)
  let ?w1 = "?w\<lparr>w_calls := 2, w_rates := rows\<rparr>"
  have h: "hasher_hash toy_lib annas_password ?w1 = (Inr annas_hash, ?w1\<lparr>w_draws := 1\<rparr>)"
    by (simp add: hasher_hash_def hash_blocking_def annas_hash_def getrandom_def bind_def)
  let ?w2 = "?w1\<lparr>w_draws := 1\<rparr>"
  have c: "calm (?w2\<lparr>w_calls := Suc (w_calls ?w2)\<rparr>)" and q: "quiet ?w2"
    using calm_world_calm(1) [of empty_db] by (simp_all add: calm_def)
  obtain ch w' where t: "register_tx toy_lib toy_service anna (lit ''Anna'') annas_hash Homeowner toy_ctx
      (?w2\<lparr>w_calls := Suc (w_calls ?w2)\<rparr>) = (Inr ch, w')" "calm w'" "ch_email ch = anna"
      "users (w_db w') = [new_user_row 0 100 (Some anna) (lit ''Anna'') Homeowner]"
      "credentials (w_db w') = [new_credential 0 100 annas_hash]"
    using toy_register_tx [OF c] by auto
  have tr: "transaction (register_tx toy_lib toy_service anna (lit ''Anna'') annas_hash Homeowner toy_ctx) ?w2 =
      (Inr ch, w'\<lparr>w_calls := Suc (w_calls w')\<rparr>)"
    by (rule transaction_run) (rule q t(1) calmD(1) [OF t(2)])+
  have "register toy_lib toy_service no_others anna (lit ''Anna'') annas_password Homeowner toy_ctx ?w =
      (Inr ch, w'\<lparr>w_calls := Suc (w_calls w')\<rparr>)"
    using e h tr by (simp add: register_def bind_def seq_def after_no_others Let_def anna_address utc_now_def
        of_res_def anna_policy) (simp add: lit_def)
  with t(3-5) show ?thesis by simp
qed

end
