(* ===== verification/Auth_Errors.thy ===== *)
theory Auth_Errors
  imports Auth_Progress
begin

text \<open>
  Which errors an account operation can return. \<open>throws E f\<close>: every error of \<open>f\<close> satisfies \<open>E\<close>, in
  every world. The repository statements only add internal errors; what remains is the answers the
  service gives, which are the same for every reason a sign-in fails.
\<close>

named_theorems throws_intros

definition throws :: "(app_error \<Rightarrow> bool) \<Rightarrow> 'a m \<Rightarrow> bool" where
  "throws E f \<longleftrightarrow> (\<forall>w e w'. f w = (Inl e, w') \<longrightarrow> E e)"

text \<open>A predicate that leaves room for a failing statement.\<close>

definition allows_internal :: "(app_error \<Rightarrow> bool) \<Rightarrow> bool" where
  "allows_internal E \<longleftrightarrow> (\<forall>c. E (Internal c))"

lemma throwsI: "(\<And>w e w'. f w = (Inl e, w') \<Longrightarrow> E e) \<Longrightarrow> throws E f"
  by (simp add: throws_def)

lemma throwsD: "throws E f \<Longrightarrow> f w = (Inl e, w') \<Longrightarrow> E e"
  by (auto simp: throws_def)

lemma throws_basic [throws_intros]:
  "throws E (ret x)" "throws E utc_now" "throws E new_id" "throws E (interfere env k)"
  by (auto simp: throws_def new_id_def)

lemma throws_throw [throws_intros]: "E e \<Longrightarrow> throws E (throw e)"
  by (simp add: throws_def)

lemma throws_of_res: "(\<And>e. r = Inl e \<Longrightarrow> E e) \<Longrightarrow> throws E (of_res r)"
  by (auto simp: throws_def)

lemma throws_bind [throws_intros]:
  "throws E f \<Longrightarrow> (\<And>x. throws E (g x)) \<Longrightarrow> throws E (bind f g)"
  by (rule throwsI) (auto simp: bind_Inl_iff dest: throwsD)

lemma throws_seq [throws_intros]: "throws E f \<Longrightarrow> throws E g \<Longrightarrow> throws E (seq f g)"
  by (simp add: seq_def throws_bind)

lemma throws_after_others [throws_intros]: "throws E f \<Longrightarrow> throws E (after_others env k f)"
  by (simp add: after_others_def throws_intros)

lemma throws_if [throws_intros]: "(b \<Longrightarrow> throws E f) \<Longrightarrow> (\<not> b \<Longrightarrow> throws E g) \<Longrightarrow> throws E (if b then f else g)"
  by simp

lemma throws_let [throws_intros]: "(\<And>x. throws E (f x)) \<Longrightarrow> throws E (let x = v in f x)"
  by (simp add: Let_def)

lemma throws_case_option [throws_intros]:
  "throws E f \<Longrightarrow> (\<And>x. throws E (g x)) \<Longrightarrow> throws E (case v of None \<Rightarrow> f | Some x \<Rightarrow> g x)"
  by (cases v) auto

lemma throws_case_precheck [throws_intros]:
  "throws E a \<Longrightarrow> (\<And>u. throws E (b u)) \<Longrightarrow> (\<And>u. throws E (c u)) \<Longrightarrow> (\<And>u. throws E (d u)) \<Longrightarrow>
   (\<And>u h. throws E (e u h)) \<Longrightarrow>
   throws E (case v of NoAccount \<Rightarrow> a | Inactive u \<Rightarrow> b u | NoPassword u \<Rightarrow> c u | Locked u \<Rightarrow> d u | Proceed u h \<Rightarrow> e u h)"
  by (cases v) auto

lemma throws_case_outcome [throws_intros]:
  "(\<And>u. throws E (a u)) \<Longrightarrow> throws E b \<Longrightarrow> throws E c \<Longrightarrow>
   throws E (case v of Matched u \<Rightarrow> a u | Wrong \<Rightarrow> b | Gone \<Rightarrow> c)"
  by (cases v) auto

subsection \<open>Statements\<close>

lemma throws_round_trip [throws_intros]:
  "allows_internal E \<Longrightarrow> throws E round_trip" "allows_internal E \<Longrightarrow> throws E acquire"
  by (auto simp: throws_def acquire_def round_trip_def allows_internal_def split: option.splits)

lemma throws_query [throws_intros]:
  "allows_internal E \<Longrightarrow> throws E (query q)" "allows_internal E \<Longrightarrow> throws E (execute q')"
  by (auto simp: throws_def query_Inl_iff execute_Inl_iff allows_internal_def)

lemma throws_sql:
  "allows_internal E \<Longrightarrow> (\<And>now d e. q now d = Inl e \<Longrightarrow> E e) \<Longrightarrow> throws E (sql q)"
  by (auto simp: throws_def sql_Inl_iff allows_internal_def)

lemma throws_getrandom [throws_intros]: "allows_internal E \<Longrightarrow> throws E (getrandom n)"
  by (auto simp: throws_def getrandom_def allows_internal_def split: option.splits)

lemma throws_transaction [throws_intros]:
  "allows_internal E \<Longrightarrow> throws E f \<Longrightarrow> throws E (transaction f)"
proof (rule throwsI)
  fix w e w'
  assume E: "allows_internal E" and f: "throws E f" and run: "transaction f w = (Inl e, w')"
  have "throws E (bind round_trip (\<lambda>_. bind f (\<lambda>x. bind round_trip (\<lambda>_. ret x))))"
    using E f by (intro throws_intros)
  with run show "E e" by (auto simp: transaction_def split: prod.splits sum.splits dest: throwsD)
qed

lemma throws_transaction_early [throws_intros]:
  "allows_internal E \<Longrightarrow> throws E f \<Longrightarrow> throws E (transaction_early f)"
proof (rule throwsI)
  fix w e w'
  assume E: "allows_internal E" and f: "throws E f" and run: "transaction_early f w = (Inl e, w')"
  have "throws E (bind round_trip (\<lambda>_. f))" "throws E round_trip"
    using E f by (simp_all add: throws_bind throws_round_trip)
  with run show "E e" by (auto simp: transaction_early_def split: prod.splits sum.splits dest: throwsD)
qed

lemma user_of_row_error: "user_of_row r = Inl e \<Longrightarrow> \<exists>c. e = Internal c"
  by (auto simp: user_of_row_def user_status_parse_def account_type_parse_def split: sum.splits option.splits)

lemma opt_user_error: "opt_user r = Inl e \<Longrightarrow> \<exists>c. e = Internal c"
  by (auto simp: opt_user_def split: option.splits sum.splits dest: user_of_row_error)

lemma parse_roles_error: "parse_roles ns = Inl e \<Longrightarrow> \<exists>c. e = Internal c"
  by (induction ns) (auto split: option.splits sum.splits)

lemma throws_users [throws_intros]:
  "allows_internal E \<Longrightarrow> throws E (users_find_by_id i)"
  "allows_internal E \<Longrightarrow> throws E (users_find_by_email L a)"
  "allows_internal E \<Longrightarrow> throws E (users_mark_email_verified i)"
  "allows_internal E \<Longrightarrow> throws E (users_roles i)"
  unfolding users_find_by_id_def users_find_by_email_def users_mark_email_verified_def users_roles_def
  by (intro throws_intros throws_of_res, assumption?,
      auto simp: allows_internal_def dest: opt_user_error parse_roles_error)+

lemma throws_passwords [throws_intros]:
  "allows_internal E \<Longrightarrow> throws E (passwords_find i)"
  "allows_internal E \<Longrightarrow> throws E (passwords_find_for_update i)"
  "allows_internal E \<Longrightarrow> throws E (passwords_clear_failures i)"
  "allows_internal E \<Longrightarrow> throws E (passwords_record_failure i)"
  "allows_internal E \<Longrightarrow> throws E (passwords_set_hash i h)"
  "allows_internal E \<Longrightarrow> throws E (passwords_upgrade_hash i h h')"
  unfolding passwords_find_def passwords_find_for_update_def passwords_clear_failures_def
    passwords_record_failure_def passwords_set_hash_def passwords_upgrade_hash_def
  by ((intro throws_intros throws_sql; assumption?),
      auto simp: allows_internal_def insert_credential_def Let_def upgrade_hash_stmt_def
        split: option.splits if_splits)+

lemma throws_sessions [throws_intros]:
  "allows_internal E \<Longrightarrow> throws E (sessions_insert i u h a b ip ua)"
  "allows_internal E \<Longrightarrow> throws E (sessions_find_live h)"
  "allows_internal E \<Longrightarrow> throws E (sessions_touch i t n)"
  "allows_internal E \<Longrightarrow> throws E (sessions_revoke_all_for_user i reason ex)"
  unfolding sessions_insert_def sessions_find_live_def sessions_touch_def sessions_revoke_all_for_user_def
  by ((intro throws_intros throws_sql; assumption?),
      auto simp: allows_internal_def Let_def split: if_splits)+

lemma throws_tokens [throws_intros]:
  "allows_internal E \<Longrightarrow> throws E (tokens_issue i u p h ttl)"
  "allows_internal E \<Longrightarrow> throws E (tokens_verify_code i p h n)"
  "allows_internal E \<Longrightarrow> throws E (tokens_challenge_user i)"
  "allows_internal E \<Longrightarrow> throws E (tokens_peek_link h p)"
  "allows_internal E \<Longrightarrow> throws E (tokens_consume_link h p)"
  unfolding tokens_issue_def tokens_verify_code_def tokens_challenge_user_def tokens_peek_link_def
    tokens_consume_link_def
  by ((intro throws_intros throws_sql; assumption?),
      auto simp: allows_internal_def insert_token_def verify_code_stmt_def split: option.splits if_splits)+

lemma throws_audit [throws_intros]: "allows_internal E \<Longrightarrow> throws E (audit_record e)"
  unfolding audit_record_def
  by (intro throws_intros throws_sql) (auto simp: allows_internal_def Let_def split: if_splits)

lemma throws_outbox [throws_intros]: "allows_internal E \<Longrightarrow> throws E (outbox_enqueue e)"
  unfolding outbox_enqueue_def
  by (intro throws_intros throws_sql) (auto simp: allows_internal_def enqueue_stmt_def Let_def split: if_splits)

lemma throws_rate [throws_intros]: "allows_internal E \<Longrightarrow> throws E (rate_hit b l win now)"
  unfolding rate_hit_def
  by (rule throwsI) (auto simp: rate_sql_Inl_iff hit_rows_def hit_stmt_def Let_def allows_internal_def
      split: option.splits sum.splits if_splits)

subsection \<open>The service\<close>

text \<open>The errors that say nothing about an account.\<close>

fun uniform :: "app_error \<Rightarrow> bool" where
  "uniform Unauthenticated = True"
| "uniform (TooManyRequests _) = True"
| "uniform (Internal _) = True"
| "uniform _ = False"

definition busy_or_broken :: "app_error \<Rightarrow> bool" where
  "busy_or_broken e \<longleftrightarrow> (\<exists>d. e = TooManyRequests d) \<or> (\<exists>c. e = Internal c)"

lemma uniform_iff: "uniform e \<longleftrightarrow> e = Unauthenticated \<or> busy_or_broken e"
  by (cases e) (auto simp: busy_or_broken_def)

lemma allows_internals [throws_intros]: "allows_internal uniform" "allows_internal busy_or_broken"
  by (simp_all add: allows_internal_def busy_or_broken_def)

lemma throws_mono: "throws E f \<Longrightarrow> (\<And>e. E e \<Longrightarrow> E' e) \<Longrightarrow> throws E' f"
  by (auto simp: throws_def)

lemma throws_enforce: "throws busy_or_broken (enforce L pep p s now)"
  unfolding enforce_def by (intro throws_intros) (simp add: busy_or_broken_def)

lemma throws_enforce_uniform [throws_intros]: "throws uniform (enforce L pep p s now)"
  by (rule throws_mono [OF throws_enforce]) (simp add: uniform_iff)

lemma throws_password_work [throws_intros]:
  "allows_internal E \<Longrightarrow> throws E (hasher_hash L pw)"
  "allows_internal E \<Longrightarrow> throws E (hasher_verify L pw h)"
  "allows_internal E \<Longrightarrow> throws E (verify_decoy L hs pw)"
  by (auto simp: throws_def hasher_hash_def hash_blocking_def hasher_verify_def verify_decoy_def
      verify_blocking_def bind_Inl_iff allows_internal_def split: sum.splits option.splits)

lemma throws_generate_code [throws_intros]: "allows_internal E \<Longrightarrow> throws E (generate_code n)"
  by (induction n) (auto simp: Let_def allows_internal_def intro!: throws_intros)

lemma throws_issuing [throws_intros]:
  "allows_internal E \<Longrightarrow> throws E (token_generate L)"
  "allows_internal E \<Longrightarrow> throws E (issue_session L sv uid ctx now)"
  "allows_internal E \<Longrightarrow> throws E (issue_challenge L sv uid a)"
  unfolding token_generate_def issue_session_def issue_challenge_def by (intro throws_intros; assumption)+

lemma throws_login_parts [throws_intros]:
  "throws uniform (login_precheck L env a now)"
  "throws uniform (bad_password L sv env uid ctx)"
  "throws uniform (login_tx L sv uid h rem ctx now)"
  "throws uniform (upgrade_hash_if_needed L env uid h pw)"
  "throws uniform (audit_failed_login L sv u reason ctx)"
  unfolding login_precheck_def bad_password_def login_tx_def revalidate_def upgrade_hash_if_needed_def
    audit_failed_login_def record_failed_login_def
  by (intro throws_intros; simp)+

lemma throws_login: "throws uniform (login L sv env a pw dev ctx)"
  unfolding login_def login_verified_def by (intro throws_intros; simp)

text \<open>
  C26. Sign-in failures are uniform: whatever goes wrong with the account (no such address, a suspended
  account, no password, a lockout, a wrong password, an account that changed meanwhile), in every
  world and with any interleaving, the answer is \<open>Unauthenticated\<close>; the only other errors are the
  rate limit, which counts per client or per account without looking at it, and internal errors,
  whose status and message are constant. So two failed sign-ins that are not rate-limited
  and hit no internal error get the same status, code and message.
\<close>

theorem login_failures_are_uniform:
  assumes "login L sv env email password device ctx w = (Inl e, w')"
  shows "e = Unauthenticated \<or> (\<exists>d. e = TooManyRequests d) \<or>
    (\<exists>c. e = Internal c \<and> public_message e = public_message (Internal []) \<and> error_status e = 500)"
proof -
  have "uniform e" using throws_login assms by (rule throwsD)
  then show ?thesis by (cases e) auto
qed

theorem login_failures_are_uniform_witness:
  "\<exists>e w'. login toy_lib toy_service no_others (lit ''who@b.c'') annas_password None toy_ctx
       (calm_world empty_db 0) = (Inl e, w') \<and>
     (e = Unauthenticated \<or> (\<exists>d. e = TooManyRequests d) \<or>
      (\<exists>c. e = Internal c \<and> public_message e = public_message (Internal []) \<and> error_status e = 500))"
proof -
  let ?w = "calm_world empty_db 0" and ?who = "lit ''who@b.c''"
  obtain rows where e: "enforce toy_lib (sv_pepper toy_service) login_per_ip (client_key toy_ctx) 0 ?w =
      (Inr (), ?w\<lparr>w_calls := 2, w_rates := rows\<rparr>)"
    using enforce_calm [of login_per_ip "sv_pepper toy_service" "client_key toy_ctx" empty_db]
    by (auto simp: policies_def)
  let ?w1 = "?w\<lparr>w_calls := 2, w_rates := rows\<rparr>"
  have p: "login_precheck toy_lib no_others ?who 0 ?w1 = (Inr NoAccount, ?w1\<lparr>w_calls := 4\<rparr>)"
    by (simp add: login_precheck_def after_no_others seq_def bind_def acquire_def round_trip_def
        users_find_by_email_def query_def sql_def of_res_def opt_user_def ret_def numeral_eq_Suc)
  have "\<exists>e w'. login toy_lib toy_service no_others ?who annas_password None toy_ctx ?w = (Inl e, w')"
    using e p by (auto simp: login_def bind_def seq_def utc_now_def after_no_others verify_decoy_def throw_def
        hasher_verify_def of_res_def verify_blocking_def ret_def split: prod.splits sum.splits)
  then obtain er w' where "login toy_lib toy_service no_others ?who annas_password None toy_ctx ?w = (Inl er, w')"
    by blast
  with login_failures_are_uniform [OF this] show ?thesis by blast
qed

lemma active_iff: "user_of_row r = Inr u \<Longrightarrow> can_authenticate (usr_status u) \<longleftrightarrow> u_status r = lit ''active''"
  by (auto simp: user_of_row_def can_authenticate_def split: sum.splits dest!: parse_statusD)
    (metis user_status_parse_str user_status_str.simps(1) Inr_inject)

lemma throws_reset_request:
  "throws (\<lambda>e. busy_or_broken e \<or> e = invalid ''Enter a valid email address.'' \<and> \<not> looks_like_email (trim email))
     (request_password_reset L sv env email ctx)"
proof -
  let ?E = "\<lambda>e. busy_or_broken e \<or> e = invalid ''Enter a valid email address.'' \<and> \<not> looks_like_email (trim email)"
  have E: "allows_internal ?E" by (simp add: allows_internal_def busy_or_broken_def)
  have "throws ?E (enforce L pep p s now)" for pep p s now
    by (rule throws_mono [OF throws_enforce]) simp
  then show ?thesis
    unfolding request_password_reset_def Let_def by (intro throws_intros; simp add: E allows_internals)
qed

lemma bind_same_db:
  assumes "w_db (snd (f w)) = d" and "\<And>x v. f w = (Inr x, v) \<Longrightarrow> w_db v = d \<Longrightarrow> w_db (snd (g x v)) = d"
  shows "w_db (snd (bind f g w)) = d"
  using assms by (auto simp: bind_def split: prod.splits sum.splits)

lemma seq_same_db:
  "w_db (snd (f w)) = d \<Longrightarrow> (\<And>v. w_db v = d \<Longrightarrow> w_db (snd (g v)) = d) \<Longrightarrow> w_db (snd (seq f g w)) = d"
  unfolding seq_def by (rule bind_same_db) auto

lemma same_db_steps [simp]:
  "w_db (snd (enforce L pep p s now w)) = w_db w" "w_db (snd (acquire w)) = w_db w"
  "w_db (snd (users_find_by_email L a w)) = w_db w"
  using enforce_db acquire_world users_find_by_email_world by (metis surjective_pairing world.select_convs(1)
      world.surjective world.update_convs(5))+

lemma reset_request_unknown:
  assumes none: "\<forall>r \<in> set (users (w_db w)). u_status r = lit ''active'' \<longrightarrow>
       (case u_email r of None \<Rightarrow> True | Some a \<Rightarrow> email_norm L a \<noteq> email_norm L (trim email))"
  shows "w_db (snd (request_password_reset L sv no_others email ctx w)) = w_db w"
proof -
  have found: "\<not> can_authenticate (usr_status u)"
    if "users_find_by_email L (trim email) v = (Inr (Some u), v')" and "w_db v = w_db w" for u v v'
    using users_find_by_email_SomeD [OF that(1)] none that(2) by (auto simp: active_iff)
  have rest: "w_db (snd (bind (users_find_by_email L (trim email)) (\<lambda>x. case x of None \<Rightarrow> ret ()
      | Some u \<Rightarrow> if \<not> can_authenticate (usr_status u) then ret () else f u) v)) = w_db w"
    if "w_db v = w_db w" for f v
    using that found by (intro bind_same_db) (auto simp: ret_def split: option.splits)
  show ?thesis
    unfolding request_password_reset_def after_no_others Let_def
    by (intro bind_same_db seq_same_db rest) (auto simp: utc_now_def throw_def after_no_others
        intro!: seq_same_db rest)
qed

text \<open>
  C27. Asking for a password reset reveals nothing: whether the address belongs to an account or not, the
  request is answered alike. It fails with the validation message exactly for a text that is no
  address, and otherwise only with the rate limit or an internal error; and without an active
  account behind the address no table changes.
\<close>

theorem reset_request_reveals_nothing:
  "(case request_password_reset L sv env email ctx w of
      (Inr _, w') \<Rightarrow> looks_like_email (trim email)
    | (Inl e, w') \<Rightarrow> (\<exists>d. e = TooManyRequests d) \<or> (\<exists>c. e = Internal c) \<or>
        e = invalid ''Enter a valid email address.'' \<and> \<not> looks_like_email (trim email)) \<and>
   ((\<forall>r \<in> set (users (w_db w)). u_status r = lit ''active'' \<longrightarrow>
       (case u_email r of None \<Rightarrow> True | Some a \<Rightarrow> email_norm L a \<noteq> email_norm L (trim email))) \<longrightarrow>
    w_db (snd (request_password_reset L sv no_others email ctx w)) = w_db w)"
proof (intro conjI impI)
  show "case request_password_reset L sv env email ctx w of
      (Inr _, w') \<Rightarrow> looks_like_email (trim email)
    | (Inl e, w') \<Rightarrow> (\<exists>d. e = TooManyRequests d) \<or> (\<exists>c. e = Internal c) \<or>
        e = invalid ''Enter a valid email address.'' \<and> \<not> looks_like_email (trim email)"
    by (auto split: prod.split sum.split simp: busy_or_broken_def dest: throwsD [OF throws_reset_request])
      (auto simp: request_password_reset_def bind_Inr_iff seq_Inr_iff Let_def split: if_splits)
next
  assume "\<forall>r \<in> set (users (w_db w)). u_status r = lit ''active'' \<longrightarrow>
       (case u_email r of None \<Rightarrow> True | Some a \<Rightarrow> email_norm L a \<noteq> email_norm L (trim email))"
  then show "w_db (snd (request_password_reset L sv no_others email ctx w)) = w_db w"
    by (rule reset_request_unknown)
qed

theorem reset_request_reveals_nothing_witness:
  "\<exists>w'. request_password_reset toy_lib toy_service no_others (lit ''who@b.c'') toy_ctx (calm_world empty_db 0) =
      (Inr (), w') \<and> w_db w' = empty_db"
proof -
  let ?w = "calm_world empty_db 0" and ?who = "lit ''who@b.c''"
  have who: "trim ?who = ?who" "looks_like_email ?who"
    by (simp_all add: lit_def trim_def trim_by_def is_whitespace_def looks_like_email_def utf8_len_def as_bytes_def utf8_char_def)
  obtain rows where e: "enforce toy_lib (sv_pepper toy_service) password_reset_request_per_ip (client_key toy_ctx) 0 ?w =
      (Inr (), ?w\<lparr>w_calls := 2, w_rates := rows\<rparr>)" "list_all (\<lambda>r. 0 \<le> k_count r \<and> k_count r \<le> 1) rows"
    using enforce_calm [of password_reset_request_per_ip "sv_pepper toy_service" "client_key toy_ctx" empty_db]
    by (auto simp: policies_def)
  let ?w1 = "?w\<lparr>w_calls := 2, w_rates := rows\<rparr>"
  have "quiet ?w1" "light 1 ?w1" using e(2) calm_world_calm by (simp_all add: light_def calmD)
  from enforce_run [OF this toy_lib_ok, of password_reset_request_per_email 0 "sv_pepper toy_service"
      "to_lowercase toy_lib ?who"]
  obtain rows2 where e2: "enforce toy_lib (sv_pepper toy_service) password_reset_request_per_email
      (to_lowercase toy_lib ?who) 0 ?w1 = (Inr (), ?w1\<lparr>w_calls := 4, w_rates := rows2\<rparr>)"
    by (auto simp: policies_def password_reset_request_per_email_def mk_policy_def)
  have run: "fst (request_password_reset toy_lib toy_service no_others ?who toy_ctx ?w) = Inr ()"
    using e(1) e2 by (simp add: request_password_reset_def bind_def seq_def utc_now_def after_no_others who
        acquire_def round_trip_def users_find_by_email_def query_def sql_def of_res_def opt_user_def ret_def Let_def)
  have "w_db (snd (request_password_reset toy_lib toy_service no_others ?who toy_ctx ?w)) = empty_db"
    using reset_request_reveals_nothing [where L = toy_lib and sv = toy_service and env = no_others and
        email = ?who and ctx = toy_ctx and w = ?w] by simp
  with run show ?thesis by (metis prod.collapse)
qed

end
