(* ===== verification/Auth_Login_Properties.thy ===== *)
theory Auth_Login_Properties
  imports Auth_Errors
begin

text \<open>
  Signing in: what a session or a challenge rests on, whatever other requests did in between. The
  inversion lemmas at the beginning read a successful run of the shared steps off the tables.
\<close>

subsection \<open>Inversion of the shared steps\<close>

lemma issue_session_InrD:
  assumes "issue_session L sv uid ctx now w = (Inr s, w')"
  shows "\<exists>row. sessions (w_db w') = sessions (w_db w) @ [row] \<and>
    w_db w' = (w_db w)\<lparr>sessions := sessions (w_db w')\<rparr> \<and> w_clock w' = w_clock w \<and> user_exists (w_db w) uid \<and>
    s_id row = is_session_id s \<and> s_user_id row = uid \<and> s_token_hash row = digest_token L (is_token s) \<and>
    s_absolute_expires_at row = now + sv_session_absolute sv \<and> is_absolute_expires_at s = s_absolute_expires_at row \<and>
    s_idle_expires_at row = min (now + sv_session_idle sv) (now + sv_session_absolute sv) \<and>
    s_revoked_at row = None \<and> sessions_check row \<and>
    is_csrf_token s = token_for_session L (sv_pepper sv) (is_session_id s) \<and>
    is_session_id s \<notin> s_id ` set (sessions (w_db w)) \<and>
    digest_token L (is_token s) \<notin> s_token_hash ` set (sessions (w_db w))"
proof -
  obtain raw w1 row w2 where g: "token_generate L w = (Inr raw, w1)"
    and ins: "sessions_insert (w_ids w1 (w_next_id w1)) uid (digest_token L raw)
      (min (now + sv_session_idle sv) (now + sv_session_absolute sv)) (now + sv_session_absolute sv)
      (ip_hash L sv ctx) (rc_user_agent ctx) (w1\<lparr>w_next_id := Suc (w_next_id w1)\<rparr>) = (Inr row, w2)"
    and s: "s = \<lparr>is_session_id = w_ids w1 (w_next_id w1), is_token = raw,
           is_csrf_token = token_for_session L (sv_pepper sv) (w_ids w1 (w_next_id w1)),
           is_absolute_expires_at = now + sv_session_absolute sv,
           is_max_age = sv_absolute_max_age sv\<rparr>" "w' = w2"
    using assms by (auto simp: issue_session_def run_iffs Let_def)
  from sessions_insert_InrD [OF ins] token_generate_world [OF g] s show ?thesis
    by (auto simp: new_session_def)
qed

lemma generate_code_tables: "generate_code n w = (r, w') \<Longrightarrow> w_db w' = w_db w \<and> w_clock w' = w_clock w"
  by (auto dest!: generate_code_world)

text \<open>A challenge: one open code of the account, hashed, and the message that carries it.\<close>

lemma issue_challenge_InrD:
  assumes "issue_challenge L sv uid email w = (Inr ch, w')"
  shows "\<exists>code m. w_db w' = (w_db w)\<lparr>auth_tokens := auth_tokens (w_db w'), email_outbox := email_outbox (w_db w) @ [m]\<rparr> \<and>
    auth_tokens (w_db w') = auth_tokens (consume_open (w_clock w) uid LoginCode (w_db w)) @
      [new_token (w_clock w) (ch_challenge_id ch) uid LoginCode (code_hash L (sv_pepper sv) (ch_challenge_id ch) code) 600] \<and>
    m_user_id m = uid \<and> m_recipient m = email \<and> m_kind m = KLoginCode \<and> m_status m = Queued \<and>
    m_body_text m = rd_text (mail_login_code code) \<and> ch_email ch = email \<and> user_exists (w_db w) uid \<and>
    w_clock w' = w_clock w"
proof -
  obtain code w1 w2 i w3 where
    g: "generate_code (sv_code_rounds sv) (w\<lparr>w_next_id := Suc (w_next_id w)\<rparr>) = (Inr code, w1)"
    and t: "tokens_issue (w_ids w (w_next_id w)) uid LoginCode
        (code_hash L (sv_pepper sv) (w_ids w (w_next_id w)) code) code_ttl_secs w1 = (Inr (), w2)"
    and m: "outbox_enqueue (code_mail uid email KLoginCode (mail_login_code code)) w2 = (Inr i, w3)"
    and ch: "ch = \<lparr>ch_challenge_id = w_ids w (w_next_id w), ch_email = email\<rparr>" "w' = w3"
    using assms by (auto simp: issue_challenge_def run_iffs)
  note g' = generate_code_tables [OF g] and t' = tokens_issue_InrD [OF t] and m' = outbox_enqueue_InrD [OF m]
  from t' g' have t2: "w_db w2 = (w_db w)\<lparr>auth_tokens := auth_tokens (w_db w2)\<rparr>"
    and e2: "email_outbox (w_db w2) = email_outbox (w_db w)" by (auto intro: arg_cong)
  show ?thesis
    using t' g' m' t2 e2 ch
    by (intro exI [of _ code] exI [of _ "outbox_row_of (w_clock w2) i (code_mail uid email KLoginCode (mail_login_code code))"])
      (simp add: outbox_row_of_def code_mail_def code_ttl_secs_def)
qed

lemma revalidate_InrD:
  assumes "revalidate uid h t w = (Inr u, w')"
  shows "w_db w' = w_db w \<and> w_clock w' = w_clock w \<and>
    (\<exists>c r. find_credential uid (w_db w) = Some c \<and> c_password_hash c = h \<and> \<not> is_locked_at c t \<and>
       r \<in> set (users (w_db w)) \<and> u_id r = uid \<and> u_status r = lit ''active'' \<and> user_of_row r = Inr u \<and> usr_id u = uid)"
proof -
  let ?w1 = "w\<lparr>w_calls := Suc (w_calls w)\<rparr>"
  obtain c where c: "find_credential uid (w_db w) = Some c"
    and rest: "bind (users_find_by_id uid) (\<lambda>found. case found of None \<Rightarrow> throw Unauthenticated
         | Some user \<Rightarrow>
             if \<not> can_authenticate (usr_status user) then throw Unauthenticated
             else if c_password_hash c \<noteq> h then throw Unauthenticated
             else if is_locked_at c t then throw Unauthenticated
             else ret user) ?w1 = (Inr u, w')"
    using assms by (auto simp: revalidate_def bind_Inr_iff passwords_find_for_update_def query_Inr_iff split: option.splits)
  then obtain w2 where f: "users_find_by_id uid ?w1 = (Inr (Some u), w2)" "can_authenticate (usr_status u)"
    "c_password_hash c = h" "\<not> is_locked_at c t" "w' = w2"
    by (auto simp: bind_Inr_iff split: option.splits if_splits)
  from users_find_by_id_SomeD [OF f(1)] c f(2-) show ?thesis by (auto simp: active_iff)
qed

subsection \<open>Passwords\<close>

lemma clear_failures_InrD:
  assumes "passwords_clear_failures uid w = (Inr x, w')"
  shows "w_db w' = set_credential uid (\<lambda>c. c\<lparr>c_failed_attempts := 0, c_locked_until := None\<rparr>) (w_db w) \<and>
    w_clock w' = w_clock w"
  using assms by (auto simp: passwords_clear_failures_def execute_Inr_iff)

lemma set_credential_frame [simp]:
  "users (set_credential i f d) = users d" "sessions (set_credential i f d) = sessions d"
  "auth_tokens (set_credential i f d) = auth_tokens d" "email_outbox (set_credential i f d) = email_outbox d"
  "oauth_identities (set_credential i f d) = oauth_identities d" "audit_log (set_credential i f d) = audit_log d"
  by (simp_all add: set_credential_def)

text \<open>What a sign-in with the right password leaves behind: a session when the browser is remembered, an open
  code in a queued message when it is not.\<close>

definition login_effect :: "lib \<Rightarrow> service \<Rightarrow> uuid \<Rightarrow> login_result \<Rightarrow> time \<Rightarrow> db \<Rightarrow> db \<Rightarrow> bool" where
  "login_effect L sv uid result now d d' =
     (case result of
        Session out \<Rightarrow> usr_id (lo_user out) = uid \<and>
          (\<exists>row. sessions d' = sessions d @ [row] \<and> s_user_id row = uid \<and> s_revoked_at row = None \<and>
             s_token_hash row = digest_token L (is_token (lo_session out))) \<and> auth_tokens d' = auth_tokens d
      | Challenged ch \<Rightarrow> sessions d' = sessions d \<and>
          (\<exists>code m. filter (open_token uid LoginCode) (auth_tokens d') =
               [new_token now (ch_challenge_id ch) uid LoginCode
                  (code_hash L (sv_pepper sv) (ch_challenge_id ch) code) 600] \<and>
             email_outbox d' = email_outbox d @ [m] \<and> m_user_id m = uid \<and> m_recipient m = ch_email ch \<and>
             m_body_text m = rd_text (mail_login_code code)))"

lemma filter_open_consumed: "filter (open_token uid p) (auth_tokens (consume_open t uid p d)) = []"
  using no_open_after_consume [of uid p t d] by (simp add: filter_empty_conv list_all_iff)

lemma login_tx_InrD:
  assumes "login_tx L sv uid h remembered ctx now w = (Inr result, w')"
  shows "\<exists>c r. find_credential uid (w_db w) = Some c \<and> c_password_hash c = h \<and> \<not> is_locked_at c (w_clock w) \<and>
    r \<in> set (users (w_db w)) \<and> u_id r = uid \<and> u_status r = lit ''active'' \<and>
    login_effect L sv uid result (w_clock w) (w_db w) (w_db w') \<and>
    (case result of Session out \<Rightarrow> remembered | Challenged ch \<Rightarrow> \<not> remembered \<and> u_email r = Some (ch_email ch))"
proof -
  obtain u w1 x w2 where rv: "revalidate uid h (w_clock w) w = (Inr u, w1)"
    and cl: "passwords_clear_failures uid w1 = (Inr x, w2)"
    and rest: "(if remembered then
        bind (issue_session L sv uid ctx now) (\<lambda>session.
        seq (audit_record (user_event L sv ''auth.login_succeeded'' ctx uid
               [(lit ''session_id'', JUuid (is_session_id session))]))
        (ret (Session \<lparr>lo_user = u, lo_session = session\<rparr>)))
      else
        (case usr_email u of
           None \<Rightarrow> throw (internal ''password account with no email'')
         | Some address \<Rightarrow>
             bind (issue_challenge L sv uid address) (\<lambda>ch.
             seq (audit_record (user_event L sv ''auth.login_challenged'' ctx uid
                    [(lit ''challenge_id'', JUuid (ch_challenge_id ch))]))
             (ret (Challenged ch))))) w2 = (Inr result, w')"
    using assms by (auto simp: login_tx_def bind_Inr_iff seq_Inr_iff)
  obtain c r where cr: "w_db w1 = w_db w" "w_clock w1 = w_clock w" "find_credential uid (w_db w) = Some c"
    "c_password_hash c = h" "\<not> is_locked_at c (w_clock w)" "r \<in> set (users (w_db w))" "u_id r = uid"
    "u_status r = lit ''active''" "user_of_row r = Inr u" "usr_id u = uid"
    using revalidate_InrD [OF rv] by blast
  note w2 = clear_failures_InrD [OF cl]
  show ?thesis
  proof (cases remembered)
    case True
    with rest obtain s w3 i where s: "issue_session L sv uid ctx now w2 = (Inr s, w3)"
      and a: "audit_record (user_event L sv ''auth.login_succeeded'' ctx uid
               [(lit ''session_id'', JUuid (is_session_id s))]) w3 = (Inr i, w')"
      and res: "result = Session \<lparr>lo_user = u, lo_session = s\<rparr>"
      by (auto simp: bind_Inr_iff seq_Inr_iff)
    obtain row where row: "sessions (w_db w3) = sessions (w_db w2) @ [row]"
      "w_db w3 = (w_db w2)\<lparr>sessions := sessions (w_db w3)\<rparr>" "s_user_id row = uid"
      "s_token_hash row = digest_token L (is_token s)" "s_revoked_at row = None"
      using issue_session_InrD [OF s] by blast
    have at: "auth_tokens (w_db w3) = auth_tokens (w_db w2)" using arg_cong [OF row(2), of auth_tokens] by simp
    have "login_effect L sv uid result (w_clock w) (w_db w) (w_db w')"
      using audit_record_InrD [OF a] row w2 cr at by (simp add: login_effect_def res)
    with True cr res show ?thesis by (intro exI [of _ c] exI [of _ r]) simp
  next
    case False
    with rest obtain address ch w3 i where e: "usr_email u = Some address"
      and s: "issue_challenge L sv uid address w2 = (Inr ch, w3)"
      and a: "audit_record (user_event L sv ''auth.login_challenged'' ctx uid
                    [(lit ''challenge_id'', JUuid (ch_challenge_id ch))]) w3 = (Inr i, w')"
      and res: "result = Challenged ch"
      by (auto simp: bind_Inr_iff seq_Inr_iff split: option.splits)
    obtain code m where ch: "w_db w3 = (w_db w2)\<lparr>auth_tokens := auth_tokens (w_db w3), email_outbox := email_outbox (w_db w2) @ [m]\<rparr>"
      "auth_tokens (w_db w3) = auth_tokens (consume_open (w_clock w2) uid LoginCode (w_db w2)) @
        [new_token (w_clock w2) (ch_challenge_id ch) uid LoginCode (code_hash L (sv_pepper sv) (ch_challenge_id ch) code) 600]"
      "m_user_id m = uid" "m_recipient m = address" "m_body_text m = rd_text (mail_login_code code)" "ch_email ch = address"
      using issue_challenge_InrD [OF s] by blast
    have fr: "sessions (w_db w3) = sessions (w_db w2)" "email_outbox (w_db w3) = email_outbox (w_db w2) @ [m]"
      using arg_cong [OF ch(1), of sessions] arg_cong [OF ch(1), of email_outbox] by simp_all
    have op: "filter (open_token uid LoginCode) (auth_tokens (w_db w3)) =
        [new_token (w_clock w) (ch_challenge_id ch) uid LoginCode (code_hash L (sv_pepper sv) (ch_challenge_id ch) code) 600]"
      using w2 cr by (simp add: ch(2) filter_open_consumed open_token_def new_token_def)
    have "login_effect L sv uid result (w_clock w) (w_db w) (w_db w')"
      using audit_record_InrD [OF a] ch(3-6) w2 cr fr op by (auto simp: login_effect_def res)
    with False cr res e ch(6) user_of_row_id [OF cr(9)] show ?thesis by (intro exI [of _ c] exI [of _ r]) simp
  qed
qed

lemma login_InrD:
  assumes "login L sv env email password device ctx w = (Inr result, w')"
  obtains uid h w1 w2 where "verify_blocking L password h = Inr True"
    and "login_verified L sv env uid h password device ctx (w_clock w) w1 = (Inr result, w2)"
proof -
  have none: "bad_password L sv env uid ctx v \<noteq> (Inr result, v')" for uid v v'
    by (auto simp: bad_password_def bind_Inr_iff seq_Inr_iff)
  obtain w0 pre w1 where "login_precheck L env email (w_clock w) w0 = (Inr pre, w1)"
    and branch: "(case pre of
        NoAccount \<Rightarrow>
          seq (verify_decoy L (sv_hasher sv) password)
          (seq (after_others env 4 (audit_failed_login L sv None ''unknown_account'' ctx))
          (throw Unauthenticated))
      | Inactive uid \<Rightarrow>
          seq (verify_decoy L (sv_hasher sv) password)
          (seq (after_others env 4 (audit_failed_login L sv (Some uid) ''account_not_active'' ctx))
          (throw Unauthenticated))
      | NoPassword uid \<Rightarrow>
          seq (verify_decoy L (sv_hasher sv) password)
          (seq (after_others env 4 (audit_failed_login L sv (Some uid) ''no_password_set'' ctx))
          (throw Unauthenticated))
      | Locked uid \<Rightarrow>
          seq (after_others env 4 (audit_failed_login L sv (Some uid) ''account_locked'' ctx))
          (throw Unauthenticated)
      | Proceed uid verified_hash \<Rightarrow>
          bind (hasher_verify L password verified_hash) (\<lambda>verified.
          if \<not> verified then bad_password L sv env uid ctx
          else login_verified L sv env uid verified_hash password device ctx (w_clock w))) w1 = (Inr result, w')"
    using assms by (auto simp: login_def bind_Inr_iff seq_Inr_iff)
  show thesis
  proof (cases pre)
    case (Proceed uid h)
    with branch that none show thesis
      by (auto simp: bind_Inr_iff hasher_verify_def split: if_splits)
  qed (use branch in \<open>auto simp: bind_Inr_iff seq_Inr_iff\<close>)
qed


definition anna_db :: db where
  "anna_db = empty_db\<lparr>users := [new_user_row 0 50 (Some anna) (lit ''Anna'') Homeowner],
     credentials := [new_credential 0 50 annas_hash]\<rparr>"

definition anna_user :: user where
  "anna_user = \<lparr>usr_id = 50, usr_email = Some anna, usr_display_name = lit ''Anna'', usr_status = Active,
     usr_account_type = Homeowner, usr_email_verified_at = None, usr_created_at = 0\<rparr>"

lemma anna_row: "user_of_row (new_user_row 0 50 (Some anna) (lit ''Anna'') Homeowner) = Inr anna_user"
proof -
  have "user_status_parse (lit ''active'') = Inr Active" "account_type_parse (lit ''homeowner'') = Inr Homeowner"
    using user_status_parse_str [of Active] account_type_parse_str [of Homeowner] by simp_all
  then show ?thesis by (simp add: user_of_row_def new_user_row_def anna_user_def)
qed

lemma anna_found:
  assumes "quiet w" and "users (w_db w) = [new_user_row 0 50 (Some anna) (lit ''Anna'') Homeowner]"
  shows "users_find_by_id 50 w = (Inr (Some anna_user), w\<lparr>w_calls := Suc (w_calls w)\<rparr>)"
    "users_find_by_email toy_lib anna w = (Inr (Some anna_user), w\<lparr>w_calls := Suc (w_calls w)\<rparr>)"
  using assms by (simp_all add: users_find_by_id_def users_find_by_email_def bind_def query_run opt_user_def
      of_res_def anna_row) (simp_all add: new_user_row_def of_res_def anna_row [unfolded new_user_row_def])

lemma anna_db_simps [simp]:
  "users anna_db = [new_user_row 0 50 (Some anna) (lit ''Anna'') Homeowner]"
  "credentials anna_db = [new_credential 0 50 annas_hash]" "sessions anna_db = []" "auth_tokens anna_db = []"
  "email_outbox anna_db = []" "audit_log anna_db = []" "oauth_identities anna_db = []"
  by (simp_all add: anna_db_def)

lemma anna_exists [simp]: "user_exists anna_db 50"
  by (simp add: user_exists_def new_user_row_def)

lemma anna_credential: "find_credential 50 anna_db = Some (new_credential 0 50 annas_hash)"
  by (simp add: find_credential_def new_credential_def)

lemma anna_verifies: "verify_blocking toy_lib annas_password annas_hash = Inr True"
  by (simp add: verify_blocking_def annas_hash_def)

lemma revalidate_run:
  assumes "quiet w" and "w_db w = anna_db"
  shows "revalidate 50 annas_hash t w = (Inr anna_user, w\<lparr>w_calls := Suc (Suc (w_calls w))\<rparr>)"
  using assms anna_found [of "w\<lparr>w_calls := Suc (w_calls w)\<rparr>"]
  by (simp add: revalidate_def bind_def passwords_find_for_update_def query_run anna_credential new_credential_def
      is_locked_at_def ret_def can_authenticate_def) (simp add: anna_user_def ret_def)

lemma toy_login_tx:
  assumes "calm w" and "w_db w = anna_db" and "w_draws w \<le> 2" and "w_next_id w = 0"
  shows "\<exists>ch w'. login_tx toy_lib toy_service 50 annas_hash False toy_ctx 0 w = (Inr (Challenged ch), w') \<and> calm w'"
proof -
  let ?w1 = "w\<lparr>w_calls := Suc (Suc (w_calls w))\<rparr>"
  have rv: "revalidate 50 annas_hash (w_clock w) w = (Inr anna_user, ?w1)"
    using assms by (intro revalidate_run) (simp_all add: calmD)
  let ?d = "set_credential 50 (\<lambda>c. c\<lparr>c_failed_attempts := 0, c_locked_until := None\<rparr>) anna_db"
  let ?w2 = "w\<lparr>w_calls := Suc (Suc (Suc (w_calls w))), w_db := ?d\<rparr>"
  have cl: "passwords_clear_failures 50 ?w1 = (Inr (), ?w2)"
    using assms by (simp add: passwords_clear_failures_def execute_run calmD)
  have ex: "user_exists ?d 50" by (simp add: user_exists_def new_user_row_def)
  obtain ch w3 ts ms where c: "issue_challenge toy_lib toy_service 50 anna ?w2 = (Inr ch, w3)"
    and w3: "after_run ?w2 w3 2 1 (?d\<lparr>auth_tokens := ts, email_outbox := ms\<rparr>)"
    using issue_challenge_run [of ?w2 toy_lib toy_service 0 anna 50] assms ex toy_lib_ok anna_address(4)
    by (auto simp: toy_service_def)
  obtain i w4 row where a: "audit_record (user_event toy_lib toy_service ''auth.login_challenged'' toy_ctx 50
      [(lit ''challenge_id'', JUuid (ch_challenge_id ch))]) w3 = (Inr i, w4)" "after_run w3 w4 1 0
        ((?d\<lparr>auth_tokens := ts, email_outbox := ms\<rparr>)\<lparr>audit_log := [row]\<rparr>)"
    using audit_record_calm [of w3 50 "''auth.login_challenged''" toy_lib "[(lit ''challenge_id'', JUuid (ch_challenge_id ch))]"]
      after_runD [OF w3] ex by (auto simp: user_exists_def btrim_def trim_by_def lit_def)
  have "login_tx toy_lib toy_service 50 annas_hash False toy_ctx 0 w = (Inr (Challenged ch), w4)"
    using rv cl c a(1) by (simp add: login_tx_def utc_now_def bind_def seq_def ret_def)
      (simp add: anna_user_def bind_def seq_def ret_def)
  with after_runD(1) [OF a(2)] show ?thesis by blast
qed

lemma toy_login:
  "\<exists>ch w'. login toy_lib toy_service no_others anna annas_password None toy_ctx (calm_world anna_db 0) =
     (Inr (Challenged ch), w')"
proof -
  let ?w = "calm_world anna_db 0"
  obtain rows where e: "enforce toy_lib (sv_pepper toy_service) login_per_ip (client_key toy_ctx) 0 ?w =
      (Inr (), ?w\<lparr>w_calls := 2, w_rates := rows\<rparr>)" "list_all (\<lambda>r. 0 \<le> k_count r \<and> k_count r \<le> 1) rows"
    using enforce_calm [of login_per_ip "sv_pepper toy_service" "client_key toy_ctx" anna_db]
    by (auto simp: policies_def)
  let ?w1 = "?w\<lparr>w_calls := 2, w_rates := rows\<rparr>" and ?w2 = "?w\<lparr>w_rates := rows, w_calls := 5\<rparr>"
  have q: "quiet (?w\<lparr>w_rates := rows', w_calls := n\<rparr>)" "quiet (?w\<lparr>w_calls := n, w_rates := rows'\<rparr>)" for n rows'
    using calm_world_calm(1) by (simp_all add: calmD)
  have p: "login_precheck toy_lib no_others anna 0 ?w1 = (Inr (Proceed 50 annas_hash), ?w2)"
    using anna_found(2) [OF q(1) [where n = 3 and rows' = rows]]
    by (simp add: login_precheck_def after_no_others seq_def bind_def acquire_def round_trip_def anna_address
        passwords_find_def query_def sql_def anna_credential can_authenticate_def)
      (simp add: anna_user_def seq_def bind_def anna_credential new_credential_def is_locked_at_def ret_def
        round_trip_def)
  from enforce_run [of ?w2 1 toy_lib login_code_issue_per_user 0 "sv_pepper toy_service" "uuid_to_string toy_lib 50"] q e(2)
  obtain rows2 where e2: "enforce toy_lib (sv_pepper toy_service) login_code_issue_per_user
      (uuid_to_string toy_lib 50) 0 ?w2 = (Inr (), ?w\<lparr>w_calls := 7, w_rates := rows2\<rparr>)"
    using toy_lib_ok by (auto simp: policies_def login_code_issue_per_user_def mk_policy_def light_def)
  let ?w3 = "?w\<lparr>w_calls := 7, w_rates := rows2\<rparr>"
  have c3: "calm (?w3\<lparr>w_calls := Suc (w_calls ?w3)\<rparr>)" using calm_world_calm(1) by simp
  obtain ch w' where t: "login_tx toy_lib toy_service 50 annas_hash False toy_ctx 0
      (?w3\<lparr>w_calls := Suc (w_calls ?w3)\<rparr>) = (Inr (Challenged ch), w')" "calm w'"
    using toy_login_tx [OF c3] by auto
  have tr: "transaction (login_tx toy_lib toy_service 50 annas_hash False toy_ctx 0) ?w3 =
      (Inr (Challenged ch), w'\<lparr>w_calls := Suc (w_calls w')\<rparr>)"
    by (rule transaction_run) (rule q t(1) calmD(1) [OF t(2)])+
  have "login toy_lib toy_service no_others anna annas_password None toy_ctx ?w =
      (Inr (Challenged ch), w'\<lparr>w_calls := Suc (w_calls w')\<rparr>)"
    using e(1) p e2 tr anna_verifies
    by (simp add: login_def bind_def seq_def after_no_others utc_now_def hasher_verify_def of_res_def)
      (simp add: login_verified_def bind_def seq_def after_no_others upgrade_hash_if_needed_def needs_rehash_def
        m_cost_kib_def t_cost_def p_cost_def ret_def)
  then show ?thesis by blast
qed


end
