(* ===== verification/Auth_Session_Properties.thy ===== *)
theory Auth_Session_Properties
  imports Auth_Login_Properties
begin

text \<open>
  Completing a code, resolving a session token, and the operations that end sessions.
\<close>

text \<open>Case analysis on the existential results of a run.\<close>

lemma ex_code_outcome: "(\<exists>x. P x) \<longleftrightarrow> (\<exists>u. P (Matched u)) \<or> P Wrong \<or> P Gone"
  by (metis code_outcome.exhaust)

lemmas run_cases = bind_Inr_iff seq_Inr_iff after_others_iff split_option_ex ex_code_outcome

subsection \<open>Login codes\<close>

lemma verify_code_MatchedD:
  assumes "tokens_verify_code cid p h n w = (Inr (Matched uid), w')"
  shows "\<exists>t \<in> set (auth_tokens (w_db w)). t_id t = cid \<and> t_purpose t = p \<and> t_consumed_at t = None \<and>
    w_clock w < t_expires_at t \<and> t_token_hash t = h \<and> t_user_id t = uid \<and>
    t\<lparr>t_attempts := t_attempts t + 1, t_consumed_at := Some (w_clock w)\<rparr> \<in> set (auth_tokens (w_db w'))"
proof -
  obtain t where t: "find (guessable (w_clock w) cid p) (auth_tokens (w_db w)) = Some t"
    "t_token_hash t = h" "t_user_id t = uid"
    "auth_tokens (w_db w') = map (\<lambda>x. if guessable (w_clock w) cid p x then spend_attempt (w_clock w) h n x else x)
       (auth_tokens (w_db w))"
    using assms by (auto simp: tokens_verify_code_def sql_Inr_iff verify_code_stmt_def split: option.splits if_splits)
  then have "t \<in> set (auth_tokens (w_db w))" "guessable (w_clock w) cid p t" by (auto simp: find_Some_iff)
  with t show ?thesis by (intro bexI [of _ t]) (force simp: guessable_def spend_attempt_def)+
qed

lemma mark_verified_InrD:
  assumes "users_mark_email_verified uid w = (Inr x, w')"
  shows "\<forall>r \<in> set (users (w_db w')). u_id r = uid \<longrightarrow> u_email_verified_at r \<noteq> None"
    and "w_clock w' = w_clock w" and "sessions (w_db w') = sessions (w_db w)"
    and "auth_tokens (w_db w') = auth_tokens (w_db w)" and "credentials (w_db w') = credentials (w_db w)"
    and "oauth_identities (w_db w') = oauth_identities (w_db w)" and "map u_id (users (w_db w')) = map u_id (users (w_db w))"
proof -
  define f where "f r = (if u_email_verified_at r = None then r\<lparr>u_email_verified_at := Some (w_clock w)\<rparr> else r)" for r :: user_row
  have f: "u_id (f r) = u_id r" "u_email_verified_at (f r) \<noteq> None" for r by (simp_all add: f_def)
  have w': "w' = w\<lparr>w_calls := Suc (w_calls w), w_db := set_user uid f (w_db w)\<rparr>"
    using assms by (simp add: users_mark_email_verified_def execute_Inr_iff f_def [abs_def])
  then have us: "users (w_db w') = map (\<lambda>r. if u_id r = uid then f r else r) (users (w_db w))"
    by (simp add: set_user_def)
  then show "\<forall>r \<in> set (users (w_db w')). u_id r = uid \<longrightarrow> u_email_verified_at r \<noteq> None"
    using f by auto
  show "w_clock w' = w_clock w" "sessions (w_db w') = sessions (w_db w)"
    "auth_tokens (w_db w') = auth_tokens (w_db w)" "credentials (w_db w') = credentials (w_db w)"
    "oauth_identities (w_db w') = oauth_identities (w_db w)"
    by (simp_all add: w' set_user_def)
  show "map u_id (users (w_db w')) = map u_id (users (w_db w))"
    using us f by simp
qed

lemma user_of_row_verified: "user_of_row r = Inr u \<Longrightarrow> usr_email_verified_at u = u_email_verified_at r"
  by (auto simp: user_of_row_def split: sum.splits)

lemma verify_code_tx_InrD:
  assumes "verify_code_tx L sv uid ctx now w = (Inr out, w')"
  shows "(\<exists>r \<in> set (users (w_db w)). u_id r = uid \<and> u_status r = lit ''active'') \<and>
    usr_id (lo_user out) = uid \<and> usr_email_verified_at (lo_user out) \<noteq> None \<and>
    (\<forall>r \<in> set (users (w_db w')). u_id r = uid \<longrightarrow> u_email_verified_at r \<noteq> None) \<and>
    (\<exists>row. sessions (w_db w') = sessions (w_db w) @ [row] \<and> s_user_id row = uid \<and> s_revoked_at row = None \<and>
       s_token_hash row = digest_token L (is_token (lo_session out)))"
proof -
  obtain u w1 x w2 u' w3 s w4 i where f: "users_find_by_id uid w = (Inr (Some u), w1)"
    "can_authenticate (usr_status u)" and m: "users_mark_email_verified uid w1 = (Inr x, w2)"
    and f2: "users_find_by_id uid w2 = (Inr (Some u'), w3)"
    and s: "issue_session L sv uid ctx now w3 = (Inr s, w4)"
    and a: "audit_record (user_event L sv ''auth.login_succeeded'' ctx uid
                       [(lit ''session_id'', JUuid (is_session_id s)),
                        (lit ''via'', JText (lit ''login_code''))]) w4 = (Inr i, w')"
    and out: "out = \<lparr>lo_user = u', lo_session = s\<rparr>"
    using assms by (auto simp: verify_code_tx_def run_cases split: if_splits)
  note f' = users_find_by_id_SomeD [OF f(1)] and f2' = users_find_by_id_SomeD [OF f2]
  obtain row where row: "sessions (w_db w4) = sessions (w_db w3) @ [row]"
    "w_db w4 = (w_db w3)\<lparr>sessions := sessions (w_db w4)\<rparr>" "s_user_id row = uid"
    "s_token_hash row = digest_token L (is_token s)" "s_revoked_at row = None"
    using issue_session_InrD [OF s] by blast
  have us: "users (w_db w4) = users (w_db w3)" using arg_cong [OF row(2), of users] by simp
  show ?thesis
    using f' f(2) f2' mark_verified_InrD(1,3) [OF m] row us audit_record_InrD [OF a]
    by (auto simp: out active_iff user_of_row_verified)
qed


definition code_db :: db where
  "code_db = anna_db\<lparr>auth_tokens := [new_token 0 3 50 LoginCode
     (code_hash toy_lib (sv_pepper toy_service) 3 (lit ''123456'')) 600]\<rparr>"

lemma toy_verify_code_tx:
  assumes "calm w" and "users (w_db w) = users anna_db" and "sessions (w_db w) = []" and "audit_log (w_db w) = []"
    and "w_draws w \<le> 2"
  shows "\<exists>out w'. verify_code_tx toy_lib toy_service 50 toy_ctx 0 w = (Inr out, w') \<and> calm w'"
proof -
  let ?w1 = "w\<lparr>w_calls := Suc (w_calls w)\<rparr>"
  have q: "quiet w" using assms(1) by (rule calmD)
  have f: "users_find_by_id 50 w = (Inr (Some anna_user), ?w1)" using assms(2) q by (simp add: anna_found)
  let ?row = "(new_user_row 0 50 (Some anna) (lit ''Anna'') Homeowner)\<lparr>u_email_verified_at := Some 0\<rparr>"
  let ?d = "(w_db w)\<lparr>users := [?row]\<rparr>"
  let ?w2 = "w\<lparr>w_calls := Suc (Suc (w_calls w)), w_db := ?d\<rparr>"
  have m: "users_mark_email_verified 50 ?w1 = (Inr (), ?w2)"
    using q assms(1,2) by (simp add: users_mark_email_verified_def execute_run calmD set_user_def)
      (simp add: new_user_row_def)
  let ?u = "anna_user\<lparr>usr_email_verified_at := Some 0\<rparr>" and ?w3 = "?w2\<lparr>w_calls := Suc (Suc (Suc (w_calls w)))\<rparr>"
  have u: "user_of_row ?row = Inr ?u"
    using anna_row by (auto simp: user_of_row_def new_user_row_def anna_user_def split: sum.splits)
  have f2: "users_find_by_id 50 ?w2 = (Inr (Some ?u), ?w3)"
    using q u by (simp add: users_find_by_id_def bind_def query_run opt_user_def of_res_def)
      (simp add: new_user_row_def of_res_def)
  have c3: "calm ?w3" using assms(1) by simp
  have ex: "user_exists ?d 50" by (simp add: user_exists_def new_user_row_def)
  obtain s w4 row where s: "issue_session toy_lib toy_service 50 toy_ctx 0 ?w3 = (Inr s, w4)"
    and w4: "after_run ?w3 w4 1 1 (?d\<lparr>sessions := [row]\<rparr>)"
    using issue_session_run [OF c3, of 50] assms ex by auto
  let ?e = "[(lit ''session_id'', JUuid (is_session_id s)), (lit ''via'', JText (lit ''login_code''))]"
  obtain i w5 ar where a: "audit_record (user_event toy_lib toy_service ''auth.login_succeeded'' toy_ctx 50 ?e) w4 =
      (Inr i, w5)" "after_run w4 w5 1 0 ((?d\<lparr>sessions := [row]\<rparr>)\<lparr>audit_log := [ar]\<rparr>)"
    using audit_record_calm [of w4 50 "''auth.login_succeeded''" toy_lib ?e]
      after_runD [OF w4] ex assms(4) by (auto simp: user_exists_def btrim_def trim_by_def lit_def)
  have "verify_code_tx toy_lib toy_service 50 toy_ctx 0 w = (Inr \<lparr>lo_user = ?u, lo_session = s\<rparr>, w5)"
    using f m f2 s a(1) by (simp add: verify_code_tx_def bind_def seq_def ret_def can_authenticate_def)
      (simp add: anna_user_def bind_def seq_def ret_def)
  with after_runD(1) [OF a(2)] show ?thesis by blast
qed

lemma toy_verify_login_code:
  "\<exists>out dev w'. verify_login_code toy_lib toy_service no_others 3 (lit ''123456'') toy_ctx (calm_world code_db 0) =
     (Inr (out, dev), w')"
proof -
  let ?w = "calm_world code_db 0" and ?h = "code_hash toy_lib (sv_pepper toy_service) 3 (lit ''123456'')"
  obtain rows where e: "enforce toy_lib (sv_pepper toy_service) login_code_verify_per_challenge
      (uuid_to_string toy_lib 3) 0 ?w = (Inr (), ?w\<lparr>w_calls := 2, w_rates := rows\<rparr>)"
    using enforce_calm [of login_code_verify_per_challenge "sv_pepper toy_service" "uuid_to_string toy_lib 3" code_db]
    by (auto simp: policies_def)
  have tr: "trim (lit ''123456'') = lit ''123456''" by (simp add: lit_def trim_def trim_by_def is_whitespace_def)
  let ?d = "code_db\<lparr>auth_tokens := [spend_attempt 0 ?h 5 (new_token 0 3 50 LoginCode ?h 600)]\<rparr>"
  let ?w2 = "?w\<lparr>w_rates := rows, w_calls := 4, w_db := ?d\<rparr>"
  have v: "tokens_verify_code 3 LoginCode ?h 5 (?w\<lparr>w_rates := rows, w_calls := 3\<rparr>) = (Inr (Matched 50), ?w2)"
    by (simp add: tokens_verify_code_def sql_Inr_iff verify_code_stmt_def code_db_def guessable_def time_defs pg_int_ok_def)
      (simp add: new_token_def time_defs)
  have c: "calm (?w2\<lparr>w_calls := Suc (w_calls ?w2)\<rparr>)" and q: "quiet ?w2"
    using calm_world_calm(1) [of code_db] by (simp_all add: calm_def)
  obtain out w' where t: "verify_code_tx toy_lib toy_service 50 toy_ctx 0 (?w2\<lparr>w_calls := Suc (w_calls ?w2)\<rparr>) = (Inr out, w')"
    "calm w'" using toy_verify_code_tx [OF c] by (auto simp: code_db_def)
  have tx: "transaction (verify_code_tx toy_lib toy_service 50 toy_ctx 0) ?w2 = (Inr out, w'\<lparr>w_calls := Suc (w_calls w')\<rparr>)"
    by (rule transaction_run) (rule q t(1) calmD(1) [OF t(2)])+
  have "\<exists>dev. verify_login_code toy_lib toy_service no_others 3 (lit ''123456'') toy_ctx ?w =
      (Inr (out, dev), w'\<lparr>w_calls := Suc (w_calls w')\<rparr>)"
    using e v tx by (simp add: verify_login_code_def bind_def seq_def utc_now_def after_no_others acquire_def
        round_trip_def tr max_code_attempts_def ret_def)
  then show ?thesis by blast
qed


subsection \<open>Session tokens\<close>

text \<open>
  C30. Resolving a session token: it succeeds only for a token whose digest is that of a session that is
  neither revoked nor expired at that moment, and only while the owner is active; the session's owner, id
  and CSRF token are what the caller gets, so a later state-changing request of that session
  passes the CSRF check with it. Every refusal is the same \<open>Unauthenticated\<close>.
\<close>

theorem authentication_is_sound:
  "case authenticate L sv env token w of
     (Inr a, w') \<Rightarrow>
       (\<exists>s v r. s \<in> set (sessions (w_db (env 0 w))) \<and> s_token_hash s = digest_token L token \<and>
          live_session (w_clock (env 0 w)) s \<and> au_session_id a = s_id s \<and>
          r \<in> set (users (w_db (env 1 v))) \<and> u_id r = s_user_id s \<and> u_status r = lit ''active'' \<and>
          usr_id (au_user a) = s_user_id s) \<and>
       verify_csrf L sv (au_session_id a) (Some (au_csrf_token a)) None = Inr ()
   | (Inl e, w') \<Rightarrow> e = Unauthenticated \<or> (\<exists>c. e = Internal c)"
proof -
  let ?E = "\<lambda>e. e = Unauthenticated \<or> (\<exists>c. e = Internal c)"
  have E: "allows_internal ?E" by (simp add: allows_internal_def)
  have err: "throws ?E (authenticate L sv env token)"
    unfolding authenticate_def by (intro throws_intros; simp add: E)
  show ?thesis
  proof (cases "authenticate L sv env token w")
    case (Pair res w')
    show ?thesis
    proof (cases res)
      case (Inl e)
      with Pair throwsD [OF err, of w e w'] show ?thesis by simp
    next
      case (Inr a)
      with Pair obtain s w1 w2 u w3 where s: "acquire (env 0 w) = (Inr (), w1)"
        "sessions_find_live (digest_token L token) w1 = (Inr (Some s), w2)"
        "users_find_by_id (s_user_id s) (env 1 w2) = (Inr (Some u), w3)" "can_authenticate (usr_status u)"
        and a: "au_session_id a = s_id s" "au_user a = u" "au_csrf_token a = token_for_session L (sv_pepper sv) (s_id s)"
        by (auto simp: authenticate_def run_cases split: if_splits)
      note s2 = sessions_find_live_SomeD [OF s(2)] and u = users_find_by_id_SomeD [OF s(3)]
      from u s(4) obtain r where "r \<in> set (users (w_db (env 1 w2)))" "u_id r = s_user_id s" "u_status r = lit ''active''"
        by (auto simp: active_iff)
      with s2 u acquire_world [OF s(1)] a show ?thesis
        by (auto simp: Pair Inr verify_csrf_def csrf_verify_def intro!: exI [of _ s] exI [of _ w2])
    qed
  qed
qed

end
