(* ===== verification/Auth_Invariant.thy ===== *)
theory Auth_Invariant
  imports Auth_Progress
begin

text \<open>
  Every account operation keeps the invariant \<open>db_ok\<close> of the tables, on every path, whatever statement
  fails and whatever other requests (that keep it themselves) do in between.
\<close>

definition env_keeps :: "(db \<Rightarrow> bool) \<Rightarrow> env \<Rightarrow> bool" where
  "env_keeps P env \<longleftrightarrow> (\<forall>k w. P (w_db w) \<longrightarrow> P (w_db (env k w)))"

lemma keeps_after_others: "env_keeps P env \<Longrightarrow> keeps P f \<Longrightarrow> keeps P (after_others env k f)"
  unfolding after_others_def by (intro keeps_seq keeps_interfere) (auto simp: env_keeps_def)

lemma keeps_transaction_early [keeps_intros]: "keeps P f \<Longrightarrow> keeps P (transaction_early f)"
proof (rule keepsI)
  fix w r w'
  assume f: "keeps P f" and P: "P (w_db w)" and run: "transaction_early f w = (r, w')"
  have rt: "keeps P (bind round_trip (\<lambda>_. f))" using f by (intro keeps_intros)
  show "P (w_db w')"
    using run P by (auto simp: transaction_early_def rollback_to_def split: prod.splits sum.splits
        dest: keepsD [OF rt] dest!: round_trip_world)
qed

lemma keeps_case_precheck [keeps_intros]:
  "keeps P a \<Longrightarrow> (\<And>u. keeps P (b u)) \<Longrightarrow> (\<And>u. keeps P (c u)) \<Longrightarrow> (\<And>u. keeps P (d u)) \<Longrightarrow>
   (\<And>u h. keeps P (e u h)) \<Longrightarrow>
   keeps P (case v of NoAccount \<Rightarrow> a | Inactive u \<Rightarrow> b u | NoPassword u \<Rightarrow> c u | Locked u \<Rightarrow> d u | Proceed u h \<Rightarrow> e u h)"
  by (cases v) auto

lemma keeps_case_outcome [keeps_intros]:
  "(\<And>u. keeps P (a u)) \<Longrightarrow> keeps P b \<Longrightarrow> keeps P c \<Longrightarrow>
   keeps P (case v of Matched u \<Rightarrow> a u | Wrong \<Rightarrow> b | Gone \<Rightarrow> c)"
  by (cases v) auto

lemma keeps_issue_session [keeps_intros]: "keeps (db_ok L) (issue_session L sv uid ctx now)"
  unfolding issue_session_def by (intro keeps_intros)

lemma keeps_issue_challenge [keeps_intros]: "keeps (db_ok L) (issue_challenge L sv uid e)"
  unfolding issue_challenge_def by (intro keeps_intros)

lemma keeps_revalidate [keeps_intros]: "keeps P (revalidate uid h t)"
  unfolding revalidate_def by (intro keeps_intros)

lemma keeps_failed_login [keeps_intros]:
  "keeps (db_ok L) (record_failed_login L sv u reason ctx)"
  "keeps (db_ok L) (audit_failed_login L sv u reason ctx)"
  unfolding audit_failed_login_def record_failed_login_def by (intro keeps_intros)+

lemma keeps_login_tx [keeps_intros]: "keeps (db_ok L) (login_tx L sv uid h rem ctx now)"
  unfolding login_tx_def by (intro keeps_intros)

lemma keeps_change_tx [keeps_intros]: "keeps (db_ok L) (change_tx L sv uid sid h h' ctx now)"
  unfolding change_tx_def by (intro keeps_intros)

lemma keeps_reset_tx [keeps_intros]: "keeps (db_ok L) (reset_tx L sv dg uid h ctx)"
  unfolding reset_tx_def by (intro keeps_intros)

lemma keeps_register_tx [keeps_intros]: "keeps (db_ok L) (register_tx L sv e n h k ctx)"
  unfolding register_tx_def by (intro keeps_intros)

lemma keeps_confirm_email_tx [keeps_intros]: "keeps (db_ok L) (confirm_email_tx L sv uid cid code e ctx)"
  unfolding confirm_email_tx_def by (intro keeps_intros)

lemma keeps_verify_code_tx [keeps_intros]: "keeps (db_ok L) (verify_code_tx L sv uid ctx now)"
  unfolding verify_code_tx_def by (intro keeps_intros)

lemma keeps_first_arrival [keeps_intros]: "keeps (db_ok L) (first_arrival L p i t ce cn)"
  unfolding first_arrival_def by (intro keeps_intros)

lemma keeps_returning_arrival [keeps_intros]: "keeps (db_ok L) (returning_arrival l)"
  unfolding returning_arrival_def by (intro keeps_intros)

lemma keeps_sign_in_tx [keeps_intros]: "keeps (db_ok L) (sign_in_tx L sv p i t ce cn ctx now)"
  unfolding sign_in_tx_def by (intro keeps_intros)

lemma keeps_link_tx [keeps_intros]: "keeps (db_ok L) (link_tx L sv uid p i ctx)"
  unfolding link_tx_def by (intro keeps_intros)

lemma keeps_firebase_identity [keeps_intros]: "keeps P (firebase_identity L sv t p)"
  unfolding firebase_identity_def by (intro keeps_intros)

lemma ops_keep:
  assumes env: "env_keeps (db_ok L) env"
  shows
  "keeps (db_ok L) (register L sv env e n p k ctx)"
  "keeps (db_ok L) (request_email_verification L sv env uid ne ctx)"
  "keeps (db_ok L) (confirm_email L sv env uid cid code e ctx)"
  "keeps (db_ok L) (login L sv env e p dev ctx)"
  "keeps (db_ok L) (verify_login_code L sv env cid code ctx)"
  "keeps (db_ok L) (resend_login_code L sv env cid ctx)"
  "keeps (db_ok L) (request_password_reset L sv env e ctx)"
  "keeps (db_ok L) (confirm_password_reset L sv env tok p ctx)"
  "keeps (db_ok L) (change_password L sv env uid sid p p' ctx)"
  "keeps (db_ok L) (authenticate L sv env tok)"
  "keeps (db_ok L) (sign_in_with_provider L sv env pr tok t ce cn ctx)"
  "keeps (db_ok L) (link_provider L sv env uid pr tok ctx)"
  unfolding register_def request_email_verification_def confirm_email_def login_def login_precheck_def
    bad_password_def login_verified_def upgrade_hash_if_needed_def verify_login_code_def
    resend_login_code_def request_password_reset_def confirm_password_reset_def change_password_def
    authenticate_def sign_in_with_provider_def link_provider_def
  by (intro keeps_intros keeps_after_others [OF env])+

lemma keeps_logout [keeps_intros]:
  "keeps (db_ok L) (logout L sv sid uid ctx)" "keeps (db_ok L) (logout_all L sv uid ctx)"
  unfolding logout_def logout_all_def by (intro keeps_intros)+

subsection \<open>Reachable worlds\<close>

text \<open>One request to the account service, with its arguments.\<close>

datatype request =
    Register ustr ustr ustr account_type request_context
  | RequestEmailVerification uuid "ustr option" request_context
  | ConfirmEmail uuid uuid ustr ustr request_context
  | Login ustr ustr "ustr option" request_context
  | VerifyLoginCode uuid ustr request_context
  | ResendLoginCode uuid request_context
  | RequestPasswordReset ustr request_context
  | ConfirmPasswordReset ustr ustr request_context
  | ChangePassword uuid uuid ustr ustr request_context
  | Authenticate ustr
  | LogoutOne uuid uuid request_context
  | LogoutEverywhere uuid request_context
  | SignIn provider ustr "account_type option" "ustr option" "ustr option" request_context
  | LinkProvider uuid provider ustr request_context
  | GrantRole uuid role "uuid option"
  | RevokeRole uuid role

fun run_request :: "lib \<Rightarrow> service \<Rightarrow> env \<Rightarrow> request \<Rightarrow> world \<Rightarrow> world" where
  "run_request L sv env (Register e n p k ctx) w = snd (register L sv env e n p k ctx w)"
| "run_request L sv env (RequestEmailVerification u e ctx) w = snd (request_email_verification L sv env u e ctx w)"
| "run_request L sv env (ConfirmEmail u c code e ctx) w = snd (confirm_email L sv env u c code e ctx w)"
| "run_request L sv env (Login e p dev ctx) w = snd (login L sv env e p dev ctx w)"
| "run_request L sv env (VerifyLoginCode c code ctx) w = snd (verify_login_code L sv env c code ctx w)"
| "run_request L sv env (ResendLoginCode c ctx) w = snd (resend_login_code L sv env c ctx w)"
| "run_request L sv env (RequestPasswordReset e ctx) w = snd (request_password_reset L sv env e ctx w)"
| "run_request L sv env (ConfirmPasswordReset t p ctx) w = snd (confirm_password_reset L sv env t p ctx w)"
| "run_request L sv env (ChangePassword u s p p' ctx) w = snd (change_password L sv env u s p p' ctx w)"
| "run_request L sv env (Authenticate t) w = snd (authenticate L sv env t w)"
| "run_request L sv env (LogoutOne s u ctx) w = snd (logout L sv s u ctx w)"
| "run_request L sv env (LogoutEverywhere u ctx) w = snd (logout_all L sv u ctx w)"
| "run_request L sv env (SignIn pr t k ce cn ctx) w = snd (sign_in_with_provider L sv env pr t k ce cn ctx w)"
| "run_request L sv env (LinkProvider u pr t ctx) w = snd (link_provider L sv env u pr t ctx w)"
| "run_request L sv env (GrantRole u r g) w = snd (users_grant_role u r g w)"
| "run_request L sv env (RevokeRole u r) w = snd (users_revoke_role u r w)"

lemma run_request_keeps:
  assumes "env_keeps (db_ok L) env" and "db_ok L (w_db w)"
  shows "db_ok L (w_db (run_request L sv env r w))"
proof -
  note op = ops_keep [OF assms(1)] keeps_logout keeps_users_grant_role keeps_users_revoke_role
  have snd: "keeps (db_ok L) f \<Longrightarrow> db_ok L (w_db (snd (f w)))" for f :: "'x m"
    using assms(2) by (simp add: keeps_def)
  show ?thesis by (cases r) (simp_all add: op [THEN snd])
qed

text \<open>
  The worlds that requests lead to. A request may be interrupted at each of its points by any run of
  other requests, and between requests the clock, the faults, the random numbers and the rate-limit
  counters are free to change.
\<close>

inductive reaches :: "lib \<Rightarrow> service \<Rightarrow> world \<Rightarrow> world \<Rightarrow> bool" for L sv where
  here: "reaches L sv w w"
| elsewhere: "reaches L sv w w1 \<Longrightarrow> w_db w2 = w_db w1 \<Longrightarrow> reaches L sv w w2"
| request: "reaches L sv w w1 \<Longrightarrow> (\<And>k v. reaches L sv v (env k v)) \<Longrightarrow>
    reaches L sv w (run_request L sv env r w1)"

lemma reaches_keeps: "reaches L sv w w' \<Longrightarrow> db_ok L (w_db w) \<Longrightarrow> db_ok L (w_db w')"
proof (induction rule: reaches.induct)
  case (request w w1 env r)
  then have "env_keeps (db_ok L) env" by (auto simp: env_keeps_def)
  with request show ?case by (intro run_request_keeps) auto
qed auto



end
