(* ===== verification/Auth_Account_Properties.thy ===== *)
theory Auth_Account_Properties
  imports Auth_Session_Properties Auth_Invariant
begin

text \<open>
  Registering, resetting and changing a password, ending sessions: what each of these operations
  commits, and that a failed one commits nothing.
\<close>

subsection \<open>Steps\<close>

lemma live_sessions_cong: "sessions d' = sessions d \<Longrightarrow> live_sessions t uid d' = live_sessions t uid d"
  by (simp add: live_sessions_def)

lemma revoke_all_InrD:
  assumes "sessions_revoke_all_for_user uid reason ex w = (Inr n, w')"
  shows "w_db w' = revoke_where (w_clock w) reason (of_user_except uid ex) (w_db w) \<and> w_clock w' = w_clock w"
  using assms by (auto simp: sessions_revoke_all_for_user_def sql_Inr_iff)

lemma revoke_InrD:
  assumes "sessions_revoke i reason w = (Inr b, w')"
  shows "w_db w' = revoke_where (w_clock w) reason (\<lambda>r. s_id r = i) (w_db w) \<and> w_clock w' = w_clock w"
  using assms by (auto simp: sessions_revoke_def sql_Inr_iff)

lemma revoke_where_frame [simp]:
  "users (revoke_where t r p d) = users d" "credentials (revoke_where t r p d) = credentials d"
  "auth_tokens (revoke_where t r p d) = auth_tokens d" "find_credential i (revoke_where t r p d) = find_credential i d"
  by (simp_all add: revoke_where_def)

lemma live_after_revoke_all: "live_sessions t uid (revoke_where now reason (of_user_except uid None) d) = []"
  by (simp only: live_revoke_where) (auto simp: live_sessions_def filter_empty_conv of_user_except_def)

lemma set_hash_InrD:
  assumes "passwords_set_hash uid h w = (Inr x, w')"
  shows "w_clock w' = w_clock w \<and> sessions (w_db w') = sessions (w_db w) \<and> auth_tokens (w_db w') = auth_tokens (w_db w) \<and>
    users (w_db w') = users (w_db w) \<and>
    (\<exists>c. find_credential uid (w_db w') = Some c \<and> c_password_hash c = h \<and> c_failed_attempts c = 0 \<and> c_locked_until c = None)"
proof (cases "find_credential uid (w_db w)")
  case None
  with assms have "w' = w\<lparr>w_calls := Suc (w_calls w), w_db := (w_db w)\<lparr>credentials := credentials (w_db w) @ [new_credential (w_clock w) uid h]\<rparr>\<rparr>"
    by (auto simp: passwords_set_hash_def sql_Inr_iff insert_credential_def Let_def split: if_splits)
  with None show ?thesis
    by (auto simp: find_credential_def find_append new_credential_def split: option.splits)
next
  case (Some c)
  with assms have "w' = w\<lparr>w_calls := Suc (w_calls w), w_db := set_credential uid (\<lambda>c. c\<lparr>c_password_hash := h, c_failed_attempts := 0,
              c_locked_until := None\<rparr>) (w_db w)\<rparr>"
    by (auto simp: passwords_set_hash_def sql_Inr_iff split: if_splits)
  with Some show ?thesis by (simp add: find_set_credential)
qed

lemma consume_link_InrD:
  assumes "tokens_consume_link h p w = (Inr (Some uid), w')"
  shows "\<exists>t \<in> set (auth_tokens (w_db w)). usable_link (w_clock w) h p t \<and> t_user_id t = uid \<and>
    t\<lparr>t_consumed_at := Some (w_clock w)\<rparr> \<in> set (auth_tokens (w_db w'))"
    and "w_clock w' = w_clock w" and "w_db w' = (w_db w)\<lparr>auth_tokens := auth_tokens (w_db w')\<rparr>"
proof -
  obtain t where t: "find (usable_link (w_clock w) h p) (auth_tokens (w_db w)) = Some t" "t_user_id t = uid"
    and w': "w' = w\<lparr>w_calls := Suc (w_calls w), w_db := (w_db w)\<lparr>auth_tokens :=
      map (\<lambda>x. if usable_link (w_clock w) h p x then x\<lparr>t_consumed_at := Some (w_clock w)\<rparr> else x) (auth_tokens (w_db w))\<rparr>\<rparr>"
    using assms by (auto simp: tokens_consume_link_def sql_Inr_iff consume_link_stmt_def)
  have "t \<in> set (auth_tokens (w_db w))" "usable_link (w_clock w) h p t" using t(1) by (auto simp: find_Some_iff)
  with t(2) show "\<exists>t \<in> set (auth_tokens (w_db w)). usable_link (w_clock w) h p t \<and> t_user_id t = uid \<and>
    t\<lparr>t_consumed_at := Some (w_clock w)\<rparr> \<in> set (auth_tokens (w_db w'))"
    by (intro bexI [of _ t]) (auto simp: w' image_iff intro!: bexI [of _ t])
  show "w_clock w' = w_clock w" "w_db w' = (w_db w)\<lparr>auth_tokens := auth_tokens (w_db w')\<rparr>"
    by (simp_all add: w')
qed

subsection \<open>Resetting a password\<close>

text \<open>What a completed reset commits: the spent link, the new hash with the lockout cleared, no live session, a
  verified address.\<close>

definition reset_effect :: "uuid \<Rightarrow> ustr \<Rightarrow> bytes \<Rightarrow> time \<Rightarrow> db \<Rightarrow> db \<Rightarrow> bool" where
  "reset_effect uid h digest now d d' \<longleftrightarrow>
     (\<exists>t \<in> set (auth_tokens d). usable_link now digest PasswordReset t \<and>
        t\<lparr>t_consumed_at := Some now\<rparr> \<in> set (auth_tokens d')) \<and>
     (\<exists>c. find_credential uid d' = Some c \<and> c_password_hash c = h \<and> c_failed_attempts c = 0 \<and> c_locked_until c = None) \<and>
     (\<forall>t. live_sessions t uid d' = []) \<and>
     (\<forall>r \<in> set (users d'). u_id r = uid \<longrightarrow> u_email_verified_at r \<noteq> None)"

lemma reset_tx_InrD:
  assumes "reset_tx L sv digest uid h ctx w = (Inr x, w')"
  shows "reset_effect uid h digest (w_clock w) (w_db w) (w_db w')"
proof -
  obtain owner w1 y w2 n w3 z w4 i where c: "tokens_consume_link digest PasswordReset w = (Inr (Some owner), w1)"
    and p: "passwords_set_hash uid h w1 = (Inr y, w2)"
    and s: "sessions_revoke_all_for_user uid PasswordChange None w2 = (Inr n, w3)"
    and m: "users_mark_email_verified uid w3 = (Inr z, w4)"
    and a: "audit_record (user_event L sv ''auth.password_reset_completed'' ctx uid
               [(lit ''sessions_revoked'', JInt (int n))]) w4 = (Inr i, w')"
    using assms by (auto simp: reset_tx_def run_cases split: if_splits)
  note c' = consume_link_InrD [OF c] and p' = set_hash_InrD [OF p] and s' = revoke_all_InrD [OF s]
    and m' = mark_verified_InrD [OF m] and a' = audit_record_InrD [OF a]
  have tk: "auth_tokens (w_db w') = auth_tokens (w_db w1)" using a' m' s' p' by simp
  have ss: "sessions (w_db w') = sessions (revoke_where (w_clock w2) PasswordChange (of_user_except uid None) (w_db w2))"
    using a' m' s' by simp
  have cr: "find_credential uid (w_db w') = find_credential uid (w_db w2)"
    using a' m' s' by (simp add: find_credential_def)
  show ?thesis
    unfolding reset_effect_def using c'(1) tk p' cr live_sessions_cong [OF ss] live_after_revoke_all m'(1) a' by auto
qed

lemma peek_link_SomeD:
  assumes "tokens_peek_link h p w = (Inr (Some uid), w')"
  shows "\<exists>t \<in> set (auth_tokens (w_db w)). usable_link (w_clock w) h p t \<and> t_user_id t = uid"
proof -
  obtain t where "find (usable_link (w_clock w) h p) (auth_tokens (w_db w)) = Some t" "t_user_id t = uid"
    using assms by (auto simp: tokens_peek_link_def query_Inr_iff dest!: sym [of "Some uid"])
  then show ?thesis by (intro bexI [of _ t]) (auto simp: find_Some_iff)
qed

lemma transaction_same_db: "(\<And>x w'. transaction f w \<noteq> (Inr x, w')) \<Longrightarrow> w_db (snd (transaction f w)) = w_db w"
  by (metis prod.collapse sum.exhaust transaction_Inl_db)

lemma hasher_hash_world: "hasher_hash L pw w = (r, w') \<Longrightarrow> w' = w\<lparr>w_draws := Suc (w_draws w)\<rparr>"
  by (auto simp: hasher_hash_def hash_blocking_def split: sum.splits)

lemma hasher_hash_InrD: "hasher_hash L pw w = (Inr h, w') \<Longrightarrow> \<exists>n. argon2_hash L (as_bytes pw) n = Inr h"
  by (auto simp: hasher_hash_def hash_blocking_def split: sum.splits)

text \<open>A step that reads only, and an operation whose errors leave the tables alone.\<close>

definition readonly :: "'a m \<Rightarrow> bool" where
  "readonly f \<longleftrightarrow> (\<forall>w. w_db (snd (f w)) = w_db w)"

definition all_or_nothing :: "'a m \<Rightarrow> bool" where
  "all_or_nothing f \<longleftrightarrow> (\<forall>w e w'. f w = (Inl e, w') \<longrightarrow> w_db w' = w_db w)"

lemma readonlyI: "(\<And>w r w'. f w = (r, w') \<Longrightarrow> w_db w' = w_db w) \<Longrightarrow> readonly f"
  unfolding readonly_def by (metis prod.collapse)

lemma readonly_steps [simp, intro]:
  "readonly (ret x)" "readonly (throw e)" "readonly utc_now" "readonly acquire" "readonly (of_res r)"
  "readonly (query q)" "readonly (enforce L pep p s now)" "readonly (users_find_by_id i)"
  "readonly (users_find_by_email L a)" "readonly (hasher_hash L pw)" "readonly (hasher_verify L pw h)"
  "readonly (tokens_peek_link dg kind)" "readonly (passwords_find i)" "readonly (firebase_identity L sv tok pr)"
  subgoal by (simp add: readonly_def ret_def)
  subgoal by (simp add: readonly_def throw_def)
  subgoal by (simp add: readonly_def utc_now_def)
  subgoal by (simp add: readonly_def)
  subgoal by (simp add: readonly_def of_res_def)
  subgoal by (auto intro!: readonlyI dest: keepsD [OF keeps_query, where P = "\<lambda>d. d = w_db w" for w])
  subgoal by (simp add: readonly_def)
  subgoal by (auto intro!: readonlyI dest!: users_find_by_id_world)
  subgoal by (simp add: readonly_def)
  subgoal by (auto intro!: readonlyI dest!: hasher_hash_world)
  subgoal by (simp add: readonly_def hasher_verify_def of_res_def)
  subgoal by (auto intro!: readonlyI dest: keepsD [OF keeps_tokens_reads(2), where P = "\<lambda>d. d = w_db w" for w])
  subgoal by (auto intro!: readonlyI dest: keepsD [OF keeps_passwords_find(1), where P = "\<lambda>d. d = w_db w" for w])
  subgoal by (auto intro!: readonlyI dest: keepsD [OF keeps_firebase_identity, where P = "\<lambda>d. d = w_db w" for w])
  done

lemma aon_readonly: "readonly f \<Longrightarrow> all_or_nothing f"
  unfolding readonly_def all_or_nothing_def by (metis snd_conv)

lemma aon_transaction: "all_or_nothing (transaction f)"
  by (simp add: all_or_nothing_def transaction_Inl_db)

lemma aon_bind:
  assumes "readonly f" and "\<And>x. all_or_nothing (g x)"
  shows "all_or_nothing (bind f g)"
  unfolding all_or_nothing_def
proof (intro allI impI)
  fix w e w'
  assume "bind f g w = (Inl e, w')"
  then consider "f w = (Inl e, w')" | x v where "f w = (Inr x, v)" "g x v = (Inl e, w')" by (auto simp: bind_Inl_iff)
  then show "w_db w' = w_db w"
    using assms unfolding readonly_def all_or_nothing_def by cases (metis snd_conv)+
qed

lemma aon_seq: "readonly f \<Longrightarrow> all_or_nothing g \<Longrightarrow> all_or_nothing (seq f g)"
  by (simp add: seq_def aon_bind)

lemma aon_cases:
  "all_or_nothing f \<Longrightarrow> (\<And>x. all_or_nothing (g x)) \<Longrightarrow> all_or_nothing (case v of None \<Rightarrow> f | Some x \<Rightarrow> g x)"
  "all_or_nothing f \<Longrightarrow> all_or_nothing h \<Longrightarrow> all_or_nothing (if b then f else h)"
  "(\<And>x. all_or_nothing (g x)) \<Longrightarrow> all_or_nothing (let x = v' in g x)"
  by (auto split: option.splits)

lemmas aon_intros = aon_bind aon_seq aon_cases aon_transaction aon_readonly

lemma operations_all_or_nothing:
  "all_or_nothing (register L sv no_others e n pw k ctx)"
  "all_or_nothing (confirm_password_reset L sv no_others tok pw ctx)"
  "all_or_nothing (sign_in_with_provider L sv no_others pr tok t ce cn ctx)"
  "all_or_nothing (link_provider L sv no_others uid pr tok ctx)"
  unfolding register_def confirm_password_reset_def sign_in_with_provider_def link_provider_def no_others_alone
  by (intro aon_intros readonly_steps; simp add: readonly_def throw_def)+


definition reset_db :: db where
  "reset_db = anna_db\<lparr>auth_tokens := [new_token 0 3 50 PasswordReset (digest_token toy_lib (lit ''link'')) 3600],
     sessions := [new_session 0 7 50 (replicate 32 0) (hours 1) (days 1) None None]\<rparr>"

lemma toy_reset_tx:
  assumes "calm w" and "w_db w = reset_db" and "w_next_id w = 0"
  shows "\<exists>w'. reset_tx toy_lib toy_service (digest_token toy_lib (lit ''link'')) 50 annas_hash toy_ctx w = (Inr (), w') \<and> calm w'"
proof -
  let ?dg = "digest_token toy_lib (lit ''link'')"
  have q: "quiet w" and ck: "w_clock w = 0" using assms(1) by (auto simp: calmD)
  obtain d1 where c: "tokens_consume_link ?dg PasswordReset w = (Inr (Some 50), w\<lparr>w_calls := Suc (w_calls w), w_db := d1\<rparr>)"
    and d1: "users d1 = users anna_db" "credentials d1 = credentials anna_db" "audit_log d1 = []"
    using q ck assms(2) by (fastforce simp: tokens_consume_link_def sql_Inr_iff quiet_def consume_link_stmt_def reset_db_def
        usable_link_def new_token_def time_defs)
  let ?w1 = "w\<lparr>w_calls := Suc (w_calls w), w_db := d1\<rparr>"
  have ex: "find_credential 50 d1 \<noteq> None" using d1(2) by (simp add: find_credential_def new_credential_def)
  obtain d2 where p: "passwords_set_hash 50 annas_hash ?w1 = (Inr (), ?w1\<lparr>w_calls := Suc (Suc (w_calls w)), w_db := d2\<rparr>)"
    and d2: "users d2 = users anna_db" "audit_log d2 = []"
    using q ck ex d1 annas_hash_argon by (auto simp: passwords_set_hash_def sql_Inr_iff quiet_def)
  let ?w2 = "?w1\<lparr>w_calls := Suc (Suc (w_calls w)), w_db := d2\<rparr>"
  obtain n d3 where r: "sessions_revoke_all_for_user 50 PasswordChange None ?w2 =
      (Inr n, ?w2\<lparr>w_calls := Suc (Suc (Suc (w_calls w))), w_db := d3\<rparr>)" and d3: "users d3 = users anna_db" "audit_log d3 = []"
    using q d2 by (auto simp: sessions_revoke_all_for_user_def sql_Inr_iff quiet_def revoke_where_def)
  let ?w3 = "?w2\<lparr>w_calls := Suc (Suc (Suc (w_calls w))), w_db := d3\<rparr>"
  obtain d4 where m: "users_mark_email_verified 50 ?w3 =
      (Inr (), ?w3\<lparr>w_calls := Suc (Suc (Suc (Suc (w_calls w)))), w_db := d4\<rparr>)" and d4: "user_exists d4 50" "audit_log d4 = []"
    using q d3 by (auto simp: users_mark_email_verified_def execute_Inr_iff quiet_def set_user_def user_exists_def)
      (simp_all add: new_user_row_def)
  let ?w4 = "?w3\<lparr>w_calls := Suc (Suc (Suc (Suc (w_calls w)))), w_db := d4\<rparr>"
  obtain i w5 row where a: "audit_record (user_event toy_lib toy_service ''auth.password_reset_completed'' toy_ctx 50
      [(lit ''sessions_revoked'', JInt (int n))]) ?w4 = (Inr i, w5)" "after_run ?w4 w5 1 0 (d4\<lparr>audit_log := [row]\<rparr>)"
    using audit_record_calm [of ?w4 50 "''auth.password_reset_completed''" toy_lib "[(lit ''sessions_revoked'', JInt (int n))]"]
      assms(1) d4 by (auto simp: btrim_def trim_by_def lit_def)
  have "reset_tx toy_lib toy_service ?dg 50 annas_hash toy_ctx w = (Inr (), w5)"
    using c p r m a(1) by (simp add: reset_tx_def bind_def seq_def ret_def)
  with after_runD(1) [OF a(2)] show ?thesis by blast
qed

lemma toy_reset:
  "\<exists>w'. confirm_password_reset toy_lib toy_service no_others (lit ''link'') annas_password toy_ctx
     (calm_world reset_db 0) = (Inr (), w')"
proof -
  let ?w = "calm_world reset_db 0" and ?dg = "digest_token toy_lib (lit ''link'')"
  have tr: "trim (lit ''link'') = lit ''link''" by (simp add: lit_def trim_def trim_by_def is_whitespace_def)
  have q: "quiet (?w\<lparr>w_calls := n\<rparr>)" "quiet (?w\<lparr>w_calls := n, w_draws := k\<rparr>)" for n k
    using calm_world_calm(1) [of reset_db] by (simp_all add: calmD)
  have p: "tokens_peek_link ?dg PasswordReset (?w\<lparr>w_calls := 1\<rparr>) = (Inr (Some 50), ?w\<lparr>w_calls := 2\<rparr>)"
    unfolding tokens_peek_link_def query_run [OF q(1) [where n = 1]]
    by (simp add: reset_db_def usable_link_def new_token_def time_defs)
  have f: "users_find_by_id 50 (?w\<lparr>w_calls := 2\<rparr>) = (Inr (Some anna_user), ?w\<lparr>w_calls := 3\<rparr>)"
    using anna_found(1) [OF q(1) [where n = 2]] by (simp add: reset_db_def)
  have h: "hasher_hash toy_lib annas_password (?w\<lparr>w_calls := 3\<rparr>) = (Inr annas_hash, ?w\<lparr>w_calls := 3, w_draws := 1\<rparr>)"
    by (simp add: hasher_hash_def hash_blocking_def annas_hash_def)
  let ?w3 = "?w\<lparr>w_calls := 3, w_draws := 1\<rparr>"
  have c: "calm (?w3\<lparr>w_calls := Suc (w_calls ?w3)\<rparr>)" using calm_world_calm(1) [of reset_db] by (simp add: calm_def)
  obtain w' where t: "reset_tx toy_lib toy_service ?dg 50 annas_hash toy_ctx (?w3\<lparr>w_calls := Suc (w_calls ?w3)\<rparr>) = (Inr (), w')"
    "calm w'" using toy_reset_tx [OF c] by auto
  have tx: "transaction (reset_tx toy_lib toy_service ?dg 50 annas_hash toy_ctx) ?w3 = (Inr (), w'\<lparr>w_calls := Suc (w_calls w')\<rparr>)"
    by (rule transaction_run) (rule q(2) t(1) calmD(1) [OF t(2)])+
  have "confirm_password_reset toy_lib toy_service no_others (lit ''link'') annas_password toy_ctx ?w =
      (Inr (), w'\<lparr>w_calls := Suc (w_calls w')\<rparr>)"
    using p f h tx anna_policy by (simp add: confirm_password_reset_def bind_def seq_def no_others_alone acquire_def
        round_trip_def tr Let_def can_authenticate_def of_res_def)
      (simp add: anna_user_def bind_def seq_def of_res_def)
  then show ?thesis by blast
qed


subsection \<open>Changing a password\<close>

lemma live_after_rotation:
  "live_sessions t uid (revoke_where t1 r1 (\<lambda>r. s_id r = sid) (revoke_where t0 r0 (of_user_except uid (Some sid)) d)) = []"
  by (simp only: live_revoke_where) (auto simp: live_sessions_def filter_empty_conv of_user_except_def)

lemma replace_hash_InrD:
  assumes "passwords_replace_hash uid h h' w = (Inr True, w')"
  shows "w_clock w' = w_clock w \<and> sessions (w_db w') = sessions (w_db w) \<and> users (w_db w') = users (w_db w) \<and>
    current_hash uid (w_db w) = Some h \<and> current_hash uid (w_db w') = Some h'"
proof -
  obtain d where d: "replace_hash_stmt uid h h' (w_clock w) (w_db w) = Inr (True, d)"
    and w': "w' = w\<lparr>w_calls := Suc (w_calls w), w_db := d\<rparr>"
    using assms by (auto simp: passwords_replace_hash_def sql_Inr_iff)
  then have "sessions d = sessions (w_db w)" "users d = users (w_db w)"
    by (auto simp: replace_hash_stmt_def split: if_splits)
  with replace_hash_stmt_current [OF d] w' show ?thesis by simp
qed

lemma change_tx_InrD:
  assumes "change_tx L sv uid sid h h' ctx now w = (Inr s, w')"
  shows "(\<exists>c r. find_credential uid (w_db w) = Some c \<and> c_password_hash c = h \<and> \<not> is_locked_at c (w_clock w) \<and>
       r \<in> set (users (w_db w)) \<and> u_id r = uid \<and> u_status r = lit ''active'') \<and>
    current_hash uid (w_db w') = Some h' \<and>
    (\<exists>row. s_user_id row = uid \<and> s_id row = is_session_id s \<and> s_token_hash row = digest_token L (is_token s) \<and>
       (\<forall>t. live_sessions t uid (w_db w') = filter (live_session t) [row]))"
proof -
  obtain u w1 w2 n w3 b w4 w5 i where
    rv: "revalidate uid h (w_clock w) w = (Inr u, w1)"
    and p: "passwords_replace_hash uid h h' w1 = (Inr True, w2)"
    and r: "sessions_revoke_all_for_user uid PasswordChange (Some sid) w2 = (Inr n, w3)"
    and rr: "sessions_revoke sid Rotation w3 = (Inr b, w4)"
    and s: "issue_session L sv uid ctx now w4 = (Inr s, w5)"
    and a: "audit_record (user_event L sv ''auth.password_changed'' ctx uid
                [(lit ''other_sessions_revoked'', JInt (int n)),
                 (lit ''rotated_from'', JUuid sid),
                 (lit ''rotated_to'', JUuid (is_session_id s))]) w5 = (Inr i, w')"
    using assms by (auto simp: change_tx_def run_cases map_err_Inr_iff split: if_splits)
  note rv' = revalidate_InrD [OF rv] and p' = replace_hash_InrD [OF p] and r' = revoke_all_InrD [OF r]
    and rr' = revoke_InrD [OF rr] and a' = audit_record_InrD [OF a]
  obtain row where row: "sessions (w_db w5) = sessions (w_db w4) @ [row]" "w_db w5 = (w_db w4)\<lparr>sessions := sessions (w_db w5)\<rparr>"
    "s_id row = is_session_id s" "s_user_id row = uid" "s_token_hash row = digest_token L (is_token s)"
    using issue_session_InrD [OF s] by blast
  have "live_sessions t uid (w_db w') = live_sessions t uid (w_db w4) @ filter (live_session t) [row]" for t
    using a' row(1,4) by (simp add: live_sessions_def)
  then have live: "live_sessions t uid (w_db w') = filter (live_session t) [row]" for t
    using rr' r' live_after_rotation by simp
  have "credentials (w_db w5) = credentials (w_db w4)" using arg_cong [OF row(2), of credentials] by simp
  then have "current_hash uid (w_db w') = current_hash uid (w_db w2)"
    using a' rr' r' by (simp add: current_hash_def find_credential_def)
  with p' rv' live row(3-5) show ?thesis by auto
qed

lemma stale_hash_fails:
  assumes "current_hash uid (w_db w) = Some h'" and "h \<noteq> h'"
  shows "fst (login_tx L sv uid h rem ctx now w) \<noteq> Inr x" and "fst (change_tx L sv uid sid h k ctx now w) \<noteq> Inr y"
proof -
  have no: "\<not> (find_credential uid (w_db w) = Some c \<and> c_password_hash c = h)" for c
    using assms by (auto simp: current_hash_def)
  show "fst (login_tx L sv uid h rem ctx now w) \<noteq> Inr x"
    using no login_tx_InrD [of L sv uid h rem ctx now w x] by (metis prod.collapse)
  show "fst (change_tx L sv uid sid h k ctx now w) \<noteq> Inr y"
    using no change_tx_InrD [of L sv uid sid h k ctx now w y] by (metis prod.collapse)
qed

text \<open>
  A changed password ends everything the old one allowed: a change commits only while the account is active
  and unlocked and its hash is still the one the current password was verified against, so of two
  racing changes one fails; afterwards the stored hash is the new password's, the only session of
  the account that can be live is the one returned, and no sign-in or change that
  verified the old password before can commit any more.
\<close>

theorem password_change_is_exclusive:
  "case change_password L sv env uid sid current new ctx w of
     (Inl e, w') \<Rightarrow> True
   | (Inr s, w') \<Rightarrow>
       \<exists>h h' v c row. transaction (change_tx L sv uid sid h h' ctx (w_clock w)) v = (Inr s, w') \<and>
         verify_blocking L current h = Inr True \<and> (\<exists>n. argon2_hash L (as_bytes new) n = Inr h') \<and> current \<noteq> new \<and>
         find_credential uid (w_db v) = Some c \<and> c_password_hash c = h \<and> \<not> is_locked_at c (w_clock v) \<and>
         (\<exists>r \<in> set (users (w_db v)). u_id r = uid \<and> u_status r = lit ''active'') \<and>
         current_hash uid (w_db w') = Some h' \<and>
         s_user_id row = uid \<and> s_token_hash row = digest_token L (is_token s) \<and>
         (\<forall>t. live_sessions t uid (w_db w') = filter (live_session t) [row]) \<and>
         (h = h' \<or> (\<nexists>x later rem ctx' now. fst (login_tx L sv uid h rem ctx' now (later\<lparr>w_db := w_db w'\<rparr>)) = Inr x) \<and>
           (\<nexists>x later sid' k ctx' now. fst (change_tx L sv uid sid' h k ctx' now (later\<lparr>w_db := w_db w'\<rparr>)) = Inr x))"
proof (cases "change_password L sv env uid sid current new ctx w")
  case (Pair res w')
  show ?thesis
  proof (cases res)
    case (Inr s)
    with Pair obtain h h' v v0 v0' where ver: "verify_blocking L current h = Inr True"
      and hh: "hasher_hash L new v0 = (Inr h', v0')" and ne: "current \<noteq> new"
      and tx: "transaction (change_tx L sv uid sid h h' ctx (w_clock w)) v = (Inr s, w')"
      by (auto simp: change_password_def run_cases hasher_verify_def Let_def split: if_splits)
    note h' = hasher_hash_InrD [OF hh]
    obtain v1 where body: "change_tx L sv uid sid h h' ctx (w_clock w) (v\<lparr>w_calls := Suc (w_calls v)\<rparr>) = (Inr s, v1)"
      and w': "w' = v1\<lparr>w_calls := Suc (w_calls v1)\<rparr>" using tx by (rule transaction_Inr)
    note eff = change_tx_InrD [OF body]
    have cur: "current_hash uid (w_db w') = Some h'" using eff w' by simp
    have dead: "fst (login_tx L sv uid h rem ctx' now (later\<lparr>w_db := w_db w'\<rparr>)) \<noteq> Inr x"
      "fst (change_tx L sv uid sid' h k ctx' now (later\<lparr>w_db := w_db w'\<rparr>)) \<noteq> Inr y" if "h \<noteq> h'" for rem ctx' now later x sid' k y
      using stale_hash_fails [of uid "later\<lparr>w_db := w_db w'\<rparr>" h' h] that cur by simp_all
    from eff w' obtain c row where
      "find_credential uid (w_db v) = Some c" "c_password_hash c = h" "\<not> is_locked_at c (w_clock v)"
      "\<exists>r \<in> set (users (w_db v)). u_id r = uid \<and> u_status r = lit ''active''"
      "s_user_id row = uid" "s_token_hash row = digest_token L (is_token s)"
      "\<forall>t. live_sessions t uid (w_db w') = filter (live_session t) [row]" by auto
    with tx ver h' ne cur dead show ?thesis
      unfolding Pair Inr prod.case sum.case
      by (intro exI [of _ h] exI [of _ h'] exI [of _ v] exI [of _ c] exI [of _ row]) blast
  qed (simp add: Pair)
qed

end
