(* ===== verification/Auth_Registration_Properties.thy ===== *)
theory Auth_Registration_Properties
  imports Auth_Account_Properties
begin

text \<open>
  New accounts and addresses: registration, federated sign-in and linking, and the proof of an
  address.
\<close>

subsection \<open>Registration\<close>

lemma users_insert_InrD:
  assumes "users_insert L i e n k w = (Inr u, w')"
  shows "w' = w\<lparr>w_calls := Suc (w_calls w), w_db := (w_db w)\<lparr>users := users (w_db w) @ [new_user_row (w_clock w) i e n k]\<rparr>\<rparr> \<and>
    usr_id u = i \<and> usr_email u = e \<and> user_of_row (new_user_row (w_clock w) i e n k) = Inr u \<and>
    \<not> user_exists (w_db w) i \<and> \<not> email_taken L e (users (w_db w)) \<and> users_check L (new_user_row (w_clock w) i e n k)"
  using assms user_of_row_id [of "new_user_row (w_clock w) i e n k" u]
  by (auto simp: users_insert_def bind_Inr_iff sql_Inr_iff Let_def new_user_row_def split: if_splits)

lemma passwords_insert_InrD:
  assumes "passwords_insert i h w = (Inr x, w')"
  shows "w_db w' = (w_db w)\<lparr>credentials := credentials (w_db w) @ [new_credential (w_clock w) i h]\<rparr> \<and> w_clock w' = w_clock w"
  using assms by (auto simp: passwords_insert_def sql_Inr_iff insert_credential_def Let_def split: if_splits)

text \<open>The rows a registration adds, and no others: the account, its credential, one open code in a queued message, one
  audit entry, and no session.\<close>

definition register_effect ::
  "lib \<Rightarrow> service \<Rightarrow> challenge \<Rightarrow> ustr \<Rightarrow> account_type \<Rightarrow> ustr \<Rightarrow> time \<Rightarrow> db \<Rightarrow> db \<Rightarrow> bool" where
  "register_effect L sv ch display_name k h now d d' \<longleftrightarrow>
     \<not> email_taken L (Some (ch_email ch)) (users d) \<and> sessions d' = sessions d \<and>
     (\<exists>uid code m a. \<not> user_exists d uid \<and>
        users d' = users d @ [new_user_row now uid (Some (ch_email ch)) display_name k] \<and>
        credentials d' = credentials d @ [new_credential now uid h] \<and>
        filter (open_token uid LoginCode) (auth_tokens d') =
          [new_token now (ch_challenge_id ch) uid LoginCode (code_hash L (sv_pepper sv) (ch_challenge_id ch) code) 600] \<and>
        email_outbox d' = email_outbox d @ [m] \<and> m_user_id m = uid \<and> m_recipient m = ch_email ch \<and>
        m_body_text m = rd_text (mail_login_code code) \<and>
        audit_log d' = audit_log d @ [a] \<and> a_subject_id a = Some uid)"

lemma register_tx_InrD:
  assumes "register_tx L sv email display_name h k ctx w = (Inr ch, w')"
  shows "register_effect L sv ch display_name k h (w_clock w) (w_db w) (w_db w') \<and> ch_email ch = email"
proof -
  let ?i = "w_ids w (w_next_id w)" and ?w0 = "w\<lparr>w_next_id := Suc (w_next_id w)\<rparr>"
  obtain u w1 x w2 w3 j where
    u: "users_insert L ?i (Some email) display_name k ?w0 = (Inr u, w1)"
    and p: "passwords_insert (usr_id u) h w1 = (Inr x, w2)"
    and c: "issue_challenge L sv (usr_id u) email w2 = (Inr ch, w3)"
    and a: "audit_record (user_event L sv ''auth.registered'' ctx (usr_id u)
            [(lit ''challenge_id'', JUuid (ch_challenge_id ch))]) w3 = (Inr j, w')"
    using assms by (auto simp: register_tx_def run_iffs)
  note u' = users_insert_InrD [OF u] and p' = passwords_insert_InrD [OF p] and a' = audit_record_InrD [OF a]
  from u' have i: "usr_id u = ?i" by simp
  obtain code m where ch: "w_db w3 = (w_db w2)\<lparr>auth_tokens := auth_tokens (w_db w3), email_outbox := email_outbox (w_db w2) @ [m]\<rparr>"
    "auth_tokens (w_db w3) = auth_tokens (consume_open (w_clock w2) ?i LoginCode (w_db w2)) @
      [new_token (w_clock w2) (ch_challenge_id ch) ?i LoginCode (code_hash L (sv_pepper sv) (ch_challenge_id ch) code) 600]"
    "m_user_id m = ?i" "m_recipient m = email" "m_body_text m = rd_text (mail_login_code code)" "ch_email ch = email"
    using issue_challenge_InrD [OF c [unfolded i]] by blast
  have fr: "sessions (w_db w3) = sessions (w_db w2)" "users (w_db w3) = users (w_db w2)"
    "credentials (w_db w3) = credentials (w_db w2)" "email_outbox (w_db w3) = email_outbox (w_db w2) @ [m]"
    "audit_log (w_db w3) = audit_log (w_db w2)"
    using arg_cong [OF ch(1), of sessions] arg_cong [OF ch(1), of users] arg_cong [OF ch(1), of credentials]
      arg_cong [OF ch(1), of email_outbox] arg_cong [OF ch(1), of audit_log] by simp_all
  have ck: "w_clock w2 = w_clock w" using u' p' by simp
  have op: "filter (open_token ?i LoginCode) (auth_tokens (w_db w')) =
      [new_token (w_clock w) (ch_challenge_id ch) ?i LoginCode (code_hash L (sv_pepper sv) (ch_challenge_id ch) code) 600]"
    using a' ck by (simp add: ch(2) filter_open_consumed open_token_def new_token_def)
  show ?thesis
    unfolding register_effect_def
    using u' p' a' fr ch(3-6) op
    by (intro conjI exI [of _ ?i] exI [of _ code] exI [of _ m]
        exI [of _ "audit_row_of (w_clock w3) j (user_event L sv ''auth.registered'' ctx ?i
            [(lit ''challenge_id'', JUuid (ch_challenge_id ch))])"])
      (simp_all add: i audit_row_of_def user_event_def ev_with_data_def ev_subject_def)
qed

text \<open>
  C25. Registration is complete or nothing: when it returns a challenge, one transaction has added exactly the
  account, its credential with a hash of the given password, one open code in a message queued to the
  given address and one audit entry, for an address no account had, and no session; when it
  fails, no table has changed.
\<close>

theorem registration_is_complete_or_nothing:
  "(register L sv env email display_name password k ctx w = (Inr ch, w') \<longrightarrow>
      (\<exists>h v. transaction (register_tx L sv (trim email) (trim display_name) h k ctx) v = (Inr ch, w') \<and>
         check_policy L password (trim email) = Inr () \<and> (\<exists>n. argon2_hash L (as_bytes password) n = Inr h) \<and>
         ch_email ch = trim email \<and>
         register_effect L sv ch (trim display_name) k h (w_clock v) (w_db v) (w_db w'))) \<and>
   (register L sv no_others email display_name password k ctx w = (Inl e, w') \<longrightarrow> w_db w' = w_db w)"
proof (intro conjI impI)
  assume "register L sv no_others email display_name password k ctx w = (Inl e, w')"
  with operations_all_or_nothing(1) [of L sv email display_name password k ctx] show "w_db w' = w_db w"
    by (simp add: all_or_nothing_def)
next
  assume "register L sv env email display_name password k ctx w = (Inr ch, w')"
  then obtain v0 h v0' v where pol: "check_policy L password (trim email) = Inr ()"
    and h: "hasher_hash L password v0 = (Inr h, v0')"
    and tx: "transaction (register_tx L sv (trim email) (trim display_name) h k ctx) v = (Inr ch, w')"
    by (auto simp: register_def run_cases Let_def split: if_splits)
  obtain v1 where body: "register_tx L sv (trim email) (trim display_name) h k ctx (v\<lparr>w_calls := Suc (w_calls v)\<rparr>) = (Inr ch, v1)"
    and w': "w' = v1\<lparr>w_calls := Suc (w_calls v1)\<rparr>" using tx by (rule transaction_Inr)
  from register_tx_InrD [OF body] w' tx pol hasher_hash_InrD [OF h]
  show "\<exists>h v. transaction (register_tx L sv (trim email) (trim display_name) h k ctx) v = (Inr ch, w') \<and>
         check_policy L password (trim email) = Inr () \<and> (\<exists>n. argon2_hash L (as_bytes password) n = Inr h) \<and>
         ch_email ch = trim email \<and>
         register_effect L sv ch (trim display_name) k h (w_clock v) (w_db v) (w_db w')"
    by (intro exI [of _ h] exI [of _ v]) simp
qed

theorem registration_is_complete_or_nothing_witness:
  "\<exists>ch w' h (v :: world). register toy_lib toy_service no_others anna (lit ''Anna'') annas_password Homeowner toy_ctx
      (calm_world empty_db 0) = (Inr ch, w') \<and>
     register_effect toy_lib toy_service ch (trim (lit ''Anna'')) Homeowner h (w_clock v) (w_db v) (w_db w')"
proof -
  obtain ch w' where "register toy_lib toy_service no_others anna (lit ''Anna'') annas_password Homeowner toy_ctx
      (calm_world empty_db 0) = (Inr ch, w')" using toy_register by blast
  with registration_is_complete_or_nothing [where L = toy_lib and sv = toy_service and env = no_others and
      email = anna and display_name = "lit ''Anna''" and password = annas_password and k = Homeowner and
      ctx = toy_ctx and w = "calm_world empty_db 0" and w' = w' and ch = ch]
  show ?thesis by blast
qed

subsection \<open>Federated sign-in\<close>

text \<open>A session was added for an account.\<close>

definition session_added :: "lib \<Rightarrow> uuid \<Rightarrow> issued_session \<Rightarrow> db \<Rightarrow> db \<Rightarrow> bool" where
  "session_added L uid s d d' \<longleftrightarrow>
     (\<exists>row. sessions d' = sessions d @ [row] \<and> s_user_id row = uid \<and> s_token_hash row = digest_token L (is_token s))"

lemma returning_arrival_InrD:
  assumes "returning_arrival link w = (Inr u, w')"
  shows "usr_id u = oi_user_id link \<and> sessions (w_db w') = sessions (w_db w) \<and> users (w_db w') = users (w_db w) \<and>
    (\<exists>r \<in> set (users (w_db w)). u_id r = oi_user_id link \<and> u_status r = lit ''active'' \<and> user_of_row r = Inr u)"
proof -
  obtain w1 where f: "users_find_by_id (oi_user_id link) w = (Inr (Some u), w1)" "can_authenticate (usr_status u)"
    and t: "oauth_touch_login (oi_id link) w1 = (Inr (), w')"
    using assms by (auto simp: returning_arrival_def run_cases split: if_splits)
  from users_find_by_id_SomeD [OF f(1)] f(2) t show ?thesis
    by (auto simp: oauth_touch_login_def execute_Inr_iff active_iff)
qed

lemma first_arrival_InrD:
  assumes "first_arrival L p identity intended ce cn w = (Inr u, w')"
  shows "\<exists>k row i. intended = Some k \<and> \<not> user_exists (w_db w) (usr_id u) \<and>
    users (w_db w') = users (w_db w) @ [row] \<and> u_id row = usr_id u \<and> u_account_type row = account_type_str k \<and>
    \<not> email_taken L (map_option trim (arrival_email identity ce)) (users (w_db w)) \<and>
    oauth_identities (w_db w') = oauth_identities (w_db w) @ [new_identity (w_clock w) i (usr_id u) p (vi_provider_subject identity)
        (Some (vi_firebase_uid identity)) (vi_email identity) (vi_email_verified identity)] \<and>
    sessions (w_db w') = sessions (w_db w)"
proof -
  obtain k w1 j w2 where k: "intended = Some k"
    and u: "users_insert L (w_ids w (w_next_id w)) (map_option trim (arrival_email identity ce))
        (arrival_name p identity cn (arrival_email identity ce)) k (w\<lparr>w_next_id := Suc (w_next_id w)\<rparr>) = (Inr u, w1)"
    and oi: "oauth_insert j (usr_id u) p (vi_provider_subject identity) (Some (vi_firebase_uid identity))
                 (vi_email identity) (vi_email_verified identity) w2 = (Inr (), w')"
    and w2: "w_db w2 = w_db w1" "w_clock w2 = w_clock w1"
    using assms by (cases intended) (auto simp: first_arrival_def Let_def run_cases map_err_Inr_iff new_id_iff)
  note u' = users_insert_InrD [OF u] and oi' = oauth_insert_InrD [OF oi]
  show ?thesis
    using k u' oi' w2 by (auto simp: new_user_row_def)
qed

text \<open>
  Which account a federated sign-in may be for: the active owner of the identity with this provider and
  subject, or, when no identity has it, an account that did not exist, with an address no account had.
\<close>

definition resolves_to ::
  "lib \<Rightarrow> provider \<Rightarrow> verified_identity \<Rightarrow> account_type option \<Rightarrow> ustr option \<Rightarrow> db \<Rightarrow> uuid \<Rightarrow> bool" where
  "resolves_to L p identity intended client_email d uid \<longleftrightarrow>
     (\<exists>i \<in> set (oauth_identities d). o_provider i = p \<and> o_subject i = vi_provider_subject identity \<and> o_user_id i = uid \<and>
        (\<exists>r \<in> set (users d). u_id r = uid \<and> u_status r = lit ''active'')) \<or>
     (\<forall>i \<in> set (oauth_identities d). o_provider i \<noteq> p \<or> o_subject i \<noteq> vi_provider_subject identity) \<and>
     \<not> user_exists d uid \<and> intended \<noteq> None \<and>
     \<not> email_taken L (map_option trim (arrival_email identity client_email)) (users d)"

lemma sign_in_tx_InrD:
  assumes "sign_in_tx L sv p identity intended ce cn ctx now w = (Inr out, w')"
  shows "session_added L (usr_id (lo_user out)) (lo_session out) (w_db w) (w_db w') \<and>
    resolves_to L p identity intended ce (w_db w) (usr_id (lo_user out))"
proof -
  obtain existing w1 u action w2 w3 s w4 i where
    ex: "oauth_find_by_subject p (vi_provider_subject identity) w = (Inr existing, w1)"
    and arr: "(case existing of
             Some link \<Rightarrow> bind (returning_arrival link) (\<lambda>u. ret (u, ''auth.federated_login_succeeded''))
           | None \<Rightarrow>
               bind (first_arrival L p identity intended ce cn)
                 (\<lambda>u. ret (u, ''auth.federated_registered''))) w1 = (Inr (u, action), w2)"
    and m: "(if claims_own_address identity u then users_mark_email_verified (usr_id u) else ret ()) w2 = (Inr (), w3)"
    and s: "issue_session L sv (usr_id u) ctx now w3 = (Inr s, w4)"
    and a: "audit_record (user_event L sv action ctx (usr_id u)
             [(lit ''session_id'', JUuid (is_session_id s)),
              (lit ''provider'', JText (provider_str p))]) w4 = (Inr i, w')"
    and out: "out = \<lparr>lo_user = u, lo_session = s\<rparr>"
    using assms by (auto simp: sign_in_tx_def bind_Inr_iff seq_Inr_iff)
  have s3: "sessions (w_db w3) = sessions (w_db w2)"
    using m mark_verified_InrD(3) by (auto split: if_splits)
  have s2: "sessions (w_db w2) = sessions (w_db w1)"
    using arr by (auto simp: bind_Inr_iff split: option.splits dest!: returning_arrival_InrD first_arrival_InrD)
  have w1: "w_db w1 = w_db w" using ex by (auto simp: oauth_find_by_subject_def query_Inr_iff)
  have "session_added L (usr_id (lo_user out)) (lo_session out) (w_db w) (w_db w')"
    using issue_session_InrD [OF s] audit_record_InrD [OF a] s3 s2 w1 by (auto simp: session_added_def out)
  moreover have "resolves_to L p identity intended ce (w_db w) (usr_id (lo_user out))"
  proof (cases existing)
    case None
    with arr ex w1 oauth_find_by_subject_NoneD [of p _ w w1] show ?thesis
      by (fastforce simp: bind_Inr_iff out resolves_to_def dest!: first_arrival_InrD)
  next
    case (Some link)
    with arr ex w1 oauth_find_by_subject_SomeD [of p _ w link w1] show ?thesis
      by (fastforce simp: bind_Inr_iff out resolves_to_def identity_of_row_def dest!: returning_arrival_InrD)
  qed
  ultimately show ?thesis ..
qed

lemma firebase_identity_InrD:
  assumes "firebase_identity L sv tok p w = (Inr identity, w')"
  shows "\<exists>fb. sv_firebase sv = Some fb \<and>
    fst (firebase_verify L (fs_jwt fb) (fs_fetcher fb) (fs_verifier fb) tok p (w_clock w) (fs_state fb)) = Inr identity"
  using assms by (auto simp: firebase_identity_def bind_Inr_iff split: option.splits)

text \<open>
  C31. A federated sign-in resolves by subject and by nothing else: a session comes only from a token that
  the verifier accepted for the asked provider, and it is for the active owner of that provider's subject, or, when
  nobody has that subject, for an account created by this very transaction whose address no account
  had; an existing account is never entered on the strength of an address, and without a chosen account type no
  account is created. A failed sign-in changes nothing.
\<close>

theorem federated_sign_in_resolves_by_subject:
  "(case sign_in_with_provider L sv env p token intended client_email client_name ctx w of
      (Inl e, w') \<Rightarrow> True
    | (Inr out, w') \<Rightarrow>
        \<exists>fb t identity v. sv_firebase sv = Some fb \<and>
          fst (firebase_verify L (fs_jwt fb) (fs_fetcher fb) (fs_verifier fb) token p t (fs_state fb)) = Inr identity \<and>
          transaction (sign_in_tx L sv p identity intended client_email client_name ctx (w_clock w)) v = (Inr out, w') \<and>
          resolves_to L p identity intended client_email (w_db v) (usr_id (lo_user out)) \<and>
          session_added L (usr_id (lo_user out)) (lo_session out) (w_db v) (w_db w')) \<and>
   (case sign_in_with_provider L sv no_others p token intended client_email client_name ctx w of
      (Inl e, w') \<Rightarrow> w_db w' = w_db w | (Inr out, w') \<Rightarrow> True)"
proof (rule conjI)
  show "case sign_in_with_provider L sv no_others p token intended client_email client_name ctx w of
      (Inl e, w') \<Rightarrow> w_db w' = w_db w | (Inr out, w') \<Rightarrow> True"
    using operations_all_or_nothing(3) [of L sv p token intended client_email client_name ctx]
    by (auto simp: all_or_nothing_def split: prod.split sum.split)
  have "\<exists>fb t identity v. sv_firebase sv = Some fb \<and>
          fst (firebase_verify L (fs_jwt fb) (fs_fetcher fb) (fs_verifier fb) token p t (fs_state fb)) = Inr identity \<and>
          transaction (sign_in_tx L sv p identity intended client_email client_name ctx (w_clock w)) v = (Inr out, w') \<and>
          resolves_to L p identity intended client_email (w_db v) (usr_id (lo_user out)) \<and>
          session_added L (usr_id (lo_user out)) (lo_session out) (w_db v) (w_db w')"
    if run: "sign_in_with_provider L sv env p token intended client_email client_name ctx w = (Inr out, w')" for out w'
  proof -
    obtain w1 identity w2 v where f: "firebase_identity L sv token p w1 = (Inr identity, w2)"
      and tx: "transaction (sign_in_tx L sv p identity intended client_email client_name ctx (w_clock w)) v = (Inr out, w')"
      using run by (auto simp: sign_in_with_provider_def bind_Inr_iff seq_Inr_iff after_others_iff)
    obtain v1 where body: "sign_in_tx L sv p identity intended client_email client_name ctx (w_clock w)
        (v\<lparr>w_calls := Suc (w_calls v)\<rparr>) = (Inr out, v1)"
      and w': "w' = v1\<lparr>w_calls := Suc (w_calls v1)\<rparr>" using tx by (rule transaction_Inr)
    from sign_in_tx_InrD [OF body] w' tx firebase_identity_InrD [OF f] show ?thesis by auto
  qed
  then show "case sign_in_with_provider L sv env p token intended client_email client_name ctx w of
      (Inl e, w') \<Rightarrow> True
    | (Inr out, w') \<Rightarrow>
        \<exists>fb t identity v. sv_firebase sv = Some fb \<and>
          fst (firebase_verify L (fs_jwt fb) (fs_fetcher fb) (fs_verifier fb) token p t (fs_state fb)) = Inr identity \<and>
          transaction (sign_in_tx L sv p identity intended client_email client_name ctx (w_clock w)) v = (Inr out, w') \<and>
          resolves_to L p identity intended client_email (w_db v) (usr_id (lo_user out)) \<and>
          session_added L (usr_id (lo_user out)) (lo_session out) (w_db v) (w_db w')"
    by (simp split: prod.split sum.split)
qed

subsection \<open>Addresses\<close>

lemma confirm_email_conflict:
  assumes "confirm_email L sv no_others uid cid code email ctx w = (Inl (Conflict m), w')"
  shows "w_db w' = w_db w"
proof -
  let ?tx = "transaction (confirm_email_tx L sv uid cid code (trim email) ctx)"
  obtain w1 where e: "enforce L (sv_pepper sv) login_code_verify_per_challenge (uuid_to_string L cid) (w_clock w) w = (Inr (), w1)"
    and t: "?tx w1 = (Inl (Conflict m), w')"
  proof -
    have "throws busy_or_broken (enforce L (sv_pepper sv) login_code_verify_per_challenge (uuid_to_string L cid) (w_clock w))"
      by (rule throws_enforce)
    then have "enforce L (sv_pepper sv) login_code_verify_per_challenge (uuid_to_string L cid) (w_clock w) w \<noteq> (Inl (Conflict m), w')"
      by (auto dest!: throwsD simp: busy_or_broken_def)
    with assms that show thesis
      by (auto simp: confirm_email_def no_others_alone run_iffs split: option.splits)
  qed
  from transaction_Inl_db [OF t] enforce_db [OF e] show ?thesis by simp
qed

text \<open>
  Confirming an address that meanwhile belongs to another account spends nothing: the conflict is answered
  by rolling back the transaction in which the code was spent, so no table changes and the challenge stays
  open with its attempts uncounted, although the comment on \<open>confirm_email\<close> says the challenge is spent.
\<close>

theorem address_conflict_leaves_the_challenge_open:
  assumes "confirm_email L sv no_others uid cid code email ctx w = (Inl (Conflict m), w')"
  shows "w_db w' = w_db w \<and> find (guessable (w_clock w) cid EmailVerify) (auth_tokens (w_db w')) =
    find (guessable (w_clock w) cid EmailVerify) (auth_tokens (w_db w))"
  using confirm_email_conflict [OF assms] by simp

definition bob :: ustr where "bob = lit ''bob@b.c''"

definition two_accounts :: db where
  "two_accounts = anna_db\<lparr>users := users anna_db @ [new_user_row 0 51 (Some bob) (lit ''Bob'') Homeowner],
     auth_tokens := [new_token 0 3 50 EmailVerify
       (email_verify_hash toy_lib (sv_pepper toy_service) 3 (lit ''123456'') bob) 600]\<rparr>"

lemma bob_conflicts:
  assumes "quiet w" and "users (w_db w) = users two_accounts" and "w_clock w = 0"
  shows "\<exists>m w'. users_update_email toy_lib 50 bob w = (Inl (Conflict m), w')"
proof -
  have chk: "users_check toy_lib ((new_user_row 0 50 (Some anna) (lit ''Anna'') Homeowner)\<lparr>u_email := Some bob,
      u_email_verified_at := Some 0\<rparr>)"
    by (simp add: bob_def users_check_def new_user_row_def email_matches_check_def btrim_def trim_by_def lit_def)
  have "email_taken toy_lib (Some bob) (filter (\<lambda>x. u_id x \<noteq> 50) (users two_accounts))"
    by (simp add: two_accounts_def email_taken_def user_norms_def List.map_filter_def new_user_row_def)
  with chk assms show ?thesis
    by (simp add: users_update_email_def bind_def sql_def round_trip_def quiet_def two_accounts_def)
      (simp add: new_user_row_def)
qed

lemma toy_confirm_conflict:
  "\<exists>m w'. confirm_email toy_lib toy_service no_others 50 3 (lit ''123456'') bob toy_ctx (calm_world two_accounts 0) =
     (Inl (Conflict m), w')"
proof -
  let ?w = "calm_world two_accounts 0" and ?h = "email_verify_hash toy_lib (sv_pepper toy_service) 3 (lit ''123456'') bob"
  have tr: "trim (lit ''123456'') = lit ''123456''" "trim bob = bob"
    by (simp_all add: bob_def lit_def trim_def trim_by_def is_whitespace_def)
  obtain rows where e: "enforce toy_lib (sv_pepper toy_service) login_code_verify_per_challenge
      (uuid_to_string toy_lib 3) 0 ?w = (Inr (), ?w\<lparr>w_calls := 2, w_rates := rows\<rparr>)"
    using enforce_calm [of login_code_verify_per_challenge "sv_pepper toy_service" "uuid_to_string toy_lib 3" two_accounts]
    by (auto simp: policies_def)
  let ?w1 = "?w\<lparr>w_rates := rows, w_calls := 3\<rparr>"
  let ?d = "two_accounts\<lparr>auth_tokens := [spend_attempt 0 ?h 5 (new_token 0 3 50 EmailVerify ?h 600)]\<rparr>"
  let ?w2 = "?w\<lparr>w_rates := rows, w_calls := 4, w_db := ?d\<rparr>" and ?w3 = "?w\<lparr>w_rates := rows, w_db := ?d, w_calls := 5\<rparr>"
  have v: "tokens_verify_code 3 EmailVerify ?h 5 ?w1 = (Inr (Matched 50), ?w2)"
    by (simp add: tokens_verify_code_def sql_Inr_iff verify_code_stmt_def two_accounts_def guessable_def time_defs pg_int_ok_def)
      (simp add: new_token_def time_defs)
  have q: "quiet ?w2" "quiet ?w3" using calm_world_calm(1) [of two_accounts] by (simp_all add: calmD)
  have f: "users_find_by_id 50 ?w2 = (Inr (Some anna_user), ?w3)"
    using q(1) by (simp add: users_find_by_id_def bind_def query_run opt_user_def of_res_def anna_row two_accounts_def)
      (simp add: new_user_row_def of_res_def anna_row [unfolded new_user_row_def])
  have ne: "\<not> eq_ignore_ascii_case anna bob"
    by (simp add: eq_ignore_ascii_case_def anna_def bob_def to_ascii_lowercase_def ascii_lower_def lit_def)
  obtain m w4 where u: "users_update_email toy_lib 50 bob ?w3 = (Inl (Conflict m), w4)"
    using bob_conflicts [OF q(2)] by auto
  have "\<exists>w'. confirm_email toy_lib toy_service no_others 50 3 (lit ''123456'') bob toy_ctx ?w = (Inl (Conflict m), w')"
    using e v f u ne by (simp add: confirm_email_def no_others_alone utc_now_def bind_def seq_def tr transaction_def
        confirm_email_tx_def round_trip_def max_code_attempts_def)
      (simp add: anna_user_def bind_def rollback_to_def)
  then show ?thesis by blast
qed

theorem address_conflict_leaves_the_challenge_open_witness:
  "\<exists>m w'. confirm_email toy_lib toy_service no_others 50 3 (lit ''123456'') bob toy_ctx (calm_world two_accounts 0) =
     (Inl (Conflict m), w') \<and> w_db w' = two_accounts \<and>
     find (guessable 0 3 EmailVerify) (auth_tokens (w_db w')) \<noteq> None"
proof -
  obtain m w' where run: "confirm_email toy_lib toy_service no_others 50 3 (lit ''123456'') bob toy_ctx
     (calm_world two_accounts 0) = (Inl (Conflict m), w')" using toy_confirm_conflict by blast
  have "find (guessable 0 3 EmailVerify) (auth_tokens two_accounts) \<noteq> None"
    by (simp add: two_accounts_def guessable_def new_token_def time_defs)
  with address_conflict_leaves_the_challenge_open [OF run] run show ?thesis by auto
qed

lemma split_once_SomeD: "split_once c s = Some (a, b) \<Longrightarrow> s = a @ c # b \<and> c \<notin> set a"
  by (induction s arbitrary: a) (auto split: if_splits option.splits)

text \<open>
  The address check of the service is looser than the constraint it is said to match: everything the table
  accepts passes the check (when the two notions of white space agree on its characters), but
  \<open>a@b.\<close> passes the check and the table refuses it, so registering it is answered with an internal
  error instead of the validation message.
\<close>

theorem address_check_is_looser_than_the_constraint:
  "(email_matches_check L e \<and> utf8_len e \<le> 254 \<and> list_all (\<lambda>c. is_whitespace c \<longrightarrow> pg_space L c) e \<longrightarrow> looks_like_email e) \<and>
   looks_like_email (lit ''a@b.'') \<and> \<not> email_matches_check L (lit ''a@b.'') \<and>
   (\<exists>c. fst (users_insert L i (Some (lit ''a@b.'')) name k w) = Inl (Internal c))"
proof (intro conjI impI)
  assume h: "email_matches_check L e \<and> utf8_len e \<le> 254 \<and> list_all (\<lambda>c. is_whitespace c \<longrightarrow> pg_space L c) e"
  then obtain local domain where sp: "split_once 64 e = Some (local, domain)" and ok: "local \<noteq> []"
    "list_all (\<lambda>c. \<not> pg_space L c) local" "list_all (\<lambda>c. c \<noteq> 64 \<and> \<not> pg_space L c) domain" "46 \<in> set (butlast (tl domain))"
    and sz: "\<not> 254 < utf8_len e" by (auto simp: email_matches_check_def split: option.splits)
  have e: "e = local @ 64 # domain" using split_once_SomeD [OF sp] by simp
  have "46 \<in> set domain" using ok(4) by (cases domain) (auto dest!: in_set_butlastD)
  moreover have "\<not> is_whitespace 64" by (simp add: is_whitespace_def)
  ultimately show "looks_like_email e"
    using sp ok h sz by (auto simp: looks_like_email_def e list_ex_iff list_all_iff)
next
  show "looks_like_email (lit ''a@b.'')" 
    by (simp add: looks_like_email_def lit_def utf8_len_def as_bytes_def utf8_char_def is_whitespace_def)
  show no: "\<not> email_matches_check L (lit ''a@b.'')"
    by (simp add: email_matches_check_def lit_def)
  show "\<exists>c. fst (users_insert L i (Some (lit ''a@b.'')) name k w) = Inl (Internal c)"
    using no by (auto simp: users_insert_def bind_def sql_def round_trip_def Let_def users_check_def new_user_row_def
        split: option.splits)
qed

theorem address_check_is_looser_than_the_constraint_witness:
  "email_matches_check toy_lib anna \<and> looks_like_email anna"
proof -
  have "list_all (\<lambda>c. is_whitespace c \<longrightarrow> pg_space toy_lib c) anna" "utf8_len anna \<le> 254" "email_matches_check toy_lib anna"
    by (simp_all add: anna_def lit_def is_whitespace_def utf8_len_def as_bytes_def utf8_char_def email_matches_check_def)
  then show ?thesis using address_check_is_looser_than_the_constraint [of toy_lib anna] by blast
qed

end
