(* ===== verification/Repo_Geocode.thy ===== *)
theory Repo_Geocode
  imports Repo_Outbox
begin

text \<open>
  \<open>cm-db/src/repo/geocode.rs\<close>: the geocoding queue, the second interpretation of \<open>work_queue\<close>. A
  partial unique index allows one open job per contractor; \<open>geocode_ok\<close> is the invariant of the
  table and every statement keeps it.
\<close>

record geocode_job =
  gj_id :: uuid
  gj_contractor_id :: uuid
  gj_attempts :: int

definition open_job :: "geocode_row \<Rightarrow> bool" where
  "open_job r \<longleftrightarrow> g_status r = JQueued \<or> g_status r = JInProgress"

definition has_open_job :: "uuid \<Rightarrow> geocode_row list \<Rightarrow> bool" where
  "has_open_job cid rows \<longleftrightarrow> (\<exists>r \<in> set rows. g_contractor_id r = cid \<and> open_job r)"

definition new_job :: "time \<Rightarrow> uuid \<Rightarrow> uuid \<Rightarrow> bytes \<Rightarrow> geocode_row" where
  "new_job now i cid h =
     \<lparr>g_id = i, g_contractor_id = cid, g_address_hash = h, g_status = JQueued, g_attempts = 0,
      g_next_attempt_at = now, g_locked_at = None, g_locked_by = None, g_provider = None,
      g_provider_response = None, g_last_error = None, g_created_at = now, g_updated_at = now\<rparr>"

definition geocode_enqueue_stmt :: "uuid \<Rightarrow> uuid \<Rightarrow> bytes \<Rightarrow> time \<Rightarrow> db \<Rightarrow> (bool \<times> db) res" where
  "geocode_enqueue_stmt i cid h now d =
     (let row = new_job now i cid h in
      if \<not> geocode_check row then Inl (internal ''check constraint of geocode_queue'')
      else if i \<in> g_id ` set (geocode_queue d) \<or> has_open_job cid (geocode_queue d) then Inr (False, d)
      else if \<not> contractor_exists d cid then Inl (internal ''geocode_queue foreign key'')
      else Inr (True, d\<lparr>geocode_queue := geocode_queue d @ [row]\<rparr>))"

definition geocode_enqueue :: "uuid \<Rightarrow> bytes \<Rightarrow> bool m" where
  "geocode_enqueue cid h = bind new_id (\<lambda>i. sql (geocode_enqueue_stmt i cid h))"

definition job_due :: "time \<Rightarrow> geocode_row \<Rightarrow> bool" where
  "job_due now r \<longleftrightarrow> g_status r = JQueued \<and> g_next_attempt_at r \<le> now"

definition lock_job :: "time \<Rightarrow> ustr \<Rightarrow> geocode_row \<Rightarrow> geocode_row" where
  "lock_job now worker r =
     r\<lparr>g_status := JInProgress, g_locked_at := Some now, g_locked_by := Some worker,
       g_updated_at := now\<rparr>"

definition job_of_row :: "geocode_row \<Rightarrow> geocode_job" where
  "job_of_row r = \<lparr>gj_id = g_id r, gj_contractor_id = g_contractor_id r, gj_attempts = g_attempts r\<rparr>"

definition geocode_claim_stmt :: "ustr \<Rightarrow> nat \<Rightarrow> time \<Rightarrow> db \<Rightarrow> (geocode_job list \<times> db) res" where
  "geocode_claim_stmt worker limit now d =
     (let due = due_rows (job_due now) g_next_attempt_at limit (geocode_queue d) in
      if due \<noteq> [] \<and> 120 < length worker then
        Inl (internal ''check constraint of geocode_queue'')
      else Inr (map job_of_row due,
        d\<lparr>geocode_queue := update_ids g_id (map g_id due) (lock_job now worker) (geocode_queue d)\<rparr>))"

definition geocode_claim :: "ustr \<Rightarrow> nat \<Rightarrow> geocode_job list m" where
  "geocode_claim worker limit = sql (geocode_claim_stmt worker limit)"

definition find_job :: "db \<Rightarrow> uuid \<Rightarrow> geocode_row option" where
  "find_job d i = find (\<lambda>r. g_id r = i) (geocode_queue d)"

definition set_job :: "uuid \<Rightarrow> (geocode_row \<Rightarrow> geocode_row) \<Rightarrow> db \<Rightarrow> db" where
  "set_job i f d = d\<lparr>geocode_queue := update_ids g_id [i] f (geocode_queue d)\<rparr>"

definition succeeded_job :: "time \<Rightarrow> ustr \<Rightarrow> ustr option \<Rightarrow> geocode_row \<Rightarrow> geocode_row" where
  "succeeded_job now provider response r =
     r\<lparr>g_status := JSucceeded, g_provider := Some provider, g_provider_response := response,
       g_locked_at := None, g_locked_by := None, g_last_error := None, g_updated_at := now\<rparr>"

definition geocode_mark_succeeded :: "uuid \<Rightarrow> ustr \<Rightarrow> ustr option \<Rightarrow> unit m" where
  "geocode_mark_succeeded i provider response =
     sql (\<lambda>now d.
       if find_job d i \<noteq> None \<and> 60 < length provider then
         Inl (internal ''check constraint of geocode_queue'')
       else Inr ((), set_job i (succeeded_job now provider response) d))"

definition failed_job :: "time \<Rightarrow> ustr \<Rightarrow> int \<Rightarrow> int \<Rightarrow> geocode_row \<Rightarrow> geocode_row" where
  "failed_job now error backoff_secs max_attempts r =
     r\<lparr>g_attempts := g_attempts r + 1, g_last_error := Some error, g_locked_at := None,
       g_locked_by := None,
       g_status := (if max_attempts \<le> g_attempts r + 1 then JFailed else JQueued),
       g_next_attempt_at := now + secs backoff_secs, g_updated_at := now\<rparr>"

definition job_status_read :: "ustr \<Rightarrow> job_status" where
  "job_status_read status =
     (case find (\<lambda>c. job_status_str c = status)
             [JQueued, JInProgress, JSucceeded, JFailed, JSkipped] of
        None \<Rightarrow> JQueued
      | Some c \<Rightarrow> c)"

text \<open>Re-opening a job while another one of the contractor is open violates the index.\<close>

definition job_failed_stmt ::
  "uuid \<Rightarrow> ustr \<Rightarrow> int \<Rightarrow> int \<Rightarrow> time \<Rightarrow> db \<Rightarrow> (ustr \<times> db) res" where
  "job_failed_stmt i error backoff_secs max_attempts now d =
     (case find_job d i of
        None \<Rightarrow> Inl (internal ''no rows returned'')
      | Some r \<Rightarrow>
          let r' = failed_job now error backoff_secs max_attempts r in
          if \<not> pg_int_ok (g_attempts r + 1) then Inl (internal ''integer out of range'')
          else if open_job r' \<and>
              has_open_job (g_contractor_id r) (filter (\<lambda>x. g_id x \<noteq> i) (geocode_queue d)) then
            Inl (internal ''geocode_queue_one_open'')
          else Inr (job_status_str (g_status r'),
                    set_job i (failed_job now error backoff_secs max_attempts) d))"

definition geocode_mark_failed :: "uuid \<Rightarrow> ustr \<Rightarrow> int \<Rightarrow> int \<Rightarrow> job_status m" where
  "geocode_mark_failed i error backoff_secs max_attempts =
     bind (sql (job_failed_stmt i (take 2000 error) backoff_secs max_attempts))
       (\<lambda>status. ret (job_status_read status))"

definition skipped_job :: "time \<Rightarrow> ustr \<Rightarrow> geocode_row \<Rightarrow> geocode_row" where
  "skipped_job now reason r =
     r\<lparr>g_status := JSkipped, g_last_error := Some reason, g_locked_at := None, g_locked_by := None,
       g_updated_at := now\<rparr>"

definition geocode_mark_skipped :: "uuid \<Rightarrow> ustr \<Rightarrow> unit m" where
  "geocode_mark_skipped i reason =
     sql (\<lambda>now d.
       if find_job d i \<noteq> None \<and> 2000 < length reason then
         Inl (internal ''check constraint of geocode_queue'')
       else Inr ((), set_job i (skipped_job now reason) d))"

definition stalled_job :: "time \<Rightarrow> int \<Rightarrow> geocode_row \<Rightarrow> bool" where
  "stalled_job now stale_after_secs r \<longleftrightarrow>
     g_status r = JInProgress \<and>
     (case g_locked_at r of None \<Rightarrow> False | Some t \<Rightarrow> t < now - secs stale_after_secs)"

definition requeued_job :: "time \<Rightarrow> geocode_row \<Rightarrow> geocode_row" where
  "requeued_job now r =
     r\<lparr>g_status := JQueued, g_locked_at := None, g_locked_by := None, g_updated_at := now\<rparr>"

definition requeue_jobs :: "time \<Rightarrow> int \<Rightarrow> db \<Rightarrow> db" where
  "requeue_jobs now stale_after_secs d =
     d\<lparr>geocode_queue := map (\<lambda>r. if stalled_job now stale_after_secs r
         then requeued_job now r else r) (geocode_queue d)\<rparr>"

definition geocode_requeue_stalled :: "int \<Rightarrow> nat m" where
  "geocode_requeue_stalled stale_after_secs =
     sql (\<lambda>now d. Inr (length (filter (stalled_job now stale_after_secs) (geocode_queue d)),
                       requeue_jobs now stale_after_secs d))"

definition geocode_depth :: "(ustr \<times> nat) list m" where
  "geocode_depth = query (\<lambda>now d. count_by (map (\<lambda>r. job_status_str (g_status r)) (geocode_queue d)))"

definition geocode_status_of :: "uuid \<Rightarrow> (ustr \<times> int \<times> time) option m" where
  "geocode_status_of cid =
     query (\<lambda>now d. map_option (\<lambda>r. (job_status_str (g_status r), g_attempts r, g_next_attempt_at r))
       (case rev (sort_key g_created_at (filter (\<lambda>r. g_contractor_id r = cid) (geocode_queue d))) of
          [] \<Rightarrow> None
        | r # _ \<Rightarrow> Some r))"

lemma keeps_geocode [keeps_intros]:
  "keeps (db_ok L) (geocode_enqueue cid h)" "keeps (db_ok L) (geocode_claim worker n)"
  "keeps (db_ok L) (geocode_mark_succeeded i p resp)" "keeps (db_ok L) (geocode_mark_failed i err b k)"
  "keeps (db_ok L) (geocode_mark_skipped i reason)" "keeps (db_ok L) (geocode_requeue_stalled s)"
  by (auto simp: geocode_enqueue_def geocode_claim_def geocode_mark_succeeded_def geocode_mark_failed_def
      geocode_requeue_stalled_def geocode_mark_skipped_def geocode_enqueue_stmt_def
      geocode_claim_stmt_def job_failed_stmt_def set_job_def requeue_jobs_def Let_def
      intro!: keeps_intros keeps_sql split: if_splits option.splits)

subsection \<open>Claims are exclusive\<close>

definition job_ids_distinct :: "db \<Rightarrow> bool" where
  "job_ids_distinct d \<longleftrightarrow> distinct (map g_id (geocode_queue d))"

definition geocode_claim_step :: "time \<times> ustr \<times> nat \<Rightarrow> db \<Rightarrow> uuid list \<times> db" where
  "geocode_claim_step e d =
     (case e of (now, worker, limit) \<Rightarrow>
        (case geocode_claim_stmt worker limit now d of
           Inl err \<Rightarrow> ([], d)
         | Inr (js, d') \<Rightarrow> (map gj_id js, d')))"

lemma geocode_claim_step_iff:
  "geocode_claim_step (now, worker, n) d = (ids, d') \<longleftrightarrow>
     (let due = due_rows (job_due now) g_next_attempt_at n (geocode_queue d) in
      if due \<noteq> [] \<and> 120 < length worker then ids = [] \<and> d' = d
      else ids = map g_id due \<and>
        d' = d\<lparr>geocode_queue := update_ids g_id ids (lock_job now worker) (geocode_queue d)\<rparr>)"
  by (auto simp: geocode_claim_step_def geocode_claim_stmt_def Let_def job_of_row_def comp_def)

lemma lock_job_id [simp]: "g_id (lock_job now worker r) = g_id r"
  by (simp add: lock_job_def)

interpretation geocode_work: work_queue find_job job_due "\<lambda>r. g_status r = JInProgress"
  job_ids_distinct geocode_claim_step
proof unfold_locales
  fix s now worker n ids s' i
  assume inv: "job_ids_distinct s" and c: "geocode_claim_step (now, worker, n) s = (ids, s')"
  then have keys: "map g_id (geocode_queue s') = map g_id (geocode_queue s)"
    by (auto simp: geocode_claim_step_iff Let_def update_ids_keys split: if_splits)
  then show "job_ids_distinct s'" using inv by (simp add: job_ids_distinct_def)
  show "distinct ids \<and> length ids \<le> n"
    using c inv by (auto simp: geocode_claim_step_iff Let_def job_ids_distinct_def distinct_due_rows
        length_due_rows split: if_splits)
  have due: "\<exists>r. find_job s i = Some r \<and> job_due now r \<and>
      find_job s' i = Some (lock_job now worker r)" if i: "i \<in> set ids"
  proof -
    from c i obtain r where r: "r \<in> set (due_rows (job_due now) g_next_attempt_at n (geocode_queue s))"
        "g_id r = i" and s': "s' = s\<lparr>geocode_queue := update_ids g_id ids (lock_job now worker) (geocode_queue s)\<rparr>"
      by (auto simp: geocode_claim_step_iff Let_def split: if_splits)
    from due_rows_sound [OF r(1)] have m: "r \<in> set (geocode_queue s)" "job_due now r" by auto
    have "find_job s i = Some r"
      using find_unique [of g_id "geocode_queue s" r] inv m r(2)
      by (simp add: job_ids_distinct_def find_job_def)
    moreover from this have "find_job s' i = Some (lock_job now worker r)"
      using i by (simp add: s' find_job_def find_update_ids)
    ultimately show ?thesis using m(2) by blast
  qed
  show "i \<in> set ids \<Longrightarrow> \<exists>r. find_job s i = Some r \<and> job_due now r" using due by blast
  show "i \<in> set ids \<Longrightarrow> \<exists>r. find_job s' i = Some r \<and> g_status r = JInProgress"
    using due by (auto simp: lock_job_def)
  show "i \<notin> set ids \<Longrightarrow> find_job s' i = find_job s i"
    using c by (auto simp: geocode_claim_step_iff Let_def find_job_def find_update_ids option.map_ident
        split: if_splits)
qed (simp add: job_due_def)

subsection \<open>One open job per contractor\<close>

definition open_jobs :: "db \<Rightarrow> uuid list" where
  "open_jobs d = map g_contractor_id (filter open_job (geocode_queue d))"

definition geocode_ok :: "db \<Rightarrow> bool" where
  "geocode_ok d \<longleftrightarrow> job_ids_distinct d \<and> distinct (open_jobs d)"

inductive geocode_step :: "db \<Rightarrow> db \<Rightarrow> bool" where
  job_enqueue: "geocode_enqueue_stmt i cid h now d = Inr (b, d') \<Longrightarrow> geocode_step d d'"
| job_claim: "geocode_claim_stmt worker n now d = Inr (js, d') \<Longrightarrow> geocode_step d d'"
| job_succeeded: "geocode_step d (set_job i (succeeded_job now p resp) d)"
| job_failed: "job_failed_stmt i err backoff k now d = Inr (st, d') \<Longrightarrow> geocode_step d d'"
| job_skipped: "geocode_step d (set_job i (skipped_job now reason) d)"
| job_requeue: "geocode_step d (requeue_jobs now stale d)"

inductive_cases geocode_stepE: "geocode_step d d'"

text \<open>An update that closes jobs, or keeps them open, keeps the invariant.\<close>

lemma geocode_ok_map:
  assumes "geocode_ok d" and "\<And>r. g_id (f r) = g_id r"
    and "\<And>r. g_contractor_id (f r) = g_contractor_id r"
    and "\<And>r. r \<in> set (geocode_queue d) \<Longrightarrow> open_job (f r) \<Longrightarrow> open_job r"
  shows "geocode_ok (d\<lparr>geocode_queue := map f (geocode_queue d)\<rparr>)"
proof -
  have "distinct (map g_contractor_id (filter open_job (map f rs)))"
    if "distinct (map g_contractor_id (filter open_job rs))"
      "\<And>r. r \<in> set rs \<Longrightarrow> open_job (f r) \<Longrightarrow> open_job r" for rs
    using that
  proof (induction rs)
    case (Cons r rs)
    moreover have "g_contractor_id ` set (filter open_job (map f rs)) \<subseteq>
        g_contractor_id ` set (filter open_job rs)"
      using Cons.prems(2) assms(3) by (auto simp: image_iff)
    ultimately show ?case using assms(3) by (auto split: if_splits)
  qed simp
  then have "distinct (open_jobs (d\<lparr>geocode_queue := map f (geocode_queue d)\<rparr>))"
    using assms(1,4) by (simp add: geocode_ok_def open_jobs_def)
  moreover have "job_ids_distinct (d\<lparr>geocode_queue := map f (geocode_queue d)\<rparr>)"
    using assms(1,2) by (simp add: geocode_ok_def job_ids_distinct_def comp_def)
  ultimately show ?thesis by (simp add: geocode_ok_def)
qed

text \<open>Re-opening the only candidate of its contractor keeps the invariant too.\<close>

lemma geocode_ok_reopen:
  assumes ok: "geocode_ok d" and id: "\<And>r. g_id (f r) = g_id r"
    and cid: "\<And>r. g_contractor_id (f r) = g_contractor_id r"
    and r: "find_job d i = Some r"
    and free: "\<not> has_open_job (g_contractor_id r) (filter (\<lambda>x. g_id x \<noteq> i) (geocode_queue d))"
  shows "geocode_ok (set_job i f d)"
proof -
  have "distinct (map g_contractor_id (filter open_job (map (\<lambda>x. if g_id x = i then f x else x) rs)))"
    if "distinct (map g_id rs)" "distinct (map g_contractor_id (filter open_job rs))"
      "\<not> has_open_job (g_contractor_id r) (filter (\<lambda>x. g_id x \<noteq> i) rs)"
      "\<And>x. x \<in> set rs \<Longrightarrow> g_id x = i \<Longrightarrow> g_contractor_id x = g_contractor_id r" for rs
    using that
  proof (induction rs)
    case (Cons x rs)
    have IH: "distinct (map g_contractor_id (filter open_job (map (\<lambda>x. if g_id x = i then f x else x) rs)))"
      using Cons by (auto simp: has_open_job_def split: if_splits)
    show ?case
    proof (cases "g_id x = i")
      case True
      then have same: "map (\<lambda>x. if g_id x = i then f x else x) rs = rs"
        using Cons.prems(1) by (intro map_idI) (auto simp: image_iff)
      have "g_contractor_id r \<notin> g_contractor_id ` set (filter open_job rs)"
      proof -
        have "filter (\<lambda>y. g_id y \<noteq> i) (x # rs) = rs"
          using Cons.prems(1) True by (auto simp: image_iff intro!: filter_True)
        with Cons.prems(3) show ?thesis by (auto simp: has_open_job_def)
      qed
      with IH same True Cons.prems(4) cid show ?thesis by auto
    next
      case False
      have "g_contractor_id x \<notin> g_contractor_id ` set (filter open_job
          (map (\<lambda>x. if g_id x = i then f x else x) rs))" if "open_job x"
        using Cons.prems(2,3,4) False that cid by (auto simp: has_open_job_def image_iff)
      with IH False show ?thesis by auto
    qed
  qed simp
  moreover have "x \<in> set (geocode_queue d) \<Longrightarrow> g_id x = i \<Longrightarrow> x = r" for x
    using ok find_Some_in [OF r [unfolded find_job_def]]
    by (auto simp: geocode_ok_def job_ids_distinct_def dest: distinct_map_eqD)
  ultimately have "distinct (open_jobs (set_job i f d))"
    using ok free by (auto simp: geocode_ok_def open_jobs_def set_job_def update_ids_single job_ids_distinct_def)
  moreover have "job_ids_distinct (set_job i f d)"
    using ok id by (simp add: geocode_ok_def job_ids_distinct_def set_job_def update_ids_keys)
  ultimately show ?thesis by (simp add: geocode_ok_def)
qed

lemma geocode_step_ok: "geocode_step d d' \<Longrightarrow> geocode_ok d \<Longrightarrow> geocode_ok d'"
proof (erule geocode_stepE)
  fix i cid h now b
  assume ok: "geocode_ok d" and "geocode_enqueue_stmt i cid h now d = Inr (b, d')"
  then show "geocode_ok d'"
    by (auto simp: geocode_enqueue_stmt_def Let_def geocode_ok_def job_ids_distinct_def open_jobs_def
        has_open_job_def new_job_def split: if_splits)
next
  fix worker n now js
  assume ok: "geocode_ok d" and c: "geocode_claim_stmt worker n now d = Inr (js, d')"
  let ?due = "due_rows (job_due now) g_next_attempt_at n (geocode_queue d)"
  from c have d': "d' = d\<lparr>geocode_queue := update_ids g_id (map g_id ?due) (lock_job now worker) (geocode_queue d)\<rparr>"
    by (auto simp: geocode_claim_stmt_def Let_def split: if_splits)
  have "open_job x" if x: "x \<in> set (geocode_queue d)" "g_id x \<in> set (map g_id ?due)" for x
  proof -
    from x(2) obtain y where y: "y \<in> set ?due" "g_id y = g_id x" by auto
    from due_rows_sound [OF y(1)] y(2) x(1) ok have "y = x" and "job_due now y"
      by (auto simp: geocode_ok_def job_ids_distinct_def dest: distinct_map_eqD)
    then show ?thesis by (simp add: job_due_def open_job_def)
  qed
  then show "geocode_ok d'" unfolding d' update_ids_def using ok
    by (intro geocode_ok_map) (auto simp: lock_job_def split: if_splits)
next
  fix i now p resp
  assume ok: "geocode_ok d" and "d' = set_job i (succeeded_job now p resp) d"
  then show "geocode_ok d'" unfolding set_job_def update_ids_single
    by (simp only:) (rule geocode_ok_map, auto simp: succeeded_job_def open_job_def split: if_splits)
next
  fix i err b k now st
  assume ok: "geocode_ok d" and f: "job_failed_stmt i err b k now d = Inr (st, d')"
  then obtain r where r: "find_job d i = Some r" and d': "d' = set_job i (failed_job now err b k) d"
    and free: "\<not> (open_job (failed_job now err b k r) \<and>
      has_open_job (g_contractor_id r) (filter (\<lambda>x. g_id x \<noteq> i) (geocode_queue d)))"
    by (auto simp: job_failed_stmt_def Let_def split: option.splits if_splits)
  show "geocode_ok d'"
  proof (cases "open_job (failed_job now err b k r)")
    case True
    with free ok r show ?thesis unfolding d' by (intro geocode_ok_reopen) (auto simp: failed_job_def)
  next
    case False
    have "x = r" if "x \<in> set (geocode_queue d)" "g_id x = i" for x
      using ok find_Some_in [OF r [unfolded find_job_def]] that
      by (auto simp: geocode_ok_def job_ids_distinct_def dest: distinct_map_eqD)
    with False ok show ?thesis unfolding d' set_job_def update_ids_single
      by (intro geocode_ok_map) (auto simp: failed_job_def split: if_splits)
  qed
next
  fix i now reason
  assume ok: "geocode_ok d" and "d' = set_job i (skipped_job now reason) d"
  then show "geocode_ok d'" unfolding set_job_def update_ids_single
    by (simp only:) (rule geocode_ok_map, auto simp: skipped_job_def open_job_def split: if_splits)
next
  fix now stale
  assume ok: "geocode_ok d" and "d' = requeue_jobs now stale d"
  then show "geocode_ok d'" unfolding requeue_jobs_def
    by (simp only:) (rule geocode_ok_map, auto simp: requeued_job_def stalled_job_def open_job_def split: if_splits)
qed

inductive geocode_reachable :: "db \<Rightarrow> bool" where
  geocode_start: "geocode_queue d = [] \<Longrightarrow> geocode_reachable d"
| geocode_next: "geocode_reachable d \<Longrightarrow> geocode_step d d' \<Longrightarrow> geocode_reachable d'"

lemma geocode_reachable_ok: "geocode_reachable d \<Longrightarrow> geocode_ok d"
proof (induction rule: geocode_reachable.induct)
  case (geocode_start d)
  then show ?case by (simp add: geocode_ok_def job_ids_distinct_def open_jobs_def)
qed (rule geocode_step_ok)

text \<open>
  The geocode queue never holds two open jobs of one contractor, and never hands one job to two
  workers: in every state reachable by its six statements, the contractors of the open jobs are
  distinct, and any sequence of claims from there returns each job at most once.
\<close>

theorem geocode_one_open_job_and_exclusive_claims:
  assumes "geocode_reachable d"
  shows "distinct (open_jobs d) \<and> distinct (concat (fst (run_steps geocode_claim_step es d)))"
  using geocode_reachable_ok [OF assms] geocode_work.claims_disjoint by (auto simp: geocode_ok_def)

lemma empty_db_geocode: "geocode_queue empty_db = []"
  by (simp add: empty_db_def)

theorem geocode_one_open_job_and_exclusive_claims_witness:
  "\<exists>d. geocode_enqueue_stmt 1 5 (replicate 32 0) 0 (empty_db\<lparr>contractors := [bare_listing 5]\<rparr>) = Inr (True, d) \<and>
     open_jobs d = [5] \<and>
     distinct (concat (fst (run_steps geocode_claim_step [(3, [], 4), (4, [], 4)] d)))"
proof -
  let ?start = "empty_db\<lparr>contractors := [bare_listing 5]\<rparr>"
  let ?d = "?start\<lparr>geocode_queue := [new_job 0 1 5 (replicate 32 0)]\<rparr>"
  have e: "geocode_enqueue_stmt 1 5 (replicate 32 0) 0 ?start = Inr (True, ?d)"
  proof -
    have "geocode_check (new_job 0 1 5 (replicate 32 0))"
      by (simp add: geocode_check_def new_job_def opt_len_le_def)
    then show ?thesis
      by (simp add: geocode_enqueue_stmt_def has_open_job_def empty_db_geocode Let_def contractor_exists_def)
  qed
  have "geocode_reachable ?start" by (rule geocode_start) (simp add: empty_db_def)
  with e have "geocode_reachable ?d" by (blast intro: geocode_next job_enqueue)
  from geocode_one_open_job_and_exclusive_claims [OF this, of "[(3, [], 4), (4, [], 4)]"] e show ?thesis
    by (intro exI [of _ ?d]) (simp add: open_jobs_def new_job_def open_job_def del: run_steps.simps)
qed

end
