(* ===== verification/Maintenance.thy ===== *)
theory Maintenance
  imports Repo_Sessions Repo_Auth_Tokens Repo_Outbox Repo_Geocode Repo_Audit Auth_Ratelimit
begin

text \<open>
  \<open>cm-db/src/repo/maintenance.rs\<close> and \<open>cm-domain/src/maintenance.rs\<close>: the bounded deletes and the
  housekeeping pass that repeats them. Each delete is an interpretation of \<open>bounded_delete\<close>.
\<close>

definition prune_batch :: nat where "prune_batch = 5000"
definition prune_max_batches :: nat where "prune_max_batches = 40"
definition default_grace_days :: int where "default_grace_days = 30"

record pruned =
  pr_sessions :: nat
  pr_geocode_jobs :: nat
  pr_emails :: nat
  pr_auth_tokens :: nat
  pr_rate_limit_windows :: nat
  pr_audit_rows :: nat

text \<open>The instant before which a finished row is deleted: \<open>$1 - make_interval(days => $2)\<close> with \<open>$2\<close> cast to \<open>i32\<close>.\<close>

definition cutoff :: "time \<Rightarrow> int \<Rightarrow> time" where
  "cutoff now grace_days = now - days (as_i32 grace_days)"

definition prunable_session :: "time \<Rightarrow> int \<Rightarrow> session_row \<Rightarrow> bool" where
  "prunable_session now grace_days r \<longleftrightarrow>
     s_absolute_expires_at r < cutoff now grace_days \<or>
     (case s_revoked_at r of None \<Rightarrow> False | Some t \<Rightarrow> t < cutoff now grace_days)"

definition prune_sessions :: "time \<Rightarrow> int \<Rightarrow> nat \<Rightarrow> nat m" where
  "prune_sessions now grace_days batch =
     sql (\<lambda>_ d. Inr (min batch (length (filter (prunable_session now grace_days) (sessions d))),
       d\<lparr>sessions := delete_batch (prunable_session now grace_days) batch (sessions d)\<rparr>))"

definition prunable_job :: "time \<Rightarrow> int \<Rightarrow> geocode_row \<Rightarrow> bool" where
  "prunable_job now grace_days r \<longleftrightarrow>
     g_status r \<in> {JSucceeded, JSkipped, JFailed} \<and> g_updated_at r < cutoff now grace_days"

definition prune_geocode_jobs :: "time \<Rightarrow> int \<Rightarrow> nat \<Rightarrow> nat m" where
  "prune_geocode_jobs now grace_days batch =
     sql (\<lambda>_ d. Inr (min batch (length (filter (prunable_job now grace_days) (geocode_queue d))),
       d\<lparr>geocode_queue := delete_batch (prunable_job now grace_days) batch (geocode_queue d)\<rparr>))"

definition prunable_email :: "time \<Rightarrow> int \<Rightarrow> outbox_row \<Rightarrow> bool" where
  "prunable_email now grace_days r \<longleftrightarrow>
     m_status r \<in> {Sent, Failed} \<and> m_updated_at r < cutoff now grace_days"

definition prune_emails :: "time \<Rightarrow> int \<Rightarrow> nat \<Rightarrow> nat m" where
  "prune_emails now grace_days batch =
     sql (\<lambda>_ d. Inr (min batch (length (filter (prunable_email now grace_days) (email_outbox d))),
       d\<lparr>email_outbox := delete_batch (prunable_email now grace_days) batch (email_outbox d)\<rparr>))"

definition prunable_audit :: "time \<Rightarrow> int \<Rightarrow> audit_row \<Rightarrow> bool" where
  "prunable_audit now audit_days r \<longleftrightarrow> a_created_at r < cutoff now audit_days"

definition prune_audit :: "time \<Rightarrow> int \<Rightarrow> nat \<Rightarrow> nat m" where
  "prune_audit now audit_days batch =
     sql (\<lambda>_ d. Inr (min batch (length (filter (prunable_audit now audit_days) (audit_log d))),
       d\<lparr>audit_log := delete_batch (prunable_audit now audit_days) batch (audit_log d)\<rparr>))"

text \<open>Each batch of a pass takes a connection of its own.\<close>

definition drain :: "nat m \<Rightarrow> nat m" where
  "drain step = drain_loop prune_max_batches prune_batch (seq acquire step) 0"

definition prune :: "time \<Rightarrow> int \<Rightarrow> int option \<Rightarrow> pruned m" where
  "prune now grace_days audit_days =
     bind (drain (prune_sessions now grace_days prune_batch)) (\<lambda>s.
     bind (drain (prune_geocode_jobs now grace_days prune_batch)) (\<lambda>g.
     bind (drain (prune_emails now grace_days prune_batch)) (\<lambda>e.
     bind (drain (tokens_prune_expired now grace_days prune_batch)) (\<lambda>t.
     bind (sweep now) (\<lambda>r.
     bind (case audit_days of None \<Rightarrow> ret 0 | Some n \<Rightarrow> drain (prune_audit now n prune_batch)) (\<lambda>a.
     ret \<lparr>pr_sessions = s, pr_geocode_jobs = g, pr_emails = e, pr_auth_tokens = t,
          pr_rate_limit_windows = r, pr_audit_rows = a\<rparr>))))))"

subsection \<open>Passes\<close>

lemma acquire_bounded:
  assumes "bounded_delete (\<lambda>w. rows (w_db w)) doomed b step"
  shows "bounded_delete (\<lambda>w. rows (w_db w)) doomed b (seq acquire step)"
  using bounded_delete.step_Inr [OF assms] bounded_delete.step_Inl [OF assms]
  by unfold_locales (fastforce simp: seq_Inr_iff seq_Inl_iff dest!: acquire_world)+

interpretation session_prune: bounded_delete "\<lambda>w. sessions (w_db w)" "prunable_session now g" b
    "seq acquire (prune_sessions now g b)" for now g b
  by (rule acquire_bounded, unfold_locales) (auto simp: prune_sessions_def sql_Inr_iff sql_Inl_iff)

interpretation job_prune: bounded_delete "\<lambda>w. geocode_queue (w_db w)" "prunable_job now g" b
    "seq acquire (prune_geocode_jobs now g b)" for now g b
  by (rule acquire_bounded, unfold_locales) (auto simp: prune_geocode_jobs_def sql_Inr_iff sql_Inl_iff)

interpretation email_prune: bounded_delete "\<lambda>w. email_outbox (w_db w)" "prunable_email now g" b
    "seq acquire (prune_emails now g b)" for now g b
  by (rule acquire_bounded, unfold_locales) (auto simp: prune_emails_def sql_Inr_iff sql_Inl_iff)

interpretation token_prune: bounded_delete "\<lambda>w. auth_tokens (w_db w)" "prunable_token now g" b
    "seq acquire (tokens_prune_expired now g b)" for now g b
  by (rule acquire_bounded, unfold_locales) (auto simp: tokens_prune_expired_def sql_Inr_iff sql_Inl_iff)

interpretation audit_prune: bounded_delete "\<lambda>w. audit_log (w_db w)" "prunable_audit now g" b
    "seq acquire (prune_audit now g b)" for now g b
  by (rule acquire_bounded, unfold_locales) (auto simp: prune_audit_def sql_Inr_iff sql_Inl_iff)

text \<open>
  A housekeeping pass over a table is bounded and makes progress: it removes at most two hundred thousand
  rows, reports how many, keeps every row that is not due, and leaves a due row behind only when it has
  used all of its batches; stated for sessions, and the passes over geocode jobs, messages, tokens and the audit
  log are instances of the same contract.
\<close>

theorem a_pass_is_bounded_and_complete:
  assumes "drain (prune_sessions now g prune_batch) w = (Inr n, w')"
  shows "n \<le> 200000 \<and> length (sessions (w_db w')) + n = length (sessions (w_db w)) \<and>
    filter (\<lambda>r. \<not> prunable_session now g r) (sessions (w_db w')) = filter (\<lambda>r. \<not> prunable_session now g r) (sessions (w_db w)) \<and>
    (filter (prunable_session now g) (sessions (w_db w')) = [] \<or> n = 200000)"
  using session_prune.drain_pass [OF assms [unfolded drain_def]]
  by (simp add: prune_max_batches_def prune_batch_def)

definition example_expired :: session_row where
  "example_expired = new_session 0 1 9 (replicate 32 1) 100 200 None None"

theorem a_pass_is_bounded_and_complete_witness:
  "\<exists>w'. drain (prune_sessions (days 40) 30 prune_batch) (calm_world (empty_db\<lparr>sessions := [example_expired]\<rparr>) 0) = (Inr 1, w') \<and>
     filter (prunable_session (days 40) 30) (sessions (w_db w')) = []"
proof -
  let ?w = "calm_world (empty_db\<lparr>sessions := [example_expired]\<rparr>) 0"
  have p: "prunable_session (days 40) 30 example_expired"
    by (simp add: prunable_session_def cutoff_def as_i32_def example_expired_def new_session_def time_defs)
  have b: "delete_batch (prunable_session (days 40) 30) 5000 [example_expired] = []"
    using p by (simp add: delete_batch_all)
  have k: "prune_max_batches = Suc 39" by (simp add: prune_max_batches_def)
  have "\<exists>w'. drain (prune_sessions (days 40) 30 prune_batch) ?w = (Inr 1, w')"
    unfolding drain_def k drain_loop.simps
    using p b by (simp add: prune_batch_def bind_def seq_def acquire_def
        round_trip_def prune_sessions_def sql_def ret_def)
  then obtain w' where run: "drain (prune_sessions (days 40) 30 prune_batch) ?w = (Inr 1, w')" by blast
  with a_pass_is_bounded_and_complete [OF run] show ?thesis by auto
qed

subsection \<open>The whole pass\<close>

text \<open>A pass over one table leaves every property of the others alone.\<close>

lemma keeps_drain [keeps_intros]: "keeps P step \<Longrightarrow> keeps P (drain step)"
  unfolding drain_def by (intro keeps_intros)

lemma keeps_prunes:
  "(\<And>d. P (d\<lparr>sessions := delete_batch (prunable_session now g) b (sessions d)\<rparr>) = P d) \<Longrightarrow> keeps P (prune_sessions now g b)"
  "(\<And>d. P (d\<lparr>geocode_queue := delete_batch (prunable_job now g) b (geocode_queue d)\<rparr>) = P d) \<Longrightarrow> keeps P (prune_geocode_jobs now g b)"
  "(\<And>d. P (d\<lparr>email_outbox := delete_batch (prunable_email now g) b (email_outbox d)\<rparr>) = P d) \<Longrightarrow> keeps P (prune_emails now g b)"
  "(\<And>d. P (d\<lparr>auth_tokens := delete_batch (prunable_token now g) b (auth_tokens d)\<rparr>) = P d) \<Longrightarrow> keeps P (tokens_prune_expired now g b)"
  "(\<And>d. P (d\<lparr>audit_log := delete_batch (prunable_audit now g) b (audit_log d)\<rparr>) = P d) \<Longrightarrow> keeps P (prune_audit now g b)"
  unfolding prune_sessions_def prune_geocode_jobs_def prune_emails_def tokens_prune_expired_def prune_audit_def
  by (intro keeps_sql, auto)+

text \<open>What stays: every row a request or a worker can still use.\<close>

definition in_use :: "time \<Rightarrow> int \<Rightarrow> db \<Rightarrow> db" where
  "in_use now g d = d\<lparr>sessions := filter (\<lambda>r. \<not> prunable_session now g r) (sessions d),
     geocode_queue := filter (\<lambda>r. \<not> prunable_job now g r) (geocode_queue d),
     email_outbox := filter (\<lambda>r. \<not> prunable_email now g r) (email_outbox d),
     auth_tokens := filter (\<lambda>r. \<not> prunable_token now g r) (auth_tokens d)\<rparr>"

lemma prune_in_use:
  assumes "prune now g None w = (r, w')"
  shows "in_use now g (w_db w') = in_use now g (w_db w)"
proof -
  have "keeps (\<lambda>d. in_use now g d = in_use now g (w_db w)) (prune now g None)"
    unfolding prune_def option.case
    by (intro keeps_intros keeps_prunes) (simp_all add: in_use_def filter_not_delete_batch)
  with assms show ?thesis by (auto dest: keepsD)
qed

lemma filter_implies: "(\<And>x. p x \<Longrightarrow> q x) \<Longrightarrow> filter p (filter q xs) = filter p xs"
  by (induction xs) auto

lemma filter_in_use:
  assumes "in_use now g d' = in_use now g d"
  shows "(\<And>r. p r \<Longrightarrow> \<not> prunable_session now g r) \<Longrightarrow> filter p (sessions d') = filter p (sessions d)"
    and "(\<And>r. q r \<Longrightarrow> \<not> prunable_job now g r) \<Longrightarrow> filter q (geocode_queue d') = filter q (geocode_queue d)"
    and "(\<And>r. m r \<Longrightarrow> \<not> prunable_email now g r) \<Longrightarrow> filter m (email_outbox d') = filter m (email_outbox d)"
    and "(\<And>r. t r \<Longrightarrow> \<not> prunable_token now g r) \<Longrightarrow> filter t (auth_tokens d') = filter t (auth_tokens d)"
proof -
  have eq: "sessions (in_use now g d') = sessions (in_use now g d)" "geocode_queue (in_use now g d') = geocode_queue (in_use now g d)"
    "email_outbox (in_use now g d') = email_outbox (in_use now g d)" "auth_tokens (in_use now g d') = auth_tokens (in_use now g d)"
    using assms by simp_all
  show "filter p (sessions d') = filter p (sessions d)" if "\<And>r. p r \<Longrightarrow> \<not> prunable_session now g r"
    using arg_cong [OF eq(1), of "filter p"] that by (simp add: in_use_def filter_implies del: filter_filter)
  show "filter q (geocode_queue d') = filter q (geocode_queue d)" if "\<And>r. q r \<Longrightarrow> \<not> prunable_job now g r"
    using arg_cong [OF eq(2), of "filter q"] that by (simp add: in_use_def filter_implies del: filter_filter)
  show "filter m (email_outbox d') = filter m (email_outbox d)" if "\<And>r. m r \<Longrightarrow> \<not> prunable_email now g r"
    using arg_cong [OF eq(3), of "filter m"] that by (simp add: in_use_def filter_implies del: filter_filter)
  show "filter t (auth_tokens d') = filter t (auth_tokens d)" if "\<And>r. t r \<Longrightarrow> \<not> prunable_token now g r"
    using arg_cong [OF eq(4), of "filter t"] that by (simp add: in_use_def filter_implies del: filter_filter)
qed

text \<open>
  C32. Housekeeping takes nothing anyone can still use, even when it fails half-way: with a non-negative
  grace period (as the 32-bit number the statement receives) no session that is live at or after the time of the pass, no
  open or unexpired token, no waiting or claimed message or geocode job, no account, credential or identity is removed, and
  the audit log is untouched unless a retention was given.
\<close>

theorem housekeeping_takes_nothing_in_use:
  assumes "prune now g None w = (r, w')" and "0 \<le> as_i32 g"
  shows "users (w_db w') = users (w_db w) \<and> credentials (w_db w') = credentials (w_db w) \<and>
    oauth_identities (w_db w') = oauth_identities (w_db w) \<and> audit_log (w_db w') = audit_log (w_db w) \<and>
    (now \<le> t \<longrightarrow> live_sessions t uid (w_db w') = live_sessions t uid (w_db w)) \<and>
    filter (\<lambda>k. t_consumed_at k = None \<and> now \<le> t_expires_at k) (auth_tokens (w_db w')) =
      filter (\<lambda>k. t_consumed_at k = None \<and> now \<le> t_expires_at k) (auth_tokens (w_db w)) \<and>
    filter (\<lambda>m. m_status m \<in> {Queued, InProgress}) (email_outbox (w_db w')) =
      filter (\<lambda>m. m_status m \<in> {Queued, InProgress}) (email_outbox (w_db w)) \<and>
    filter open_job (geocode_queue (w_db w')) = filter open_job (geocode_queue (w_db w))"
proof -
  have u: "in_use now g (w_db w') = in_use now g (w_db w)" using assms(1) by (rule prune_in_use)
  have c: "cutoff now g \<le> now" using assms(2) by (simp add: cutoff_def time_defs)
  have "users (w_db w') = users (w_db w)" "credentials (w_db w') = credentials (w_db w)"
    "oauth_identities (w_db w') = oauth_identities (w_db w)" "audit_log (w_db w') = audit_log (w_db w)"
    using arg_cong [OF u, of users] arg_cong [OF u, of credentials] arg_cong [OF u, of oauth_identities] arg_cong [OF u, of audit_log]
    by (simp_all add: in_use_def)
  moreover have "live_sessions t uid (w_db w') = live_sessions t uid (w_db w)" if "now \<le> t"
    unfolding live_sessions_def using u
    by (rule filter_in_use) (use c that in \<open>auto simp: live_session_def prunable_session_def\<close>)
  moreover have "filter (\<lambda>k. t_consumed_at k = None \<and> now \<le> t_expires_at k) (auth_tokens (w_db w')) =
      filter (\<lambda>k. t_consumed_at k = None \<and> now \<le> t_expires_at k) (auth_tokens (w_db w))"
    using u by (rule filter_in_use) (use c in \<open>auto simp: prunable_token_def cutoff_def\<close>)
  moreover have "filter (\<lambda>m. m_status m \<in> {Queued, InProgress}) (email_outbox (w_db w')) =
      filter (\<lambda>m. m_status m \<in> {Queued, InProgress}) (email_outbox (w_db w))"
    using u by (rule filter_in_use) (auto simp: prunable_email_def)
  moreover have "filter open_job (geocode_queue (w_db w')) = filter open_job (geocode_queue (w_db w))"
    using u by (rule filter_in_use) (auto simp: prunable_job_def open_job_def)
  ultimately show ?thesis by blast
qed

theorem housekeeping_takes_nothing_in_use_witness:
  "\<exists>r w'. prune (days 40) 30 None (calm_world (empty_db\<lparr>sessions := [example_expired]\<rparr>) 0) = (r, w') \<and>
     live_sessions (days 40) 9 (w_db w') = []"
proof -
  let ?w = "calm_world (empty_db\<lparr>sessions := [example_expired]\<rparr>) 0"
  obtain r w' where run: "prune (days 40) 30 None ?w = (r, w')" by (cases "prune (days 40) 30 None ?w")
  have "live_sessions (days 40) 9 (w_db ?w) = []"
    by (simp add: live_sessions_def live_session_def example_expired_def new_session_def time_defs)
  with housekeeping_takes_nothing_in_use [OF run, of "days 40" 9] run show ?thesis
    by (auto simp: as_i32_def)
qed

end
