(* ===== verification/Mail_Worker.thy ===== *)
theory Mail_Worker
  imports Repo_Outbox Concrete
begin

text \<open>
  \<open>cm-domain/src/mail_worker.rs\<close> and \<open>cm-domain/src/mailer.rs\<close>: one pass of the worker that drains the
  outbox into a provider. The provider is a parameter: \<open>http k req\<close> is what comes back of the \<open>k\<close>-th
  request. No connection is held during a call, so other requests may run there. \<open>rate_per_second\<close> of the
  worker's settings only paces the loop (the sleep between two sends) and is left out.
\<close>

text \<open>\<open>Display\<close> of an error, from its \<open>#[error(...)]\<close> attributes.\<close>

fun error_display :: "app_error \<Rightarrow> ustr" where
  "error_display NotFound = lit ''resource not found''"
| "error_display (Invalid m) = m"
| "error_display Unauthenticated = lit ''authentication required''"
| "error_display Forbidden = lit ''forbidden''"
| "error_display (Conflict m) = m"
| "error_display (TooManyRequests _) = lit ''too many requests''"
| "error_display (Unavailable m) = lit ''service unavailable: '' @ m"
| "error_display (Internal _) = lit ''internal error''"

subsection \<open>The mailer\<close>

record email =
  em_id :: uuid
  em_to :: ustr
  em_subject :: ustr
  em_body_text :: ustr
  em_body_html :: "ustr option"
  em_unsubscribe_url :: "ustr option"

record send_request =
  sr_idempotency_key :: ustr
  sr_from :: ustr
  sr_to :: ustr
  sr_subject :: ustr
  sr_text :: ustr
  sr_html :: "ustr option"
  sr_headers :: "(ustr \<times> ustr) list option"

text \<open>What the HTTP client reports: no answer, an answer that is no success with its status line and body, or a success
  whose JSON body could not or could be read as a message id.\<close>

datatype http_outcome = Unreachable ustr | Refused ustr ustr | Accepted "ustr + ustr option"

type_synonym http = "nat \<Rightarrow> send_request \<Rightarrow> http_outcome"

datatype mailer = Resend ustr | Memory

record mailer_state =
  ms_requests :: "send_request list"
  ms_sent :: "email list"

definition unsubscribe_headers :: "ustr \<Rightarrow> (ustr \<times> ustr) list" where
  "unsubscribe_headers url =
     [(lit ''List-Unsubscribe'', lit ''<'' @ url @ lit ''>''),
      (lit ''List-Unsubscribe-Post'', lit ''List-Unsubscribe=One-Click'')]"

definition resend_request :: "lib \<Rightarrow> ustr \<Rightarrow> email \<Rightarrow> send_request" where
  "resend_request L from e =
     \<lparr>sr_idempotency_key = uuid_to_string L (em_id e), sr_from = from, sr_to = em_to e,
      sr_subject = em_subject e, sr_text = em_body_text e, sr_html = em_body_html e,
      sr_headers = map_option unsubscribe_headers (em_unsubscribe_url e)\<rparr>"

definition resend_send ::
  "lib \<Rightarrow> http \<Rightarrow> ustr \<Rightarrow> email \<Rightarrow> mailer_state \<Rightarrow> ustr option res \<times> mailer_state" where
  "resend_send L http from e s =
     (let req = resend_request L from e;
          s' = s\<lparr>ms_requests := ms_requests s @ [req]\<rparr> in
      case http (length (ms_requests s)) req of
        Unreachable error \<Rightarrow> (Inl (Internal (lit ''reaching Resend: '' @ error)), s')
      | Refused status body \<Rightarrow>
          (Inl (Internal (lit ''Resend refused a send: '' @ status @ lit '' '' @ body)), s')
      | Accepted (Inl error) \<Rightarrow> (Inl (Internal (lit ''parsing a Resend response: '' @ error)), s')
      | Accepted (Inr i) \<Rightarrow> (Inr i, s'))"

definition memory_send :: "email \<Rightarrow> mailer_state \<Rightarrow> ustr option \<times> mailer_state" where
  "memory_send e s = (None, s\<lparr>ms_sent := ms_sent s @ [e]\<rparr>)"

definition mailer_send ::
  "lib \<Rightarrow> http \<Rightarrow> mailer \<Rightarrow> email \<Rightarrow> mailer_state \<Rightarrow> ustr option res \<times> mailer_state" where
  "mailer_send L http m e s =
     (case m of
        Resend from \<Rightarrow> resend_send L http from e s
      | Memory \<Rightarrow> (case memory_send e s of (i, s') \<Rightarrow> (Inr i, s')))"

subsection \<open>The worker\<close>

record worker_config =
  wc_batch :: nat
  wc_max_attempts :: int
  wc_worker_id :: ustr
  wc_stale_after_secs :: int

definition default_worker_config :: worker_config where
  "default_worker_config = \<lparr>wc_batch = 25, wc_max_attempts = 8, wc_worker_id = lit ''mail-worker'',
     wc_stale_after_secs = 600\<rparr>"

record worker_stats =
  st_requeued :: nat
  st_claimed :: nat
  st_sent :: nat
  st_failed :: nat

definition backoff_secs :: "int \<Rightarrow> int" where
  "backoff_secs attempts = min (30 * 2 ^ nat (max 0 (min attempts 10))) 3600"

definition email_of :: "claimed \<Rightarrow> email" where
  "email_of c = \<lparr>em_id = cl_id c, em_to = cl_recipient c, em_subject = cl_subject c,
     em_body_text = cl_body_text c, em_body_html = cl_body_html c,
     em_unsubscribe_url = cl_unsubscribe_url c\<rparr>"

text \<open>What is written about one message after its call: whether it was sent.\<close>

definition settle :: "worker_config \<Rightarrow> claimed \<Rightarrow> ustr option res \<Rightarrow> bool m" where
  "settle cfg c outcome =
     (case outcome of
        Inr pid \<Rightarrow> seq (outbox_mark_sent (cl_id c) pid) (ret True)
      | Inl e \<Rightarrow>
          seq (outbox_mark_failed (cl_id c) (error_display e) (backoff_secs (cl_attempts c))
                 (wc_max_attempts cfg)) (ret False))"

definition count_outcome :: "bool \<Rightarrow> worker_stats \<Rightarrow> worker_stats" where
  "count_outcome ok st =
     (if ok then st\<lparr>st_sent := st_sent st + 1\<rparr> else st\<lparr>st_failed := st_failed st + 1\<rparr>)"

fun deliver_all ::
  "lib \<Rightarrow> http \<Rightarrow> mailer \<Rightarrow> env \<Rightarrow> worker_config \<Rightarrow> nat \<Rightarrow> claimed list \<Rightarrow> mailer_state \<Rightarrow> worker_stats \<Rightarrow>
     world \<Rightarrow> (worker_stats res \<times> mailer_state) \<times> world" where
  "deliver_all L http m env cfg k [] s st w = ((Inr st, s), w)"
| "deliver_all L http m env cfg k (c # cs) s st w =
     (case mailer_send L http m (email_of c) s of
        (outcome, s') \<Rightarrow>
          (case seq (after_others env k acquire) (settle cfg c outcome) w of
             (Inl e, w') \<Rightarrow> ((Inl e, s'), w')
           | (Inr ok, w') \<Rightarrow> deliver_all L http m env cfg (Suc k) cs s' (count_outcome ok st) w'))"

definition run_once ::
  "lib \<Rightarrow> http \<Rightarrow> mailer \<Rightarrow> env \<Rightarrow> worker_config \<Rightarrow> mailer_state \<Rightarrow> world \<Rightarrow>
     (worker_stats res \<times> mailer_state) \<times> world" where
  "run_once L http m env cfg s w =
     (case bind (seq (after_others env 0 acquire) (outbox_requeue_stalled (wc_stale_after_secs cfg))) (\<lambda>requeued.
           bind (after_others env 1 (transaction (outbox_claim (wc_worker_id cfg) (wc_batch cfg)))) (\<lambda>taken.
           ret (requeued, taken))) w of
        (Inl e, w') \<Rightarrow> ((Inl e, s), w')
      | (Inr (requeued, taken), w') \<Rightarrow>
          deliver_all L http m env cfg 2 taken s
            \<lparr>st_requeued = requeued, st_claimed = length taken, st_sent = 0, st_failed = 0\<rparr> w')"

subsection \<open>Retry times\<close>

text \<open>
  The wait before the next attempt is never below half a minute and never above an hour; it starts at half
  a minute, doubles with every failure while the doubled value fits, and never shrinks.
\<close>

theorem backoff_is_bounded_and_doubles:
  "30 \<le> backoff_secs n \<and> backoff_secs n \<le> 3600 \<and> backoff_secs 0 = 30 \<and>
   backoff_secs n \<le> backoff_secs (n + 1) \<and>
   (0 \<le> n \<longrightarrow> backoff_secs (n + 1) = min 3600 (2 * backoff_secs n))"
proof -
  have grow: "(2::int) ^ nat (max 0 (min n 10)) \<le> 2 ^ nat (max 0 (min (n + 1) 10))"
    by (rule power_increasing) auto
  have double: "backoff_secs (n + 1) = min 3600 (2 * backoff_secs n)" if "0 \<le> n"
  proof (cases "n < 10")
    case True
    with that have "max 0 (min n 10) = n" "max 0 (min (n + 1) 10) = n + 1" "nat (n + 1) = Suc (nat n)" by auto
    then show ?thesis unfolding backoff_secs_def by (simp only: power_Suc) (auto simp: min_def)
  next
    case False
    then show ?thesis by (simp add: backoff_secs_def)
  qed
  have one: "(1::int) \<le> 2 ^ nat (max 0 (min n 10))" by simp
  have "30 \<le> backoff_secs n \<and> backoff_secs n \<le> 3600 \<and> backoff_secs 0 = 30 \<and> backoff_secs n \<le> backoff_secs (n + 1)"
    using one grow unfolding backoff_secs_def by (auto simp: min_le_iff_disj simp del: power_increasing_iff)
  with double show ?thesis by blast
qed

theorem backoff_is_bounded_and_doubles_witness: "backoff_secs 3 = min 3600 (2 * backoff_secs 2) \<and> backoff_secs 3 = 240"
  using backoff_is_bounded_and_doubles [of 2] by (simp add: backoff_secs_def)

subsection \<open>A pass\<close>

text \<open>What a provider's answer means to the worker, and what it makes of the row.\<close>

definition accepted :: "http_outcome \<Rightarrow> ustr option option" where
  "accepted a = (case a of Accepted (Inr pid) \<Rightarrow> Some pid | _ \<Rightarrow> None)"

definition settled :: "time \<Rightarrow> int \<Rightarrow> int \<Rightarrow> http_outcome \<Rightarrow> outbox_row \<Rightarrow> outbox_row" where
  "settled now attempts max_attempts a r =
     (case accepted a of
        Some pid \<Rightarrow> sent_mail now pid r
      | None \<Rightarrow> failed_mail now (lit ''internal error'') (backoff_secs attempts) max_attempts r)"

lemma settled_id [simp]: "m_id (settled now n k a r) = m_id r"
  by (simp add: settled_def sent_mail_def failed_mail_def split: option.split)

lemma settled_overwrites:
  "settled now n k a (lock_mail t worker r) = settled now n k a r"
  "settled now n k a (requeued_mail t r) = settled now n k a r"
  by (simp_all add: settled_def sent_mail_def failed_mail_def lock_mail_def requeued_mail_def split: option.split)

lemma resend_send_cases:
  "\<exists>cause. resend_send L http from e s =
     (case accepted (http (length (ms_requests s)) (resend_request L from e)) of
        Some pid \<Rightarrow> Inr pid | None \<Rightarrow> Inl (Internal cause),
      s\<lparr>ms_requests := ms_requests s @ [resend_request L from e]\<rparr>)"
  by (auto simp: resend_send_def accepted_def Let_def split: http_outcome.split sum.split)

lemma settle_InrD:
  assumes "settle cfg c (case accepted a of Some pid \<Rightarrow> Inr pid | None \<Rightarrow> Inl (Internal cause)) w = (Inr ok, w')"
  shows "w_clock w' = w_clock w \<and>
    w_db w' = set_mail (cl_id c) (settled (w_clock w) (cl_attempts c) (wc_max_attempts cfg) a) (w_db w)"
proof -
  have m: "settled (w_clock w) (cl_attempts c) (wc_max_attempts cfg) a = (case accepted a of
      Some pid \<Rightarrow> sent_mail (w_clock w) pid
    | None \<Rightarrow> failed_mail (w_clock w) (lit ''internal error'') (backoff_secs (cl_attempts c)) (wc_max_attempts cfg))"
    by (auto simp: settled_def split: option.split)
  have "take 2000 (lit ''internal error'') = lit ''internal error''" by (simp add: lit_def)
  with assms show ?thesis unfolding m
    by (auto simp: settle_def run_iffs outbox_mark_sent_def outbox_mark_failed_def mark_failed_stmt_def
        split: option.splits if_splits)
qed

lemma deliver_all_settles:
  assumes "deliver_all L http (Resend from) no_others cfg k cs s st w = ((Inr st', s'), w')"
    and "distinct (map cl_id cs)"
  shows "ms_requests s' = ms_requests s @ map (\<lambda>c. resend_request L from (email_of c)) cs \<and>
    st_claimed st' = st_claimed st \<and> st_sent st' + st_failed st' = st_sent st + st_failed st + length cs \<and>
    (\<forall>j<length cs. find_mail (w_db w') (cl_id (cs ! j)) =
       map_option (settled (w_clock w) (cl_attempts (cs ! j)) (wc_max_attempts cfg)
         (http (length (ms_requests s) + j) (resend_request L from (email_of (cs ! j)))))
         (find_mail (w_db w) (cl_id (cs ! j)))) \<and>
    (\<forall>i. i \<notin> cl_id ` set cs \<longrightarrow> find_mail (w_db w') i = find_mail (w_db w) i)"
  using assms
proof (induction cs arbitrary: k s st w)
  case (Cons c cs)
  let ?req = "resend_request L from (email_of c)"
  let ?a = "http (length (ms_requests s)) ?req"
  let ?s = "s\<lparr>ms_requests := ms_requests s @ [?req]\<rparr>"
  let ?f = "settled (w_clock w) (cl_attempts c) (wc_max_attempts cfg) ?a"
  obtain cause where send: "resend_send L http from (email_of c) s =
      (case accepted ?a of Some pid \<Rightarrow> Inr pid | None \<Rightarrow> Inl (Internal cause), ?s)"
    using resend_send_cases by blast
  obtain ok w1 w2 where aq: "acquire w = (Inr (), w1)"
    and se: "settle cfg c (case accepted ?a of Some pid \<Rightarrow> Inr pid | None \<Rightarrow> Inl (Internal cause)) w1 = (Inr ok, w2)"
    and rest: "deliver_all L http (Resend from) no_others cfg (Suc k) cs ?s (count_outcome ok st) w2 = ((Inr st', s'), w')"
    using Cons.prems(1) by (auto simp: mailer_send_def send seq_Inr_iff seq_Inl_iff after_no_others split: prod.splits sum.splits)
  have w1: "w_db w1 = w_db w" "w_clock w1 = w_clock w" using aq by (auto simp: acquire_def dest!: round_trip_world)
  note w2 = settle_InrD [OF se, unfolded w1]
  have "find_mail (w_db w2) i = map_option (\<lambda>r. if i = cl_id c then ?f r else r) (find_mail (w_db w) i)" for i
    using w2 by (simp add: find_set_mail)
  then have new: "find_mail (w_db w2) (cl_id c) = map_option ?f (find_mail (w_db w) (cl_id c))"
    and old: "\<And>i. i \<noteq> cl_id c \<Longrightarrow> find_mail (w_db w2) i = find_mail (w_db w) i"
    by (simp_all add: option.map_ident)
  have d: "cl_id c \<notin> cl_id ` set cs" "distinct (map cl_id cs)" using Cons.prems(2) by auto
  note IH = Cons.IH [OF rest d(2)]
  have "find_mail (w_db w') (cl_id ((c # cs) ! j)) =
       map_option (settled (w_clock w) (cl_attempts ((c # cs) ! j)) (wc_max_attempts cfg)
         (http (length (ms_requests s) + j) (resend_request L from (email_of ((c # cs) ! j)))))
         (find_mail (w_db w) (cl_id ((c # cs) ! j)))" if j: "j < length (c # cs)" for j
  proof (cases j)
    case 0
    with IH d new show ?thesis by simp
  next
    case (Suc i)
    then have i: "i < length cs" using j by simp
    then have "cl_id (cs ! i) \<noteq> cl_id c" using d(1) by (metis image_eqI nth_mem)
    with IH i w2 old Suc show ?thesis by simp
  qed
  with IH old show ?case by (auto simp: count_outcome_def)
qed simp


lemma outbox_claim_InrD:
  assumes "outbox_claim worker n w = (Inr cs, w')" and "mail_ids_distinct (w_db w)"
  shows "distinct (map cl_id cs) \<and> length cs \<le> n \<and> w_clock w' = w_clock w \<and>
    (\<forall>c \<in> set cs. \<exists>r. find_mail (w_db w) (cl_id c) = Some r \<and> mail_due (w_clock w) r \<and> c = claimed_of_row r) \<and>
    (\<forall>i. find_mail (w_db w') i = map_option (\<lambda>r. if i \<in> cl_id ` set cs then lock_mail (w_clock w) worker r else r)
       (find_mail (w_db w) i))"
proof -
  let ?due = "due_rows (mail_due (w_clock w)) m_next_attempt_at n (email_outbox (w_db w))"
  from assms(1) have cs: "cs = map claimed_of_row ?due" and w': "w_clock w' = w_clock w"
    "w_db w' = (w_db w)\<lparr>email_outbox := update_ids m_id (map m_id ?due) (lock_mail (w_clock w) worker) (email_outbox (w_db w))\<rparr>"
    by (auto simp: outbox_claim_def sql_Inr_iff outbox_claim_stmt_def Let_def split: if_splits)
  have ids: "map cl_id cs = map m_id ?due" by (simp add: cs claimed_of_row_def)
  then have set_ids: "cl_id ` set cs = set (map m_id ?due)" by (metis list.set_map)
  have "\<exists>r. find_mail (w_db w) (cl_id c) = Some r \<and> mail_due (w_clock w) r \<and> c = claimed_of_row r"
    if c: "c \<in> set cs" for c
  proof -
    from c cs obtain r where r: "r \<in> set ?due" "c = claimed_of_row r" by auto
    with due_rows_sound [OF r(1)] find_unique [of m_id "email_outbox (w_db w)" r] assms(2)
    show ?thesis by (auto simp: find_mail_def mail_ids_distinct_def claimed_of_row_def)
  qed
  moreover have "distinct (map cl_id cs)"
    using assms(2) distinct_due_rows [of m_id "email_outbox (w_db w)"] by (simp only: ids mail_ids_distinct_def)
  moreover have "find_mail (w_db w') i = map_option (\<lambda>r. if i \<in> cl_id ` set cs then lock_mail (w_clock w) worker r else r)
       (find_mail (w_db w) i)" for i
    using w'(2) by (simp add: set_ids find_mail_def find_update_ids)
  ultimately show ?thesis using w'(1) by (simp add: cs length_due_rows)
qed

lemma find_requeue_mail:
  "find_mail (requeue_mail now stale d) i =
     map_option (\<lambda>r. if stalled_mail now stale r then requeued_mail now r else r) (find_mail d i)"
proof -
  have "find (\<lambda>r. m_id r = i) (map (\<lambda>r. if P r then requeued_mail now r else r) rows) =
    map_option (\<lambda>r. if P r then requeued_mail now r else r) (find (\<lambda>r. m_id r = i) rows)" for P rows
    by (induction rows) (auto simp: requeued_mail_def)
  then show ?thesis by (simp add: find_mail_def requeue_mail_def)
qed

lemma requeue_ids_distinct: "mail_ids_distinct (requeue_mail now stale d) = mail_ids_distinct d"
proof -
  have "map m_id (email_outbox (requeue_mail now stale d)) = map m_id (email_outbox d)"
    by (auto simp: requeue_mail_def requeued_mail_def)
  then show ?thesis by (simp only: mail_ids_distinct_def)
qed

text \<open>
  C33. A pass of the mail worker that finishes has settled everything it took: there is a batch of distinct
  messages, no larger than the configured one, each queued and due or abandoned by a stalled worker before the
  pass; the provider has seen exactly one request per message, in order, with the message's own id as its idempotency key;
  an accepted message is marked sent with the provider's id, every other one has its attempt counted and its
  next attempt scheduled or, at the last attempt, is given up; none is left locked by this worker, and the rows
  outside the batch are as recovering stalled ones left them.
\<close>

theorem a_pass_settles_its_batch:
  assumes "run_once L http (Resend from) no_others cfg s w = ((Inr st, s'), w')" and "mail_ids_distinct (w_db w)"
  shows "\<exists>cs. length cs = st_claimed st \<and> length cs \<le> wc_batch cfg \<and> distinct (map cl_id cs) \<and>
    st_sent st + st_failed st = st_claimed st \<and>
    ms_requests s' = ms_requests s @ map (\<lambda>c. resend_request L from (email_of c)) cs \<and>
    (\<forall>j<length cs. \<exists>r. find_mail (w_db w) (cl_id (cs ! j)) = Some r \<and> cs ! j = claimed_of_row r \<and>
       (m_status r = Queued \<or> stalled_mail (w_clock w) (wc_stale_after_secs cfg) r) \<and> m_next_attempt_at r \<le> w_clock w \<and>
       find_mail (w_db w') (m_id r) = Some (settled (w_clock w) (m_attempts r) (wc_max_attempts cfg)
         (http (length (ms_requests s) + j) (resend_request L from (email_of (cs ! j)))) r)) \<and>
    (\<forall>i. i \<notin> cl_id ` set cs \<longrightarrow>
       find_mail (w_db w') i = find_mail (requeue_mail (w_clock w) (wc_stale_after_secs cfg) (w_db w)) i)"
proof -
  let ?d = "requeue_mail (w_clock w) (wc_stale_after_secs cfg) (w_db w)"
  obtain w1 n w2 cs w3 where aq: "acquire w = (Inr (), w1)"
    and rq: "outbox_requeue_stalled (wc_stale_after_secs cfg) w1 = (Inr n, w2)"
    and tx: "transaction (outbox_claim (wc_worker_id cfg) (wc_batch cfg)) w2 = (Inr cs, w3)"
    and del: "deliver_all L http (Resend from) no_others cfg 2 cs s
        \<lparr>st_requeued = n, st_claimed = length cs, st_sent = 0, st_failed = 0\<rparr> w3 = ((Inr st, s'), w')"
    using assms(1) by (auto simp: run_once_def bind_Inr_iff bind_Inl_iff seq_Inr_iff seq_Inl_iff after_no_others
        split: prod.splits sum.splits)
  have w1: "w_db w1 = w_db w" "w_clock w1 = w_clock w" using aq by (auto simp: acquire_def dest!: round_trip_world)
  have w2: "w_db w2 = ?d" "w_clock w2 = w_clock w" using rq w1 by (auto simp: outbox_requeue_stalled_def sql_Inr_iff)
  obtain v where cl: "outbox_claim (wc_worker_id cfg) (wc_batch cfg) (w2\<lparr>w_calls := Suc (w_calls w2)\<rparr>) = (Inr cs, v)"
    and w3: "w3 = v\<lparr>w_calls := Suc (w_calls v)\<rparr>" using tx by (rule transaction_Inr)
  have dist: "mail_ids_distinct (w_db (w2\<lparr>w_calls := Suc (w_calls w2)\<rparr>))"
    using assms(2) w2 by (simp add: requeue_ids_distinct)
  note claim = outbox_claim_InrD [OF cl dist, simplified, unfolded w2]
  have ck: "w_clock w3 = w_clock w" and db3: "w_db w3 = w_db v" using claim w3 by auto
  have "distinct (map cl_id cs)" using claim by blast
  note D = deliver_all_settles [OF del this, unfolded ck db3, simplified]
  have row: "\<exists>r. find_mail (w_db w) (cl_id (cs ! j)) = Some r \<and> cs ! j = claimed_of_row r \<and>
       (m_status r = Queued \<or> stalled_mail (w_clock w) (wc_stale_after_secs cfg) r) \<and> m_next_attempt_at r \<le> w_clock w \<and>
       find_mail (w_db w') (m_id r) = Some (settled (w_clock w) (m_attempts r) (wc_max_attempts cfg)
         (http (length (ms_requests s) + j) (resend_request L from (email_of (cs ! j)))) r)"
    if j: "j < length cs" for j
  proof -
    let ?c = "cs ! j"
    have c: "?c \<in> set cs" using j by simp
    with claim obtain q where q: "find_mail ?d (cl_id ?c) = Some q" "mail_due (w_clock w) q" "?c = claimed_of_row q" by blast
    then obtain r where r: "find_mail (w_db w) (cl_id ?c) = Some r"
      and qr: "q = (if stalled_mail (w_clock w) (wc_stale_after_secs cfg) r then requeued_mail (w_clock w) r else r)"
      by (auto simp: find_requeue_mail)
    have id: "m_id r = cl_id ?c" using q(3) qr by (auto simp: claimed_of_row_def requeued_mail_def)
    have cr: "?c = claimed_of_row r" using q(3) qr by (auto simp: claimed_of_row_def requeued_mail_def)
    have "find_mail (w_db v) (cl_id ?c) = Some (lock_mail (w_clock w) (wc_worker_id cfg) q)"
      using claim q(1) c w2(2) by auto
    with D j have "find_mail (w_db w') (cl_id ?c) = Some (settled (w_clock w) (cl_attempts ?c) (wc_max_attempts cfg)
         (http (length (ms_requests s) + j) (resend_request L from (email_of ?c))) q)"
      by (simp add: settled_overwrites)
    moreover have "settled t n k a q = settled t n k a r" for t n k a
      using qr by (simp add: settled_overwrites)
    moreover have "cl_attempts ?c = m_attempts r" using cr by (simp add: claimed_of_row_def)
    ultimately show ?thesis using r cr id q(2) qr
      by (intro exI [of _ r]) (auto simp: mail_due_def requeued_mail_def split: if_splits)
  qed
  have rest: "find_mail (w_db w') i = find_mail ?d i" if "i \<notin> cl_id ` set cs" for i
    using D claim that by (simp add: option.map_ident)
  from D claim row rest show ?thesis by (intro exI [of _ cs]) simp
qed


definition accept_all :: http where
  "accept_all k req = Accepted (Inr (Some (lit ''id'')))"

definition worker_example :: world where
  "worker_example = calm_world (empty_db\<lparr>email_outbox := [example_mail 1]\<rparr>) 5"

lemma worker_example_run:
  "\<exists>w'. run_once toy_lib accept_all (Resend (lit ''us@b.c'')) no_others default_worker_config
       \<lparr>ms_requests = [], ms_sent = []\<rparr> worker_example =
     ((Inr \<lparr>st_requeued = 0, st_claimed = 1, st_sent = 1, st_failed = 0\<rparr>,
       \<lparr>ms_requests = [resend_request toy_lib (lit ''us@b.c'') (email_of (claimed_of_row (example_mail 1)))], ms_sent = []\<rparr>), w')"
  by (simp add: run_once_def worker_example_def default_worker_config_def bind_def seq_def after_no_others acquire_def
      round_trip_def outbox_requeue_stalled_def sql_def requeue_mail_def stalled_mail_def example_mail_def
      outbox_row_of_def transaction_def outbox_claim_def outbox_claim_stmt_def due_rows_def mail_due_def
      Let_def ret_def lit_def mailer_send_def resend_send_def accept_all_def settle_def outbox_mark_sent_def
      opt_len_le_def count_outcome_def)

theorem a_pass_settles_its_batch_witness:
  "\<exists>w'. run_once toy_lib accept_all (Resend (lit ''us@b.c'')) no_others default_worker_config
       \<lparr>ms_requests = [], ms_sent = []\<rparr> worker_example =
     ((Inr \<lparr>st_requeued = 0, st_claimed = 1, st_sent = 1, st_failed = 0\<rparr>,
       \<lparr>ms_requests = [resend_request toy_lib (lit ''us@b.c'') (email_of (claimed_of_row (example_mail 1)))], ms_sent = []\<rparr>), w') \<and>
     (\<exists>i r. find_mail (w_db w') i = Some r \<and> m_status r = Sent)"
proof -
  obtain w' where run: "run_once toy_lib accept_all (Resend (lit ''us@b.c'')) no_others default_worker_config
       \<lparr>ms_requests = [], ms_sent = []\<rparr> worker_example =
     ((Inr \<lparr>st_requeued = 0, st_claimed = 1, st_sent = 1, st_failed = 0\<rparr>,
       \<lparr>ms_requests = [resend_request toy_lib (lit ''us@b.c'') (email_of (claimed_of_row (example_mail 1)))], ms_sent = []\<rparr>), w')"
    using worker_example_run by blast
  have "mail_ids_distinct (w_db worker_example)" by (simp add: worker_example_def mail_ids_distinct_def)
  from a_pass_settles_its_batch [OF run this] obtain r a where "find_mail (w_db w') (m_id r) =
      Some (settled 5 (m_attempts r) 8 (accept_all 0 a) r)"
    by (auto simp: worker_example_def default_worker_config_def)
  moreover have "m_status (settled 5 (m_attempts r) 8 (accept_all 0 a) r) = Sent"
    by (simp add: settled_def accepted_def accept_all_def sent_mail_def)
  ultimately show ?thesis using run by blast
qed

text \<open>
  The recorded reason of a failed send never says what went wrong: whatever the provider answered, each message a
  finished pass could not deliver carries the words of an internal error and nothing else, because the worker stores the
  public text of the error and not its cause.
\<close>

theorem failed_sends_record_no_reason:
  assumes "mailer_send L http m e s = (Inl err, s')"
    and "settle cfg c (Inl err) w = (Inr ok, w')"
  shows "\<exists>r. find_mail (w_db w') (cl_id c) = Some r \<and> m_last_error r = Some (lit ''internal error'')"
proof -
  obtain cause where e: "err = Internal cause"
    using assms(1) by (auto simp: mailer_send_def resend_send_def memory_send_def Let_def
        split: mailer.splits http_outcome.splits sum.splits)
  have t: "take 2000 (lit ''internal error'') = lit ''internal error''" by (simp add: lit_def)
  with assms(2) obtain r where r: "find_mail (w_db w) (cl_id c) = Some r"
    and d: "w_db w' = set_mail (cl_id c) (failed_mail (w_clock w) (lit ''internal error'') (backoff_secs (cl_attempts c))
      (wc_max_attempts cfg)) (w_db w)"
    by (auto simp: e settle_def run_iffs outbox_mark_failed_def mark_failed_stmt_def split: option.splits if_splits)
  have "find_mail (w_db w') (cl_id c) = Some (failed_mail (w_clock w) (lit ''internal error'') (backoff_secs (cl_attempts c))
      (wc_max_attempts cfg) r)"
    using r unfolding d by (subst find_set_mail) (simp_all add: failed_mail_def)
  then show ?thesis by (simp add: failed_mail_def)
qed

theorem failed_sends_record_no_reason_witness:
  "\<exists>w' r. settle default_worker_config (claimed_of_row (example_mail 1))
       (fst (mailer_send toy_lib (\<lambda>_ _. Refused (lit ''422'') (lit ''bad address'')) (Resend (lit ''us@b.c''))
         (email_of (claimed_of_row (example_mail 1))) \<lparr>ms_requests = [], ms_sent = []\<rparr>)) worker_example = (Inr False, w') \<and>
     find_mail (w_db w') 1 = Some r \<and> m_last_error r = Some (lit ''internal error'')"
proof -
  let ?c = "claimed_of_row (example_mail 1)" and ?http = "\<lambda>_ _. Refused (lit ''422'') (lit ''bad address'')"
  obtain err s' where send: "mailer_send toy_lib ?http (Resend (lit ''us@b.c'')) (email_of ?c) \<lparr>ms_requests = [], ms_sent = []\<rparr> = (Inl err, s')"
    by (simp add: mailer_send_def resend_send_def Let_def)
  moreover from this obtain w' where run: "settle default_worker_config ?c (Inl err) worker_example = (Inr False, w')"
    by (simp add: settle_def seq_def bind_def outbox_mark_failed_def mark_failed_stmt_def sql_def round_trip_def
        worker_example_def find_mail_def claimed_of_row_def example_mail_def outbox_row_of_def pg_int_ok_def ret_def)
  ultimately have "\<exists>r. find_mail (w_db w') (cl_id ?c) = Some r \<and> m_last_error r = Some (lit ''internal error'')"
    by (rule failed_sends_record_no_reason)
  moreover have "cl_id ?c = 1" by (simp add: claimed_of_row_def example_mail_def outbox_row_of_def)
  ultimately show ?thesis using run by (auto simp: send)
qed

end
