(* ===== verification/Repo_Contractors.thy ===== *)
theory Repo_Contractors
  imports Repo_Users
begin

text \<open>
  \<open>cm-db/src/repo/contractors.rs\<close> without the search projections and the import, with the licence facts of
  \<open>licenses.rs\<close> and the two lookups of \<open>reference.rs\<close> the services use. Every write is one \<open>UPDATE\<close> of the row with an id; PostgreSQL
  checks the new row against the table's constraints, which \<open>update_contractor\<close> spells out.
\<close>

definition address_visibility_parse :: "ustr \<Rightarrow> address_visibility option" where
  "address_visibility_parse v = find (\<lambda>x. address_visibility_str x = v) [Protected, Public]"

definition license_status_parse :: "ustr \<Rightarrow> license_status option" where
  "license_status_parse v =
     find (\<lambda>x. license_status_str x = v) [LActive, LExpired, LSuspended, LInactive, LUnknown]"

definition find_contractor :: "db \<Rightarrow> uuid \<Rightarrow> contractor_row option" where
  "find_contractor d i = find (\<lambda>r. ct_id r = i) (contractors d)"

definition opt_pos :: "int option \<Rightarrow> bool" where
  "opt_pos v = (case v of None \<Rightarrow> True | Some n \<Rightarrow> 0 < n)"

text \<open>The \<open>CHECK\<close>s of migrations 0010, 0019 and 0024 on the columns held here.\<close>

definition contractor_check :: "contractor_row \<Rightarrow> bool" where
  "contractor_check r \<longleftrightarrow>
     opt_len_le 2000 (ct_bio r) \<and> opt_len_le 500 (ct_website_url r) \<and> opt_len_le 32 (ct_public_phone r) \<and>
     opt_len_le 10 (ct_postal_code r) \<and> opt_len_le 500 (ct_verification_reason r) \<and>
     ct_address_visibility r \<in> {lit ''protected'', lit ''public''} \<and>
     (ct_claimed_by r = None) = (ct_claimed_at r = None) \<and>
     (ct_public_point r = None) = (ct_public_point_source r = NoPoint) \<and>
     (ct_verified r \<longrightarrow> ct_verified_at r \<noteq> None) \<and>
     (ct_owner_line1 r = None) = (ct_owner_city r = None) \<and>
     (ct_owner_line1 r = None) = (ct_owner_state r = None) \<and>
     (ct_owner_line1 r = None) = (ct_owner_postal_code r = None) \<and>
     (ct_photo_key r = None) = (ct_photo_width r = None) \<and>
     (ct_photo_key r = None) = (ct_photo_height r = None) \<and>
     opt_pos (ct_photo_width r) \<and> opt_pos (ct_photo_height r)"

text \<open>\<open>contractors_one_per_claimant\<close> and \<open>contractors_photo_storage_key_idx\<close>, against the rows other than \<open>i\<close>.\<close>

definition contractor_taken :: "db \<Rightarrow> uuid \<Rightarrow> contractor_row \<Rightarrow> bool" where
  "contractor_taken d i r \<longleftrightarrow>
     (\<exists>x \<in> set (contractors d). ct_id x \<noteq> i \<and>
        (ct_claimed_by r \<noteq> None \<and> ct_claimed_by x = ct_claimed_by r \<or>
         ct_photo_key r \<noteq> None \<and> ct_photo_key x = ct_photo_key r))"

definition claimant_missing :: "db \<Rightarrow> contractor_row \<Rightarrow> bool" where
  "claimant_missing d r = (case ct_claimed_by r of None \<Rightarrow> False | Some u \<Rightarrow> \<not> user_exists d u)"

definition set_contractor :: "uuid \<Rightarrow> (contractor_row \<Rightarrow> contractor_row) \<Rightarrow> db \<Rightarrow> db" where
  "set_contractor i f d = d\<lparr>contractors := map (\<lambda>r. if ct_id r = i then f r else r) (contractors d)\<rparr>"

definition update_contractor :: "uuid \<Rightarrow> (contractor_row \<Rightarrow> contractor_row) \<Rightarrow> db \<Rightarrow> db res" where
  "update_contractor i f d =
     (case find_contractor d i of
        None \<Rightarrow> Inr d
      | Some r \<Rightarrow>
          if \<not> contractor_check (f r) then Inl (internal ''check constraint of contractors'')
          else if contractor_taken d i (f r) then Inl (internal ''unique constraint of contractors'')
          else if claimant_missing d (f r) then Inl (internal ''contractors foreign key'')
          else Inr (set_contractor i f d))"

definition contractor_sql :: "uuid \<Rightarrow> (time \<Rightarrow> contractor_row \<Rightarrow> contractor_row) \<Rightarrow> unit m" where
  "contractor_sql i f =
     sql (\<lambda>now d. case update_contractor i (f now) d of Inl e \<Rightarrow> Inl e | Inr d' \<Rightarrow> Inr ((), d'))"

subsection \<open>Location\<close>

record location_inputs =
  li_id :: uuid
  li_address_visibility :: address_visibility
  li_postal_code :: "ustr option"
  li_is_claimed :: bool
  li_precise_point :: "point option"

definition location_inputs_of :: "contractor_row \<Rightarrow> location_inputs res" where
  "location_inputs_of r =
     (case address_visibility_parse (ct_address_visibility r) of
        None \<Rightarrow> Inl (Internal (lit ''unknown address visibility: '' @ ct_address_visibility r))
      | Some v \<Rightarrow> Inr \<lparr>li_id = ct_id r, li_address_visibility = v, li_postal_code = ct_postal_code r,
          li_is_claimed = (ct_claimed_by r \<noteq> None), li_precise_point = ct_precise_point r\<rparr>)"

definition contractors_location_inputs :: "uuid \<Rightarrow> location_inputs option m" where
  "contractors_location_inputs i =
     bind (query (\<lambda>_ d. find_contractor d i)) (\<lambda>row.
     case row of
       None \<Rightarrow> ret None
     | Some r \<Rightarrow> bind (of_res (location_inputs_of r)) (\<lambda>inputs. ret (Some inputs)))"

definition contractors_set_precise_point :: "uuid \<Rightarrow> f64 \<Rightarrow> f64 \<Rightarrow> unit m" where
  "contractors_set_precise_point i lon lat = contractor_sql i (\<lambda>_ r. r\<lparr>ct_precise_point := Some (lon, lat)\<rparr>)"

definition located_row :: "point option \<Rightarrow> point option \<Rightarrow> point_source \<Rightarrow> contractor_row \<Rightarrow> contractor_row" where
  "located_row precise public source r =
     r\<lparr>ct_precise_point := precise, ct_public_point := public, ct_public_point_source := source\<rparr>"

definition contractors_set_location :: "uuid \<Rightarrow> point option \<Rightarrow> point option \<Rightarrow> point_source \<Rightarrow> unit m" where
  "contractors_set_location i precise public source = contractor_sql i (\<lambda>_. located_row precise public source)"

definition find_license :: "db \<Rightarrow> contractor_row \<Rightarrow> license_row option" where
  "find_license d r =
     (case ct_license_record_id r of
        None \<Rightarrow> None
      | Some l \<Rightarrow> find (\<lambda>x. l_id x = l) (license_records d))"

definition coalesce :: "'a option \<Rightarrow> 'a option \<Rightarrow> 'a option" where
  "coalesce a b = (case a of None \<Rightarrow> b | Some x \<Rightarrow> Some x)"

definition address_parts :: "db \<Rightarrow> contractor_row \<Rightarrow> ustr option list" where
  "address_parts d r =
     (let l = find_license d r;
          part = (\<lambda>sel. case l of None \<Rightarrow> None | Some x \<Rightarrow> sel x) in
      [coalesce (ct_owner_line1 r) (part l_address_line1), coalesce (ct_owner_city r) (part l_city),
       coalesce (ct_owner_state r) (part l_state), coalesce (ct_owner_postal_code r) (part l_postal_code)])"

fun join :: "ustr \<Rightarrow> ustr list \<Rightarrow> ustr" where
  "join sep [] = []"
| "join sep [x] = x"
| "join sep (x # y # ys) = x @ sep @ join sep (y # ys)"

definition address_text :: "ustr option list \<Rightarrow> ustr option" where
  "address_text parts =
     (let kept = filter (\<lambda>p. p \<noteq> []) (map trim (List.map_filter (\<lambda>p. p) parts)) in
      if kept = [] then None else Some (join (lit '', '') kept))"

definition contractors_geocodable_address :: "uuid \<Rightarrow> ustr option m" where
  "contractors_geocodable_address i =
     query (\<lambda>_ d. case find_contractor d i of None \<Rightarrow> None | Some r \<Rightarrow> address_text (address_parts d r))"

subsection \<open>Ownership\<close>

definition claimed_row :: "uuid \<Rightarrow> time \<Rightarrow> contractor_row \<Rightarrow> contractor_row" where
  "claimed_row uid now r = r\<lparr>ct_claimed_by := Some uid, ct_claimed_at := Some now, ct_accepts_dm := True\<rparr>"

definition attach_claimant_stmt :: "uuid \<Rightarrow> uuid \<Rightarrow> time \<Rightarrow> db \<Rightarrow> (bool \<times> db) res" where
  "attach_claimant_stmt i uid now d =
     (case find_contractor d i of
        None \<Rightarrow> Inr (False, d)
      | Some r \<Rightarrow>
          if ct_claimed_by r \<noteq> None then Inr (False, d)
          else case update_contractor i (claimed_row uid now) d of Inl e \<Rightarrow> Inl e | Inr d' \<Rightarrow> Inr (True, d'))"

definition contractors_attach_claimant :: "uuid \<Rightarrow> uuid \<Rightarrow> bool m" where
  "contractors_attach_claimant i uid = sql (attach_claimant_stmt i uid)"

definition listing_of :: "db \<Rightarrow> uuid \<Rightarrow> uuid option" where
  "listing_of d uid = map_option ct_id (find (\<lambda>r. ct_claimed_by r = Some uid) (contractors d))"

definition contractors_claimed_by :: "uuid \<Rightarrow> uuid option m" where
  "contractors_claimed_by uid = query (\<lambda>_ d. listing_of d uid)"

record owner_address =
  oa_line1 :: ustr
  oa_city :: ustr
  oa_state :: ustr
  oa_postal_code :: ustr

datatype 'a edit = Unchanged | Set 'a | Cleared

definition edit_parts :: "'a edit \<Rightarrow> bool \<times> 'a option" where
  "edit_parts e = (case e of Unchanged \<Rightarrow> (False, None) | Set v \<Rightarrow> (True, Some v) | Cleared \<Rightarrow> (True, None))"

record profile_update =
  pu_bio :: "ustr option"
  pu_website_url :: "ustr option"
  pu_public_phone :: "ustr option"
  pu_accepts_dm :: "bool option"
  pu_address_visibility :: "address_visibility option"
  pu_owner_address :: "owner_address edit"
  pu_google_review_url :: "ustr edit"
  pu_yelp_url :: "ustr edit"

definition written :: "bool \<times> 'a option \<Rightarrow> 'a option \<Rightarrow> 'a option" where
  "written e old = (if fst e then snd e else old)"

definition profile_row :: "profile_update \<Rightarrow> contractor_row \<Rightarrow> contractor_row" where
  "profile_row u r =
     (let (write_address, address) = edit_parts (pu_owner_address u) in
      r\<lparr>ct_bio := coalesce (pu_bio u) (ct_bio r),
        ct_website_url := coalesce (pu_website_url u) (ct_website_url r),
        ct_public_phone := coalesce (pu_public_phone u) (ct_public_phone r),
        ct_accepts_dm := (case pu_accepts_dm u of None \<Rightarrow> ct_accepts_dm r | Some b \<Rightarrow> b),
        ct_address_visibility := (case pu_address_visibility u of
            None \<Rightarrow> ct_address_visibility r | Some v \<Rightarrow> address_visibility_str v),
        ct_owner_line1 := written (write_address, map_option oa_line1 address) (ct_owner_line1 r),
        ct_owner_city := written (write_address, map_option oa_city address) (ct_owner_city r),
        ct_owner_state := written (write_address, map_option oa_state address) (ct_owner_state r),
        ct_owner_postal_code := written (write_address, map_option oa_postal_code address) (ct_owner_postal_code r),
        ct_google_review_url := written (edit_parts (pu_google_review_url u)) (ct_google_review_url r),
        ct_yelp_url := written (edit_parts (pu_yelp_url u)) (ct_yelp_url r)\<rparr>)"

definition contractors_update_profile :: "uuid \<Rightarrow> profile_update \<Rightarrow> unit m" where
  "contractors_update_profile i u = contractor_sql i (\<lambda>_. profile_row u)"

subsection \<open>The profile photo\<close>

definition with_photo :: "ustr option \<Rightarrow> int option \<Rightarrow> int option \<Rightarrow> contractor_row \<Rightarrow> contractor_row" where
  "with_photo key width height r = r\<lparr>ct_photo_key := key, ct_photo_width := width, ct_photo_height := height\<rparr>"

text \<open>The common table expression of the first reads the old row; \<open>RETURNING\<close> of the second reads the new one.\<close>

definition set_photo_stmt :: "uuid \<Rightarrow> ustr \<Rightarrow> nat \<Rightarrow> nat \<Rightarrow> time \<Rightarrow> db \<Rightarrow> (ustr option \<times> db) res" where
  "set_photo_stmt i key width height now d =
     (case update_contractor i (with_photo (Some key) (Some (as_i32 (int width))) (Some (as_i32 (int height)))) d of
        Inl e \<Rightarrow> Inl e
      | Inr d' \<Rightarrow> Inr (case find_contractor d i of None \<Rightarrow> None | Some r \<Rightarrow> ct_photo_key r, d'))"

definition contractors_set_photo :: "uuid \<Rightarrow> ustr \<Rightarrow> nat \<Rightarrow> nat \<Rightarrow> ustr option m" where
  "contractors_set_photo i key width height =
     bind (sql (set_photo_stmt i key width height)) (\<lambda>previous.
     ret (case previous of None \<Rightarrow> None | Some old \<Rightarrow> if old \<noteq> key then Some old else None))"

definition clear_photo_stmt :: "uuid \<Rightarrow> time \<Rightarrow> db \<Rightarrow> (ustr option \<times> db) res" where
  "clear_photo_stmt i now d =
     (case update_contractor i (with_photo None None None) d of
        Inl e \<Rightarrow> Inl e
      | Inr d' \<Rightarrow> Inr (case find_contractor d' i of None \<Rightarrow> None | Some r \<Rightarrow> ct_photo_key r, d'))"

definition contractors_clear_photo :: "uuid \<Rightarrow> ustr option m" where
  "contractors_clear_photo i = sql (clear_photo_stmt i)"

subsection \<open>The badge, licences and messages\<close>

definition verification_row :: "bool \<Rightarrow> ustr \<Rightarrow> time \<Rightarrow> contractor_row \<Rightarrow> contractor_row" where
  "verification_row verified reason now r =
     r\<lparr>ct_verified := verified, ct_verified_at := (if verified then Some now else None),
       ct_verification_reason := Some reason\<rparr>"

definition contractors_set_verification :: "uuid \<Rightarrow> bool \<Rightarrow> ustr \<Rightarrow> unit m" where
  "contractors_set_verification i verified reason = contractor_sql i (verification_row verified reason)"

definition contractors_ids_for_license :: "uuid \<Rightarrow> uuid list m" where
  "contractors_ids_for_license l =
     query (\<lambda>_ d. map ct_id (filter (\<lambda>r. ct_license_record_id r = Some l) (contractors d)))"

record messaging_target =
  mt_claimed_by_user_id :: "uuid option"
  mt_accepts_dm :: bool

definition target_of :: "contractor_row \<Rightarrow> messaging_target" where
  "target_of r = \<lparr>mt_claimed_by_user_id = ct_claimed_by r, mt_accepts_dm = ct_accepts_dm r\<rparr>"

definition contractors_messaging_target :: "uuid \<Rightarrow> messaging_target option m" where
  "contractors_messaging_target i = query (\<lambda>_ d. map_option target_of (find_contractor d i))"

record license_facts =
  lf_license_no :: ustr
  lf_status :: license_status
  lf_expiration_date :: "date option"
  lf_last_seen_at :: time

definition facts_of_license :: "license_row \<Rightarrow> license_facts res" where
  "facts_of_license l =
     (case license_status_parse (l_status l) of
        None \<Rightarrow> Inl (Internal (lit ''unknown licence status in database: '' @ l_status l))
      | Some s \<Rightarrow> Inr \<lparr>lf_license_no = l_license_no l, lf_status = s,
          lf_expiration_date = l_expiration_date l, lf_last_seen_at = l_last_seen_at l\<rparr>)"

definition license_of :: "db \<Rightarrow> uuid \<Rightarrow> license_row option" where
  "license_of d i = (case find_contractor d i of None \<Rightarrow> None | Some r \<Rightarrow> find_license d r)"

definition licenses_facts_for_contractor :: "uuid \<Rightarrow> license_facts option m" where
  "licenses_facts_for_contractor i =
     bind (query (\<lambda>_ d. license_of d i)) (\<lambda>row.
     case row of
       None \<Rightarrow> ret None
     | Some l \<Rightarrow> bind (of_res (facts_of_license l)) (\<lambda>f. ret (Some f)))"

definition reference_find_zcta :: "ustr \<Rightarrow> region_row option m" where
  "reference_find_zcta code = query (\<lambda>_ d. find (\<lambda>r. rg_code r = code) (zctas d))"

definition reference_trade_ids_for_slugs :: "ustr list \<Rightarrow> uuid list m" where
  "reference_trade_ids_for_slugs slugs =
     query (\<lambda>_ d. map tr_id (filter (\<lambda>t. tr_slug t \<in> set slugs) (trades d)))"

end
