(* ===== verification/Repo_Messaging.thy ===== *)
theory Repo_Messaging
  imports Repo_Contractors "HOL-Library.Product_Lexorder"
begin

text \<open>
  \<open>cm-db/src/repo/messaging.rs\<close>: conversations between two people, the messages in them, blocks and reports.
  A message takes its sequence number from the counter of its conversation; \<open>conversation_log\<close> below is the abstract view of a
  conversation, the list of its messages, and the statements refine appending to it and reading a suffix of it.
\<close>

record conversation =
  cn_id :: uuid
  cn_contractor_id :: "uuid option"
  cn_last_seq :: int
  cn_last_message_at :: "time option"
  cn_created_at :: time

definition conversation_of :: "conversation_row \<Rightarrow> conversation" where
  "conversation_of r = \<lparr>cn_id = cv_id r, cn_contractor_id = cv_contractor_id r, cn_last_seq = cv_last_seq r,
     cn_last_message_at = cv_last_message_at r, cn_created_at = cv_created_at r\<rparr>"

record message =
  mg_id :: uuid
  mg_conversation_id :: uuid
  mg_seq :: int
  mg_sender :: uuid
  mg_body :: ustr
  mg_created_at :: time
  mg_deleted :: bool

definition message_of :: "message_row \<Rightarrow> message" where
  "message_of r = \<lparr>mg_id = dm_id r, mg_conversation_id = dm_conversation_id r, mg_seq = dm_seq r,
     mg_sender = dm_sender r,
     mg_body = (if dm_deleted_at r \<noteq> None then lit ''[removed]'' else dm_body r),
     mg_created_at = dm_created_at r, mg_deleted = (dm_deleted_at r \<noteq> None)\<rparr>"

definition ordered :: "uuid \<Rightarrow> uuid \<Rightarrow> uuid \<times> uuid" where
  "ordered a b = (if a < b then (a, b) else (b, a))"

subsection \<open>Conversations\<close>

definition find_pair :: "db \<Rightarrow> uuid \<times> uuid \<Rightarrow> conversation_row option" where
  "find_pair d p = find (\<lambda>r. (cv_dm_lo r, cv_dm_hi r) = p) (conversations d)"

definition opt_missing :: "('a \<Rightarrow> bool) \<Rightarrow> 'a option \<Rightarrow> bool" where
  "opt_missing exists v = (case v of None \<Rightarrow> False | Some x \<Rightarrow> \<not> exists x)"

definition job_exists :: "db \<Rightarrow> uuid \<Rightarrow> bool" where
  "job_exists d j \<longleftrightarrow> j \<in> jb_id ` set (jobs d)"

definition new_dm :: "time \<Rightarrow> uuid \<Rightarrow> uuid option \<Rightarrow> uuid \<times> uuid \<Rightarrow> uuid \<Rightarrow> uuid option \<Rightarrow> conversation_row" where
  "new_dm now i contractor_id p initiator job_id =
     \<lparr>cv_id = i, cv_contractor_id = contractor_id, cv_dm_lo = fst p, cv_dm_hi = snd p, cv_last_seq = 0,
      cv_last_message_at = None, cv_created_by = initiator, cv_created_at = now, cv_job_id = job_id\<rparr>"

text \<open>\<open>INSERT ... ON CONFLICT DO NOTHING RETURNING id\<close>.\<close>

definition insert_dm_stmt ::
  "uuid \<Rightarrow> uuid option \<Rightarrow> uuid \<times> uuid \<Rightarrow> uuid \<Rightarrow> uuid option \<Rightarrow> time \<Rightarrow> db \<Rightarrow> (uuid option \<times> db) res" where
  "insert_dm_stmt i contractor_id p initiator job_id now d =
     (if \<not> fst p < snd p then Inl (internal ''conversations_dm_pair_is_ordered'')
      else if i \<in> cv_id ` set (conversations d) \<or> find_pair d p \<noteq> None then Inr (None, d)
      else if opt_missing (contractor_exists d) contractor_id \<or> \<not> user_exists d (fst p) \<or>
              \<not> user_exists d (snd p) \<or> \<not> user_exists d initiator \<or> opt_missing (job_exists d) job_id then
        Inl (internal ''conversations foreign key'')
      else Inr (Some i, d\<lparr>conversations := conversations d @ [new_dm now i contractor_id p initiator job_id]\<rparr>))"

definition select_dm :: "uuid \<times> uuid \<Rightarrow> conversation_row m" where
  "select_dm p =
     sql (\<lambda>_ d. case find_pair d p of None \<Rightarrow> Inl (internal ''no rows returned'') | Some r \<Rightarrow> Inr (r, d))"

definition is_member :: "db \<Rightarrow> uuid \<Rightarrow> uuid \<Rightarrow> bool" where
  "is_member d cid uid \<longleftrightarrow>
     (\<exists>p \<in> set (conversation_participants d). cp_conversation_id p = cid \<and> cp_user_id p = uid)"

definition conversation_exists :: "db \<Rightarrow> uuid \<Rightarrow> bool" where
  "conversation_exists d cid \<longleftrightarrow> cid \<in> cv_id ` set (conversations d)"

definition insert_participant_stmt :: "uuid \<Rightarrow> uuid \<Rightarrow> string \<Rightarrow> time \<Rightarrow> db \<Rightarrow> (unit \<times> db) res" where
  "insert_participant_stmt cid uid who now d =
     (if is_member d cid uid then Inr ((), d)
      else if \<not> conversation_exists d cid \<or> \<not> user_exists d uid then
        Inl (internal ''conversation_participants foreign key'')
      else Inr ((), d\<lparr>conversation_participants := conversation_participants d @
             [\<lparr>cp_conversation_id = cid, cp_user_id = uid, cp_role = lit who, cp_last_read_seq = 0\<rparr>]\<rparr>))"

definition messaging_find_or_create_dm ::
  "uuid \<Rightarrow> uuid \<Rightarrow> uuid option \<Rightarrow> uuid option \<Rightarrow> (conversation \<times> bool) m" where
  "messaging_find_or_create_dm initiator recipient contractor_id job_id =
     (if initiator = recipient then throw (invalid ''You cannot start a conversation with yourself.'')
      else
        let p = ordered initiator recipient in
        bind new_id (\<lambda>i.
        bind (sql (insert_dm_stmt i contractor_id p initiator job_id)) (\<lambda>inserted.
        bind (select_dm p) (\<lambda>r.
        seq (if inserted \<noteq> None then
               seq (sql (insert_participant_stmt (cv_id r) initiator ''initiator''))
                   (sql (insert_participant_stmt (cv_id r) recipient ''recipient''))
             else ret ())
        (ret (conversation_of r, inserted \<noteq> None))))))"

definition messaging_is_participant :: "uuid \<Rightarrow> uuid \<Rightarrow> bool m" where
  "messaging_is_participant cid uid = query (\<lambda>_ d. is_member d cid uid)"

definition other_member :: "db \<Rightarrow> uuid \<Rightarrow> uuid \<Rightarrow> uuid option" where
  "other_member d cid uid = map_option cp_user_id
     (find (\<lambda>p. cp_conversation_id p = cid \<and> cp_user_id p \<noteq> uid) (conversation_participants d))"

definition messaging_counterpart :: "uuid \<Rightarrow> uuid \<Rightarrow> uuid option m" where
  "messaging_counterpart cid uid = query (\<lambda>_ d. other_member d cid uid)"

record conversation_summary =
  sm_id :: uuid
  sm_contractor_id :: "uuid option"
  sm_counterpart_user_id :: "uuid option"
  sm_counterpart_name :: "ustr option"
  sm_last_seq :: int
  sm_last_read_seq :: int
  sm_unread :: int
  sm_last_message_at :: "time option"

definition name_of :: "db \<Rightarrow> uuid \<Rightarrow> ustr option" where
  "name_of d uid = map_option u_display_name (find (\<lambda>u. u_id u = uid) (users d))"

definition summary_of :: "db \<Rightarrow> participant_row \<Rightarrow> conversation_row \<Rightarrow> participant_row option \<Rightarrow> conversation_summary" where
  "summary_of d p c other =
     \<lparr>sm_id = cv_id c, sm_contractor_id = cv_contractor_id c,
      sm_counterpart_user_id = map_option cp_user_id other,
      sm_counterpart_name = (case other of None \<Rightarrow> None | Some x \<Rightarrow> name_of d (cp_user_id x)),
      sm_last_seq = cv_last_seq c, sm_last_read_seq = cp_last_read_seq p,
      sm_unread = max (cv_last_seq c - cp_last_read_seq p) 0, sm_last_message_at = cv_last_message_at c\<rparr>"

text \<open>The joins of \<open>list_for_user\<close>, and its order: latest message first, no message last, then by id.\<close>

definition others_of :: "db \<Rightarrow> participant_row \<Rightarrow> participant_row option list" where
  "others_of d p =
     (let xs = filter (\<lambda>x. cp_conversation_id x = cp_conversation_id p \<and> cp_user_id x \<noteq> cp_user_id p)
                 (conversation_participants d) in
      if xs = [] then [None] else map Some xs)"

definition summaries :: "db \<Rightarrow> uuid \<Rightarrow> conversation_summary list" where
  "summaries d uid =
     concat (map (\<lambda>p. concat (map (\<lambda>c. map (summary_of d p c) (others_of d p))
         (filter (\<lambda>c. cv_id c = cp_conversation_id p) (conversations d))))
       (filter (\<lambda>p. cp_user_id p = uid) (conversation_participants d)))"

definition recent_key :: "conversation_summary \<Rightarrow> (nat \<times> int) \<times> uuid" where
  "recent_key s = (case sm_last_message_at s of None \<Rightarrow> (1, 0) | Some t \<Rightarrow> (0, - t), sm_id s)"

definition clamp :: "int \<Rightarrow> int \<Rightarrow> int \<Rightarrow> int" where
  "clamp lo hi n = max lo (min hi n)"

definition messaging_list_for_user :: "uuid \<Rightarrow> int \<Rightarrow> conversation_summary list m" where
  "messaging_list_for_user uid limit =
     query (\<lambda>_ d. take (nat (clamp 1 100 limit)) (sort_key recent_key (summaries d uid)))"

subsection \<open>Messages\<close>

text \<open>PostgreSQL's \<open>bigint\<close>.\<close>

definition pg_bigint_ok :: "int \<Rightarrow> bool" where
  "pg_bigint_ok n \<longleftrightarrow> - (2 ^ 63) \<le> n \<and> n < 2 ^ 63"

definition next_seq_stmt :: "uuid \<Rightarrow> time \<Rightarrow> db \<Rightarrow> (int \<times> db) res" where
  "next_seq_stmt cid now d =
     (case find (\<lambda>r. cv_id r = cid) (conversations d) of
        None \<Rightarrow> Inl (internal ''no rows returned'')
      | Some r \<Rightarrow>
          if \<not> pg_bigint_ok (cv_last_seq r + 1) then Inl (internal ''bigint out of range'')
          else Inr (cv_last_seq r + 1,
            d\<lparr>conversations := map (\<lambda>c. if cv_id c = cid
                 then c\<lparr>cv_last_seq := cv_last_seq c + 1, cv_last_message_at := Some now\<rparr> else c) (conversations d)\<rparr>))"

definition message_check :: "message_row \<Rightarrow> bool" where
  "message_check r \<longleftrightarrow> 0 < dm_seq r \<and> btrim (dm_body r) \<noteq> [] \<and> length (dm_body r) \<le> 4000"

definition new_message :: "time \<Rightarrow> uuid \<Rightarrow> uuid \<Rightarrow> int \<Rightarrow> uuid \<Rightarrow> ustr \<Rightarrow> message_row" where
  "new_message now i cid s sender body =
     \<lparr>dm_id = i, dm_conversation_id = cid, dm_seq = s, dm_sender = sender, dm_body = body,
      dm_deleted_at = None, dm_deleted_by = None, dm_created_at = now\<rparr>"

definition insert_message_stmt :: "uuid \<Rightarrow> uuid \<Rightarrow> int \<Rightarrow> uuid \<Rightarrow> ustr \<Rightarrow> time \<Rightarrow> db \<Rightarrow> (message \<times> db) res" where
  "insert_message_stmt i cid s sender body now d =
     (let row = new_message now i cid s sender body in
      if \<not> message_check row then Inl (internal ''check constraint of messages'')
      else if i \<in> dm_id ` set (messages d) then Inl (internal ''messages_pkey'')
      else if (\<exists>x \<in> set (messages d). dm_conversation_id x = cid \<and> dm_seq x = s) then Inl (internal ''messages_seq_key'')
      else if \<not> conversation_exists d cid \<or> \<not> user_exists d sender then Inl (internal ''messages foreign key'')
      else Inr (message_of row, d\<lparr>messages := messages d @ [row]\<rparr>))"

definition messaging_send :: "uuid \<Rightarrow> uuid \<Rightarrow> ustr \<Rightarrow> message m" where
  "messaging_send cid sender body =
     bind (sql (next_seq_stmt cid)) (\<lambda>s.
     bind new_id (\<lambda>i. sql (insert_message_stmt i cid s sender body)))"

definition messages_after :: "db \<Rightarrow> uuid \<Rightarrow> int \<Rightarrow> message_row list" where
  "messages_after d cid after =
     sort_key dm_seq (filter (\<lambda>r. dm_conversation_id r = cid \<and> after < dm_seq r) (messages d))"

definition messaging_after_seq :: "uuid \<Rightarrow> int \<Rightarrow> int \<Rightarrow> message list m" where
  "messaging_after_seq cid after limit =
     query (\<lambda>_ d. map message_of (take (nat (clamp 1 100 limit)) (messages_after d cid after)))"

definition messaging_mark_read :: "uuid \<Rightarrow> uuid \<Rightarrow> int \<Rightarrow> unit m" where
  "messaging_mark_read cid uid up_to_seq =
     execute (\<lambda>_ d. d\<lparr>conversation_participants := map (\<lambda>p.
       if cp_conversation_id p = cid \<and> cp_user_id p = uid
       then p\<lparr>cp_last_read_seq := max (cp_last_read_seq p) up_to_seq\<rparr> else p) (conversation_participants d)\<rparr>)"

definition deletable :: "uuid \<Rightarrow> uuid \<Rightarrow> uuid \<Rightarrow> message_row \<Rightarrow> bool" where
  "deletable cid mid sender r \<longleftrightarrow>
     dm_id r = mid \<and> dm_conversation_id r = cid \<and> dm_sender r = sender \<and> dm_deleted_at r = None"

definition soft_delete_stmt :: "uuid \<Rightarrow> uuid \<Rightarrow> uuid \<Rightarrow> time \<Rightarrow> db \<Rightarrow> (nat \<times> db) res" where
  "soft_delete_stmt cid mid sender now d =
     Inr (length (filter (deletable cid mid sender) (messages d)),
          d\<lparr>messages := map (\<lambda>r. if deletable cid mid sender r
              then r\<lparr>dm_deleted_at := Some now, dm_deleted_by := Some sender\<rparr> else r) (messages d)\<rparr>)"

definition messaging_soft_delete :: "uuid \<Rightarrow> uuid \<Rightarrow> uuid \<Rightarrow> bool m" where
  "messaging_soft_delete cid mid sender =
     bind (sql (soft_delete_stmt cid mid sender)) (\<lambda>n. ret (n = 1))"

subsection \<open>Blocks\<close>

definition has_blocked :: "db \<Rightarrow> uuid \<Rightarrow> uuid \<Rightarrow> bool" where
  "has_blocked d a b \<longleftrightarrow> (\<exists>r \<in> set (user_blocks d). bk_blocker r = a \<and> bk_blocked r = b)"

definition block_stmt :: "uuid \<Rightarrow> uuid \<Rightarrow> ustr option \<Rightarrow> time \<Rightarrow> db \<Rightarrow> (unit \<times> db) res" where
  "block_stmt blocker blocked reason now d =
     (if blocker = blocked \<or> \<not> opt_len_le 500 reason then Inl (internal ''check constraint of user_blocks'')
      else if has_blocked d blocker blocked then
        Inr ((), d\<lparr>user_blocks := map (\<lambda>r. if bk_blocker r = blocker \<and> bk_blocked r = blocked
               then r\<lparr>bk_reason := reason\<rparr> else r) (user_blocks d)\<rparr>)
      else if \<not> user_exists d blocker \<or> \<not> user_exists d blocked then Inl (internal ''user_blocks foreign key'')
      else Inr ((), d\<lparr>user_blocks := user_blocks d @
             [\<lparr>bk_blocker = blocker, bk_blocked = blocked, bk_reason = reason, bk_created_at = now\<rparr>]\<rparr>))"

definition messaging_block :: "uuid \<Rightarrow> uuid \<Rightarrow> ustr option \<Rightarrow> unit m" where
  "messaging_block blocker blocked reason =
     (if blocker = blocked then throw (invalid ''You cannot block yourself.'')
      else sql (block_stmt blocker blocked reason))"

definition messaging_unblock :: "uuid \<Rightarrow> uuid \<Rightarrow> bool m" where
  "messaging_unblock blocker blocked =
     sql (\<lambda>_ d. Inr (length (filter (\<lambda>r. bk_blocker r = blocker \<and> bk_blocked r = blocked) (user_blocks d)) = 1,
       d\<lparr>user_blocks := filter (\<lambda>r. \<not> (bk_blocker r = blocker \<and> bk_blocked r = blocked)) (user_blocks d)\<rparr>))"

definition blocked_pair :: "db \<Rightarrow> uuid \<Rightarrow> uuid \<Rightarrow> bool" where
  "blocked_pair d a b \<longleftrightarrow> has_blocked d a b \<or> has_blocked d b a"

definition messaging_blocked_either_way :: "uuid \<Rightarrow> uuid \<Rightarrow> bool m" where
  "messaging_blocked_either_way a b = query (\<lambda>_ d. blocked_pair d a b)"

definition messaging_blocks_by :: "uuid \<Rightarrow> uuid list m" where
  "messaging_blocks_by blocker =
     query (\<lambda>_ d. map bk_blocked (sort_key bk_created_at (filter (\<lambda>r. bk_blocker r = blocker) (user_blocks d))))"

subsection \<open>Reports\<close>

record report =
  rt_id :: uuid
  rt_conversation_id :: uuid
  rt_message_id :: "uuid option"
  rt_reason :: ustr
  rt_status :: ustr
  rt_created_at :: time

definition report_of :: "report_row \<Rightarrow> report" where
  "report_of r = \<lparr>rt_id = rp_id r, rt_conversation_id = rp_conversation_id r, rt_message_id = rp_message_id r,
     rt_reason = rp_reason r, rt_status = rp_status r, rt_created_at = rp_created_at r\<rparr>"

definition report_reasons :: "ustr list" where
  "report_reasons = [lit ''spam'', lit ''harassment'', lit ''scam'', lit ''off_platform_payment'', lit ''other'']"

definition report_statuses :: "ustr list" where
  "report_statuses = [lit ''open'', lit ''reviewing'', lit ''actioned'', lit ''dismissed'']"

definition message_exists :: "db \<Rightarrow> uuid \<Rightarrow> bool" where
  "message_exists d i \<longleftrightarrow> i \<in> dm_id ` set (messages d)"

definition new_report :: "time \<Rightarrow> uuid \<Rightarrow> uuid \<Rightarrow> uuid \<Rightarrow> uuid option \<Rightarrow> ustr \<Rightarrow> ustr option \<Rightarrow> report_row" where
  "new_report now i reporter cid mid reason detail =
     \<lparr>rp_id = i, rp_reporter = reporter, rp_conversation_id = cid, rp_message_id = mid, rp_reason = reason,
      rp_detail = detail, rp_status = lit ''open'', rp_reviewed_at = None, rp_reviewed_by = None, rp_created_at = now\<rparr>"

definition report_stmt ::
  "uuid \<Rightarrow> uuid \<Rightarrow> uuid \<Rightarrow> uuid option \<Rightarrow> ustr \<Rightarrow> ustr option \<Rightarrow> time \<Rightarrow> db \<Rightarrow> (report \<times> db) res" where
  "report_stmt i reporter cid mid reason detail now d =
     (let row = new_report now i reporter cid mid reason detail in
      if reason \<notin> set report_reasons \<or> \<not> opt_len_le 2000 detail then
        Inl (internal ''check constraint of message_reports'')
      else if i \<in> rp_id ` set (message_reports d) then Inl (internal ''message_reports_pkey'')
      else if mid \<noteq> None \<and> (\<exists>x \<in> set (message_reports d). rp_reporter x = reporter \<and> rp_message_id x = mid) then
        Inl (conflict ''You have already reported that message.'')
      else if \<not> user_exists d reporter \<or> \<not> conversation_exists d cid \<or> opt_missing (message_exists d) mid then
        Inl (internal ''message_reports foreign key'')
      else Inr (report_of row, d\<lparr>message_reports := message_reports d @ [row]\<rparr>))"

definition messaging_report :: "uuid \<Rightarrow> uuid \<Rightarrow> uuid option \<Rightarrow> ustr \<Rightarrow> ustr option \<Rightarrow> report m" where
  "messaging_report reporter cid mid reason detail =
     bind new_id (\<lambda>i. sql (report_stmt i reporter cid mid reason detail))"

definition messaging_open_reports :: "int \<Rightarrow> report list m" where
  "messaging_open_reports limit =
     query (\<lambda>_ d. map report_of (take (nat (clamp 1 200 limit))
       (sort_key rp_created_at (filter (\<lambda>r. rp_status r = lit ''open'') (message_reports d)))))"

definition resolvable :: "uuid \<Rightarrow> report_row \<Rightarrow> bool" where
  "resolvable i r \<longleftrightarrow> rp_id r = i \<and> rp_status r \<in> {lit ''open'', lit ''reviewing''}"

definition resolve_stmt :: "uuid \<Rightarrow> ustr \<Rightarrow> uuid \<Rightarrow> time \<Rightarrow> db \<Rightarrow> (nat \<times> db) res" where
  "resolve_stmt i status reviewer now d =
     (let n = length (filter (resolvable i) (message_reports d)) in
      if 0 < n \<and> status \<notin> set report_statuses then Inl (internal ''check constraint of message_reports'')
      else if 0 < n \<and> \<not> user_exists d reviewer then Inl (internal ''message_reports foreign key'')
      else Inr (n, d\<lparr>message_reports := map (\<lambda>r. if resolvable i r
             then r\<lparr>rp_status := status, rp_reviewed_at := Some now, rp_reviewed_by := Some reviewer\<rparr> else r) (message_reports d)\<rparr>))"

definition messaging_resolve_report :: "uuid \<Rightarrow> ustr \<Rightarrow> uuid \<Rightarrow> bool m" where
  "messaging_resolve_report i status reviewer =
     bind (sql (resolve_stmt i status reviewer)) (\<lambda>n. ret (n = 1))"

end
