(* ===== verification/Service_Runs.thy ===== *)
theory Service_Runs
  imports Db_Monad
begin

text \<open>
  Runs of a service: its requests, one after the other, each interrupted before any of its connections by runs of other requests.
  Between requests everything may change but the tables the service looks after: the clock, faults,
  identifiers, and every table written by other services. The contract \<open>served\<close> says that one request keeps an invariant of those tables when its
  interruptions do; then every run does.
\<close>

named_theorems commits_intros \<open>transaction bodies that commit an invariant\<close>

inductive runs :: "(env \<Rightarrow> 'r \<Rightarrow> world \<Rightarrow> world) \<Rightarrow> (db \<Rightarrow> 't) \<Rightarrow> world \<Rightarrow> world \<Rightarrow> bool" for run tables where
  runs_here: "runs run tables w w"
| runs_elsewhere: "runs run tables w w1 \<Longrightarrow> tables (w_db w2) = tables (w_db w1) \<Longrightarrow> runs run tables w w2"
| runs_request: "runs run tables w w1 \<Longrightarrow> (\<And>k v. runs run tables v (env k v)) \<Longrightarrow> runs run tables w (run env r w1)"

definition undisturbed :: "(db \<Rightarrow> bool) \<Rightarrow> env \<Rightarrow> bool" where
  "undisturbed P env \<longleftrightarrow> (\<forall>k v. P (w_db v) \<longrightarrow> P (w_db (env k v)))"

locale served =
  fixes run :: "env \<Rightarrow> 'r \<Rightarrow> world \<Rightarrow> world"
    and tables :: "db \<Rightarrow> 't"
    and inv :: "db \<Rightarrow> bool"
  assumes inv_tables: "tables d = tables d' \<Longrightarrow> inv d \<Longrightarrow> inv d'"
    and run_keeps: "undisturbed inv env \<Longrightarrow> inv (w_db w) \<Longrightarrow> inv (w_db (run env r w))"
begin

lemma runs_keep: "runs run tables w w' \<Longrightarrow> inv (w_db w) \<Longrightarrow> inv (w_db w')"
proof (induction rule: runs.induct)
  case (runs_elsewhere w w1 w2)
  then show ?case using inv_tables [of "w_db w1" "w_db w2"] by simp
next
  case (runs_request w w1 env r)
  then have "undisturbed inv env" by (auto simp: undisturbed_def)
  with runs_request show ?case by (intro run_keeps) auto
qed

end

lemma runs_trans: "runs run tables v1 v2 \<Longrightarrow> runs run tables w v1 \<Longrightarrow> runs run tables w v2"
  by (induction rule: runs.induct) (blast intro: runs.intros)+

text \<open>A step in the middle of a request keeps what its interruptions keep.\<close>

lemma keeps_after_undisturbed:
  assumes "undisturbed P env" and "keeps P f"
  shows "keeps P (after_others env k f)"
proof (rule keepsI)
  fix w r w'
  assume "P (w_db w)" and "after_others env k f w = (r, w')"
  then show "P (w_db w')"
    using assms by (auto simp: after_others_iff undisturbed_def dest: keepsD)
qed


subsection \<open>What a transaction commits\<close>

text \<open>The body of a transaction may break the invariant on the way and when it fails: only what it commits counts.\<close>

definition commits :: "(db \<Rightarrow> bool) \<Rightarrow> 'a m \<Rightarrow> bool" where
  "commits P f \<longleftrightarrow> (\<forall>w x w'. P (w_db w) \<longrightarrow> f w = (Inr x, w') \<longrightarrow> P (w_db w'))"

lemma commitsI: "(\<And>w x w'. P (w_db w) \<Longrightarrow> f w = (Inr x, w') \<Longrightarrow> P (w_db w')) \<Longrightarrow> commits P f"
  by (auto simp: commits_def)

lemma commitsD: "commits P f \<Longrightarrow> f w = (Inr x, w') \<Longrightarrow> P (w_db w) \<Longrightarrow> P (w_db w')"
  by (auto simp: commits_def)

lemma keeps_commits: "keeps P f \<Longrightarrow> commits P f"
  by (auto intro: commitsI dest: keepsD)

lemma commits_throw [commits_intros]: "commits P (throw e)"
  by (simp add: commits_def)

lemma commits_bind [commits_intros]: "commits P f \<Longrightarrow> (\<And>x. commits P (g x)) \<Longrightarrow> commits P (bind f g)"
  by (rule commitsI) (auto simp: bind_Inr_iff, metis commitsD)

lemma commits_seq [commits_intros]: "commits P f \<Longrightarrow> commits P g \<Longrightarrow> commits P (seq f g)"
  by (simp add: seq_def commits_bind)

lemma commits_if [commits_intros]: "(b \<Longrightarrow> commits P f) \<Longrightarrow> (\<not> b \<Longrightarrow> commits P g) \<Longrightarrow> commits P (if b then f else g)"
  by simp

lemma commits_case_option [commits_intros]:
  "commits P f \<Longrightarrow> (\<And>x. commits P (g x)) \<Longrightarrow> commits P (case v of None \<Rightarrow> f | Some x \<Rightarrow> g x)"
  by (cases v) auto

lemma commits_case_prod [commits_intros]:
  "(\<And>x y. commits P (f x y)) \<Longrightarrow> commits P (case v of (x, y) \<Rightarrow> f x y)"
  by (cases v) auto

lemma commits_let [commits_intros]: "(\<And>x. commits P (f x)) \<Longrightarrow> commits P (let x = v in f x)"
  by (simp add: Let_def)

lemma keeps_transaction_commits: "commits P body \<Longrightarrow> keeps P (transaction body)"
proof (rule keepsI)
  fix w r w'
  assume c: "commits P body" and P: "P (w_db w)" and run: "transaction body w = (r, w')"
  show "P (w_db w')"
    using run P c by (cases r) (auto elim!: transaction_Inr dest: transaction_Inl_db commitsD)
qed

end
