(* ===== verification/Chat_Log.thy ===== *)
theory Chat_Log
  imports Repo_Messaging Service_Runs
begin

text \<open>
  What the statements of \<open>Repo_Messaging\<close> do to conversations, seen as logs: \<open>conversation_log\<close> is the list of the messages of a
  conversation in their order. \<open>chat_ok\<close> says that the numbers of a log are 1, 2, 3 and so on up to the counter of its
  conversation, that there is one conversation per pair, and that exactly the two of the pair are its members.
\<close>

subsection \<open>A conversation is an append-only log\<close>

definition conversation_log :: "db \<Rightarrow> uuid \<Rightarrow> message_row list" where
  "conversation_log d cid = sort_key dm_seq (filter (\<lambda>r. dm_conversation_id r = cid) (messages d))"

definition chat_ok :: "db \<Rightarrow> bool" where
  "chat_ok d \<longleftrightarrow>
     distinct (map cv_id (conversations d)) \<and>
     distinct (map (\<lambda>c. (cv_dm_lo c, cv_dm_hi c)) (conversations d)) \<and>
     list_all (\<lambda>c. cv_dm_lo c < cv_dm_hi c \<and> map dm_seq (conversation_log d (cv_id c)) = [1..cv_last_seq c])
       (conversations d) \<and>
     distinct (map dm_id (messages d)) \<and>
     list_all (\<lambda>m. conversation_exists d (dm_conversation_id m)) (messages d) \<and>
     list_all (\<lambda>c. \<forall>u. is_member d (cv_id c) u \<longleftrightarrow> u = cv_dm_lo c \<or> u = cv_dm_hi c) (conversations d) \<and>
     list_all (\<lambda>p. conversation_exists d (cp_conversation_id p)) (conversation_participants d)"

lemma chat_ok_frame:
  assumes "conversations d' = conversations d" "messages d' = messages d"
    "conversation_participants d' = conversation_participants d"
  shows "chat_ok d' = chat_ok d"
  using assms by (simp add: chat_ok_def conversation_log_def conversation_exists_def is_member_def)

lemma insort_key_snoc: "f a \<le> f x \<Longrightarrow> insort_key f a (ys @ [x]) = insort_key f a ys @ [x]"
  by (induction ys) auto

lemma sort_key_snoc: "(\<And>y. y \<in> set xs \<Longrightarrow> f y \<le> f x) \<Longrightarrow> sort_key f (xs @ [x]) = sort_key f xs @ [x]"
  by (induction xs) (auto simp: insort_key_snoc)

lemma log_nil: "\<not> conversation_exists d cid \<Longrightarrow> chat_ok d \<Longrightarrow> conversation_log d cid = []"
proof -
  assume "\<not> conversation_exists d cid" and "chat_ok d"
  then have "filter (\<lambda>r. dm_conversation_id r = cid) (messages d) = []"
    by (auto simp: chat_ok_def list_all_iff filter_empty_conv)
  then show ?thesis by (simp add: conversation_log_def)
qed

lemma log_seqs:
  assumes "chat_ok d" and "c \<in> set (conversations d)"
  shows "map dm_seq (conversation_log d (cv_id c)) = [1..cv_last_seq c]"
  using assms by (auto simp: chat_ok_def list_all_iff)

lemma set_log: "set (conversation_log d cid) = {r \<in> set (messages d). dm_conversation_id r = cid}"
  by (auto simp: conversation_log_def)

lemma log_bound:
  assumes "chat_ok d" and "c \<in> set (conversations d)" and "r \<in> set (messages d)" and "dm_conversation_id r = cv_id c"
  shows "1 \<le> dm_seq r \<and> dm_seq r \<le> cv_last_seq c"
proof -
  have "dm_seq r \<in> set (map dm_seq (conversation_log d (cv_id c)))" using assms(3,4) by (auto simp: set_log)
  then show ?thesis by (simp add: log_seqs [OF assms(1,2)])
qed

lemma log_frame:
  "messages d' = messages d \<Longrightarrow> conversation_log d' cid = conversation_log d cid"
  by (simp add: conversation_log_def)

text \<open>Sending appends to the log of one conversation and takes the next number.\<close>

lemma send_InrD:
  assumes "messaging_send cid sender body w = (Inr m, w')" and ok: "chat_ok (w_db w)"
  shows "\<exists>i. let row = new_message (w_clock w) i cid (int (length (conversation_log (w_db w) cid)) + 1) sender body in
    m = message_of row \<and> conversation_log (w_db w') cid = conversation_log (w_db w) cid @ [row] \<and>
    (\<forall>c. c \<noteq> cid \<longrightarrow> conversation_log (w_db w') c = conversation_log (w_db w) c) \<and>
    user_exists (w_db w) sender \<and> chat_ok (w_db w')"
proof -
  let ?d = "w_db w"
  obtain s d1 i d2 where s: "next_seq_stmt cid (w_clock w) ?d = Inr (s, d1)"
    and ins: "insert_message_stmt i cid s sender body (w_clock w) d1 = Inr (m, d2)" and w': "w_db w' = d2"
    using assms(1) by (auto simp: messaging_send_def run_iffs)
  let ?row = "new_message (w_clock w) i cid s sender body"
  obtain c where c: "c \<in> set (conversations ?d)" "cv_id c = cid" and s': "s = cv_last_seq c + 1"
    and d1: "d1 = ?d\<lparr>conversations := map (\<lambda>c. if cv_id c = cid
                 then c\<lparr>cv_last_seq := cv_last_seq c + 1, cv_last_message_at := Some (w_clock w)\<rparr> else c) (conversations ?d)\<rparr>"
    using s by (auto simp: next_seq_stmt_def split: option.splits if_splits dest: find_Some_in)
  have m: "m = message_of ?row" and d2: "d2 = d1\<lparr>messages := messages d1 @ [?row]\<rparr>" and new: "i \<notin> dm_id ` set (messages d1)"
    and pos: "0 < s" and u: "user_exists d1 sender"
    using ins by (auto simp: insert_message_stmt_def Let_def message_check_def new_message_def split: if_splits)
  have le: "dm_seq r \<le> s" if "r \<in> set (messages ?d)" "dm_conversation_id r = cid" for r
    using log_bound [OF ok c(1) that(1)] that(2) c(2) s' by simp
  have log: "conversation_log d2 x = conversation_log ?d x @ (if x = cid then [?row] else [])" for x
    unfolding conversation_log_def d2 d1 using le
    by (auto simp: new_message_def intro!: sort_key_snoc)
  have len: "int (length (conversation_log ?d cid)) = cv_last_seq c"
    using arg_cong [OF log_seqs [OF ok c(1)], of length] s' pos by (simp add: c(2))
  have ids: "map cv_id (conversations d2) = map cv_id (conversations ?d)"
    "map (\<lambda>c. (cv_dm_lo c, cv_dm_hi c)) (conversations d2) = map (\<lambda>c. (cv_dm_lo c, cv_dm_hi c)) (conversations ?d)"
    by (auto simp: d2 d1)
  have "chat_ok d2"
  proof -
    have "map dm_seq (conversation_log d2 (cv_id x)) = [1..cv_last_seq x] \<and> cv_dm_lo x < cv_dm_hi x"
      if x: "x \<in> set (conversations d2)" for x
    proof -
      obtain y where y: "y \<in> set (conversations ?d)"
        "x = (if cv_id y = cid then y\<lparr>cv_last_seq := cv_last_seq y + 1, cv_last_message_at := Some (w_clock w)\<rparr> else y)"
        using x by (auto simp: d2 d1)
      have ord: "cv_dm_lo y < cv_dm_hi y" using ok y(1) by (auto simp: chat_ok_def list_all_iff)
      show ?thesis
      proof (cases "cv_id y = cid")
        case True
        then have "y = c" using ok y(1) c by (auto simp: chat_ok_def dest: distinct_map_eqD)
        then show ?thesis using y ord True log_seqs [OF ok y(1)] pos s'
          by (simp add: log new_message_def upto_rec2)
      next
        case False
        then show ?thesis using y ord log_seqs [OF ok y(1)] by (simp add: log)
      qed
    qed
    moreover have "conversation_exists d2 x = conversation_exists ?d x" for x
      using ids(1) unfolding conversation_exists_def by (metis list.set_map)
    moreover have "conversation_exists ?d cid" using c by (auto simp: conversation_exists_def)
    moreover have "messages d2 = messages ?d @ [?row]" by (simp add: d2 d1)
    moreover have "i \<notin> dm_id ` set (messages ?d)" using new by (simp add: d1)
    moreover have "is_member d2 x u = is_member ?d x u" for x u by (simp add: d2 d1 is_member_def)
    moreover have "conversation_participants d2 = conversation_participants ?d" by (simp add: d2 d1)
    moreover have "\<forall>u. is_member ?d (cv_id x) u \<longleftrightarrow> u = cv_dm_lo x \<or> u = cv_dm_hi x" if x: "x \<in> set (conversations d2)" for x
    proof -
      obtain y where "y \<in> set (conversations ?d)" "cv_id x = cv_id y" "cv_dm_lo x = cv_dm_lo y" "cv_dm_hi x = cv_dm_hi y"
        using x by (auto simp: d2 d1)
      then show ?thesis using ok by (simp add: chat_ok_def list_all_iff)
    qed
    ultimately show ?thesis using ok by (simp add: chat_ok_def list_all_iff ids new_message_def)
  qed
  then show ?thesis using m log len s' w' u by (auto simp: Let_def d1)
qed


text \<open>Reading after a cursor drops that many messages of the log.\<close>

lemma filter_numbered:
  "map f xs = [s + 1..s + int (length xs)] \<Longrightarrow> filter (\<lambda>r. s + int k < f r) xs = drop k xs"
proof (induction xs arbitrary: s k)
  case (Cons x xs)
  have "[s + 1..s + int (length (x # xs))] = (s + 1) # [s + 1 + 1..s + 1 + int (length xs)]"
    using upto_rec1 [of "s + 1" "s + int (length (x # xs))"] by (simp add: ac_simps)
  with Cons.prems have x: "f x = s + 1" and xs: "map f xs = [s + 1 + 1..s + 1 + int (length xs)]" by simp_all
  show ?case
  proof (cases k)
    case 0
    have "f y > s" if "y \<in> set xs" for y
    proof -
      have "f y \<in> set (map f xs)" using that by simp
      then show ?thesis unfolding xs by simp
    qed
    then show ?thesis using 0 x by (simp add: filter_id_conv)
  next
    case (Suc j)
    then show ?thesis using x Cons.IH [OF xs, of j] by (simp add: add.assoc)
  qed
qed simp

lemma messages_after_log:
  assumes "chat_ok d"
  shows "messages_after d cid (int k) = drop k (conversation_log d cid)"
proof (cases "conversation_exists d cid")
  case True
  then obtain c where c: "c \<in> set (conversations d)" "cv_id c = cid" by (auto simp: conversation_exists_def)
  have len: "int (length (conversation_log d cid)) = max 0 (cv_last_seq c)"
    using arg_cong [OF log_seqs [OF assms c(1)], of length] by (simp add: c(2))
  have "map dm_seq (conversation_log d cid) = [0 + 1..0 + int (length (conversation_log d cid))]"
    using log_seqs [OF assms c(1)] c(2) len by (cases "0 \<le> cv_last_seq c") auto
  from filter_numbered [OF this, of k] show ?thesis
    by (simp add: messages_after_def conversation_log_def filter_sort conj_commute)
next
  case False
  then have "filter (\<lambda>r. dm_conversation_id r = cid \<and> int k < dm_seq r) (messages d) = []"
    using assms by (auto simp: chat_ok_def list_all_iff filter_empty_conv)
  then show ?thesis using log_nil [OF False assms] by (simp add: messages_after_def)
qed

lemma insort_key_map: "insort_key f (g a) (map g ys) = map g (insort_key (\<lambda>x. f (g x)) a ys)"
  by (induction ys) auto

lemma sort_key_map: "sort_key f (map g xs) = map g (sort_key (\<lambda>x. f (g x)) xs)"
  by (induction xs) (auto simp: insort_key_map)

text \<open>Removing a message keeps its place in the log.\<close>

definition removed :: "uuid \<Rightarrow> uuid \<Rightarrow> uuid \<Rightarrow> time \<Rightarrow> message_row \<Rightarrow> message_row" where
  "removed cid mid sender now r =
     (if deletable cid mid sender r then r\<lparr>dm_deleted_at := Some now, dm_deleted_by := Some sender\<rparr> else r)"

lemma removed_same [simp]:
  "dm_seq (removed cid mid sender now r) = dm_seq r" "dm_id (removed cid mid sender now r) = dm_id r"
  "dm_conversation_id (removed cid mid sender now r) = dm_conversation_id r"
  by (simp_all add: removed_def)

lemma soft_delete_log:
  assumes "soft_delete_stmt cid mid sender now d = Inr (n, d')"
  shows "conversation_log d' x = map (removed cid mid sender now) (conversation_log d x)"
    and "chat_ok d \<Longrightarrow> chat_ok d'"
proof -
  have d': "d' = d\<lparr>messages := map (removed cid mid sender now) (messages d)\<rparr>"
    using assms by (auto simp: soft_delete_stmt_def removed_def [abs_def])
  show log: "conversation_log d' x = map (removed cid mid sender now) (conversation_log d x)" for x
    by (simp add: conversation_log_def d' filter_map comp_def sort_key_map)
  have same: "map dm_id (map (removed cid mid sender now) (messages d)) = map dm_id (messages d)" by simp
  assume "chat_ok d"
  then show "chat_ok d'"
    by (simp add: chat_ok_def log comp_def list_all_iff) (simp add: d' comp_def conversation_exists_def is_member_def)
qed


subsection \<open>One conversation per pair\<close>

lemma ordered_pair:
  assumes "a \<noteq> b"
  shows "fst (ordered a b) < snd (ordered a b)" "(u = fst (ordered a b) \<or> u = snd (ordered a b)) = (u = a \<or> u = b)"
    "ordered b a = ordered a b"
  using assms by (auto simp: ordered_def)

definition member_row :: "uuid \<Rightarrow> uuid \<Rightarrow> string \<Rightarrow> participant_row" where
  "member_row cid uid who = \<lparr>cp_conversation_id = cid, cp_user_id = uid, cp_role = lit who, cp_last_read_seq = 0\<rparr>"

lemma insert_participant_new:
  assumes "insert_participant_stmt cid uid who now d = Inr (x, d')" and "\<not> is_member d cid uid"
  shows "d' = d\<lparr>conversation_participants := conversation_participants d @ [member_row cid uid who]\<rparr>"
  using assms by (auto simp: insert_participant_stmt_def member_row_def split: if_splits)

lemma chat_ok_new_dm:
  assumes ok: "chat_ok d" and p: "fst p < snd p" and new: "i \<notin> cv_id ` set (conversations d)" "find_pair d p = None"
    and ab: "\<And>u. u = a \<or> u = b \<longleftrightarrow> u = fst p \<or> u = snd p"
    and d': "d' = d\<lparr>conversations := conversations d @ [new_dm now i ct p u j],
      conversation_participants := conversation_participants d @ [member_row i a r1, member_row i b r2]\<rparr>"
  shows "chat_ok d'"
proof -
  have ex: "conversation_exists d' x \<longleftrightarrow> conversation_exists d x \<or> x = i" for x
    by (auto simp: d' conversation_exists_def new_dm_def)
  have none: "\<not> is_member d i x" for x
    using ok new(1) by (auto simp: chat_ok_def list_all_iff is_member_def conversation_exists_def)
  have mem: "is_member d' x y \<longleftrightarrow> is_member d x y \<or> x = i \<and> (y = fst p \<or> y = snd p)" for x y
    using ab [of y] by (auto simp: d' is_member_def member_row_def)
  have log: "conversation_log d' x = conversation_log d x" for x by (simp add: d' conversation_log_def)
  have "conversation_log d i = []" using new(1) ok by (intro log_nil) (auto simp: conversation_exists_def)
  moreover have "(fst p, snd p) \<notin> (\<lambda>c. (cv_dm_lo c, cv_dm_hi c)) ` set (conversations d)"
    using new(2) by (auto simp: find_pair_def find_None_iff)
  moreover have "is_member d (cv_id c) y \<longleftrightarrow> y = cv_dm_lo c \<or> y = cv_dm_hi c" "cv_id c \<noteq> i" if "c \<in> set (conversations d)" for c y
    using that ok new(1) by (auto simp: chat_ok_def list_all_iff)
  ultimately show ?thesis using ok p new(1)
    by (simp add: chat_ok_def list_all_iff ex mem log none) (auto simp: d' new_dm_def member_row_def none)
qed

lemma find_or_create_InrD:
  assumes run: "messaging_find_or_create_dm a b ct j w = (Inr (c, created), w')" and ok: "chat_ok (w_db w)"
  shows "a \<noteq> b \<and> chat_ok (w_db w') \<and> (\<forall>x. conversation_log (w_db w') x = conversation_log (w_db w) x) \<and>
    (\<exists>r. find_pair (w_db w') (ordered a b) = Some r \<and> cn_id c = cv_id r \<and>
       (\<forall>u. is_member (w_db w') (cv_id r) u \<longleftrightarrow> u = a \<or> u = b) \<and>
       (\<not> created \<longrightarrow> w_db w' = w_db w)) \<and>
    (created \<longrightarrow> find_pair (w_db w) (ordered a b) = None \<and> user_exists (w_db w) a \<and> user_exists (w_db w) b)"
proof -
  let ?d = "w_db w" and ?p = "ordered a b"
  from run have ab: "a \<noteq> b" by (auto simp: messaging_find_or_create_dm_def split: if_splits)
  note p = ordered_pair [OF ab]
  obtain ins wa r w1 x where a: "sql (insert_dm_stmt (w_ids w (w_next_id w)) ct ?p a j) (w\<lparr>w_next_id := Suc (w_next_id w)\<rparr>) = (Inr ins, wa)"
    and sel: "select_dm ?p wa = (Inr r, w1)" and cr: "created = (ins \<noteq> None)" "c = conversation_of r"
    and step: "(if ins \<noteq> None then seq (sql (insert_participant_stmt (cv_id r) a ''initiator''))
        (sql (insert_participant_stmt (cv_id r) b ''recipient'')) else ret ()) w1 = (Inr x, w')"
    using run ab unfolding messaging_find_or_create_dm_def Let_def
    by (simp only: if_False bind_Inr_iff seq_Inr_iff new_id_iff ret_iff sum.inject prod.inject) blast
  define i where "i = w_ids w (w_next_id w)"
  obtain d1 where ins: "insert_dm_stmt i ct ?p a j (w_clock w) ?d = Inr (ins, d1)" and wa: "w_db wa = d1" "w_clock wa = w_clock w"
    using a by (auto simp: sql_Inr_iff i_def)
  have r: "find_pair d1 ?p = Some r" and w1: "w_db w1 = d1" "w_clock w1 = w_clock w"
    using sel wa by (auto simp: select_dm_def sql_Inr_iff split: option.splits)
  define d2 where "d2 = w_db w'"
  have w': "w_db w' = d2" by (simp add: d2_def)
  have parts: "if ins \<noteq> None then \<exists>d'. insert_participant_stmt (cv_id r) a ''initiator'' (w_clock w) d1 = Inr ((), d') \<and>
        insert_participant_stmt (cv_id r) b ''recipient'' (w_clock w) d' = Inr ((), d2) else d2 = d1"
    using step w1 by (auto simp: d2_def seq_Inr_iff sql_Inr_iff split: if_splits)
  have members: "\<forall>u. is_member d (cv_id r) u \<longleftrightarrow> u = a \<or> u = b" if "chat_ok d" "find_pair d ?p = Some r" for d
  proof -
    from that(2) have "r \<in> set (conversations d)" "(cv_dm_lo r, cv_dm_hi r) = ?p"
      by (auto simp: find_pair_def dest: find_Some_in)
    then show ?thesis using that(1) p(2) by (auto simp: chat_ok_def list_all_iff) (metis fst_conv snd_conv)+
  qed
  show ?thesis
  proof (cases ins)
    case None
    then have "d1 = ?d" "d2 = d1" using ins parts by (auto simp: insert_dm_stmt_def split: if_splits)
    then show ?thesis using None ab ok r cr w' members [OF ok] by (auto simp: conversation_of_def)
  next
    case (Some k)
    then have new: "i \<notin> cv_id ` set (conversations ?d)" "find_pair ?d ?p = None"
      and d1: "d1 = ?d\<lparr>conversations := conversations ?d @ [new_dm (w_clock w) i ct ?p a j]\<rparr>"
      and us: "user_exists ?d (fst ?p)" "user_exists ?d (snd ?p)"
      using ins by (auto simp: insert_dm_stmt_def split: if_splits)
    have "r = new_dm (w_clock w) i ct ?p a j"
      using r new(2) by (simp add: d1 find_pair_def find_append new_dm_def split: option.splits)
    then have ri: "cv_id r = i" by (simp add: new_dm_def)
    have none: "\<not> is_member ?d i x" for x
      using ok new(1) by (auto simp: chat_ok_def list_all_iff is_member_def conversation_exists_def)
    obtain d' where da: "insert_participant_stmt i a ''initiator'' (w_clock w) d1 = Inr ((), d')"
      and db: "insert_participant_stmt i b ''recipient'' (w_clock w) d' = Inr ((), d2)" using parts Some ri by auto
    have d': "d' = d1\<lparr>conversation_participants := conversation_participants d1 @ [member_row i a ''initiator'']\<rparr>"
      using da none by (intro insert_participant_new) (auto simp: d1 is_member_def)
    have d2: "d2 = d'\<lparr>conversation_participants := conversation_participants d' @ [member_row i b ''recipient'']\<rparr>"
      using db none ab by (intro insert_participant_new) (auto simp: d' d1 is_member_def member_row_def)
    have ok': "chat_ok d2"
      by (rule chat_ok_new_dm [OF ok p(1) new, of a b]) (auto simp: p(2) d2 d' d1)
    have "find_pair d2 ?p = Some r" using r by (simp add: d2 d' find_pair_def)
    moreover have "user_exists ?d a" "user_exists ?d b" using us by (auto simp: ordered_def split: if_splits)
    ultimately show ?thesis using Some ab ok' cr w' new(2) members [OF ok']
      by (auto simp: conversation_of_def d2 d' d1 conversation_log_def)
  qed
qed

end
