(* ===== verification/Messaging.thy ===== *)
theory Messaging
  imports Chat_Log Repo_Audit Auth_Ratelimit
begin

text \<open>
  \<open>cm-domain/src/messaging.rs\<close>: who may write to whom. Each operation counts against a limit on a connection of its own, then runs one
  transaction; other requests may run before each of the two (\<open>after_others\<close>, as in \<open>Auth_Service\<close>). The last section gives
  what follows for every run of these operations.
\<close>

definition messaging_max_page :: int where "messaging_max_page = 100"

definition conversation_create_policy :: policy where
  "conversation_create_policy = mk_policy ''conversation_create:user'' 10 (days 1)"

definition message_send_policy :: policy where
  "message_send_policy = mk_policy ''message_send:user'' 60 (hours 1)"

definition report_policy :: policy where
  "report_policy = mk_policy ''report:user'' 20 (days 1)"

text \<open>\<open>ratelimit::enforce(..., chrono::Utc::now())\<close>.\<close>

definition limited :: "lib \<Rightarrow> ustr \<Rightarrow> env \<Rightarrow> policy \<Rightarrow> uuid \<Rightarrow> unit m" where
  "limited L pepper env p uid =
     bind utc_now (\<lambda>now. after_others env 0 (enforce L pepper p (uuid_to_string L uid) now))"

definition domain_event :: "string \<Rightarrow> string \<Rightarrow> actor_kind \<Rightarrow> uuid \<Rightarrow> uuid \<Rightarrow> json_object \<Rightarrow> ustr option \<Rightarrow> audit_event" where
  "domain_event action subject_table kind actor subject j request_id =
     ev_with_request request_id (ev_with_data j (ev_subject subject (ev_actor kind (Some actor)
       (audit_event_new action subject_table))))"

definition jobs_open_job_poster :: "uuid \<Rightarrow> uuid option m" where
  "jobs_open_job_poster j =
     query (\<lambda>_ d. map_option jb_posted_by (find (\<lambda>r. jb_id r = j \<and> jb_status r = lit ''open'') (jobs d)))"

definition start_with_contractor_tx :: "uuid \<Rightarrow> uuid \<Rightarrow> ustr option \<Rightarrow> conversation m" where
  "start_with_contractor_tx initiator contractor_id request_id =
     bind (contractors_messaging_target contractor_id) (\<lambda>found.
     case found of
       None \<Rightarrow> throw NotFound
     | Some target \<Rightarrow>
         case mt_claimed_by_user_id target of
           None \<Rightarrow> throw Forbidden
         | Some owner \<Rightarrow>
             if \<not> mt_accepts_dm target then throw Forbidden
             else if owner = initiator then throw (invalid ''You cannot start a conversation with your own listing.'')
             else
               bind (messaging_blocked_either_way initiator owner) (\<lambda>blocked.
               if blocked then throw Forbidden
               else
                 bind (messaging_find_or_create_dm initiator owner (Some contractor_id) None) (\<lambda>cc.
                 case cc of (conversation, created) \<Rightarrow>
                   seq (if created then
                          bind (audit_record (domain_event ''conversation.created'' ''conversations'' ActorUser initiator
                            (cn_id conversation) [(lit ''contractor_id'', JUuid contractor_id)] request_id)) (\<lambda>_. ret ())
                        else ret ())
                   (ret conversation))))"

definition start_with_contractor ::
  "lib \<Rightarrow> ustr \<Rightarrow> env \<Rightarrow> uuid \<Rightarrow> uuid \<Rightarrow> ustr option \<Rightarrow> conversation m" where
  "start_with_contractor L pepper env initiator contractor_id request_id =
     seq (limited L pepper env conversation_create_policy initiator)
     (after_others env 1 (transaction (start_with_contractor_tx initiator contractor_id request_id)))"

definition start_with_job_tx :: "uuid \<Rightarrow> uuid \<Rightarrow> ustr option \<Rightarrow> conversation m" where
  "start_with_job_tx initiator job_id request_id =
     bind (contractors_claimed_by initiator) (\<lambda>listing.
     case listing of
       None \<Rightarrow> throw Forbidden
     | Some contractor_id \<Rightarrow>
         bind (jobs_open_job_poster job_id) (\<lambda>found.
         case found of
           None \<Rightarrow> throw NotFound
         | Some poster \<Rightarrow>
             if poster = initiator then throw (invalid ''You cannot start a conversation with your own job.'')
             else
               bind (messaging_blocked_either_way initiator poster) (\<lambda>blocked.
               if blocked then throw Forbidden
               else
                 bind (messaging_find_or_create_dm initiator poster (Some contractor_id) (Some job_id)) (\<lambda>cc.
                 case cc of (conversation, created) \<Rightarrow>
                   seq (if created then
                          bind (audit_record (domain_event ''conversation.created'' ''conversations'' ActorUser initiator
                            (cn_id conversation)
                            [(lit ''contractor_id'', JUuid contractor_id), (lit ''job_id'', JUuid job_id)] request_id)) (\<lambda>_. ret ())
                        else ret ())
                   (ret conversation)))))"

definition start_with_job :: "lib \<Rightarrow> ustr \<Rightarrow> env \<Rightarrow> uuid \<Rightarrow> uuid \<Rightarrow> ustr option \<Rightarrow> conversation m" where
  "start_with_job L pepper env initiator job_id request_id =
     seq (limited L pepper env conversation_create_policy initiator)
     (after_others env 1 (transaction (start_with_job_tx initiator job_id request_id)))"

definition send_tx :: "uuid \<Rightarrow> uuid \<Rightarrow> ustr \<Rightarrow> message m" where
  "send_tx conversation_id sender body =
     bind (messaging_is_participant conversation_id sender) (\<lambda>member.
     if \<not> member then throw NotFound
     else
       bind (messaging_counterpart conversation_id sender) (\<lambda>other.
       seq (case other of
              None \<Rightarrow> ret ()
            | Some o' \<Rightarrow>
                bind (messaging_blocked_either_way sender o') (\<lambda>blocked.
                if blocked then throw Forbidden else ret ()))
       (messaging_send conversation_id sender body)))"

definition send :: "lib \<Rightarrow> ustr \<Rightarrow> env \<Rightarrow> uuid \<Rightarrow> uuid \<Rightarrow> ustr \<Rightarrow> message m" where
  "send L pepper env conversation_id sender body0 =
     (let body = trim body0 in
      if body = [] then throw (invalid ''A message cannot be empty.'')
      else if 4000 < length body then throw (invalid ''A message must be under 4000 characters.'')
      else
        seq (limited L pepper env message_send_policy sender)
        (after_others env 1 (transaction (send_tx conversation_id sender body))))"

definition conversations_for :: "env \<Rightarrow> uuid \<Rightarrow> int \<Rightarrow> conversation_summary list m" where
  "conversations_for env user_id limit = seq (after_others env 0 acquire) (messaging_list_for_user user_id limit)"

definition poll :: "env \<Rightarrow> uuid \<Rightarrow> uuid \<Rightarrow> int \<Rightarrow> int \<Rightarrow> message list m" where
  "poll env conversation_id user_id after_seq limit =
     seq (after_others env 0 acquire)
     (bind (messaging_is_participant conversation_id user_id) (\<lambda>member.
      if \<not> member then throw NotFound
      else after_others env 1 (messaging_after_seq conversation_id after_seq (clamp 1 messaging_max_page limit))))"

definition delete_message :: "env \<Rightarrow> uuid \<Rightarrow> uuid \<Rightarrow> uuid \<Rightarrow> unit m" where
  "delete_message env conversation_id message_id sender =
     seq (after_others env 0 acquire)
     (bind (messaging_is_participant conversation_id sender) (\<lambda>member.
      if \<not> member then throw NotFound
      else
        bind (after_others env 1 (messaging_soft_delete conversation_id message_id sender)) (\<lambda>gone.
        if \<not> gone then throw NotFound else ret ())))"

definition mark_read :: "env \<Rightarrow> uuid \<Rightarrow> uuid \<Rightarrow> int \<Rightarrow> unit m" where
  "mark_read env conversation_id user_id up_to_seq =
     seq (after_others env 0 acquire)
     (bind (messaging_is_participant conversation_id user_id) (\<lambda>member.
      if \<not> member then throw NotFound
      else after_others env 1 (messaging_mark_read conversation_id user_id up_to_seq)))"

definition block :: "env \<Rightarrow> uuid \<Rightarrow> uuid \<Rightarrow> ustr option \<Rightarrow> ustr option \<Rightarrow> unit m" where
  "block env blocker blocked reason request_id =
     after_others env 0 (transaction (
       seq (messaging_block blocker blocked reason)
       (bind (audit_record (domain_event ''user.blocked'' ''user_blocks'' ActorUser blocker blocked [] request_id))
         (\<lambda>_. ret ()))))"

definition unblock :: "env \<Rightarrow> uuid \<Rightarrow> uuid \<Rightarrow> bool m" where
  "unblock env blocker blocked = seq (after_others env 0 acquire) (messaging_unblock blocker blocked)"

definition blocked_users :: "env \<Rightarrow> uuid \<Rightarrow> uuid list m" where
  "blocked_users env blocker = seq (after_others env 0 acquire) (messaging_blocks_by blocker)"

definition report_tx :: "uuid \<Rightarrow> uuid \<Rightarrow> uuid option \<Rightarrow> ustr \<Rightarrow> ustr option \<Rightarrow> ustr option \<Rightarrow> report m" where
  "report_tx reporter conversation_id message_id reason detail request_id =
     bind (messaging_is_participant conversation_id reporter) (\<lambda>member.
     if \<not> member then throw NotFound
     else
       bind (messaging_report reporter conversation_id message_id reason detail) (\<lambda>r.
       seq (audit_record (domain_event ''message.reported'' ''message_reports'' ActorUser reporter (rt_id r)
              [(lit ''reason'', JText reason)] request_id))
       (ret r)))"

definition report ::
  "lib \<Rightarrow> ustr \<Rightarrow> env \<Rightarrow> uuid \<Rightarrow> uuid \<Rightarrow> uuid option \<Rightarrow> ustr \<Rightarrow> ustr option \<Rightarrow> ustr option \<Rightarrow> report m" where
  "report L pepper env reporter conversation_id message_id reason detail request_id =
     (if reason \<notin> set report_reasons then
        throw (Invalid (lit ''reason must be one of '' @ join (lit '', '') report_reasons))
      else
        seq (limited L pepper env report_policy reporter)
        (after_others env 1 (transaction (report_tx reporter conversation_id message_id reason detail request_id))))"

end
