(* ===== verification/Messaging_Properties.thy ===== *)
theory Messaging_Properties
  imports Messaging Quiet_Runs
begin

text \<open>
  What holds of every run of the messaging service: conversations are gapless logs between two people, and nobody writes to
  somebody who blocked them or whom they blocked.
\<close>

subsection \<open>Each operation keeps the logs\<close>

lemma chat_ok_same [simp]:
  "chat_ok (d\<lparr>audit_log := a\<rparr>) = chat_ok d" "chat_ok (d\<lparr>user_blocks := b\<rparr>) = chat_ok d"
  "chat_ok (d\<lparr>message_reports := c\<rparr>) = chat_ok d"
  by (rule chat_ok_frame; simp)+

lemma chat_ok_mark_read:
  assumes "\<And>p. cp_conversation_id (f p) = cp_conversation_id p" "\<And>p. cp_user_id (f p) = cp_user_id p"
  shows "chat_ok (d\<lparr>conversation_participants := map f (conversation_participants d)\<rparr>) = chat_ok d"
proof -
  let ?d = "d\<lparr>conversation_participants := map f (conversation_participants d)\<rparr>"
  have "is_member ?d c u = is_member d c u" "conversation_exists ?d c = conversation_exists d c"
    "conversation_log ?d c = conversation_log d c" for c u
    using assms by (auto simp: is_member_def conversation_exists_def conversation_log_def)
  then show ?thesis using assms by (simp add: chat_ok_def list_all_iff)
qed

lemma keeps_chat_reads [keeps_intros]:
  "keeps P (messaging_is_participant c u)" "keeps P (messaging_counterpart c u)"
  "keeps P (messaging_blocked_either_way a b)" "keeps P (contractors_messaging_target i)"
  "keeps P (contractors_claimed_by u)" "keeps P (jobs_open_job_poster j)" "keeps P (messaging_after_seq c n l)"
  by (simp_all add: messaging_is_participant_def messaging_counterpart_def messaging_blocked_either_way_def
      contractors_messaging_target_def contractors_claimed_by_def jobs_open_job_poster_def messaging_after_seq_def keeps_intros)

lemma keeps_soft_delete [keeps_intros]: "keeps chat_ok (messaging_soft_delete c i u)"
  unfolding messaging_soft_delete_def by (intro keeps_bind keeps_ret keeps_sql) (rule soft_delete_log(2))

lemma keeps_mark_read [keeps_intros]: "keeps chat_ok (messaging_mark_read c u n)"
  unfolding messaging_mark_read_def
  by (rule keeps_execute) (rule chat_ok_mark_read [THEN iffD2], auto)

lemma keeps_blocks [keeps_intros]:
  "keeps chat_ok (messaging_block a b r)" "keeps chat_ok (messaging_unblock a b)"
  unfolding messaging_block_def messaging_unblock_def
  by (intro keeps_if keeps_throw keeps_sql; auto simp: block_stmt_def split: if_splits)+

lemma keeps_reports [keeps_intros]:
  "keeps chat_ok (messaging_report a c mi why detail)" "keeps chat_ok (messaging_resolve_report i st u)"
  unfolding messaging_report_def messaging_resolve_report_def
  by (intro keeps_bind keeps_new_id keeps_ret keeps_sql; auto simp: report_stmt_def resolve_stmt_def Let_def split: if_splits)+

lemma keeps_chat_audit [keeps_intros]: "keeps chat_ok (audit_record ev)"
  by (rule keeps_audit_record) simp

lemma keeps_enforced: "undisturbed P env \<Longrightarrow> keeps P (limited L pepper env p u)"
  unfolding limited_def by (intro keeps_intros keeps_after_undisturbed keeps_enforce)

lemmas chat_keeps = keeps_after_undisturbed keeps_enforced keeps_intros

lemma commits_create: "commits chat_ok (messaging_find_or_create_dm a b ct j)"
  by (rule commitsI) (auto dest: find_or_create_InrD)

lemma commits_send: "commits chat_ok (messaging_send c s b)"
  by (rule commitsI) (auto simp: Let_def dest: send_InrD)

lemma commits_txs:
  "commits chat_ok (start_with_contractor_tx u c r)" "commits chat_ok (start_with_job_tx u j r)"
  "commits chat_ok (send_tx c s b)"
  unfolding start_with_contractor_tx_def start_with_job_tx_def send_tx_def
  by (intro commits_intros commits_create commits_send keeps_commits [OF keeps_ret]
      keeps_commits [OF keeps_chat_reads(1)] keeps_commits [OF keeps_chat_reads(2)] keeps_commits [OF keeps_chat_reads(3)]
      keeps_commits [OF keeps_chat_reads(4)] keeps_commits [OF keeps_chat_reads(5)] keeps_commits [OF keeps_chat_reads(6)]
      keeps_commits [OF keeps_chat_audit])+

datatype chat_request =
    StartWithContractor uuid uuid "ustr option"
  | StartWithJob uuid uuid "ustr option"
  | SendMessage uuid uuid ustr
  | Poll uuid uuid int int
  | DeleteMessage uuid uuid uuid
  | MarkRead uuid uuid int
  | Block uuid uuid "ustr option" "ustr option"
  | Unblock uuid uuid
  | Report uuid uuid "uuid option" ustr "ustr option" "ustr option"
  | ResolveReport uuid ustr uuid

fun run_chat :: "lib \<Rightarrow> ustr \<Rightarrow> env \<Rightarrow> chat_request \<Rightarrow> world \<Rightarrow> world" where
  "run_chat L pepper env (StartWithContractor u c r) w = snd (start_with_contractor L pepper env u c r w)"
| "run_chat L pepper env (StartWithJob u j r) w = snd (start_with_job L pepper env u j r w)"
| "run_chat L pepper env (SendMessage c u b) w = snd (send L pepper env c u b w)"
| "run_chat L pepper env (Poll c u n l) w = snd (poll env c u n l w)"
| "run_chat L pepper env (DeleteMessage c i u) w = snd (delete_message env c i u w)"
| "run_chat L pepper env (MarkRead c u n) w = snd (mark_read env c u n w)"
| "run_chat L pepper env (Block a b why r) w = snd (block env a b why r w)"
| "run_chat L pepper env (Unblock a b) w = snd (unblock env a b w)"
| "run_chat L pepper env (Report u c i why detail r) w = snd (report L pepper env u c i why detail r w)"
| "run_chat L pepper env (ResolveReport i st u) w = snd (messaging_resolve_report i st u w)"

lemma chat_requests_keep:
  assumes "undisturbed chat_ok env"
  shows "keeps chat_ok (start_with_contractor L pepper env u c r)" "keeps chat_ok (start_with_job L pepper env u j r)"
    "keeps chat_ok (send L pepper env c u b)" "keeps chat_ok (poll env c u n l)" "keeps chat_ok (delete_message env c i u)"
    "keeps chat_ok (mark_read env c u n)" "keeps chat_ok (block env a b' why r)" "keeps chat_ok (unblock env a b')"
    "keeps chat_ok (report L pepper env u c mi why' detail r)"
  unfolding start_with_contractor_def start_with_job_def send_def poll_def delete_message_def mark_read_def block_def
    unblock_def report_def report_tx_def using assms
  by (intro chat_keeps keeps_transaction_commits commits_txs | assumption)+

text \<open>The tables of the service: everything \<open>chat_ok\<close> reads.\<close>

definition chat_tables :: "db \<Rightarrow> conversation_row list \<times> participant_row list \<times> message_row list" where
  "chat_tables d = (conversations d, conversation_participants d, messages d)"

interpretation chat: served "run_chat L pepper" chat_tables chat_ok for L pepper
proof
  show "chat_tables d = chat_tables d' \<Longrightarrow> chat_ok d \<Longrightarrow> chat_ok d'" for d d'
    by (simp add: chat_tables_def chat_ok_def conversation_log_def conversation_exists_def is_member_def)
  fix env r and w :: world
  assume env: "undisturbed chat_ok env" and ok: "chat_ok (w_db w)"
  have snd: "keeps chat_ok f \<Longrightarrow> chat_ok (w_db (snd (f w)))" for f :: "'x m"
    using ok by (simp add: keeps_def)
  show "chat_ok (w_db (run_chat L pepper env r w))"
    by (cases r) (simp_all add: chat_requests_keep [OF env, THEN snd] keeps_reports(2) [THEN snd])
qed

lemma chat_ok_start: "chat_tables d = ([], [], []) \<Longrightarrow> chat_ok d"
  by (simp add: chat_tables_def chat_ok_def)


abbreviation chat_runs :: "lib \<Rightarrow> ustr \<Rightarrow> world \<Rightarrow> world \<Rightarrow> bool" where
  "chat_runs L pepper \<equiv> runs (run_chat L pepper) chat_tables"

lemma chat_runs_ok: "chat_runs L pepper w0 w \<Longrightarrow> chat_tables (w_db w0) = ([], [], []) \<Longrightarrow> chat_ok (w_db w)"
  by (rule chat.runs_keep) (auto intro: chat_ok_start)

lemma chat_env_ok:
  assumes "\<And>k v. chat_runs L pepper v (env k v)"
  shows "undisturbed chat_ok env"
  using chat.runs_keep [OF assms] by (auto simp: undisturbed_def)

subsection \<open>Refinement of logs\<close>

text \<open>The specification: a conversation is the list of what its members read, and there are three operations on it.\<close>

type_synonym chat_log = "uuid \<Rightarrow> message list"

definition chat_of :: "db \<Rightarrow> chat_log" where
  "chat_of d cid = map message_of (conversation_log d cid)"

definition log_append :: "uuid \<Rightarrow> message \<Rightarrow> chat_log \<Rightarrow> chat_log" where
  "log_append cid m c = c(cid := c cid @ [m])"

definition log_page :: "nat \<Rightarrow> nat \<Rightarrow> message list \<Rightarrow> message list" where
  "log_page seen limit ms = take limit (drop seen ms)"

definition retract :: "uuid \<Rightarrow> uuid \<Rightarrow> message \<Rightarrow> message" where
  "retract mid sender m =
     (if mg_id m = mid \<and> mg_sender m = sender \<and> \<not> mg_deleted m
      then m\<lparr>mg_body := lit ''[removed]'', mg_deleted := True\<rparr> else m)"

definition log_retract :: "uuid \<Rightarrow> uuid \<Rightarrow> uuid \<Rightarrow> chat_log \<Rightarrow> chat_log" where
  "log_retract cid mid sender c = c(cid := map (retract mid sender) (c cid))"

lemma message_of_removed:
  "dm_conversation_id r = x \<Longrightarrow>
   message_of (removed cid mid sender now r) = (if x = cid then retract mid sender (message_of r) else message_of r)"
  by (auto simp: removed_def deletable_def message_of_def retract_def)

lemma chat_of_soft_delete:
  assumes "soft_delete_stmt cid mid sender now d = Inr (n, d')"
  shows "chat_of d' = log_retract cid mid sender (chat_of d)"
proof
  fix x
  have "map message_of (map (removed cid mid sender now) (conversation_log d x)) =
      map (\<lambda>r. if x = cid then retract mid sender (message_of r) else message_of r) (conversation_log d x)"
    by (auto simp: set_log message_of_removed)
  then show "chat_of d' x = log_retract cid mid sender (chat_of d) x"
    by (simp add: chat_of_def log_retract_def soft_delete_log(1) [OF assms])
qed

lemma chat_of_send:
  assumes "messaging_send cid sender body w = (Inr m, w')" and "chat_ok (w_db w)"
  shows "chat_of (w_db w') = log_append cid m (chat_of (w_db w)) \<and>
    mg_seq m = int (length (chat_of (w_db w) cid)) + 1 \<and> mg_sender m = sender \<and> mg_body m = body \<and> \<not> mg_deleted m"
proof -
  obtain i where "let row = new_message (w_clock w) i cid (int (length (conversation_log (w_db w) cid)) + 1) sender body in
    m = message_of row \<and> conversation_log (w_db w') cid = conversation_log (w_db w) cid @ [row] \<and>
    (\<forall>c. c \<noteq> cid \<longrightarrow> conversation_log (w_db w') c = conversation_log (w_db w) c) \<and>
    user_exists (w_db w) sender \<and> chat_ok (w_db w')"
    using send_InrD [OF assms] by blast
  then show ?thesis
    by (auto simp: Let_def chat_of_def log_append_def message_of_def new_message_def)
qed

text \<open>
  C3. Conversations are gapless logs. After any run of the messaging service, with any interleaving and any
  failures, the statements of the repository refine the operations of a list of messages: sending appends at
  the end and numbers the message with its position; reading after a cursor returns exactly the next messages after
  that position, up to the page size, so that a client that polls from its last number misses and repeats nothing;
  removing a message changes nothing but its visible content, and only for the sender.
\<close>

theorem conversations_refine_gapless_logs:
  assumes "chat_runs L pepper w0 w" and "chat_tables (w_db w0) = ([], [], [])"
  shows "(messaging_send cid sender body w = (Inr m, w1) \<longrightarrow>
      chat_of (w_db w1) = log_append cid m (chat_of (w_db w)) \<and>
      mg_seq m = int (length (chat_of (w_db w) cid)) + 1 \<and> mg_sender m = sender \<and> mg_body m = body) \<and>
    (messaging_after_seq cid (int seen) limit w = (Inr ms, w2) \<longrightarrow>
      ms = log_page seen (nat (clamp 1 100 limit)) (chat_of (w_db w) cid) \<and> chat_of (w_db w2) = chat_of (w_db w)) \<and>
    (messaging_soft_delete cid mid sender w = (Inr gone, w3) \<longrightarrow>
      chat_of (w_db w3) = log_retract cid mid sender (chat_of (w_db w)))"
proof -
  note ok = chat_runs_ok [OF assms]
  have "messaging_after_seq cid (int seen) limit w = (Inr ms, w2) \<Longrightarrow>
      ms = log_page seen (nat (clamp 1 100 limit)) (chat_of (w_db w) cid) \<and> chat_of (w_db w2) = chat_of (w_db w)"
    by (auto simp: messaging_after_seq_def query_Inr_iff messages_after_log [OF ok] log_page_def chat_of_def take_map drop_map)
  moreover have "messaging_soft_delete cid mid sender w = (Inr gone, w3) \<Longrightarrow>
      chat_of (w_db w3) = log_retract cid mid sender (chat_of (w_db w))"
    by (auto simp: messaging_soft_delete_def run_iffs dest: chat_of_soft_delete)
  ultimately show ?thesis using chat_of_send [OF _ ok] by blast
qed

text \<open>Two people, one of them the owner of a listing that takes messages.\<close>

definition chat_people :: db where
  "chat_people = empty_db\<lparr>users := [new_user_row 0 1 None (lit ''Hana'') Homeowner, new_user_row 0 2 None (lit ''Carl'') Contractor],
     contractors := [(bare_listing 5)\<lparr>ct_claimed_by := Some 2, ct_claimed_at := Some 0, ct_accepts_dm := True\<rparr>]\<rparr>"

definition chat_started :: db where
  "chat_started = chat_people\<lparr>conversations := [new_dm 0 100 (Some 5) (1, 2) 1 None],
     conversation_participants := [member_row 100 1 ''initiator'', member_row 100 2 ''recipient''],
     audit_log := [audit_row_of 0 101 (domain_event ''conversation.created'' ''conversations'' ActorUser 1 100
       [(lit ''contractor_id'', JUuid 5)] None)]\<rparr>"

lemma chat_people_simps [simp]:
  "conversations chat_people = []" "conversation_participants chat_people = []" "messages chat_people = []"
  "user_blocks chat_people = []" "audit_log chat_people = []"
  "user_exists chat_people u \<longleftrightarrow> u = 1 \<or> u = 2" "contractor_exists chat_people c \<longleftrightarrow> c = 5"
  by (auto simp: chat_people_def empty_db_def user_exists_def new_user_row_def contractor_exists_def)

lemma toy_start_tx:
  assumes "quiet w" and "w_db w = chat_people" and "w_clock w = 0" and "w_ids w = (\<lambda>n. 100 + of_nat n)" and "w_next_id w = 0"
  shows "\<exists>c w'. start_with_contractor_tx 1 5 None w = (Inr c, w') \<and> w_db w' = chat_started \<and> quiet w' \<and>
    w_clock w' = 0 \<and> w_ids w' = w_ids w \<and> w_next_id w' = 2 \<and> w_rates w' = w_rates w"
proof -
  obtain r where t: "find_contractor chat_people 5 = Some r" "target_of r = \<lparr>mt_claimed_by_user_id = Some 2, mt_accepts_dm = True\<rparr>"
    by (simp add: chat_people_def find_contractor_def target_of_def)
  have chk: "audit_check (audit_row_of 0 i (domain_event ''conversation.created'' ''conversations'' ActorUser 1 100 j None))" for i j
    by (simp add: audit_check_def audit_row_of_def domain_event_def ev_with_request_def ev_with_data_def ev_subject_def
        ev_actor_def audit_event_new_def opt_len_le_def btrim_def trim_by_def lit_def)
  have act: "ev_actor_user_id (domain_event a t k u sb j r) = Some u" for a t k u sb j r
    by (simp add: domain_event_def ev_with_request_def ev_with_data_def ev_subject_def ev_actor_def)
  have ord: "ordered 1 2 = (1, 2 :: uuid)" by (simp add: ordered_def)
  show ?thesis
    using assms t chk
    by (simp add: start_with_contractor_tx_def bind_def seq_def query_run contractors_messaging_target_def
        messaging_blocked_either_way_def blocked_pair_def has_blocked_def messaging_find_or_create_dm_def ord Let_def new_id_def
        sql_def round_trip_run insert_dm_stmt_def find_pair_def opt_missing_def select_dm_def new_dm_def conversation_of_def
        insert_participant_stmt_def is_member_def conversation_exists_def member_row_def audit_record_def ret_def
        act chat_started_def)
qed


lemma toy_start:
  "\<exists>c w'. start_with_contractor toy_lib [] no_others 1 5 None (calm_world chat_people 0) = (Inr c, w') \<and>
     w_db w' = chat_started \<and> quiet w' \<and> w_clock w' = 0 \<and> w_ids w' = (\<lambda>n. 100 + of_nat n) \<and> w_next_id w' = 2"
proof -
  obtain rows where e: "enforce toy_lib [] conversation_create_policy (uuid_to_string toy_lib 1) 0 (calm_world chat_people 0) =
      (Inr (), (calm_world chat_people 0)\<lparr>w_calls := 2, w_rates := rows\<rparr>)"
    using enforce_calm_bounded [of conversation_create_policy "[]" "uuid_to_string toy_lib 1" chat_people]
    by (auto simp: conversation_create_policy_def mk_policy_def time_defs)
  let ?w = "(calm_world chat_people 0)\<lparr>w_calls := 2, w_rates := rows\<rparr>"
  have q: "quiet ?w" by (simp add: quiet_def)
  have ids: "w_ids (calm_world chat_people 0) = (\<lambda>n. 100 + of_nat n)" by (simp add: calm_world_def)
  obtain c v where tx: "start_with_contractor_tx 1 5 None (?w\<lparr>w_calls := Suc (w_calls ?w)\<rparr>) = (Inr c, v)"
    and v: "w_db v = chat_started" "quiet v" "w_clock v = 0" "w_ids v = (\<lambda>n. 100 + of_nat n)" "w_next_id v = 2"
    using toy_start_tx [of "?w\<lparr>w_calls := Suc (w_calls ?w)\<rparr>"] q ids by auto
  have "transaction (start_with_contractor_tx 1 5 None) ?w = (Inr c, v\<lparr>w_calls := Suc (w_calls v)\<rparr>)"
    using q tx v(2) by (rule transaction_run)
  with e v show ?thesis
    by (simp add: start_with_contractor_def limited_def seq_def bind_def after_no_others utc_now_def)
qed

lemma runs_undisturbed: "runs run tables v (no_others k v)"
  by (simp add: no_others_def runs_here)

lemma toy_started: "chat_runs toy_lib [] (calm_world chat_people 0) (calm_world chat_started 0)"
proof -
  obtain c w where run: "start_with_contractor toy_lib [] no_others 1 5 None (calm_world chat_people 0) = (Inr c, w)"
    and w: "w_db w = chat_started" using toy_start by blast
  have "chat_runs toy_lib [] (calm_world chat_people 0)
      (run_chat toy_lib [] no_others (StartWithContractor 1 5 None) (calm_world chat_people 0))"
    by (rule runs_request [OF runs_here runs_undisturbed])
  then have "chat_runs toy_lib [] (calm_world chat_people 0) w" by (simp only: run_chat.simps run snd_conv)
  moreover have "chat_tables (w_db (calm_world chat_started 0)) = chat_tables (w_db w)" using w by (simp add: chat_tables_def)
  ultimately show ?thesis by (rule runs_elsewhere)
qed

lemma chat_people_start: "chat_tables (w_db (calm_world chat_people 0)) = ([], [], [])"
  by (simp add: chat_tables_def)

lemma toy_send:
  assumes "quiet w" and "w_db w = chat_started" and "w_clock w = 0"
  shows "\<exists>m w'. messaging_send 100 1 (lit ''hi'') w = (Inr m, w') \<and> quiet w'"
proof -
  have us: "user_exists (chat_people\<lparr>conversations := x, conversation_participants := y, audit_log := z\<rparr>) 1" for x y z by simp
  show ?thesis
    using assms us by (simp add: messaging_send_def bind_def new_id_def sql_def round_trip_run next_seq_stmt_def chat_started_def
        new_dm_def pg_bigint_ok_def insert_message_stmt_def Let_def message_check_def new_message_def conversation_exists_def
        btrim_def trim_by_def lit_def)
qed

theorem conversations_refine_gapless_logs_witness:
  "\<exists>m w'. messaging_send 100 1 (lit ''hi'') (calm_world chat_started 0) = (Inr m, w') \<and>
     chat_of (w_db w') = log_append 100 m (chat_of chat_started) \<and> mg_seq m = 1"
proof -
  obtain m w' where send: "messaging_send 100 1 (lit ''hi'') (calm_world chat_started 0) = (Inr m, w')"
    using toy_send [of "calm_world chat_started 0"] by (auto simp: quiet_def)
  have "chat_of chat_started 100 = []" by (simp add: chat_of_def conversation_log_def chat_started_def)
  with conversations_refine_gapless_logs [OF toy_started chat_people_start] send show ?thesis by fastforce
qed

subsection \<open>Blocks\<close>

lemma other_member_pair:
  assumes ok: "chat_ok d" and m: "is_member d cid u"
  shows "\<exists>c x. c \<in> set (conversations d) \<and> cv_id c = cid \<and> other_member d cid u = Some x \<and>
    (u = cv_dm_lo c \<and> x = cv_dm_hi c \<or> u = cv_dm_hi c \<and> x = cv_dm_lo c)"
proof -
  from ok m obtain c where c: "c \<in> set (conversations d)" "cv_id c = cid"
    by (auto simp: chat_ok_def list_all_iff is_member_def conversation_exists_def)
  then have lt: "cv_dm_lo c < cv_dm_hi c" and mem: "is_member d cid y \<longleftrightarrow> y = cv_dm_lo c \<or> y = cv_dm_hi c" for y
    using ok by (auto simp: chat_ok_def list_all_iff)
  then obtain y where "is_member d cid y" "y \<noteq> u" using m by (metis less_irrefl)
  then obtain p where p: "find (\<lambda>p. cp_conversation_id p = cid \<and> cp_user_id p \<noteq> u) (conversation_participants d) = Some p"
    by (cases "find (\<lambda>p. cp_conversation_id p = cid \<and> cp_user_id p \<noteq> u) (conversation_participants d)")
      (auto simp: find_None_iff is_member_def)
  then have "is_member d cid (cp_user_id p)" "cp_user_id p \<noteq> u" by (auto simp: is_member_def dest: find_Some_in)
  then show ?thesis using c p mem m by (auto simp: other_member_def)
qed

lemma send_tx_InrD:
  assumes "send_tx cid sender body w = (Inr m, w')" and ok: "chat_ok (w_db w)"
  shows "(\<exists>c. c \<in> set (conversations (w_db w)) \<and> cv_id c = cid \<and> (sender = cv_dm_lo c \<or> sender = cv_dm_hi c) \<and>
      \<not> has_blocked (w_db w) (cv_dm_lo c) (cv_dm_hi c) \<and> \<not> has_blocked (w_db w) (cv_dm_hi c) (cv_dm_lo c)) \<and>
    chat_of (w_db w') = log_append cid m (chat_of (w_db w)) \<and> mg_sender m = sender \<and> mg_body m = body"
proof -
  obtain c x where c: "c \<in> set (conversations (w_db w))" "cv_id c = cid" "other_member (w_db w) cid sender = Some x"
    "sender = cv_dm_lo c \<and> x = cv_dm_hi c \<or> sender = cv_dm_hi c \<and> x = cv_dm_lo c"
    using assms(1) other_member_pair [OF ok]
    by (auto simp: send_tx_def bind_Inr_iff messaging_is_participant_def query_Inr_iff split: if_splits)
  obtain v where v: "messaging_send cid sender body v = (Inr m, w')" "w_db v = w_db w" and nb: "\<not> blocked_pair (w_db w) sender x"
    using assms(1) c(3)
    by (auto simp: send_tx_def bind_Inr_iff seq_Inr_iff messaging_is_participant_def messaging_counterpart_def
        messaging_blocked_either_way_def query_Inr_iff split: if_splits)
  from chat_of_send [OF v(1)] ok v(2) c nb show ?thesis by (auto simp: blocked_pair_def)
qed

lemma limited_runs:
  assumes env: "\<And>k v. runs run tables v (env k v)" and "limited L pepper env p u w = (Inr x, w1)"
  shows "runs run tables w (env 1 w1)"
proof -
  have "w_db w1 = w_db (env 0 w)" using assms(2) by (auto simp: limited_def bind_Inr_iff after_others_iff dest: enforce_db)
  then have "runs run tables w w1" using runs_elsewhere [OF env [of w 0], of w1] by simp
  then show ?thesis using env runs_trans by blast
qed

text \<open>What every limited operation of one transaction shares: the run that leads to the transaction's snapshot.\<close>

lemma limited_transaction_runs:
  assumes run: "seq (limited L pepper env p u) (after_others env 1 (transaction body)) w = (Inr x, w')"
    and "chat_runs L pepper w0 w" and "chat_tables (w_db w0) = ([], [], [])" and env: "\<forall>k v. chat_runs L pepper v (env k v)"
  shows "\<exists>v v'. chat_runs L pepper w v \<and> chat_ok (w_db v) \<and> body (v\<lparr>w_calls := Suc (w_calls v)\<rparr>) = (Inr x, v') \<and> w_db w' = w_db v'"
proof -
  obtain y w1 where l: "limited L pepper env p u w = (Inr y, w1)" and tx: "transaction body (env 1 w1) = (Inr x, w')"
    using run by (auto simp: seq_Inr_iff after_others_iff)
  have runs: "chat_runs L pepper w (env 1 w1)" using env by (intro limited_runs [OF _ l]) blast
  have ok: "chat_ok (w_db (env 1 w1))" using chat_runs_ok [OF runs_trans [OF runs assms(2)] assms(3)] .
  obtain v where "body ((env 1 w1)\<lparr>w_calls := Suc (w_calls (env 1 w1))\<rparr>) = (Inr x, v)" "w' = v\<lparr>w_calls := Suc (w_calls v)\<rparr>"
    using tx by (rule transaction_Inr)
  with runs ok show ?thesis by (intro exI [of _ "env 1 w1"] exI [of _ v]) auto
qed



subsection \<open>Who may start a conversation\<close>

lemma start_with_contractor_tx_InrD:
  assumes "start_with_contractor_tx u ct req w = (Inr c, w')" and ok: "chat_ok (w_db w)"
  shows "\<exists>r owner. find_contractor (w_db w) ct = Some r \<and> ct_claimed_by r = Some owner \<and> ct_accepts_dm r \<and> owner \<noteq> u \<and>
    \<not> blocked_pair (w_db w) u owner \<and> (\<forall>x. is_member (w_db w') (cn_id c) x \<longleftrightarrow> x = u \<or> x = owner)"
proof -
  obtain r owner created v v' where r: "find_contractor (w_db w) ct = Some r" "ct_claimed_by r = Some owner" "ct_accepts_dm r"
      "owner \<noteq> u" "\<not> blocked_pair (w_db w) u owner"
    and f: "messaging_find_or_create_dm u owner (Some ct) None v = (Inr (c, created), v')" and v: "w_db v = w_db w"
    and a: "conversation_participants (w_db w') = conversation_participants (w_db v')"
    using assms(1)
    by (auto simp: start_with_contractor_tx_def bind_Inr_iff seq_Inr_iff contractors_messaging_target_def
        messaging_blocked_either_way_def query_Inr_iff target_of_def split: if_splits option.splits dest!: audit_record_InrD)
  have mem: "is_member (w_db w') y x = is_member (w_db v') y x" for y x using a by (simp add: is_member_def)
  from find_or_create_InrD [OF f] ok v r show ?thesis by (auto simp: mem)
qed

lemma start_with_job_tx_InrD:
  assumes "start_with_job_tx u job req w = (Inr c, w')" and ok: "chat_ok (w_db w)"
  shows "\<exists>ct j. listing_of (w_db w) u = Some ct \<and> j \<in> set (jobs (w_db w)) \<and> jb_id j = job \<and> jb_status j = lit ''open'' \<and>
    jb_posted_by j \<noteq> u \<and> \<not> blocked_pair (w_db w) u (jb_posted_by j) \<and>
    (\<forall>x. is_member (w_db w') (cn_id c) x \<longleftrightarrow> x = u \<or> x = jb_posted_by j)"
proof -
  obtain ct j created v v' where r: "listing_of (w_db w) u = Some ct"
      "find (\<lambda>r. jb_id r = job \<and> jb_status r = lit ''open'') (jobs (w_db w)) = Some j"
      "jb_posted_by j \<noteq> u" "\<not> blocked_pair (w_db w) u (jb_posted_by j)"
    and f: "messaging_find_or_create_dm u (jb_posted_by j) (Some ct) (Some job) v = (Inr (c, created), v')" and v: "w_db v = w_db w"
    and a: "conversation_participants (w_db w') = conversation_participants (w_db v')"
    using assms(1)
    by (auto simp: start_with_job_tx_def bind_Inr_iff seq_Inr_iff contractors_claimed_by_def jobs_open_job_poster_def
        messaging_blocked_either_way_def query_Inr_iff split: if_splits option.splits dest!: audit_record_InrD)
  have "j \<in> set (jobs (w_db w))" "jb_id j = job" "jb_status j = lit ''open''" using find_Some_in [OF r(2)] by auto
  moreover have "is_member (w_db w') y x = is_member (w_db v') y x" for y x using a by (simp add: is_member_def)
  ultimately show ?thesis using find_or_create_InrD [OF f] ok v r by auto
qed



subsection \<open>Reports\<close>

text \<open>Hana's conversation with Carl beside one of two other people, who exchanged one message.\<close>

definition strangers_chat :: db where
  "strangers_chat = chat_people\<lparr>
     users := users chat_people @ [new_user_row 0 3 None (lit ''Ida'') Homeowner, new_user_row 0 4 None (lit ''Ken'') Contractor],
     conversations := [new_dm 0 100 (Some 5) (1, 2) 1 None, (new_dm 0 200 None (3, 4) 3 None)\<lparr>cv_last_seq := 1\<rparr>],
     conversation_participants := [member_row 100 1 ''initiator'', member_row 100 2 ''recipient'',
       member_row 200 3 ''initiator'', member_row 200 4 ''recipient''],
     messages := [new_message 0 7 200 1 3 (lit ''hi'')], message_reports := []\<rparr>"

lemma strangers_chat_ok: "chat_ok strangers_chat" "\<not> is_member strangers_chat 200 1"
  by (auto simp: chat_ok_def strangers_chat_def new_dm_def member_row_def new_message_def is_member_def conversation_exists_def
      conversation_log_def)

lemma toy_report_tx:
  assumes "quiet w" and "w_db w = strangers_chat" and "w_clock w = 0" and "w_ids w = (\<lambda>n. 100 + of_nat n)" and "w_next_id w = 0"
  shows "\<exists>r w'. report_tx 1 100 (Some 7) (lit ''spam'') None None w = (Inr r, w') \<and> quiet w' \<and>
    rt_conversation_id r = 100 \<and> rt_message_id r = Some 7"
proof -
  have chk: "audit_check (audit_row_of 0 i (domain_event ''message.reported'' ''message_reports'' ActorUser 1 100 j None))" for i j
    by (simp add: audit_check_def audit_row_of_def domain_event_def ev_with_request_def ev_with_data_def ev_subject_def
        ev_actor_def audit_event_new_def opt_len_le_def btrim_def trim_by_def lit_def)
  have act: "ev_actor_user_id (domain_event a t k u sb j r) = Some u" for a t k u sb j r
    by (simp add: domain_event_def ev_with_request_def ev_with_data_def ev_subject_def ev_actor_def)
  have us: "user_exists (chat_people\<lparr>users := users chat_people @ new, conversations := x, conversation_participants := y,
      messages := z, message_reports := q\<rparr>) 1" for new x y z q by (simp add: user_exists_def chat_people_def new_user_row_def)
  show ?thesis
    using assms chk us
    by (simp add: report_tx_def bind_def seq_def query_run messaging_is_participant_def is_member_def strangers_chat_def member_row_def
        messaging_report_def new_id_def sql_def round_trip_run report_stmt_def Let_def new_report_def report_reasons_def opt_len_le_def
        conversation_exists_def new_dm_def opt_missing_def message_exists_def new_message_def report_of_def audit_record_def act ret_def)
qed

text \<open>
  A report may point at a message its reporter never saw: in a consistent database, a member of one conversation
  reports that conversation together with a message of another one, which they are not a member of, and the report is filed
  under their own conversation. The documentation speaks of a conversation or a message in it.
\<close>

theorem report_accepts_a_foreign_message:
  "\<exists>d r w'. chat_ok d \<and> report toy_lib [] no_others 1 100 (Some 7) (lit ''spam'') None None (calm_world d 0) = (Inr r, w') \<and>
     rt_conversation_id r = 100 \<and> rt_message_id r = Some 7 \<and>
     (\<exists>m \<in> set (messages d). dm_id m = 7 \<and> dm_conversation_id m \<noteq> 100 \<and> \<not> is_member d (dm_conversation_id m) 1)"
proof -
  let ?w = "calm_world strangers_chat 0"
  obtain rows where e: "enforce toy_lib [] report_policy (uuid_to_string toy_lib 1) 0 ?w = (Inr (), ?w\<lparr>w_calls := 2, w_rates := rows\<rparr>)"
    using enforce_calm_bounded [of report_policy "[]" "uuid_to_string toy_lib 1" strangers_chat]
    by (auto simp: report_policy_def mk_policy_def time_defs)
  have ids: "w_ids ?w = (\<lambda>n. 100 + of_nat n)" by (simp add: calm_world_def)
  have q: "quiet (?w\<lparr>w_calls := 2, w_rates := rows\<rparr>)" by (simp add: quiet_def)
  obtain r v where tx: "report_tx 1 100 (Some 7) (lit ''spam'') None None (?w\<lparr>w_rates := rows, w_calls := 3\<rparr>) = (Inr r, v)"
    and r: "quiet v" "rt_conversation_id r = 100" "rt_message_id r = Some 7"
    using toy_report_tx [of "?w\<lparr>w_rates := rows, w_calls := 3\<rparr>"] ids by (auto simp: quiet_def)
  have "transaction (report_tx 1 100 (Some 7) (lit ''spam'') None None) (?w\<lparr>w_calls := 2, w_rates := rows\<rparr>) =
      (Inr r, v\<lparr>w_calls := Suc (w_calls v)\<rparr>)" using transaction_run [OF q _ r(1)] tx by simp
  then have "report toy_lib [] no_others 1 100 (Some 7) (lit ''spam'') None None ?w = (Inr r, v\<lparr>w_calls := Suc (w_calls v)\<rparr>)"
    using e by (simp add: report_def report_reasons_def limited_def seq_def bind_def after_no_others utc_now_def)
  moreover have "\<exists>m \<in> set (messages strangers_chat). dm_id m = 7 \<and> dm_conversation_id m \<noteq> 100 \<and>
      \<not> is_member strangers_chat (dm_conversation_id m) 1"
    using strangers_chat_ok(2) by (simp add: strangers_chat_def new_message_def)
  ultimately show ?thesis using r strangers_chat_ok(1) by blast
qed

end
