(* ===== verification/Repo_Claims.thy ===== *)
theory Repo_Claims
  imports Repo_Contractors
begin

text \<open>
  \<open>cm-db/src/repo/claims.rs\<close>: claims on listings and the evidence behind decisions. The three partial unique indexes of
  migration 0012 are spelled out where a statement can violate them: an inserted claim is pending, so only the one on pending
  pairs applies to it; a decision can run into the two on approved claims.
\<close>

definition claim_status_parse :: "ustr \<Rightarrow> claim_status option" where
  "claim_status_parse v = find (\<lambda>s. claim_status_str s = v) [CPending, CApproved, CRejected, CWithdrawn]"

definition claim_method_parse :: "ustr \<Rightarrow> claim_method option" where
  "claim_method_parse v = find (\<lambda>m. claim_method_str m = v) [LicensePhoneOtp, LicenseMailCode, ManualReview]"

record claim =
  ci_id :: uuid
  ci_contractor_id :: uuid
  ci_user_id :: uuid
  ci_status :: claim_status
  ci_method :: claim_method
  ci_evidence :: ustr
  ci_decision_note :: "ustr option"
  ci_created_at :: time
  ci_decided_at :: "time option"

definition claim_of_row :: "claim_row \<Rightarrow> claim res" where
  "claim_of_row r =
     (case claim_status_parse (cm_status r) of
        None \<Rightarrow> Inl (Internal (lit ''unknown claim status: '' @ cm_status r))
      | Some st \<Rightarrow>
          (case claim_method_parse (cm_method r) of
             None \<Rightarrow> Inl (Internal (lit ''unknown claim method: '' @ cm_method r))
           | Some me \<Rightarrow> Inr \<lparr>ci_id = cm_id r, ci_contractor_id = cm_contractor_id r, ci_user_id = cm_user_id r, ci_status = st,
               ci_method = me, ci_evidence = cm_evidence r, ci_decision_note = cm_decision_note r,
               ci_created_at = cm_created_at r, ci_decided_at = cm_decided_at r\<rparr>))"

fun claims_of_rows :: "claim_row list \<Rightarrow> claim list res" where
  "claims_of_rows [] = Inr []"
| "claims_of_rows (r # rs) =
     (case claim_of_row r of
        Inl e \<Rightarrow> Inl e
      | Inr c \<Rightarrow> (case claims_of_rows rs of Inl e \<Rightarrow> Inl e | Inr cs \<Rightarrow> Inr (c # cs)))"

definition new_claim :: "time \<Rightarrow> uuid \<Rightarrow> uuid \<Rightarrow> uuid \<Rightarrow> claim_method \<Rightarrow> ustr \<Rightarrow> claim_row" where
  "new_claim now i contractor_id user_id m evidence =
     \<lparr>cm_id = i, cm_contractor_id = contractor_id, cm_user_id = user_id, cm_status = lit ''pending'', cm_method = claim_method_str m,
      cm_evidence = evidence, cm_decided_at = None, cm_decided_by = None, cm_decision_note = None, cm_created_at = now\<rparr>"

definition claim_check :: "claim_row \<Rightarrow> bool" where
  "claim_check r \<longleftrightarrow> claim_status_parse (cm_status r) \<noteq> None \<and> claim_method_parse (cm_method r) \<noteq> None \<and>
     opt_len_le 2000 (cm_decision_note r) \<and> (cm_status r = lit ''pending'') = (cm_decided_at r = None)"

definition open_claim_stmt :: "uuid \<Rightarrow> uuid \<Rightarrow> uuid \<Rightarrow> claim_method \<Rightarrow> ustr \<Rightarrow> time \<Rightarrow> db \<Rightarrow> (claim_row \<times> db) res" where
  "open_claim_stmt i contractor_id user_id m evidence now d =
     (let row = new_claim now i contractor_id user_id m evidence in
      if i \<in> cm_id ` set (contractor_claims d) then Inl (internal ''contractor_claims_pkey'')
      else if \<exists>r \<in> set (contractor_claims d). cm_status r = lit ''pending'' \<and> cm_contractor_id r = contractor_id \<and>
          cm_user_id r = user_id then
        Inl (conflict ''You already have a claim pending on this listing.'')
      else if \<not> contractor_exists d contractor_id \<or> \<not> user_exists d user_id then
        Inl (internal ''contractor_claims foreign key'')
      else Inr (row, d\<lparr>contractor_claims := contractor_claims d @ [row]\<rparr>))"

definition claims_open :: "uuid \<Rightarrow> uuid \<Rightarrow> claim_method \<Rightarrow> ustr \<Rightarrow> claim m" where
  "claims_open contractor_id user_id m evidence =
     bind new_id (\<lambda>i. bind (sql (open_claim_stmt i contractor_id user_id m evidence)) (\<lambda>row. of_res (claim_of_row row)))"

definition find_claim :: "db \<Rightarrow> uuid \<Rightarrow> claim_row option" where
  "find_claim d i = find (\<lambda>r. cm_id r = i) (contractor_claims d)"

definition claims_find :: "uuid \<Rightarrow> claim option m" where
  "claims_find i =
     bind (query (\<lambda>_ d. find_claim d i)) (\<lambda>row.
     case row of None \<Rightarrow> ret None | Some r \<Rightarrow> bind (of_res (claim_of_row r)) (\<lambda>c. ret (Some c)))"

definition claims_for_user :: "uuid \<Rightarrow> claim list m" where
  "claims_for_user user_id =
     bind (query (\<lambda>_ d. sort_key (\<lambda>r. - cm_created_at r) (filter (\<lambda>r. cm_user_id r = user_id) (contractor_claims d))))
       (\<lambda>rows. of_res (claims_of_rows rows))"

definition claims_pending :: "int \<Rightarrow> claim list m" where
  "claims_pending limit =
     bind (query (\<lambda>_ d. take (nat (max 1 (min limit 200)))
         (sort_key cm_created_at (filter (\<lambda>r. cm_status r = lit ''pending'') (contractor_claims d)))))
       (\<lambda>rows. of_res (claims_of_rows rows))"

definition decided_claim :: "claim_status \<Rightarrow> uuid option \<Rightarrow> ustr option \<Rightarrow> time \<Rightarrow> claim_row \<Rightarrow> claim_row" where
  "decided_claim status decided_by note now r =
     r\<lparr>cm_status := claim_status_str status, cm_decided_at := Some now, cm_decided_by := decided_by, cm_decision_note := note\<rparr>"

definition approved_taken :: "db \<Rightarrow> claim_row \<Rightarrow> bool" where
  "approved_taken d r \<longleftrightarrow> cm_status r = lit ''approved'' \<and>
     (\<exists>x \<in> set (contractor_claims d). cm_id x \<noteq> cm_id r \<and> cm_status x = lit ''approved'' \<and>
        (cm_contractor_id x = cm_contractor_id r \<or> cm_user_id x = cm_user_id r))"

definition set_claim :: "uuid \<Rightarrow> (claim_row \<Rightarrow> claim_row) \<Rightarrow> db \<Rightarrow> db" where
  "set_claim i f d = d\<lparr>contractor_claims := map (\<lambda>r. if cm_id r = i then f r else r) (contractor_claims d)\<rparr>"

definition decide_claim_stmt :: "uuid \<Rightarrow> claim_status \<Rightarrow> uuid option \<Rightarrow> ustr option \<Rightarrow> time \<Rightarrow> db \<Rightarrow> (nat \<times> db) res" where
  "decide_claim_stmt i status decided_by note now d =
     (case find_claim d i of
        None \<Rightarrow> Inr (0, d)
      | Some r \<Rightarrow>
          if cm_status r \<noteq> lit ''pending'' then Inr (0, d)
          else if \<not> claim_check (decided_claim status decided_by note now r) then Inl (internal ''check constraint of contractor_claims'')
          else if approved_taken d (decided_claim status decided_by note now r) then
            Inl (conflict ''That listing or account already has an approved claim.'')
          else if (case decided_by of None \<Rightarrow> False | Some u \<Rightarrow> \<not> user_exists d u) then
            Inl (internal ''contractor_claims foreign key'')
          else Inr (1, set_claim i (decided_claim status decided_by note now) d))"

definition claims_decide :: "uuid \<Rightarrow> claim_status \<Rightarrow> uuid option \<Rightarrow> ustr option \<Rightarrow> bool m" where
  "claims_decide i status decided_by note =
     bind (sql (decide_claim_stmt i status decided_by note)) (\<lambda>n. ret (n = 1))"

definition check_kinds :: "ustr list" where
  "check_kinds = [lit ''cslb_license_active'', lit ''cslb_bond_present'', lit ''cslb_workers_comp'', lit ''phone_otp'', lit ''mail_code'',
     lit ''manual_review'']"

definition check_outcomes :: "ustr list" where
  "check_outcomes = [lit ''pass'', lit ''fail'', lit ''inconclusive'']"

definition new_check :: "time \<Rightarrow> uuid \<Rightarrow> uuid \<Rightarrow> uuid option \<Rightarrow> ustr \<Rightarrow> ustr \<Rightarrow> json_object \<Rightarrow> uuid option \<Rightarrow> check_row" where
  "new_check now i contractor_id claim_id kind result evidence performed_by =
     \<lparr>vc_id = i, vc_contractor_id = contractor_id, vc_claim_id = claim_id, vc_kind = kind, vc_outcome = result,
      vc_evidence = evidence, vc_performed_by = performed_by, vc_observed_at = now\<rparr>"

definition record_check_stmt ::
  "uuid \<Rightarrow> uuid \<Rightarrow> uuid option \<Rightarrow> ustr \<Rightarrow> ustr \<Rightarrow> json_object \<Rightarrow> uuid option \<Rightarrow> time \<Rightarrow> db \<Rightarrow> (unit \<times> db) res" where
  "record_check_stmt i contractor_id claim_id kind result evidence performed_by now d =
     (if kind \<notin> set check_kinds \<or> result \<notin> set check_outcomes then Inl (internal ''check constraint of verification_checks'')
      else if i \<in> vc_id ` set (verification_checks d) then Inl (internal ''verification_checks_pkey'')
      else if \<not> contractor_exists d contractor_id \<or>
          (case claim_id of None \<Rightarrow> False | Some c \<Rightarrow> find_claim d c = None) \<or>
          (case performed_by of None \<Rightarrow> False | Some u \<Rightarrow> \<not> user_exists d u) then
        Inl (internal ''verification_checks foreign key'')
      else Inr ((), d\<lparr>verification_checks := verification_checks d @
        [new_check now i contractor_id claim_id kind result evidence performed_by]\<rparr>))"

definition claims_record_check ::
  "uuid \<Rightarrow> uuid option \<Rightarrow> ustr \<Rightarrow> ustr \<Rightarrow> json_object \<Rightarrow> uuid option \<Rightarrow> uuid m" where
  "claims_record_check contractor_id claim_id kind result evidence performed_by =
     bind new_id (\<lambda>i. seq (sql (record_check_stmt i contractor_id claim_id kind result evidence performed_by)) (ret i))"

definition claims_checks_for_contractor :: "uuid \<Rightarrow> int \<Rightarrow> (ustr \<times> ustr \<times> json_object \<times> time) list m" where
  "claims_checks_for_contractor contractor_id limit =
     query (\<lambda>_ d. map (\<lambda>r. (vc_kind r, vc_outcome r, vc_evidence r, vc_observed_at r))
       (take (nat (max 1 (min limit 200))) (sort_key (\<lambda>r. - vc_observed_at r)
         (filter (\<lambda>r. vc_contractor_id r = contractor_id) (verification_checks d)))))"

end
