(* ===== verification/Verification.thy ===== *)
theory Verification
  imports Repo_Contractors Quiet_Runs
begin

text \<open>
  \<open>cm-domain/src/verification.rs\<close>: the verified badge of a listing. \<open>date_str\<close> is chrono's \<open>Display\<close> of a date, which only
  reaches the stored reason. The nightly pass pages through the listings by id; its loop ends because ids grow, whatever other
  requests do meanwhile.
\<close>

type_synonym date_str = "date \<Rightarrow> ustr"

text \<open>\<open>DateTime<Utc>::date_naive\<close>, in days since the epoch.\<close>

definition date_naive :: "time \<Rightarrow> date" where
  "date_naive t = t div 86400000000"

record outcome =
  oc_verified :: bool
  oc_reason :: ustr

definition is_expired :: "time \<Rightarrow> license_facts \<Rightarrow> bool" where
  "is_expired now facts = (case lf_expiration_date facts of None \<Rightarrow> False | Some d \<Rightarrow> d < date_naive now)"

definition verification_decide :: "date_str \<Rightarrow> time \<Rightarrow> bool \<Rightarrow> license_facts option \<Rightarrow> outcome" where
  "verification_decide date_str now claimed found =
     (case found of
        None \<Rightarrow> \<lparr>oc_verified = False, oc_reason = lit ''no licence record is linked to this listing''\<rparr>
      | Some facts \<Rightarrow>
          if lf_status facts \<noteq> LActive then
            \<lparr>oc_verified = False, oc_reason = lit ''CSLB licence '' @ lf_license_no facts @ lit '' is '' @
               license_status_str (lf_status facts) @ lit '' as of the last import''\<rparr>
          else if is_expired now facts then
            \<lparr>oc_verified = False, oc_reason = lit ''CSLB licence '' @ lf_license_no facts @ lit '' expired on '' @
               (case lf_expiration_date facts of None \<Rightarrow> lit ''an unknown date'' | Some d \<Rightarrow> date_str d)\<rparr>
          else if \<not> claimed then
            \<lparr>oc_verified = False, oc_reason = lit ''CSLB licence '' @ lf_license_no facts @
               lit '' is active, but nobody has claimed this listing''\<rparr>
          else
            \<lparr>oc_verified = True, oc_reason = lit ''claim approved and CSLB licence '' @ lf_license_no facts @
               lit '' was active at the last import''\<rparr>)"

definition recompute :: "date_str \<Rightarrow> uuid \<Rightarrow> outcome m" where
  "recompute date_str contractor_id =
     bind (contractors_location_inputs contractor_id) (\<lambda>inputs.
     let claimed = (case inputs of None \<Rightarrow> False | Some i \<Rightarrow> li_is_claimed i) in
     bind (licenses_facts_for_contractor contractor_id) (\<lambda>facts.
     bind utc_now (\<lambda>now.
     let outcome = verification_decide date_str now claimed facts in
     seq (contractors_set_verification contractor_id (oc_verified outcome) (oc_reason outcome))
     (ret outcome))))"

text \<open>One page of ids. PostgreSQL refuses a negative \<open>LIMIT\<close>.\<close>

definition ids_after :: "uuid option \<Rightarrow> nat \<Rightarrow> db \<Rightarrow> uuid list" where
  "ids_after after page d =
     take page (sort (filter (\<lambda>i. case after of None \<Rightarrow> True | Some a \<Rightarrow> a < i) (map ct_id (contractors d))))"

definition contractor_page :: "int \<Rightarrow> uuid option \<Rightarrow> uuid list m" where
  "contractor_page page after =
     sql (\<lambda>_ d. if page < 0 then Inl (internal ''LIMIT must not be negative'') else Inr (ids_after after (nat page) d, d))"

fun recompute_each :: "date_str \<Rightarrow> uuid list \<Rightarrow> unit m" where
  "recompute_each date_str [] = ret ()"
| "recompute_each date_str (i # is) = seq (recompute date_str i) (recompute_each date_str is)"

lemma ids_after_above:
  assumes "ids_after after page d \<noteq> []"
  shows "case after of None \<Rightarrow> True | Some a \<Rightarrow> a < last (ids_after after page d)"
proof (cases after)
  case (Some a)
  have "last (ids_after after page d) \<in> set (ids_after after page d)" using assms by simp
  then show ?thesis using Some by (auto simp: ids_after_def dest: in_set_takeD)
qed simp

text \<open>What is left above the cursor shrinks with every page.\<close>

definition above :: "uuid option \<Rightarrow> nat" where
  "above after = (case after of None \<Rightarrow> 2 ^ 128 | Some a \<Rightarrow> 2 ^ 128 - 1 - unat a)"

lemma above_decreases:
  assumes "case after of None \<Rightarrow> True | Some a \<Rightarrow> a < (i :: uuid)"
  shows "above (Some i) < above after"
proof (cases after)
  case (Some a)
  then have "unat a < unat i" using assms by (simp add: word_less_nat_alt)
  moreover have "unat i < 2 ^ LENGTH(128)" by (rule unsigned_less)
  ultimately show ?thesis using Some by (simp add: above_def)
qed (simp add: above_def)

function recompute_loop :: "date_str \<Rightarrow> env \<Rightarrow> int \<Rightarrow> nat \<Rightarrow> uuid option \<Rightarrow> nat \<Rightarrow> world \<Rightarrow> nat res \<times> world" where
  "recompute_loop date_str env page k after processed w =
     (case seq (after_others env k acquire) (contractor_page page after) w of
        (Inl e, w1) \<Rightarrow> (Inl e, w1)
      | (Inr ids, w1) \<Rightarrow>
          if ids = [] then (Inr processed, w1)
          else
            (case after_others env (Suc k) (transaction (recompute_each date_str ids)) w1 of
               (Inl e, w2) \<Rightarrow> (Inl e, w2)
             | (Inr _, w2) \<Rightarrow> recompute_loop date_str env page (k + 2) (Some (last ids)) (processed + length ids) w2))"
  by pat_completeness auto

termination
proof (relation "measure (\<lambda>(_, _, _, _, after, _, _). above after)", simp, clarify)
  fix date_str env page k after processed w ids w1 w2
  assume "(Inr ids, w1) = seq (after_others env k acquire) (contractor_page page after) w" and "ids \<noteq> []"
  then have "seq (after_others env k acquire) (contractor_page page after) w = (Inr ids, w1)" by simp
  then obtain d where "ids = ids_after after (nat page) d"
    by (auto simp: seq_Inr_iff contractor_page_def sql_Inr_iff split: if_splits)
  then have "case after of None \<Rightarrow> True | Some a \<Rightarrow> a < last ids" using ids_after_above [of after "nat page" d] \<open>ids \<noteq> []\<close> by (auto split: option.splits)
  from above_decreases [OF this] show "((date_str, env, page, k + 2, Some (last ids), processed + length ids, w2),
      (date_str, env, page, k, after, processed, w)) \<in> measure (\<lambda>(_, _, _, _, after, _, _). above after)"
    by simp
qed

definition recompute_all :: "date_str \<Rightarrow> env \<Rightarrow> int \<Rightarrow> nat m" where
  "recompute_all date_str env page = recompute_loop date_str env page 0 None 0"

subsection \<open>The rule\<close>

text \<open>What a badge rests on: an owner, and a linked licence that is active and has not expired by that day.\<close>

definition badge :: "db \<Rightarrow> time \<Rightarrow> contractor_row \<Rightarrow> bool" where
  "badge d now r \<longleftrightarrow> ct_claimed_by r \<noteq> None \<and>
     (\<exists>l. find_license d r = Some l \<and> l_status l = lit ''active'' \<and>
        (\<forall>x. l_expiration_date l = Some x \<longrightarrow> date_naive now \<le> x))"

lemma facts_of_license_InrD:
  assumes "facts_of_license l = Inr f"
  shows "l_status l = license_status_str (lf_status f) \<and> lf_expiration_date f = l_expiration_date l"
proof -
  obtain st where "license_status_parse (l_status l) = Some st" "f = \<lparr>lf_license_no = l_license_no l, lf_status = st,
      lf_expiration_date = l_expiration_date l, lf_last_seen_at = l_last_seen_at l\<rparr>"
    using assms by (auto simp: facts_of_license_def split: option.splits)
  then show ?thesis using find_Some_in [of _ _ st] by (force simp only: license_status_parse_def license_facts.select_convs)
qed

lemma verification_decide_badge:
  assumes "rel_option (\<lambda>l f. facts_of_license l = Inr f) (find_license d r) facts"
  shows "oc_verified (verification_decide date_str now (ct_claimed_by r \<noteq> None) facts) = badge d now r"
proof (cases facts)
  case None
  with assms show ?thesis by (simp add: verification_decide_def badge_def)
next
  case (Some f)
  with assms obtain l where l: "find_license d r = Some l" and f: "facts_of_license l = Inr f"
    by (auto simp: option_rel_Some2)
  have "l_status l = lit ''active'' \<longleftrightarrow> lf_status f = LActive"
    using facts_of_license_InrD [OF f] license_status_str_eq [of _ LActive] by simp
  with l facts_of_license_InrD [OF f] Some show ?thesis
    by (auto simp: verification_decide_def badge_def is_expired_def split: option.splits)
qed

definition rebadged :: "date_str \<Rightarrow> time \<Rightarrow> uuid \<Rightarrow> ustr \<Rightarrow> db \<Rightarrow> db" where
  "rebadged date_str now i reason d = (case find_contractor d i of
     None \<Rightarrow> d | Some r \<Rightarrow> set_contractor i (verification_row (badge d now r) reason now) d)"

lemma location_inputs_InrD:
  assumes "contractors_location_inputs i w = (Inr inputs, w')"
  shows "map_option li_is_claimed inputs = map_option (\<lambda>r. ct_claimed_by r \<noteq> None) (find_contractor (w_db w) i) \<and>
    w' = w\<lparr>w_calls := Suc (w_calls w)\<rparr>"
  using assms by (auto simp: contractors_location_inputs_def location_inputs_of_def run_iffs split: option.splits)

lemma license_facts_InrD:
  assumes "licenses_facts_for_contractor i w = (Inr facts, w')"
  shows "rel_option (\<lambda>l f. facts_of_license l = Inr f) (license_of (w_db w) i) facts \<and> w' = w\<lparr>w_calls := Suc (w_calls w)\<rparr>"
  using assms by (auto simp: licenses_facts_for_contractor_def run_iffs split: option.splits)

lemma recompute_InrD:
  assumes "recompute date_str i w = (Inr out, w')"
  shows "w_db w' = rebadged date_str (w_clock w) i (oc_reason out) (w_db w) \<and> w_clock w' = w_clock w \<and>
    oc_verified out = (case find_contractor (w_db w) i of None \<Rightarrow> False | Some r \<Rightarrow> badge (w_db w) (w_clock w) r)"
proof -
  obtain inputs facts w1 where li: "contractors_location_inputs i w = (Inr inputs, w\<lparr>w_calls := Suc (w_calls w)\<rparr>)"
    and fa: "licenses_facts_for_contractor i (w\<lparr>w_calls := Suc (w_calls w)\<rparr>) = (Inr facts, w1)"
    and out: "out = verification_decide date_str (w_clock w1) (case inputs of None \<Rightarrow> False | Some x \<Rightarrow> li_is_claimed x) facts"
    and set: "contractors_set_verification i (oc_verified out) (oc_reason out) w1 = (Inr (), w')"
    using assms by (auto simp: recompute_def bind_Inr_iff seq_Inr_iff Let_def dest: location_inputs_InrD)
  from license_facts_InrD [OF fa] have w1: "w_db w1 = w_db w" "w_clock w1 = w_clock w"
    and rel: "rel_option (\<lambda>l f. facts_of_license l = Inr f) (license_of (w_db w) i) facts" by auto
  show ?thesis
  proof (cases "find_contractor (w_db w) i")
    case None
    with rel have "facts = None" by (simp add: license_of_def)
    with out set None w1 show ?thesis
      by (auto simp: contractors_set_verification_def contractor_sql_def update_contractor_def run_iffs rebadged_def verification_decide_def)
  next
    case (Some r)
    then obtain x where "inputs = Some x" "li_is_claimed x = (ct_claimed_by r \<noteq> None)"
      using location_inputs_InrD [OF li] by (cases inputs) auto
    with out w1 verification_decide_badge [of "w_db w" r facts date_str "w_clock w"] rel Some
    have "oc_verified out = badge (w_db w) (w_clock w) r" by (simp add: license_of_def)
    with set Some w1 show ?thesis
      by (auto simp: contractors_set_verification_def contractor_sql_def update_contractor_def run_iffs rebadged_def split: if_splits)
  qed
qed

subsection \<open>A pass over every listing\<close>

text \<open>What the tables promise of the rows a pass reads: the constraints of \<open>contractors\<close> and, for linked licences, those of
  \<open>license_records\<close> on the status and the licence number.\<close>

definition license_check :: "license_row \<Rightarrow> bool" where
  "license_check l \<longleftrightarrow> length (l_license_no l) \<le> 32 \<and> license_status_parse (l_status l) \<noteq> None"

definition listings_ok :: "db \<Rightarrow> bool" where
  "listings_ok d \<longleftrightarrow> distinct (map ct_id (contractors d)) \<and>
     list_all (\<lambda>r. contractor_check r \<and> \<not> contractor_taken d (ct_id r) r \<and> \<not> claimant_missing d r) (contractors d) \<and>
     list_all license_check (license_records d)"

text \<open>Exactly the listings of \<open>S\<close> get the badge they deserve, and only their badge changes.\<close>

definition rebadges :: "uuid set \<Rightarrow> time \<Rightarrow> db \<Rightarrow> db \<Rightarrow> bool" where
  "rebadges S now d d' \<longleftrightarrow> (\<exists>cs. d' = d\<lparr>contractors := cs\<rparr> \<and>
     list_all2 (\<lambda>r r'. if ct_id r \<in> S then \<exists>reason. r' = verification_row (badge d now r) reason now r else r' = r)
       (contractors d) cs)"

lemma verification_row_sel [simp]:
  "ct_id (verification_row b reason now r) = ct_id r" "ct_claimed_by (verification_row b reason now r) = ct_claimed_by r"
  "ct_claimed_at (verification_row b reason now r) = ct_claimed_at r"
  "ct_license_record_id (verification_row b reason now r) = ct_license_record_id r"
  "ct_photo_key (verification_row b reason now r) = ct_photo_key r" "ct_verified (verification_row b reason now r) = b"
  by (simp_all add: verification_row_def)

lemma badge_row [simp]:
  "badge (d\<lparr>contractors := cs\<rparr>) now r = badge d now r" "badge d now (verification_row b reason t r) = badge d now r"
  by (simp_all add: badge_def find_license_def cong: option.case_cong)

lemma rebadges_ids:
  assumes "rebadges S now d d'" shows "map ct_id (contractors d') = map ct_id (contractors d)"
  using assms by (auto simp: rebadges_def list_all2_conv_all_nth list_eq_iff_nth_eq split: if_splits)

lemma rebadges_none: "rebadges {} now d d"
  by (auto simp: rebadges_def list_all2_conv_all_nth intro!: exI [of _ "contractors d"])

lemma rebadges_trans:
  assumes "rebadges A now d d1" and "rebadges B now d1 d2" and "A \<inter> B = {}"
  shows "rebadges (A \<union> B) now d d2"
proof -
  from assms obtain cs ds where d1: "d1 = d\<lparr>contractors := cs\<rparr>" and d2: "d2 = d\<lparr>contractors := ds\<rparr>"
    and a: "list_all2 (\<lambda>r r'. if ct_id r \<in> A then \<exists>reason. r' = verification_row (badge d now r) reason now r else r' = r)
      (contractors d) cs"
    and b: "list_all2 (\<lambda>r r'. if ct_id r \<in> B then \<exists>reason. r' = verification_row (badge d now r) reason now r else r' = r) cs ds"
    by (auto simp: rebadges_def cong: if_cong)
  have "list_all2 (\<lambda>r r'. if ct_id r \<in> A \<union> B then \<exists>reason. r' = verification_row (badge d now r) reason now r else r' = r)
      (contractors d) ds"
    using a b by (rule list_all2_trans [rotated]) (use assms(3) in \<open>auto split: if_splits\<close>)
  with d2 show ?thesis unfolding rebadges_def by blast
qed

lemma contractor_taken_frame:
  assumes "map (\<lambda>x. (ct_id x, ct_claimed_by x, ct_photo_key x)) (contractors d) =
    map (\<lambda>x. (ct_id x, ct_claimed_by x, ct_photo_key x)) (contractors d')"
  shows "contractor_taken d i r = contractor_taken d' i r"
proof -
  have "contractor_taken d i r = (\<exists>(a, b, c) \<in> set (map (\<lambda>x. (ct_id x, ct_claimed_by x, ct_photo_key x)) (contractors d)).
      a \<noteq> i \<and> (ct_claimed_by r \<noteq> None \<and> b = ct_claimed_by r \<or> ct_photo_key r \<noteq> None \<and> c = ct_photo_key r))" for d
    by (auto simp: contractor_taken_def)
  then show ?thesis by (simp only: assms)
qed

lemma listings_ok_rebadged:
  assumes ok: "listings_ok d" and r: "r \<in> set (contractors d)" and len: "length reason \<le> 500"
  shows "contractor_check (verification_row b reason now r)"
    and "\<not> contractor_taken d (ct_id r) (verification_row b reason now r)"
    and "\<not> claimant_missing d (verification_row b reason now r)"
    and "listings_ok (set_contractor (ct_id r) (verification_row b reason now) d)"
proof -
  let ?f = "verification_row b reason now" and ?d = "set_contractor (ct_id r) (verification_row b reason now) d"
  have rows: "contractor_check x" "\<not> contractor_taken d (ct_id x) x" "\<not> claimant_missing d x" if "x \<in> set (contractors d)" for x
    using ok that by (auto simp: listings_ok_def list_all_iff)
  have check: "contractor_check (?f x)" if "x \<in> set (contractors d)" for x
    using rows(1) [OF that] len unfolding contractor_check_def verification_row_def by (elim conjE) (simp add: opt_len_le_def)
  then show "contractor_check (?f r)" using r .
  show "\<not> contractor_taken d (ct_id r) (?f r)" "\<not> claimant_missing d (?f r)"
    using rows(2,3) [OF r] by (simp_all add: contractor_taken_def claimant_missing_def)
  have taken: "contractor_taken ?d i x = contractor_taken d i x" for i x
    by (rule contractor_taken_frame) (simp add: set_contractor_def)
  have "map ct_id (contractors ?d) = map ct_id (contractors d)" by (simp add: set_contractor_def)
  moreover have "list_all (\<lambda>x. contractor_check x \<and> \<not> contractor_taken ?d (ct_id x) x \<and> \<not> claimant_missing ?d x) (contractors ?d)"
  proof (clarsimp simp: list_all_iff taken)
    fix x
    assume "x \<in> set (contractors ?d)"
    then obtain y where y: "y \<in> set (contractors d)" and x: "x = (if ct_id y = ct_id r then ?f y else y)"
      by (auto simp: set_contractor_def)
    have "contractor_check x" using rows(1) [OF y] check [OF y] x by simp
    moreover have "contractor_taken d (ct_id x) x = contractor_taken d (ct_id y) y" using x by (simp add: contractor_taken_def)
    moreover have "claimant_missing ?d x = claimant_missing d y"
      using x by (simp add: claimant_missing_def user_exists_def set_contractor_def cong: option.case_cong)
    ultimately show "contractor_check x \<and> \<not> contractor_taken d (ct_id x) x \<and> \<not> claimant_missing ?d x"
      using rows(2,3) [OF y] by simp
  qed
  ultimately show "listings_ok ?d" using ok by (simp only: listings_ok_def) (simp add: set_contractor_def)
qed

lemma verification_decide_reason:
  assumes "\<And>x. length (date_str x) \<le> 100" and "\<And>f. facts = Some f \<Longrightarrow> length (lf_license_no f) \<le> 32"
  shows "length (oc_reason (verification_decide date_str now c facts)) \<le> 500"
proof -
  have "length (license_status_str st) \<le> 20" for st by (cases st) (simp_all add: lit_def)
  note st = this
  show ?thesis
  proof (cases facts)
    case None
    then show ?thesis by (simp add: verification_decide_def lit_def)
  next
    case (Some f)
    then show ?thesis using assms(2) [OF Some] assms(1) [of "the (lf_expiration_date f)"] st [of "lf_status f"]
      by (auto simp: verification_decide_def lit_def split: option.splits)
  qed
qed

lemma location_inputs_run:
  assumes "quiet w" and "find_contractor (w_db w) i = Some r" and "contractor_check r"
  shows "\<exists>x. contractors_location_inputs i w = (Inr (Some x), w\<lparr>w_calls := Suc (w_calls w)\<rparr>)"
proof -
  have "address_visibility_parse (ct_address_visibility r) \<noteq> None"
    using assms(3) by (auto simp: address_visibility_parse_def find_None_iff contractor_check_def)
  then show ?thesis
    using assms by (auto simp: contractors_location_inputs_def bind_def query_run location_inputs_of_def of_res_def ret_def)
qed

lemma license_facts_run:
  assumes "quiet w" and "list_all license_check (license_records (w_db w))"
  shows "\<exists>facts. licenses_facts_for_contractor i w = (Inr facts, w\<lparr>w_calls := Suc (w_calls w)\<rparr>) \<and>
    (\<forall>f. facts = Some f \<longrightarrow> length (lf_license_no f) \<le> 32)"
proof (cases "license_of (w_db w) i")
  case None
  with assms show ?thesis by (simp add: licenses_facts_for_contractor_def bind_def query_run ret_def)
next
  case (Some l)
  then have "l \<in> set (license_records (w_db w))" by (auto simp: license_of_def find_license_def split: option.splits dest: find_Some_in)
  with assms(2) have "license_check l" by (auto simp: list_all_iff)
  with Some assms(1) show ?thesis
    by (auto simp: licenses_facts_for_contractor_def bind_def query_run ret_def facts_of_license_def license_check_def of_res_def)
qed

lemma recompute_run:
  assumes q: "quiet w" and ok: "listings_ok (w_db w)" and ds: "\<And>x. length (date_str x) \<le> 100"
    and i: "i \<in> ct_id ` set (contractors (w_db w))"
  shows "\<exists>out w'. recompute date_str i w = (Inr out, w') \<and> quiet w' \<and> w_clock w' = w_clock w \<and> listings_ok (w_db w') \<and>
    rebadges {i} (w_clock w) (w_db w) (w_db w') \<and> w_ids w' = w_ids w \<and> w_next_id w' = w_next_id w"
proof -
  from i obtain r where f: "find_contractor (w_db w) i = Some r"
    by (cases "find_contractor (w_db w) i") (auto simp: find_contractor_def find_None_iff)
  then have r: "r \<in> set (contractors (w_db w))" and id: "ct_id r = i" by (auto simp: find_contractor_def dest: find_Some_in)
  have chk: "contractor_check r" using ok r by (auto simp: listings_ok_def list_all_iff)
  let ?w1 = "w\<lparr>w_calls := Suc (w_calls w)\<rparr>" and ?w2 = "w\<lparr>w_calls := Suc (Suc (w_calls w))\<rparr>"
  obtain x where li: "contractors_location_inputs i w = (Inr (Some x), ?w1)" using location_inputs_run [OF q f chk] by blast
  obtain facts where fa: "licenses_facts_for_contractor i ?w1 = (Inr facts, ?w2)"
    and len: "\<And>f. facts = Some f \<Longrightarrow> length (lf_license_no f) \<le> 32"
    using license_facts_run [of ?w1 i] q ok by (auto simp: listings_ok_def)
  let ?out = "verification_decide date_str (w_clock w) (li_is_claimed x) facts"
  let ?d = "set_contractor i (verification_row (oc_verified ?out) (oc_reason ?out) (w_clock w)) (w_db w)"
  have reason: "length (oc_reason ?out) \<le> 500" by (rule verification_decide_reason [OF ds len])
  note ok' = listings_ok_rebadged [OF ok r reason, unfolded id]
  have run: "recompute date_str i w = (Inr ?out, ?w2\<lparr>w_calls := Suc (w_calls ?w2), w_db := ?d\<rparr>)"
    using q li fa f ok' by (simp add: recompute_def bind_def seq_def Let_def utc_now_def contractors_set_verification_def
        contractor_sql_def sql_run update_contractor_def ret_def id)
  have badge: "oc_verified ?out = badge (w_db w) (w_clock w) r" using recompute_InrD [OF run] f by simp
  have "y = r" if "y \<in> set (contractors (w_db w))" "ct_id y = i" for y
    using ok that r id by (auto simp: listings_ok_def distinct_map inj_on_def)
  then have "contractors (w_db w) ! n = r" if "n < length (contractors (w_db w))" "ct_id (contractors (w_db w) ! n) = i" for n
    using that nth_mem by blast
  then have "rebadges {i} (w_clock w) (w_db w) ?d"
    unfolding rebadges_def set_contractor_def
    by (intro exI conjI refl) (auto simp: list_all2_conv_all_nth badge)
  with run q ok'(4) show ?thesis by auto
qed

lemma recompute_each_run:
  assumes "quiet w" and "listings_ok (w_db w)" and ds: "\<And>x. length (date_str x) \<le> 100"
    and "distinct is" and "set is \<subseteq> ct_id ` set (contractors (w_db w))"
  shows "\<exists>w'. recompute_each date_str is w = (Inr (), w') \<and> quiet w' \<and> w_clock w' = w_clock w \<and> listings_ok (w_db w') \<and>
    rebadges (set is) (w_clock w) (w_db w) (w_db w')"
  using assms(1,2,4,5)
proof (induction "is" arbitrary: w)
  case Nil
  then show ?case by (simp add: ret_def rebadges_none)
next
  case (Cons i "is")
  then obtain out w1 where w1: "recompute date_str i w = (Inr out, w1)" "quiet w1" "w_clock w1 = w_clock w" "listings_ok (w_db w1)"
    "rebadges {i} (w_clock w) (w_db w) (w_db w1)" using recompute_run [of w date_str i] ds by auto
  have "ct_id ` set (contractors (w_db w1)) = ct_id ` set (contractors (w_db w))"
    using rebadges_ids [OF w1(5)] by (metis image_set)
  then obtain w' where w': "recompute_each date_str is w1 = (Inr (), w')" "quiet w'" "w_clock w' = w_clock w1" "listings_ok (w_db w')"
    "rebadges (set is) (w_clock w) (w_db w1) (w_db w')" using Cons.IH [OF w1(2,4)] Cons.prems(3,4) w1(3) by auto
  have "rebadges ({i} \<union> set is) (w_clock w) (w_db w) (w_db w')"
    using rebadges_trans [OF w1(5) w'(5)] Cons.prems(3) by simp
  with w1 w' show ?case by (simp add: seq_def bind_def)
qed

text \<open>What is still to come after a cursor, and what one page takes of it.\<close>

definition pending_ids :: "uuid option \<Rightarrow> db \<Rightarrow> uuid list" where
  "pending_ids after d = sort (filter (\<lambda>i. case after of None \<Rightarrow> True | Some a \<Rightarrow> a < i) (map ct_id (contractors d)))"

lemma sorted_le_last: "sorted ys \<Longrightarrow> y \<in> set ys \<Longrightarrow> y \<le> last (ys :: 'a :: linorder list)"
  by (induction ys) auto

lemma sorted_filter_above:
  assumes "sorted xs" and "distinct xs" and "take n xs \<noteq> []"
  shows "filter (\<lambda>x. last (take n xs) < x) xs = drop n (xs :: 'a :: linorder list)"
proof -
  have app: "xs = take n xs @ drop n xs" by simp
  have "x \<le> last (take n xs)" if "x \<in> set (take n xs)" for x
    using sorted_wrt_take [OF assms(1)] that by (rule sorted_le_last)
  moreover have "last (take n xs) < x" if "x \<in> set (drop n xs)" for x
  proof -
    have "last (take n xs) \<in> set (take n xs)" using assms(3) by simp
    then have "last (take n xs) \<le> x" "last (take n xs) \<noteq> x"
      using assms(1,2) that app by (metis sorted_append, metis distinct_append disjoint_iff)
    then show ?thesis by simp
  qed
  ultimately have "filter (\<lambda>x. last (take n xs) < x) (take n xs @ drop n xs) = drop n xs"
    by (subst filter_append) (auto simp: filter_empty_conv not_less intro: filter_True)
  then show ?thesis by simp
qed

lemma pending_ids_step:
  assumes "distinct (map ct_id (contractors d))" and "ids_after after n d \<noteq> []" and "map ct_id (contractors d') = map ct_id (contractors d)"
  shows "pending_ids (Some (last (ids_after after n d))) d' = drop n (pending_ids after d)"
proof -
  let ?S = "pending_ids after d" and ?P = "\<lambda>i. case after of None \<Rightarrow> True | Some a \<Rightarrow> a < i" and ?l = "last (ids_after after n d)"
  have ids: "ids_after after n d = take n ?S" by (simp add: ids_after_def pending_ids_def)
  have S: "sorted ?S" "distinct ?S" using assms(1) by (simp_all add: pending_ids_def)
  have above: "?P ?l" using ids_after_above [OF assms(2)] .
  then have "?P i" if "?l < i" for i using that by (cases after) auto
  then have "filter (\<lambda>i. ?l < i) ?S = sort (filter (\<lambda>i. ?l < i) (map ct_id (contractors d)))"
    unfolding pending_ids_def filter_sort [symmetric] filter_filter by (metis (no_types, lifting))
  moreover have "filter (\<lambda>i. ?l < i) ?S = drop n ?S" using sorted_filter_above [OF S, of n] assms(2) ids by simp
  ultimately show ?thesis by (simp add: pending_ids_def assms(3))
qed

lemma recompute_loop_run:
  assumes ds: "\<And>x. length (date_str x) \<le> 100" and page: "0 < page"
  shows "quiet w \<Longrightarrow> listings_ok (w_db w) \<Longrightarrow>
    \<exists>w'. recompute_loop date_str no_others page k after n w = (Inr (n + length (pending_ids after (w_db w))), w') \<and>
      rebadges (set (pending_ids after (w_db w))) (w_clock w) (w_db w) (w_db w')"
proof (induction "length (pending_ids after (w_db w))" arbitrary: k after n w rule: less_induct)
  case less
  let ?S = "pending_ids after (w_db w)" and ?w1 = "w\<lparr>w_calls := Suc (Suc (w_calls w))\<rparr>"
  let ?ids = "ids_after after (nat page) (w_db w)"
  have ids: "?ids = take (nat page) ?S" by (simp add: ids_after_def pending_ids_def)
  have get: "seq (after_others no_others k acquire) (contractor_page page after) w = (Inr ?ids, ?w1)"
    using less.prems(1) page by (simp add: seq_def bind_def after_no_others acquire_def round_trip_run contractor_page_def sql_run)
  have dist: "distinct (map ct_id (contractors (w_db w)))" using less.prems(2) by (simp add: listings_ok_def)
  show ?case
  proof (cases "?S = []")
    case True
    with get ids show ?thesis by (simp add: rebadges_none)
  next
    case False
    then have ne: "?ids \<noteq> []" using ids page by simp
    have sub: "set ?ids \<subseteq> ct_id ` set (contractors (w_db ?w1))" and dids: "distinct ?ids"
      using dist by (auto simp: ids_after_def dest: in_set_takeD)
    let ?w2 = "?w1\<lparr>w_calls := Suc (w_calls ?w1)\<rparr>"
    obtain v where v: "recompute_each date_str ?ids ?w2 = (Inr (), v)" "quiet v" "w_clock v = w_clock w" "listings_ok (w_db v)"
      "rebadges (set ?ids) (w_clock w) (w_db w) (w_db v)"
      using recompute_each_run [of ?w2 date_str ?ids] less.prems ds dids sub by auto
    let ?v = "v\<lparr>w_calls := Suc (w_calls v)\<rparr>"
    have tx: "after_others no_others (Suc k) (transaction (recompute_each date_str ?ids)) ?w1 = (Inr (), ?v)"
      using transaction_run [of ?w1 _ "()" v] v less.prems(1) by (simp add: after_no_others)
    have rest: "pending_ids (Some (last ?ids)) (w_db ?v) = drop (nat page) ?S"
      using pending_ids_step [OF dist ne, of "w_db ?v"] rebadges_ids [OF v(5)] by simp
    have shorter: "length (pending_ids (Some (last ?ids)) (w_db ?v)) < length ?S" using rest False page by simp
    obtain w' where w': "recompute_loop date_str no_others page (k + 2) (Some (last ?ids)) (n + length ?ids) ?v =
        (Inr (n + length ?ids + length (drop (nat page) ?S)), w')"
      "rebadges (set (drop (nat page) ?S)) (w_clock w) (w_db v) (w_db w')"
      using less.hyps [OF shorter, of "k + 2" "n + length ?ids"] v rest by auto
    have "rebadges (set (take (nat page) ?S) \<union> set (drop (nat page) ?S)) (w_clock w) (w_db w) (w_db w')"
      using rebadges_trans [OF v(5) w'(2)] ids dist
        by (simp add: pending_ids_def set_take_disj_set_drop_if_distinct)
    moreover have "set (take (nat page) ?S) \<union> set (drop (nat page) ?S) = set ?S" by (metis append_take_drop_id set_append)
    moreover have "length ?ids + length (drop (nat page) ?S) = length ?S" unfolding ids by (metis append_take_drop_id length_append)
    ultimately show ?thesis using get ne tx w'(1) by (subst recompute_loop.simps) (simp add: add.assoc)
  qed
qed

text \<open>
  C19. The nightly pass ends and is complete: it pages through all listings, whatever the page size, counts each of them
  once, and afterwards every listing carries exactly the badge it deserves on that day, which is an owner together with a
  linked, active, unexpired licence. Apart from the badge, its time and its reason no listing changes, and no other table.
\<close>

theorem nightly_pass_settles_every_badge:
  assumes "quiet w" and "listings_ok (w_db w)" and "\<forall>x. length (date_str x) \<le> 100" and "0 < page"
  shows "\<exists>w' cs. recompute_all date_str no_others page w = (Inr (length (contractors (w_db w))), w') \<and>
    w_db w' = (w_db w)\<lparr>contractors := cs\<rparr> \<and>
    list_all2 (\<lambda>r r'. \<exists>reason. r' = verification_row (badge (w_db w) (w_clock w) r) reason (w_clock w) r) (contractors (w_db w)) cs"
proof -
  have S: "pending_ids None (w_db w) = sort (map ct_id (contractors (w_db w)))" by (simp add: pending_ids_def)
  obtain w' where run: "recompute_all date_str no_others page w = (Inr (length (contractors (w_db w))), w')"
    and "rebadges (set (pending_ids None (w_db w))) (w_clock w) (w_db w) (w_db w')"
    using recompute_loop_run [of date_str page w 0 None 0] assms by (auto simp: recompute_all_def S)
  then obtain cs where "w_db w' = (w_db w)\<lparr>contractors := cs\<rparr>"
    and "list_all2 (\<lambda>r r'. if ct_id r \<in> ct_id ` set (contractors (w_db w))
      then \<exists>reason. r' = verification_row (badge (w_db w) (w_clock w) r) reason (w_clock w) r else r' = r) (contractors (w_db w)) cs"
    unfolding rebadges_def S by auto
  moreover from this(2) have "list_all2 (\<lambda>r r'. \<exists>reason. r' = verification_row (badge (w_db w) (w_clock w) r) reason (w_clock w) r)
      (contractors (w_db w)) cs" by (auto simp: list_all2_conv_all_nth)
  ultimately show ?thesis using run by blast
qed

text \<open>Two listings, one of them owned and licensed, in pages of one.\<close>

definition licensed_db :: db where
  "licensed_db = empty_db\<lparr>users := [new_user_row 0 2 None (lit ''Carl'') Contractor],
     license_records := [\<lparr>l_id = 9, l_license_no = lit ''1047382'',
       l_business_name = lit ''Acme'', l_business_type = None, l_issue_date = None, l_classifications = [], l_bond_amount = None,
       l_workers_comp = None, l_county = None, l_phone = None, l_status_raw = lit ''CLEAR'', l_raw = Map.empty, l_content_hash = [],
       l_first_run_id = 0, l_last_run_id = 0, l_status = lit ''active'', l_expiration_date = Some 20000,
       l_last_seen_at = 0, l_address_line1 = None, l_city = None, l_state = None, l_postal_code = None\<rparr>],
     contractors := [(bare_listing 5)\<lparr>ct_license_record_id := Some 9, ct_claimed_by := Some 2, ct_claimed_at := Some 0\<rparr>,
       (bare_listing 6)\<lparr>ct_license_record_id := Some 9\<rparr>]\<rparr>"

lemma licensed_db_ok: "listings_ok licensed_db"
  by (simp add: listings_ok_def licensed_db_def contractor_check_def contractor_taken_def claimant_missing_def license_check_def
      license_status_parse_def bare_listing_def opt_len_le_def opt_pos_def user_exists_def new_user_row_def lit_def)

theorem nightly_pass_settles_every_badge_witness:
  "\<exists>w'. recompute_all (\<lambda>_. []) no_others 1 (calm_world licensed_db 0) = (Inr 2, w') \<and>
     map ct_verified (contractors (w_db w')) = [True, False]"
proof -
  have "badge licensed_db 0 r \<longleftrightarrow> ct_claimed_by r \<noteq> None" if "ct_license_record_id r = Some 9" for r
    using that by (simp add: badge_def find_license_def licensed_db_def date_naive_def)
  moreover from nightly_pass_settles_every_badge [of "calm_world licensed_db 0" "\<lambda>_. []" 1] licensed_db_ok
  obtain w' cs where "recompute_all (\<lambda>_. []) no_others 1 (calm_world licensed_db 0) = (Inr (length (contractors licensed_db)), w')"
    "w_db w' = licensed_db\<lparr>contractors := cs\<rparr>"
    "list_all2 (\<lambda>r r'. \<exists>reason. r' = verification_row (badge licensed_db 0 r) reason 0 r) (contractors licensed_db) cs"
    by (auto simp: quiet_def)
  ultimately show ?thesis
    by (auto simp: licensed_db_def list_all2_Cons1 bare_listing_def)
qed

end
