(* ===== verification/Claims.thy ===== *)
theory Claims
  imports Repo_Claims Verification Messaging
begin

text \<open>
  \<open>cm-domain/src/claims.rs\<close>: how a listing gets its owner. A claim is approved as it is opened, in one transaction with the
  ownership of the listing, the role of the claimant, the badge and the audit entries; a moderator decides the claims that are
  still pending.
\<close>

definition claim_open_tx ::
  "date_str \<Rightarrow> uuid \<Rightarrow> uuid \<Rightarrow> claim_method \<Rightarrow> ustr \<Rightarrow> ustr option \<Rightarrow> claim m" where
  "claim_open_tx date_str contractor_id user_id m evidence request_id =
     bind (contractors_messaging_target contractor_id) (\<lambda>found.
     case found of
       None \<Rightarrow> throw NotFound
     | Some target \<Rightarrow>
         if mt_claimed_by_user_id target \<noteq> None then throw (conflict ''This listing has already been claimed.'')
         else
           bind (contractors_claimed_by user_id) (\<lambda>owned.
           if owned \<noteq> None then throw (conflict ''Your account has already claimed a listing.'')
           else
             bind (claims_open contractor_id user_id m evidence) (\<lambda>claim.
             seq (audit_record (domain_event ''claim.opened'' ''contractor_claims'' ActorUser user_id (ci_id claim)
                    [(lit ''contractor_id'', JUuid contractor_id), (lit ''method'', JText (claim_method_str m))] request_id))
             (seq (claims_decide (ci_id claim) CApproved (Some user_id)
                    (Some (lit ''auto-approved at launch; no moderator reviewed this claim'')))
             (bind (contractors_attach_claimant contractor_id user_id) (\<lambda>attached.
              if \<not> attached then throw (conflict ''This listing has already been claimed.'')
              else
                seq (users_grant_role user_id RContractor None)
                (bind (recompute date_str contractor_id) (\<lambda>outcome.
                 seq (audit_record (domain_event ''claim.approved'' ''contractor_claims'' ActorUser user_id (ci_id claim)
                        [(lit ''contractor_id'', JUuid contractor_id), (lit ''claimant'', JUuid user_id),
                         (lit ''auto_approved'', JBool True), (lit ''verified'', JBool (oc_verified outcome)),
                         (lit ''verification_reason'', JText (oc_reason outcome))] request_id))
                 (bind (claims_find (ci_id claim)) (\<lambda>approved.
                  case approved of None \<Rightarrow> throw NotFound | Some c \<Rightarrow> ret c))))))))))"

definition claim_open ::
  "date_str \<Rightarrow> env \<Rightarrow> uuid \<Rightarrow> uuid \<Rightarrow> claim_method \<Rightarrow> ustr \<Rightarrow> ustr option \<Rightarrow> claim m" where
  "claim_open date_str env contractor_id user_id m evidence request_id =
     after_others env 0 (transaction (claim_open_tx date_str contractor_id user_id m evidence request_id))"

definition claim_withdraw :: "env \<Rightarrow> uuid \<Rightarrow> uuid \<Rightarrow> ustr option \<Rightarrow> unit m" where
  "claim_withdraw env claim_id user_id request_id =
     after_others env 0 (transaction (
       bind (claims_find claim_id) (\<lambda>found.
       case found of
         None \<Rightarrow> throw NotFound
       | Some claim \<Rightarrow>
           if ci_user_id claim \<noteq> user_id then throw NotFound
           else if ci_status claim \<noteq> CPending then throw (conflict ''That claim has already been decided.'')
           else
             seq (claims_decide claim_id CWithdrawn (Some user_id) None)
             (seq (audit_record (domain_event ''claim.withdrawn'' ''contractor_claims'' ActorUser user_id claim_id [] request_id))
             (ret ())))))"

record decision_made =
  de_claim :: claim
  de_verified :: bool
  de_verification_reason :: ustr

definition hand_over :: "claim \<Rightarrow> uuid \<Rightarrow> unit m" where
  "hand_over claim admin_id =
     bind (contractors_attach_claimant (ci_contractor_id claim) (ci_user_id claim)) (\<lambda>attached.
     if \<not> attached then throw (conflict ''That listing was claimed by someone else.'')
     else bind (users_grant_role (ci_user_id claim) RContractor (Some admin_id)) (\<lambda>_. ret ()))"

definition claim_decide_tx ::
  "date_str \<Rightarrow> uuid \<Rightarrow> bool \<Rightarrow> uuid \<Rightarrow> ustr option \<Rightarrow> ustr option \<Rightarrow> outcome m" where
  "claim_decide_tx date_str claim_id approve admin_id note request_id =
     bind (claims_find claim_id) (\<lambda>found.
     case found of
       None \<Rightarrow> throw NotFound
     | Some claim \<Rightarrow>
         if ci_status claim \<noteq> CPending then throw (conflict ''That claim has already been decided.'')
         else
           bind (claims_decide claim_id (if approve then CApproved else CRejected) (Some admin_id) note) (\<lambda>decided.
           if \<not> decided then throw (conflict ''That claim has already been decided.'')
           else
             seq (if approve then hand_over claim admin_id else ret ())
             (seq (claims_record_check (ci_contractor_id claim) (Some claim_id) (lit ''manual_review'')
                    (if approve then lit ''pass'' else lit ''fail'')
                    [(lit ''note'', case note of None \<Rightarrow> JNull | Some n \<Rightarrow> JText n), (lit ''decided_by'', JUuid admin_id)]
                    (Some admin_id))
             (bind (recompute date_str (ci_contractor_id claim)) (\<lambda>outcome.
              seq (audit_record (domain_event (if approve then ''claim.approved'' else ''claim.rejected'') ''contractor_claims''
                     ActorAdmin admin_id claim_id
                     [(lit ''contractor_id'', JUuid (ci_contractor_id claim)), (lit ''claimant'', JUuid (ci_user_id claim)),
                      (lit ''verified'', JBool (oc_verified outcome)),
                      (lit ''verification_reason'', JText (oc_reason outcome))] request_id))
              (ret outcome))))))"

definition claim_decide ::
  "date_str \<Rightarrow> env \<Rightarrow> uuid \<Rightarrow> bool \<Rightarrow> uuid \<Rightarrow> ustr option \<Rightarrow> ustr option \<Rightarrow> decision_made m" where
  "claim_decide date_str env claim_id approve admin_id note request_id =
     bind (after_others env 0 (transaction (claim_decide_tx date_str claim_id approve admin_id note request_id))) (\<lambda>outcome.
     seq (after_others env 1 acquire)
     (bind (claims_find claim_id) (\<lambda>found.
      case found of
        None \<Rightarrow> throw NotFound
      | Some decided \<Rightarrow> ret \<lparr>de_claim = decided, de_verified = oc_verified outcome, de_verification_reason = oc_reason outcome\<rparr>)))"

end
