(* ===== verification/Claims_Properties.thy ===== *)
theory Claims_Properties
  imports Claims Service_Runs
begin

text \<open>
  What holds of every run of the claim workflow: a listing belongs to the person whose claim on it was approved, nobody owns
  two, and a badge needs an owner.
\<close>

subsection \<open>Ownership follows approved claims\<close>

definition approved_claim :: "db \<Rightarrow> uuid \<Rightarrow> uuid \<Rightarrow> bool" where
  "approved_claim d ct u \<longleftrightarrow>
     (\<exists>x \<in> set (contractor_claims d). cm_status x = lit ''approved'' \<and> cm_contractor_id x = ct \<and> cm_user_id x = u)"

definition claims_ok :: "db \<Rightarrow> bool" where
  "claims_ok d \<longleftrightarrow>
     distinct (map cm_id (contractor_claims d)) \<and> distinct (map ct_id (contractors d)) \<and>
     list_all (\<lambda>x. claim_check x \<and> \<not> approved_taken d x) (contractor_claims d) \<and>
     list_all (\<lambda>r. (\<forall>u. ct_claimed_by r = Some u \<longleftrightarrow> approved_claim d (ct_id r) u) \<and> (ct_verified r \<longrightarrow> ct_claimed_by r \<noteq> None))
       (contractors d)"

text \<open>The tables of the workflow: the claims, and of every listing its id, its owner and its badge.\<close>

definition claim_tables :: "db \<Rightarrow> claim_row list \<times> (uuid \<times> uuid option \<times> bool) list" where
  "claim_tables d = (contractor_claims d, map (\<lambda>r. (ct_id r, ct_claimed_by r, ct_verified r)) (contractors d))"

lemma list_all_map_image: "list_all (\<lambda>r. P (f r)) xs = (\<forall>y \<in> set (map f xs). P y)"
  by (simp add: list_all_iff)

lemma claims_ok_frame:
  assumes "claim_tables d = claim_tables d'"
  shows "claims_ok d = claims_ok d'"
proof -
  have cl: "contractor_claims d = contractor_claims d'"
    and rows: "map (\<lambda>r. (ct_id r, ct_claimed_by r, ct_verified r)) (contractors d) =
      map (\<lambda>r. (ct_id r, ct_claimed_by r, ct_verified r)) (contractors d')" using assms by (simp_all add: claim_tables_def)
  have ids: "map ct_id (contractors d) = map fst (map (\<lambda>r. (ct_id r, ct_claimed_by r, ct_verified r)) (contractors d))" for d
    by (simp add: comp_def)
  have owners: "list_all (\<lambda>r. (\<forall>u. ct_claimed_by r = Some u \<longleftrightarrow> approved_claim d' (ct_id r) u) \<and> (ct_verified r \<longrightarrow> ct_claimed_by r \<noteq> None))
      (contractors d) = (\<forall>(i, c, v) \<in> set (map (\<lambda>r. (ct_id r, ct_claimed_by r, ct_verified r)) (contractors d)).
        (\<forall>u. c = Some u \<longleftrightarrow> approved_claim d' i u) \<and> (v \<longrightarrow> c \<noteq> None))" for d d'
    by (auto simp: list_all_iff)
  have "approved_claim d = approved_claim d'" "approved_taken d = approved_taken d'"
    by (auto simp: approved_claim_def approved_taken_def cl fun_eq_iff)
  then show ?thesis by (simp only: claims_ok_def owners ids rows cl)
qed

lemma claims_ok_same [simp]:
  "claims_ok (d\<lparr>audit_log := a\<rparr>) = claims_ok d" "claims_ok (d\<lparr>user_roles := b\<rparr>) = claims_ok d"
  "claims_ok (d\<lparr>verification_checks := c\<rparr>) = claims_ok d"
  by (rule claims_ok_frame; simp add: claim_tables_def)+

lemma claim_status_parse_pending: "claim_status_str s = lit ''pending'' \<longleftrightarrow> s = CPending"
  using claim_status_str_eq [of s CPending] by simp

lemma claims_ok_open:
  assumes ok: "claims_ok d" and "open_claim_stmt i ct u m ev now d = Inr (row, d')"
  shows "claims_ok d'" and "row = new_claim now i ct u m ev" and "find_claim d' i = Some row" and "contractors d' = contractors d"
    and "users d' = users d" and "user_roles d' = user_roles d" and "license_records d' = license_records d"
    and "contractor_claims d' = contractor_claims d @ [row]" and "i \<notin> cm_id ` set (contractor_claims d)"
proof -
  from assms(2) have cl: "contractor_claims d' = contractor_claims d @ [row]" and ct: "contractors d' = contractors d"
    and row: "row = new_claim now i ct u m ev" and fresh: "i \<notin> cm_id ` set (contractor_claims d)"
    by (auto simp: open_claim_stmt_def Let_def split: if_splits)
  have st: "cm_status row \<noteq> lit ''approved''" and id: "cm_id row = i" by (simp_all add: row new_claim_def lit_def)
  then have same: "approved_claim d' = approved_claim d" "approved_taken d' x = approved_taken d x" "\<not> approved_taken d row" for x
    by (auto simp: approved_claim_def approved_taken_def fun_eq_iff cl)
  have "claim_check row"
    by (cases m) (simp_all add: claim_check_def row new_claim_def opt_len_le_def claim_status_parse_def claim_method_parse_def)
  with same ok fresh id show "claims_ok d'" by (simp add: claims_ok_def cl ct)
  have "find (\<lambda>r. cm_id r = i) (contractor_claims d) = None" using fresh by (auto simp: find_None_iff)
  then show "find_claim d' i = Some row" using id by (simp add: find_claim_def cl find_append)
qed (use assms in \<open>auto simp: open_claim_stmt_def Let_def split: if_splits\<close>)

lemma claims_decide_InrD:
  assumes "claims_decide i st by note w = (Inr done, w')"
  shows "w_clock w' = w_clock w \<and> (\<not> done \<longrightarrow> (\<forall>x. find_claim (w_db w) i = Some x \<longrightarrow> cm_status x \<noteq> lit ''pending'') \<and> w_db w' = w_db w) \<and>
    (done \<longrightarrow> (\<exists>x. find_claim (w_db w) i = Some x \<and> cm_status x = lit ''pending'' \<and>
       claim_check (decided_claim st by note (w_clock w) x) \<and> \<not> approved_taken (w_db w) (decided_claim st by note (w_clock w) x) \<and>
       w_db w' = set_claim i (decided_claim st by note (w_clock w)) (w_db w)))"
  using assms by (auto simp: claims_decide_def run_iffs decide_claim_stmt_def split: option.splits if_splits)

lemma attach_InrD:
  assumes "contractors_attach_claimant ct u w = (Inr True, w')"
  shows "w_clock w' = w_clock w \<and> (\<exists>r. find_contractor (w_db w) ct = Some r \<and> ct_claimed_by r = None \<and>
    w_db w' = set_contractor ct (claimed_row u (w_clock w)) (w_db w))"
  using assms by (auto simp: contractors_attach_claimant_def run_iffs attach_claimant_stmt_def update_contractor_def
      split: option.splits if_splits)

lemma decided_claim_sel [simp]:
  "cm_id (decided_claim st by note now x) = cm_id x" "cm_contractor_id (decided_claim st by note now x) = cm_contractor_id x"
  "cm_user_id (decided_claim st by note now x) = cm_user_id x" "cm_status (decided_claim st by note now x) = claim_status_str st"
  by (simp_all add: decided_claim_def)

lemma claimed_row_sel [simp]:
  "ct_id (claimed_row u now r) = ct_id r" "ct_claimed_by (claimed_row u now r) = Some u"
  "ct_verified (claimed_row u now r) = ct_verified r"
  by (simp_all add: claimed_row_def)

text \<open>A decision on a pending claim: what the table looks like afterwards.\<close>

lemma decided_claims:
  assumes ok: "claims_ok d" and x: "find_claim d i = Some x" and p: "cm_status x = lit ''pending''"
    and chk: "claim_check (decided_claim st by note now x)" and free: "\<not> approved_taken d (decided_claim st by note now x)"
  defines "d' \<equiv> set_claim i (decided_claim st by note now) d"
  shows "approved_claim d' ct u \<longleftrightarrow> approved_claim d ct u \<or> st = CApproved \<and> ct = cm_contractor_id x \<and> u = cm_user_id x"
    and "distinct (map cm_id (contractor_claims d'))" and "list_all (\<lambda>y. claim_check y \<and> \<not> approved_taken d' y) (contractor_claims d')"
proof -
  have id: "cm_id x = i" and xin: "x \<in> set (contractor_claims d)" using x by (auto simp: find_claim_def dest: find_Some_in)
  have only: "y = x" if "y \<in> set (contractor_claims d)" "cm_id y = i" for y
    using ok that id xin by (auto simp: claims_ok_def distinct_map inj_on_def)
  have np: "cm_status x \<noteq> lit ''approved''" using p by (simp add: lit_def)
  have st: "claim_status_str st = lit ''approved'' \<longleftrightarrow> st = CApproved" using claim_status_str_eq [of st CApproved] by simp
  have mem: "y \<in> set (contractor_claims d') \<longleftrightarrow> y = decided_claim st by note now x \<or> y \<in> set (contractor_claims d) \<and> cm_id y \<noteq> i" for y
    using xin id by (auto simp: d'_def set_claim_def dest: only intro!: image_eqI [of _ _ x])
  show "approved_claim d' ct u \<longleftrightarrow> approved_claim d ct u \<or> st = CApproved \<and> ct = cm_contractor_id x \<and> u = cm_user_id x"
    unfolding approved_claim_def Bex_def mem using np by (auto simp: st dest: only)
  have "map cm_id (contractor_claims d') = map cm_id (contractor_claims d)" by (simp add: d'_def set_claim_def)
  then show "distinct (map cm_id (contractor_claims d'))" using ok by (simp add: claims_ok_def)
  show "list_all (\<lambda>y. claim_check y \<and> \<not> approved_taken d' y) (contractor_claims d')"
    unfolding list_all_iff
  proof (intro ballI conjI)
    fix y
    assume y: "y \<in> set (contractor_claims d')"
    then show "claim_check y" using chk ok by (auto simp: mem claims_ok_def list_all_iff)
    from y show "\<not> approved_taken d' y" unfolding approved_taken_def Bex_def mem
      using free ok id by (auto simp: mem claims_ok_def list_all_iff approved_taken_def)
  qed
qed

lemma set_claim_same [simp]:
  "contractors (set_claim i f d) = contractors d" "users (set_claim i f d) = users d" "license_records (set_claim i f d) = license_records d"
  "contractor_claims (set_contractor ct g d) = contractor_claims d" "user_roles (set_contractor ct g d) = user_roles d"
  by (simp_all add: set_claim_def set_contractor_def)

lemma approved_claim_set_contractor [simp]: "approved_claim (set_contractor ct g d) = approved_claim d"
  by (simp add: approved_claim_def fun_eq_iff)

lemma approved_taken_set_contractor [simp]: "approved_taken (set_contractor ct g d) = approved_taken d"
  by (simp add: approved_taken_def fun_eq_iff)

lemma claims_ok_refuse:
  assumes ok: "claims_ok d" and "find_claim d i = Some x" and "cm_status x = lit ''pending''"
    and "claim_check (decided_claim st by note now x)" and "\<not> approved_taken d (decided_claim st by note now x)" and "st \<noteq> CApproved"
  shows "claims_ok (set_claim i (decided_claim st by note now) d)"
  using decided_claims [OF assms(1-5)] ok assms(6) by (simp add: claims_ok_def)

lemma claims_ok_approve:
  assumes ok: "claims_ok d" and x: "find_claim d i = Some x" "cm_status x = lit ''pending''"
    "claim_check (decided_claim CApproved by note now x)" "\<not> approved_taken d (decided_claim CApproved by note now x)"
    and r: "find_contractor d (cm_contractor_id x) = Some r" "ct_claimed_by r = None"
  shows "claims_ok (set_contractor (cm_contractor_id x) (claimed_row (cm_user_id x) t) (set_claim i (decided_claim CApproved by note now) d))"
proof -
  let ?d1 = "set_claim i (decided_claim CApproved by note now) d" and ?ct = "cm_contractor_id x" and ?u = "cm_user_id x"
  let ?d = "set_contractor ?ct (claimed_row ?u t) ?d1"
  note dec = decided_claims [OF ok x]
  have rin: "r \<in> set (contractors d)" "ct_id r = ?ct" using r by (auto simp: find_contractor_def dest: find_Some_in)
  have only: "y = r" if "y \<in> set (contractors d)" "ct_id y = ?ct" for y
    using ok that rin by (auto simp: claims_ok_def distinct_map inj_on_def)
  have owners: "ct_claimed_by y = Some u \<longleftrightarrow> approved_claim d (ct_id y) u" "ct_verified y \<longrightarrow> ct_claimed_by y \<noteq> None"
    if "y \<in> set (contractors d)" for y u using ok that by (simp_all add: claims_ok_def list_all_iff del: not_None_eq)
  have none: "\<not> approved_claim d ?ct u" for u using owners(1) [OF rin(1), of u] r(2) rin(2) by simp
  have "list_all (\<lambda>r. (\<forall>u. ct_claimed_by r = Some u \<longleftrightarrow> approved_claim ?d (ct_id r) u) \<and> (ct_verified r \<longrightarrow> ct_claimed_by r \<noteq> None))
      (contractors ?d)" unfolding list_all_iff
  proof
    fix y'
    assume "y' \<in> set (contractors ?d)"
    then obtain y where y: "y \<in> set (contractors d)" and y': "y' = (if ct_id y = ?ct then claimed_row ?u t y else y)"
      by (auto simp: set_contractor_def)
    show "(\<forall>u. ct_claimed_by y' = Some u \<longleftrightarrow> approved_claim ?d (ct_id y') u) \<and> (ct_verified y' \<longrightarrow> ct_claimed_by y' \<noteq> None)"
      using y' owners [OF y] none by (auto simp: dec(1) simp del: not_None_eq)
  qed
  moreover have "map ct_id (contractors ?d) = map ct_id (contractors d)" by (simp add: set_contractor_def)
  ultimately show ?thesis using dec(2,3) ok by (simp add: claims_ok_def)
qed

lemma claims_ok_rebadged:
  assumes ok: "claims_ok d"
  shows "claims_ok (rebadged ds now i reason d)"
proof (cases "find_contractor d i")
  case (Some r)
  let ?f = "verification_row (badge d now r) reason now"
  have r: "r \<in> set (contractors d)" "ct_id r = i" using Some by (auto simp: find_contractor_def dest: find_Some_in)
  have only: "y = r" if "y \<in> set (contractors d)" "ct_id y = i" for y
    using ok that r by (auto simp: claims_ok_def distinct_map inj_on_def)
  have "list_all (\<lambda>r. (\<forall>u. ct_claimed_by r = Some u \<longleftrightarrow> approved_claim d (ct_id r) u) \<and> (ct_verified r \<longrightarrow> ct_claimed_by r \<noteq> None))
      (contractors (set_contractor i ?f d))"
    using ok by (auto simp: claims_ok_def list_all_iff set_contractor_def badge_def dest: only)
  moreover have "map ct_id (contractors (set_contractor i ?f d)) = map ct_id (contractors d)" by (simp add: set_contractor_def)
  ultimately show ?thesis using ok Some by (simp add: rebadged_def claims_ok_def)
qed (simp add: rebadged_def ok)

subsection \<open>What a decision does\<close>

text \<open>From a pending claim to an owned listing, and from there through the role to the badge.\<close>

lemma approval_InrD:
  assumes dec: "claims_decide i CApproved by note w = (Inr True, w1)"
    and x: "find_claim (w_db w) i = Some x"
    and att: "contractors_attach_claimant (cm_contractor_id x) (cm_user_id x) w1 = (Inr True, w2)"
    and ok: "claims_ok (w_db w)"
  shows "claims_ok (w_db w2) \<and> w_clock w2 = w_clock w \<and> (\<exists>r. find_contractor (w_db w) (cm_contractor_id x) = Some r \<and> ct_claimed_by r = None) \<and>
    w_db w2 = set_contractor (cm_contractor_id x) (claimed_row (cm_user_id x) (w_clock w))
      (set_claim i (decided_claim CApproved by note (w_clock w)) (w_db w))"
proof -
  from claims_decide_InrD [OF dec] x have p: "cm_status x = lit ''pending''" "claim_check (decided_claim CApproved by note (w_clock w) x)"
    "\<not> approved_taken (w_db w) (decided_claim CApproved by note (w_clock w) x)"
    and w1: "w_db w1 = set_claim i (decided_claim CApproved by note (w_clock w)) (w_db w)" "w_clock w1 = w_clock w" by auto
  from attach_InrD [OF att] w1 obtain r where r: "find_contractor (w_db w) (cm_contractor_id x) = Some r" "ct_claimed_by r = None"
    and w2: "w_db w2 = set_contractor (cm_contractor_id x) (claimed_row (cm_user_id x) (w_clock w)) (w_db w1)" "w_clock w2 = w_clock w"
    by (auto simp: find_contractor_def)
  from claims_ok_approve [OF ok x p r] w1 w2 r show ?thesis by auto
qed

lemma grant_role_InrD:
  assumes "users_grant_role u rl by w = (Inr b, w')"
  shows "\<exists>rs. w_db w' = (w_db w)\<lparr>user_roles := rs\<rparr> \<and> has_role_row (w_db w') u rl \<and> w_clock w' = w_clock w"
  using assms by (auto simp: users_grant_role_def run_iffs has_role_row_def split: if_splits
      intro: exI [of _ "user_roles (w_db w)"])

lemma record_check_InrD:
  assumes "claims_record_check ct cl k out ev by w = (Inr i, w')"
  shows "\<exists>cs. w_db w' = (w_db w)\<lparr>verification_checks := cs\<rparr>"
  using assms by (auto simp: claims_record_check_def run_iffs record_check_stmt_def split: if_splits)

lemma claims_find_InrD:
  assumes "claims_find i w = (Inr found, w')"
  shows "w_db w' = w_db w \<and> w_clock w' = w_clock w \<and> (found = None \<longleftrightarrow> find_claim (w_db w) i = None) \<and>
    (\<forall>c. found = Some c \<longrightarrow> (\<exists>x. find_claim (w_db w) i = Some x \<and> claim_of_row x = Inr c))"
  using assms by (auto simp: claims_find_def run_iffs split: option.splits)

lemma claim_of_row_InrD:
  "claim_of_row x = Inr c \<Longrightarrow> ci_id c = cm_id x \<and> ci_contractor_id c = cm_contractor_id x \<and> ci_user_id c = cm_user_id x \<and>
     claim_status_str (ci_status c) = cm_status x"
  by (auto simp: claim_of_row_def claim_status_parse_def split: option.splits dest: find_Some_in simp del: find.simps)

text \<open>The transaction of a claim: every step that leads to its commit, and the tables it commits.\<close>

definition launch_note :: "ustr option" where
  "launch_note = Some (lit ''auto-approved at launch; no moderator reviewed this claim'')"

lemma claims_open_InrD:
  assumes "claims_open ct u m ev w = (Inr c, w')" and ok: "claims_ok (w_db w)"
  shows "claims_ok (w_db w') \<and> w_clock w' = w_clock w \<and> contractors (w_db w') = contractors (w_db w) \<and>
    license_records (w_db w') = license_records (w_db w) \<and>
    (\<exists>row. contractor_claims (w_db w') = contractor_claims (w_db w) @ [row] \<and> row = new_claim (w_clock w) (ci_id c) ct u m ev \<and>
      find_claim (w_db w') (ci_id c) = Some row \<and> ci_id c \<notin> cm_id ` set (contractor_claims (w_db w)))"
proof -
  obtain i row where st: "open_claim_stmt i ct u m ev (w_clock w) (w_db w) = Inr (row, w_db w')" and c: "claim_of_row row = Inr c"
    and clock: "w_clock w' = w_clock w"
    using assms(1) by (auto simp: claims_open_def run_iffs)
  note o = claims_ok_open [OF ok st]
  from c o(2) have i: "ci_id c = i" by (auto simp: new_claim_def dest: claim_of_row_InrD)
  with o clock show ?thesis by auto
qed

lemma find_map_at:
  assumes "\<And>x. k (f x) = k x"
  shows "find (\<lambda>x. k x = i) (map (\<lambda>x. if k x = i then f x else x) xs) = map_option f (find (\<lambda>x. k x = i) xs)"
  using assms by (induction xs) auto

lemma badge_frame: "license_records d = license_records d' \<Longrightarrow> badge d now r = badge d' now r"
  by (simp add: badge_def find_license_def cong: option.case_cong)

lemma claim_open_tx_InrD:
  assumes run: "claim_open_tx ds ct u m ev req w = (Inr c, w')" and ok: "claims_ok (w_db w)"
  shows "claims_ok (w_db w') \<and> (\<exists>r row reason. find_contractor (w_db w) ct = Some r \<and> ct_claimed_by r = None \<and> listing_of (w_db w) u = None \<and>
    contractor_claims (w_db w') = contractor_claims (w_db w) @ [row] \<and> claim_of_row row = Inr c \<and>
    cm_contractor_id row = ct \<and> cm_user_id row = u \<and> cm_status row = lit ''approved'' \<and> cm_evidence row = ev \<and>
    has_role_row (w_db w') u RContractor \<and>
    contractors (w_db w') = map (\<lambda>x. if ct_id x = ct then verification_row (badge (w_db w) (w_clock w) (claimed_row u (w_clock w) x))
      reason (w_clock w) (claimed_row u (w_clock w) x) else x) (contractors (w_db w)))"
proof -
  obtain r v2 claim v3 a v4 b dn v5 v6 g v7 out v8 a' b' v9 where
        opn: "claims_open ct u m ev v2 = (Inr claim, v3)" and au: "audit_record a v3 = (Inr b, v4)"
    and dec: "claims_decide (ci_id claim) CApproved (Some u) launch_note v4 = (Inr dn, v5)"
    and att: "contractors_attach_claimant ct u v5 = (Inr True, v6)" and gr: "users_grant_role u RContractor None v6 = (Inr g, v7)"
    and re: "recompute ds ct v7 = (Inr out, v8)" and au': "audit_record a' v8 = (Inr b', v9)"
    and fi: "claims_find (ci_id claim) v9 = (Inr (Some c), w')"
    and r: "find_contractor (w_db w) ct = Some r" "ct_claimed_by r = None"
      "listing_of (w_db w) u = None" and v2: "w_db v2 = w_db w" "w_clock v2 = w_clock w"
    using run
    by (auto simp: claim_open_tx_def bind_Inr_iff seq_Inr_iff contractors_messaging_target_def contractors_claimed_by_def
        query_Inr_iff target_of_def launch_note_def [symmetric] split: if_splits option.splits)
  note o = claims_open_InrD [OF opn, unfolded v2, OF ok] and a4 = audit_record_InrD [OF au] and a9 = audit_record_InrD [OF au']
  from o obtain row where row: "row = new_claim (w_clock w) (ci_id claim) ct u m ev"
    and cl: "contractor_claims (w_db v3) = contractor_claims (w_db w) @ [row]" and fr: "find_claim (w_db v3) (ci_id claim) = Some row"
    and fresh: "ci_id claim \<notin> cm_id ` set (contractor_claims (w_db w))" by blast
  have v4: "claims_ok (w_db v4)" "find_claim (w_db v4) (ci_id claim) = Some row" "w_clock v4 = w_clock w"
    using o fr by (simp_all add: a4 find_claim_def)
  have pend: "cm_status row = lit ''pending''" and ct: "cm_contractor_id row = ct" "cm_user_id row = u" "cm_id row = ci_id claim"
    by (simp_all add: row new_claim_def)
  have "claims_decide (ci_id claim) CApproved (Some u) launch_note v4 = (Inr True, v5)"
    using dec claims_decide_InrD v4(2) pend by (metis (full_types))
  from approval_InrD [OF this v4(2) att [folded ct] v4(1)]
  have v6: "claims_ok (w_db v6)" "w_clock v6 = w_clock w" "w_db v6 = set_contractor ct (claimed_row u (w_clock w))
      (set_claim (ci_id claim) (decided_claim CApproved (Some u) launch_note (w_clock w)) (w_db v4))" using ct v4(3) by auto
  obtain rs where v7: "w_db v7 = (w_db v6)\<lparr>user_roles := rs\<rparr>" "has_role_row (w_db v7) u RContractor" "w_clock v7 = w_clock w"
    using grant_role_InrD [OF gr] v6(2) by auto
  note re' = recompute_InrD [OF re]
  let ?rd = "(claimed_row u (w_clock w))" and ?dc = "decided_claim CApproved (Some u) launch_note (w_clock w)"
  have f6: "find_contractor (w_db v7) ct = Some (?rd r)"
    using r(1) o a4 by (simp add: v7(1) v6(3) find_contractor_def set_contractor_def find_map_at)
  have lic: "license_records (w_db v7) = license_records (w_db w)" using o by (simp add: v7(1) v6(3) a4 set_contractor_def)
  have v8: "w_db v8 = set_contractor ct (verification_row (badge (w_db w) (w_clock w) (?rd r)) (oc_reason out) (w_clock w)) (w_db v7)"
    using re' f6 v7(3) badge_frame [OF lic] by (simp add: rebadged_def)
  have w': "w_db w' = (w_db v8)\<lparr>audit_log := audit_log (w_db v8) @ [audit_row_of (w_clock v8) b' a']\<rparr>"
    using claims_find_InrD [OF fi] a9 by simp
  have ok': "claims_ok (w_db w')" using v6(1) v7(1) claims_ok_rebadged [of "w_db v7"] re' w' by simp
  have "map (\<lambda>r. if cm_id r = ci_id claim then ?dc r else r) (contractor_claims (w_db w)) = contractor_claims (w_db w)"
    using fresh by (intro map_idI) (metis imageI)
  then have cls: "contractor_claims (w_db w') = contractor_claims (w_db w) @ [?dc row]"
    by (simp add: w' v8 v7(1) v6(3) a4 cl set_claim_def ct(3))
  have "find_claim (w_db w') (ci_id claim) = Some (?dc row)"
    using v8 v7 v6 v4(2) by (simp add: w' find_claim_def set_claim_def find_map_at)
  then have "claim_of_row (?dc row) = Inr c" using claims_find_InrD [OF fi] w' by auto
  moreover have "contractors (w_db w') = map (\<lambda>x. if ct_id x = ct then verification_row (badge (w_db w) (w_clock w) (?rd x))
      (oc_reason out) (w_clock w) (?rd x) else x) (contractors (w_db w))"
  proof -
    have only: "x = r" if "x \<in> set (contractors (w_db w))" "ct_id x = ct" for x
      using ok that find_Some_in [OF r(1) [unfolded find_contractor_def]] by (auto simp: claims_ok_def distinct_map inj_on_def)
    then show ?thesis using v8 v7 v6 o a4 by (auto simp: w' set_contractor_def)
  qed
  ultimately show ?thesis
    using ok' r cls ct row v7(2) v8 by (intro conjI exI [of _ r] exI [of _ "?dc row"] exI [of _ "oc_reason out"])
      (simp_all add: w' has_role_row_def decided_claim_def new_claim_def)
qed

lemma commits_claim_open_tx: "commits claims_ok (claim_open_tx ds ct u m ev req)"
  by (rule commitsI) (blast dest: claim_open_tx_InrD)

lemma commits_claim_decide_tx: "commits claims_ok (claim_decide_tx ds i approve admin note req)"
proof (rule commitsI)
  fix w out w'
  assume ok: "claims_ok (w_db w)" and run: "claim_decide_tx ds i approve admin note req w = (Inr out, w')"
  obtain c v1 v2 v3 v4 v5 cl k res ev p n a b where fi: "claims_find i w = (Inr (Some c), v1)"
    and dec: "claims_decide i (if approve then CApproved else CRejected) (Some admin) note v1 = (Inr True, v2)"
    and own: "(if approve then hand_over c admin else ret ()) v2 = (Inr (), v3)"
    and rc: "claims_record_check (ci_contractor_id c) cl k res ev p v3 = (Inr n, v4)"
    and re: "recompute ds (ci_contractor_id c) v4 = (Inr out, v5)" and au: "audit_record a v5 = (Inr b, w')"
    using run by (auto simp: claim_decide_tx_def bind_Inr_iff seq_Inr_iff split: if_splits option.splits)
  from claims_find_InrD [OF fi] obtain x where x: "find_claim (w_db v1) i = Some x" "claim_of_row x = Inr c" and v1: "claims_ok (w_db v1)"
    using ok by auto
  have "claims_ok (w_db v3)"
  proof (cases approve)
    case True
    then obtain v g where att: "contractors_attach_claimant (cm_contractor_id x) (cm_user_id x) v2 = (Inr True, v)"
      and gr: "users_grant_role (cm_user_id x) RContractor (Some admin) v = (Inr g, v3)"
      using own claim_of_row_InrD [OF x(2)] by (auto simp: hand_over_def bind_Inr_iff split: if_splits)
    from True dec have "claims_decide i CApproved (Some admin) note v1 = (Inr True, v2)" by simp
    from approval_InrD [OF this x(1) att v1] grant_role_InrD [OF gr] show ?thesis by auto
  next
    case False
    with claims_decide_InrD [OF dec] x claims_ok_refuse [OF v1 x(1)] own show ?thesis by auto
  qed
  then have "claims_ok (w_db v5)" using record_check_InrD [OF rc] recompute_InrD [OF re] claims_ok_rebadged [of "w_db v4"] by auto
  then show "claims_ok (w_db w')" using audit_record_InrD [OF au] by simp
qed

lemma keeps_claims_find [keeps_intros]: "keeps P (claims_find i)"
  unfolding claims_find_def by (intro keeps_intros)

lemma commits_recompute: "commits claims_ok (recompute ds i)"
  by (rule commitsI) (auto dest!: recompute_InrD intro: claims_ok_rebadged)

lemma commits_recompute_each: "commits claims_ok (recompute_each ds is)"
proof (induction "is")
  case Nil
  show ?case by (simp add: keeps_commits keeps_ret)
next
  case (Cons i "is")
  then show ?case by (simp add: commits_seq commits_recompute)
qed

lemma keeps_contractor_page: "keeps P (contractor_page page after)"
  unfolding contractor_page_def by (rule keeps_sql) (auto split: if_splits)

text \<open>The loop keeps whatever its transactions commit.\<close>

lemma keeps_recompute_loop:
  assumes c: "\<And>is. commits P (recompute_each ds is)"
  shows "undisturbed P env \<Longrightarrow> P (w_db w) \<Longrightarrow> P (w_db (snd (recompute_loop ds env page k after n w)))"
using c proof (induction ds env page k after n w rule: recompute_loop.induct)
  case (1 ds env page k after n w)
  obtain r w1 where page: "seq (after_others env k acquire) (contractor_page page after) w = (r, w1)" by fastforce
  have "keeps P (seq (after_others env k acquire) (contractor_page page after))"
    by (intro keeps_intros keeps_contractor_page keeps_after_undisturbed 1)
  from keepsD [OF this page] have w1: "P (w_db w1)" using 1 by simp
  show ?case
  proof (cases r)
    case (Inl e)
    with page w1 show ?thesis by (subst recompute_loop.simps) simp
  next
    case (Inr ids)
    obtain r2 w2 where tx: "after_others env (Suc k) (transaction (recompute_each ds ids)) w1 = (r2, w2)" by fastforce
    have "keeps P (after_others env (Suc k) (transaction (recompute_each ds ids)))"
      by (intro keeps_after_undisturbed keeps_transaction_commits 1)
    from keepsD [OF this tx w1] have w2: "P (w_db w2)" .
    show ?thesis
    proof (cases "ids = [] \<or> (\<exists>e. r2 = Inl e)")
      case True
      with page Inr tx w1 w2 show ?thesis by (subst recompute_loop.simps) auto
    next
      case False
      then obtain u where r2: "r2 = Inr u" and ne: "ids \<noteq> []" by (cases r2) auto
      have "P (w_db (snd (recompute_loop ds env page (k + 2) (Some (last ids)) (n + length ids) w2)))"
        using "1.IH" [OF page [symmetric] Inr ne tx [symmetric] r2] "1.prems" w2 by simp
      then show ?thesis using page Inr tx r2 ne by (subst recompute_loop.simps) simp
    qed
  qed
qed

subsection \<open>Every run\<close>

datatype claim_request =
    OpenClaim uuid uuid claim_method ustr "ustr option"
  | WithdrawClaim uuid uuid "ustr option"
  | DecideClaim uuid bool uuid "ustr option" "ustr option"
  | RecomputeAll int

fun run_claim :: "date_str \<Rightarrow> env \<Rightarrow> claim_request \<Rightarrow> world \<Rightarrow> world" where
  "run_claim ds env (OpenClaim ct u m ev req) w = snd (claim_open ds env ct u m ev req w)"
| "run_claim ds env (WithdrawClaim i u req) w = snd (claim_withdraw env i u req w)"
| "run_claim ds env (DecideClaim i approve admin note req) w = snd (claim_decide ds env i approve admin note req w)"
| "run_claim ds env (RecomputeAll page) w = snd (recompute_all ds env page w)"

lemma commits_withdraw: "commits claims_ok (claims_decide i CWithdrawn by note)"
proof (rule commitsI)
  fix w b w'
  assume "claims_ok (w_db w)" "claims_decide i CWithdrawn by note w = (Inr b, w')"
  then show "claims_ok (w_db w')" using claims_decide_InrD claims_ok_refuse by (cases b) fastforce+
qed

lemma keeps_claim_audit [keeps_intros]: "keeps claims_ok (audit_record ev)"
  by (rule keeps_audit_record) simp

lemma claim_requests_keep:
  assumes "undisturbed claims_ok env"
  shows "keeps claims_ok (claim_open ds env ct u m ev req)" "keeps claims_ok (claim_withdraw env i u req)"
    "keeps claims_ok (claim_decide ds env i approve admin note req)"
proof -
  show "keeps claims_ok (claim_open ds env ct u m ev req)"
    unfolding claim_open_def by (intro keeps_after_undisturbed assms keeps_transaction_commits commits_claim_open_tx)
  show "keeps claims_ok (claim_withdraw env i u req)"
    unfolding claim_withdraw_def
    by (intro keeps_after_undisturbed assms keeps_transaction_commits commits_intros commits_withdraw
        keeps_commits [OF keeps_claims_find] keeps_commits [OF keeps_claim_audit] keeps_commits [OF keeps_ret])
  show "keeps claims_ok (claim_decide ds env i approve admin note req)"
    unfolding claim_decide_def
    by (intro keeps_bind keeps_seq keeps_after_undisturbed assms keeps_transaction_commits commits_claim_decide_tx keeps_intros)
qed

interpretation claims: served "run_claim ds" claim_tables claims_ok for ds
proof
  show "claim_tables d = claim_tables d' \<Longrightarrow> claims_ok d \<Longrightarrow> claims_ok d'" for d d' using claims_ok_frame by blast
  fix env r and w :: world
  assume env: "undisturbed claims_ok env" and ok: "claims_ok (w_db w)"
  have snd: "keeps claims_ok f \<Longrightarrow> claims_ok (w_db (snd (f w)))" for f :: "'x m"
    using ok by (metis keepsD prod.collapse)
  show "claims_ok (w_db (run_claim ds env r w))"
    using claim_requests_keep [OF env] keeps_recompute_loop [OF commits_recompute_each env ok]
    by (cases r) (auto simp: recompute_all_def intro!: snd)
qed

abbreviation claim_runs :: "date_str \<Rightarrow> world \<Rightarrow> world \<Rightarrow> bool" where
  "claim_runs ds \<equiv> runs (run_claim ds) claim_tables"

text \<open>
  C4. Ownership follows approved claims. From a directory nobody has claimed anything in, after any run of the workflow:
  claims, withdrawals, decisions and nightly passes in any order, each interrupted by others and with any statement failing,
  the owner of a listing is exactly the person with the approved claim on it, nobody owns two listings, no listing and no
  person has two approved claims, and every verified listing has an owner.
\<close>

theorem ownership_follows_approved_claims:
  assumes "claim_runs ds w0 w" and "contractor_claims (w_db w0) = []" and "distinct (map ct_id (contractors (w_db w0)))"
    and "\<forall>r \<in> set (contractors (w_db w0)). ct_claimed_by r = None \<and> \<not> ct_verified r"
  shows "(\<forall>r \<in> set (contractors (w_db w)). \<forall>u. ct_claimed_by r = Some u \<longleftrightarrow> approved_claim (w_db w) (ct_id r) u) \<and>
    (\<forall>r \<in> set (contractors (w_db w)). ct_verified r \<longrightarrow> ct_claimed_by r \<noteq> None) \<and>
    (\<forall>r \<in> set (contractors (w_db w)). \<forall>r' \<in> set (contractors (w_db w)).
       ct_claimed_by r \<noteq> None \<and> ct_claimed_by r = ct_claimed_by r' \<longrightarrow> r = r') \<and>
    (\<forall>x \<in> set (contractor_claims (w_db w)). \<forall>y \<in> set (contractor_claims (w_db w)).
       cm_status x = lit ''approved'' \<and> cm_status y = lit ''approved'' \<and>
       (cm_contractor_id x = cm_contractor_id y \<or> cm_user_id x = cm_user_id y) \<longrightarrow> x = y)"
proof -
  have "claims_ok (w_db w0)" using assms(2-4) by (simp add: claims_ok_def list_all_iff approved_claim_def)
  with assms(1) have ok: "claims_ok (w_db w)" by (rule claims.runs_keep)
  then have own: "ct_claimed_by r = Some u \<longleftrightarrow> approved_claim (w_db w) (ct_id r) u" "ct_verified r \<longrightarrow> ct_claimed_by r \<noteq> None"
    if "r \<in> set (contractors (w_db w))" for r u using that by (simp_all add: claims_ok_def list_all_iff del: not_None_eq)
  have one: "x = y" if "x \<in> set (contractor_claims (w_db w))" "y \<in> set (contractor_claims (w_db w))"
    "cm_status x = lit ''approved''" "cm_status y = lit ''approved''"
    "cm_contractor_id x = cm_contractor_id y \<or> cm_user_id x = cm_user_id y" for x y
  proof -
    have "\<not> approved_taken (w_db w) x" "distinct (map cm_id (contractor_claims (w_db w)))"
      using ok that(1) by (auto simp: claims_ok_def list_all_iff)
    with that have "cm_id y = cm_id x" by (auto simp: approved_taken_def)
    then show ?thesis using \<open>distinct (map cm_id (contractor_claims (w_db w)))\<close> that by (auto simp: distinct_map inj_on_def)
  qed
  have "r = r'" if r: "r \<in> set (contractors (w_db w))" "r' \<in> set (contractors (w_db w))" "ct_claimed_by r = Some u" "ct_claimed_by r' = Some u" for r r' u
  proof -
    obtain x y where "x \<in> set (contractor_claims (w_db w))" "cm_status x = lit ''approved''" "cm_contractor_id x = ct_id r" "cm_user_id x = u"
      "y \<in> set (contractor_claims (w_db w))" "cm_status y = lit ''approved''" "cm_contractor_id y = ct_id r'" "cm_user_id y = u"
      using own(1) [OF r(1), of u] own(1) [OF r(2), of u] r(3,4) by (auto simp: approved_claim_def)
    with one [of x y] have "ct_id r = ct_id r'" by auto
    moreover have "distinct (map ct_id (contractors (w_db w)))" using ok by (simp add: claims_ok_def)
    ultimately show ?thesis using r(1,2) by (auto simp: distinct_map inj_on_def)
  qed
  then have "r = r'" if "r \<in> set (contractors (w_db w))" "r' \<in> set (contractors (w_db w))"
    "ct_claimed_by r \<noteq> None \<and> ct_claimed_by r = ct_claimed_by r'" for r r'
    using that by (metis not_None_eq)
  with own one show ?thesis by blast
qed


text \<open>One person claims a licensed listing nobody owns.\<close>

definition unclaimed_db :: db where
  "unclaimed_db = licensed_db\<lparr>contractors := [(bare_listing 6)\<lparr>ct_license_record_id := Some 9\<rparr>]\<rparr>"

definition claimed_by_carl :: db where
  "claimed_by_carl = unclaimed_db\<lparr>contractor_claims := [decided_claim CApproved (Some 2) launch_note 0 (new_claim 0 100 6 2 ManualReview [])],
     contractors := [claimed_row 2 0 ((bare_listing 6)\<lparr>ct_license_record_id := Some 9\<rparr>)]\<rparr>"

lemma unclaimed_db_simps [simp]:
  "contractors unclaimed_db = [(bare_listing 6)\<lparr>ct_license_record_id := Some 9\<rparr>]" "contractor_claims unclaimed_db = []"
  "audit_log unclaimed_db = []" "user_roles unclaimed_db = []" "user_exists unclaimed_db u \<longleftrightarrow> u = 2"
  "list_all license_check (license_records unclaimed_db)"
  by (auto simp: unclaimed_db_def licensed_db_def empty_db_def user_exists_def new_user_row_def license_check_def
      license_status_parse_def lit_def)

lemma grant_role_run:
  assumes "quiet w" and "user_exists (w_db w) u"
  shows "\<exists>b rs. users_grant_role u rl None w = (Inr b, w\<lparr>w_calls := Suc (w_calls w), w_db := (w_db w)\<lparr>user_roles := rs\<rparr>\<rparr>)"
proof (cases "has_role_row (w_db w) u rl")
  case True
  with assms show ?thesis by (intro exI [of _ False] exI [of _ "user_roles (w_db w)"]) (simp add: users_grant_role_def sql_Inr_iff quiet_def)
next
  case False
  with assms show ?thesis by (auto simp: users_grant_role_def sql_run)
qed

lemma listings_ok_frame:
  assumes "contractors d = contractors d'" "users d = users d'" "license_records d = license_records d'"
  shows "listings_ok d = listings_ok d'"
  using assms by (simp add: listings_ok_def contractor_taken_def claimant_missing_def user_exists_def cong: option.case_cong)

lemma claimed_listing_ok: "listings_ok (unclaimed_db\<lparr>contractors := [claimed_row 2 0 ((bare_listing 6)\<lparr>ct_license_record_id := Some 9\<rparr>)]\<rparr>)"
  by (simp add: listings_ok_def contractor_check_def contractor_taken_def claimant_missing_def claimed_row_def bare_listing_def
      opt_len_le_def opt_pos_def unclaimed_db_def licensed_db_def user_exists_def new_user_row_def license_check_def
      license_status_parse_def lit_def)

lemma toy_claim_tx:
  assumes "quiet w" and "w_db w = unclaimed_db" and "w_clock w = 0" and "w_ids w = (\<lambda>n. 100 + of_nat n)" and "w_next_id w = 0"
  shows "\<exists>c w'. claim_open_tx (\<lambda>_. []) 6 2 ManualReview [] None w = (Inr c, w') \<and> quiet w'"
proof -
  define opened where "opened = audit_row_of 0 101 (domain_event ''claim.opened'' ''contractor_claims'' ActorUser 2 100
    [(lit ''contractor_id'', JUuid 6), (lit ''method'', JText (claim_method_str ManualReview))] None)"
  let ?row = "new_claim 0 100 6 2 ManualReview []" and ?note = "lit ''auto-approved at launch; no moderator reviewed this claim''"
  let ?d1 = "unclaimed_db\<lparr>contractor_claims := [?row], audit_log := [opened]\<rparr>"
  let ?d2 = "unclaimed_db\<lparr>contractors := [claimed_row 2 0 ((bare_listing 6)\<lparr>ct_license_record_id := Some 9\<rparr>)],
      contractor_claims := [decided_claim CApproved (Some 2) (Some ?note) 0 ?row], audit_log := [opened]\<rparr>"
  have chk: "audit_check (audit_row_of 0 i (domain_event ''claim.opened'' ''contractor_claims'' ActorUser 2 100 j None))"
    "audit_check (audit_row_of 0 i (domain_event ''claim.approved'' ''contractor_claims'' ActorUser 2 100 j None))" for i j
    by (simp_all add: audit_check_def audit_row_of_def domain_event_def ev_with_request_def ev_with_data_def ev_subject_def
        ev_actor_def audit_event_new_def opt_len_le_def btrim_def trim_by_def lit_def)
  have act: "ev_actor_user_id (domain_event a t k u sb j r) = Some u" for a t k u sb j r
    by (simp add: domain_event_def ev_with_request_def ev_with_data_def ev_subject_def ev_actor_def)
  have us: "user_exists (unclaimed_db\<lparr>contractor_claims := x, audit_log := y\<rparr>) 2"
    "user_exists (unclaimed_db\<lparr>contractors := z, contractor_claims := x, audit_log := y\<rparr>) 2" for x y z
    by (simp_all add: user_exists_def unclaimed_db_def licensed_db_def new_user_row_def)
  have row: "claim_of_row ?row = Inr c \<longleftrightarrow> c = \<lparr>ci_id = 100, ci_contractor_id = 6, ci_user_id = 2, ci_status = CPending, ci_method = ManualReview,
      ci_evidence = [], ci_decision_note = None, ci_created_at = 0, ci_decided_at = None\<rparr>" for c
    by (auto simp: claim_of_row_def new_claim_def claim_status_parse_def claim_method_parse_def lit_def)
  have nt: "length ?note \<le> 2000" "lit ''approved'' \<noteq> lit ''pending''" "lit ''active'' = license_status_str LActive" by (simp_all add: lit_def)
  have dc: "claim_check (decided_claim CApproved (Some 2) (Some ?note) 0 ?row)"
    using nt(1) by (simp add: claim_check_def decided_claim_def new_claim_def opt_len_le_def claim_status_parse_def claim_method_parse_def lit_def)
  obtain w1 c where opn: "claims_open 6 2 ManualReview [] (w\<lparr>w_calls := Suc (Suc (w_calls w))\<rparr>) = (Inr c, w1)" and c: "ci_id c = 100"
    and w1: "quiet w1" "w_db w1 = unclaimed_db\<lparr>contractor_claims := [?row]\<rparr>" "w_clock w1 = 0" "w_ids w1 = (\<lambda>n. 100 + of_nat n)" "w_next_id w1 = 1"
    using assms row us
    by (simp add: claims_open_def bind_def new_id_def sql_def round_trip_run open_claim_stmt_def Let_def contractor_exists_def of_res_def quiet_def)
  let ?e = "domain_event ''claim.opened'' ''contractor_claims'' ActorUser 2 100
    [(lit ''contractor_id'', JUuid 6), (lit ''method'', JText (claim_method_str ManualReview))] None"
  have us1: "user_exists (unclaimed_db\<lparr>contractor_claims := x\<rparr>) 2" for x
    by (simp add: user_exists_def unclaimed_db_def licensed_db_def new_user_row_def)
  obtain w2 where au: "audit_record ?e w1 = (Inr 101, w2)"
    and w2: "quiet w2" "w_db w2 = ?d1" "w_clock w2 = 0" "w_ids w2 = (\<lambda>n. 100 + of_nat n)" "w_next_id w2 = 2"
    using audit_record_run [of w1 ?e] w1 chk(1) act us1 by (auto simp: opened_def)
  have rowsel: "cm_id ?row = 100" "cm_status ?row = lit ''pending''" by (simp_all add: new_claim_def)
  obtain w3 where dec: "claims_decide 100 CApproved (Some 2) (Some ?note) w2 = (Inr True, w3)"
    and w3: "quiet w3" "w_db w3 = ?d1\<lparr>contractor_claims := [decided_claim CApproved (Some 2) (Some ?note) 0 ?row]\<rparr>" "w_clock w3 = 0"
      "w_ids w3 = (\<lambda>n. 100 + of_nat n)" "w_next_id w3 = 2"
    using w2 dc us rowsel by (simp add: claims_decide_def bind_def sql_run decide_claim_stmt_def find_claim_def approved_taken_def
        set_claim_def ret_def)
  obtain w4 where att: "contractors_attach_claimant 6 2 w3 = (Inr True, w4)"
    and w4: "quiet w4" "w_db w4 = ?d2" "w_clock w4 = 0" "w_ids w4 = (\<lambda>n. 100 + of_nat n)" "w_next_id w4 = 2"
    using w3 us by (simp add: contractors_attach_claimant_def sql_run attach_claimant_stmt_def find_contractor_def update_contractor_def
        set_contractor_def contractor_check_def contractor_taken_def claimant_missing_def claimed_row_def bare_listing_def opt_len_le_def opt_pos_def)
  have ue: "user_exists (w_db w4) 2" using us by (simp add: w4(2))
  from grant_role_run [OF w4(1) ue] obtain g rs where
    gr': "users_grant_role 2 RContractor None w4 = (Inr g, w4\<lparr>w_calls := Suc (w_calls w4), w_db := (w_db w4)\<lparr>user_roles := rs\<rparr>\<rparr>)" by blast
  define w5 where "w5 = w4\<lparr>w_calls := Suc (w_calls w4), w_db := (w_db w4)\<lparr>user_roles := rs\<rparr>\<rparr>"
  have gr: "users_grant_role 2 RContractor None w4 = (Inr g, w5)" using gr' by (simp only: w5_def)
  have w5: "quiet w5" "w_db w5 = ?d2\<lparr>user_roles := rs\<rparr>" "w_clock w5 = 0" "w_ids w5 = (\<lambda>n. 100 + of_nat n)" "w_next_id w5 = 2"
    using w4 by (simp_all add: w5_def)
  have ok5: "listings_ok (w_db w5)"
    using claimed_listing_ok listings_ok_frame [of "w_db w5" "unclaimed_db\<lparr>contractors := [claimed_row 2 0 ((bare_listing 6)\<lparr>ct_license_record_id := Some 9\<rparr>)]\<rparr>"]
    by (simp add: w5(2))
  obtain out w6 where re: "recompute (\<lambda>_. []) 6 w5 = (Inr out, w6)" and w6: "quiet w6" "w_clock w6 = 0"
    and rb: "rebadges {6} 0 (w_db w5) (w_db w6)" and ids6: "w_ids w6 = (\<lambda>n. 100 + of_nat n)" "w_next_id w6 = 2"
    using recompute_run [of w5 "\<lambda>_. []" 6] w5(1,3,4,5) ok5 by (auto simp: w5(2) claimed_row_def)
  let ?e' = "domain_event ''claim.approved'' ''contractor_claims'' ActorUser 2 100 [(lit ''contractor_id'', JUuid 6),
    (lit ''claimant'', JUuid 2), (lit ''auto_approved'', JBool True), (lit ''verified'', JBool (oc_verified out)),
    (lit ''verification_reason'', JText (oc_reason out))] None"
  have db6: "audit_log (w_db w6) = [opened]" "user_exists (w_db w6) 2"
      "contractor_claims (w_db w6) = [decided_claim CApproved (Some 2) (Some ?note) 0 ?row]"
    using rb us by (auto simp: rebadges_def w5(2) user_exists_def)
  obtain w7 where au': "audit_record ?e' w6 = (Inr 102, w7)"
    and w7: "quiet w7" "contractor_claims (w_db w7) = [decided_claim CApproved (Some 2) (Some ?note) 0 ?row]"
    using audit_record_run [of w6 ?e'] w6 chk(2) act db6 ids6 by (auto simp: opened_def audit_row_of_def)
  obtain cl w8 where fi: "claims_find 100 w7 = (Inr (Some cl), w8)" and w8: "quiet w8"
    using w7 rowsel dc by (auto simp: claims_find_def bind_def query_run find_claim_def of_res_def claim_of_row_def claim_check_def ret_def)
  have "contractors_messaging_target 6 w = (Inr (Some \<lparr>mt_claimed_by_user_id = None, mt_accepts_dm = False\<rparr>), w\<lparr>w_calls := Suc (w_calls w)\<rparr>)"
    using assms by (simp add: contractors_messaging_target_def query_run find_contractor_def target_of_def bare_listing_def)
  moreover have "contractors_claimed_by 2 (w\<lparr>w_calls := Suc (w_calls w)\<rparr>) = (Inr None, w\<lparr>w_calls := Suc (Suc (w_calls w))\<rparr>)"
    using assms by (simp add: contractors_claimed_by_def query_run listing_of_def bare_listing_def)
  ultimately have "claim_open_tx (\<lambda>_. []) 6 2 ManualReview [] None w = (Inr cl, w8)"
    using opn au dec att gr re au' fi unfolding claim_open_tx_def by (simp add: bind_def seq_def c ret_def)
  with w8 show ?thesis by blast
qed

lemma unclaimed_db_ok: "claims_ok unclaimed_db"
  by (simp add: claims_ok_def approved_claim_def bare_listing_def)

lemma toy_claim:
  "\<exists>c w'. claim_open (\<lambda>_. []) no_others 6 2 ManualReview [] None (calm_world unclaimed_db 0) = (Inr c, w')"
proof -
  let ?w = "calm_world unclaimed_db 0"
  have ids: "w_ids ?w = (\<lambda>n. 100 + of_nat n)" by (simp add: calm_world_def)
  have q: "quiet ?w" by (simp add: quiet_def)
  obtain c v where "claim_open_tx (\<lambda>_. []) 6 2 ManualReview [] None (?w\<lparr>w_calls := Suc (w_calls ?w)\<rparr>) = (Inr c, v)" "quiet v"
    using toy_claim_tx [of "?w\<lparr>w_calls := Suc (w_calls ?w)\<rparr>"] ids by (auto simp: quiet_def)
  with transaction_run [OF q, of "claim_open_tx (\<lambda>_. []) 6 2 ManualReview [] None" c v] show ?thesis by (auto simp: claim_open_def after_no_others)
qed


theorem ownership_follows_approved_claims_witness:
  "\<exists>w. claim_runs (\<lambda>_. []) (calm_world unclaimed_db 0) w \<and> contractor_claims (w_db w) \<noteq> [] \<and>
     (\<forall>r \<in> set (contractors (w_db w)). \<forall>u. ct_claimed_by r = Some u \<longleftrightarrow> approved_claim (w_db w) (ct_id r) u)"
proof -
  let ?w = "calm_world unclaimed_db 0"
  obtain c w' where run: "claim_open (\<lambda>_. []) no_others 6 2 ManualReview [] None ?w = (Inr c, w')" using toy_claim by blast
  have env: "\<And>k v. claim_runs (\<lambda>_. []) v (no_others k v)" by (simp add: no_others_def runs_here)
  have "claim_runs (\<lambda>_. []) ?w (run_claim (\<lambda>_. []) no_others (OpenClaim 6 2 ManualReview [] None) ?w)"
    by (rule runs_request [OF runs_here env])
  then have r: "claim_runs (\<lambda>_. []) ?w w'" by (simp only: run_claim.simps run snd_conv)
  have tx: "transaction (claim_open_tx (\<lambda>_. []) 6 2 ManualReview [] None) ?w = (Inr c, w')"
    using run by (simp add: claim_open_def after_no_others)
  then obtain v where "claim_open_tx (\<lambda>_. []) 6 2 ManualReview [] None (?w\<lparr>w_calls := Suc (w_calls ?w)\<rparr>) = (Inr c, v)"
    "w' = v\<lparr>w_calls := Suc (w_calls v)\<rparr>" by (rule transaction_Inr)
  from claim_open_tx_InrD [OF this(1)] unclaimed_db_ok this(2) have "contractor_claims (w_db w') \<noteq> []" by auto
  with ownership_follows_approved_claims [OF r] r show ?thesis by (auto simp: bare_listing_def)
qed

subsection \<open>Stored claims stay readable\<close>

lemma list_all2_source: "list_all2 P xs ys \<Longrightarrow> y \<in> set ys \<Longrightarrow> \<exists>x \<in> set xs. P x y"
  by (induction rule: list_all2_induct) auto

lemma claims_of_rows_run: "list_all claim_check rows \<Longrightarrow> \<exists>cs. claims_of_rows rows = Inr cs \<and> list_all2 (\<lambda>x c. claim_of_row x = Inr c) rows cs"
proof (induction rows)
  case (Cons x rows)
  then obtain c where "claim_of_row x = Inr c" by (auto simp: claim_check_def claim_of_row_def)
  with Cons show ?case by (auto simp: list_all2_Cons1)
qed simp



end
