(* ===== verification/Repo_Photos.thy ===== *)
theory Repo_Photos
  imports Repo_Contractors
begin

text \<open>
  \<open>cm-db/src/repo/job_photos.rs\<close> and \<open>contractor_photos.rs\<close>: the index of the photos of a job and of a listing. The two tables
  have the same shape, so the statements are written once over the list of rows and once per table. The position of a new
  photo is computed in the statement; the caps on the number of photos are the callers'.
\<close>

definition max_per_job :: int where "max_per_job = 8"
definition max_per_contractor :: int where "max_per_contractor = 12"

record new_photo =
  np_id :: uuid
  np_owner :: uuid
  np_storage_key :: ustr
  np_byte_size :: int
  np_width :: int
  np_height :: int

record photo_view =
  pv_id :: uuid
  pv_owner :: uuid
  pv_storage_key :: ustr
  pv_width :: int
  pv_height :: int

definition photo_view_of :: "photo_row \<Rightarrow> photo_view" where
  "photo_view_of r = \<lparr>pv_id = ph_id r, pv_owner = ph_owner r, pv_storage_key = ph_storage_key r,
     pv_width = ph_width r, pv_height = ph_height r\<rparr>"

subsection \<open>One table\<close>

text \<open>\<open>COALESCE(MAX(position) + 1, 0)\<close> over the rows of the owner.\<close>

definition next_position :: "uuid \<Rightarrow> photo_row list \<Rightarrow> int" where
  "next_position owner rows =
     (case map ph_position (filter (\<lambda>r. ph_owner r = owner) rows) of
        [] \<Rightarrow> 0
      | p # ps \<Rightarrow> foldr max ps p + 1)"

definition photo_row_of :: "new_photo \<Rightarrow> int \<Rightarrow> photo_row" where
  "photo_row_of p position = \<lparr>ph_id = np_id p, ph_owner = np_owner p, ph_storage_key = np_storage_key p,
     ph_byte_size = np_byte_size p, ph_width = np_width p, ph_height = np_height p, ph_position = position\<rparr>"

definition photo_check :: "photo_row \<Rightarrow> bool" where
  "photo_check r \<longleftrightarrow> btrim (ph_storage_key r) \<noteq> [] \<and> length (ph_storage_key r) \<le> 500 \<and>
     0 < ph_byte_size r \<and> 0 < ph_width r \<and> 0 < ph_height r \<and> 0 \<le> ph_position r"

text \<open>The primary key, the unique key and the unique pair of owner and position.\<close>

definition photo_taken :: "photo_row \<Rightarrow> photo_row list \<Rightarrow> bool" where
  "photo_taken r rows \<longleftrightarrow>
     (\<exists>x \<in> set rows. ph_id x = ph_id r \<or> ph_storage_key x = ph_storage_key r \<or>
        ph_owner x = ph_owner r \<and> ph_position x = ph_position r)"

definition insert_photo :: "bool \<Rightarrow> new_photo \<Rightarrow> photo_row list \<Rightarrow> (photo_view \<times> photo_row list) res" where
  "insert_photo owner_exists p rows =
     (let position = next_position (np_owner p) rows; row = photo_row_of p position in
      if \<not> pg_int_ok position then Inl (internal ''integer out of range'')
      else if \<not> photo_check row then Inl (internal ''check constraint of photos'')
      else if photo_taken row rows then Inl (internal ''unique constraint of photos'')
      else if \<not> owner_exists then Inl (internal ''photos foreign key'')
      else Inr (photo_view_of row, rows @ [row]))"

definition photos_of :: "uuid \<Rightarrow> photo_row list \<Rightarrow> photo_row list" where
  "photos_of owner rows = filter (\<lambda>r. ph_owner r = owner) rows"

definition delete_photo :: "uuid \<Rightarrow> uuid \<Rightarrow> photo_row list \<Rightarrow> ustr option \<times> photo_row list" where
  "delete_photo owner i rows =
     (let gone = (\<lambda>r. ph_id r = i \<and> ph_owner r = owner) in
      (map_option ph_storage_key (find gone rows), filter (\<lambda>r. \<not> gone r) rows))"

subsection \<open>Photos of listings\<close>

definition contractor_photos_insert :: "new_photo \<Rightarrow> photo_view m" where
  "contractor_photos_insert p =
     sql (\<lambda>_ d. case insert_photo (contractor_exists d (np_owner p)) p (contractor_photos d) of
        Inl e \<Rightarrow> Inl e
      | Inr (v, rows) \<Rightarrow> Inr (v, d\<lparr>contractor_photos := rows\<rparr>))"

definition contractor_photos_count :: "uuid \<Rightarrow> int m" where
  "contractor_photos_count i = query (\<lambda>_ d. int (length (photos_of i (contractor_photos d))))"

definition contractor_photos_for_contractor :: "uuid \<Rightarrow> photo_view list m" where
  "contractor_photos_for_contractor i =
     query (\<lambda>_ d. map photo_view_of (sort_key ph_position (photos_of i (contractor_photos d))))"

definition contractor_photos_delete :: "uuid \<Rightarrow> uuid \<Rightarrow> ustr option m" where
  "contractor_photos_delete contractor_id i =
     sql (\<lambda>_ d. case delete_photo contractor_id i (contractor_photos d) of
        (key, rows) \<Rightarrow> Inr (key, d\<lparr>contractor_photos := rows\<rparr>))"

subsection \<open>Photos of jobs\<close>

definition posting_exists :: "db \<Rightarrow> uuid \<Rightarrow> bool" where
  "posting_exists d i \<longleftrightarrow> i \<in> jb_id ` set (jobs d)"

definition job_photos_insert :: "new_photo \<Rightarrow> photo_view m" where
  "job_photos_insert p =
     sql (\<lambda>_ d. case insert_photo (posting_exists d (np_owner p)) p (job_photos d) of
        Inl e \<Rightarrow> Inl e
      | Inr (v, rows) \<Rightarrow> Inr (v, d\<lparr>job_photos := rows\<rparr>))"

definition job_photos_count :: "uuid \<Rightarrow> int m" where
  "job_photos_count i = query (\<lambda>_ d. int (length (photos_of i (job_photos d))))"

text \<open>\<open>ORDER BY job_id, position\<close> over the photos of several jobs.\<close>

definition photos_of_jobs :: "uuid list \<Rightarrow> db \<Rightarrow> photo_view list" where
  "photos_of_jobs ids d =
     map photo_view_of (sort_key ph_owner (sort_key ph_position (filter (\<lambda>r. ph_owner r \<in> set ids) (job_photos d))))"

definition job_photos_for_jobs :: "uuid list \<Rightarrow> photo_view list m" where
  "job_photos_for_jobs ids = (if ids = [] then ret [] else query (\<lambda>_. photos_of_jobs ids))"

definition job_photos_delete :: "uuid \<Rightarrow> uuid \<Rightarrow> ustr option m" where
  "job_photos_delete job_id i =
     sql (\<lambda>_ d. case delete_photo job_id i (job_photos d) of
        (key, rows) \<Rightarrow> Inr (key, d\<lparr>job_photos := rows\<rparr>))"

definition job_photos_keys :: "uuid \<Rightarrow> ustr list m" where
  "job_photos_keys i = query (\<lambda>_ d. map ph_storage_key (photos_of i (job_photos d)))"

definition job_photos_delete_all :: "uuid \<Rightarrow> unit m" where
  "job_photos_delete_all i =
     execute (\<lambda>_ d. d\<lparr>job_photos := filter (\<lambda>r. ph_owner r \<noteq> i) (job_photos d)\<rparr>)"

subsection \<open>Invariant of a table\<close>

text \<open>Every row passes its checks and the three keys are unique.\<close>

definition photo_rows_ok :: "photo_row list \<Rightarrow> bool" where
  "photo_rows_ok rows \<longleftrightarrow> list_all photo_check rows \<and> distinct (map ph_id rows) \<and> distinct (map ph_storage_key rows) \<and>
     distinct (map (\<lambda>r. (ph_owner r, ph_position r)) rows)"

lemma photo_rows_ok_append: "photo_rows_ok (rows @ [r]) \<longleftrightarrow> photo_rows_ok rows \<and> photo_check r \<and> \<not> photo_taken r rows"
proof -
  have "ph_id r \<notin> ph_id ` set rows \<and> ph_storage_key r \<notin> ph_storage_key ` set rows \<and>
      (ph_owner r, ph_position r) \<notin> (\<lambda>r. (ph_owner r, ph_position r)) ` set rows \<longleftrightarrow> \<not> photo_taken r rows"
    unfolding photo_taken_def image_iff prod.inject by metis
  then show ?thesis by (auto simp: photo_rows_ok_def)
qed

lemma insert_photo_ok:
  assumes "insert_photo b p rows = Inr (v, rows')" and "photo_rows_ok rows"
  shows "photo_rows_ok rows'" and "rows' = rows @ [photo_row_of p (next_position (np_owner p) rows)]"
    and "v = photo_view_of (photo_row_of p (next_position (np_owner p) rows))" and "b"
  using assms by (auto simp: insert_photo_def Let_def photo_rows_ok_append split: if_splits)

lemma photo_rows_ok_filter: "photo_rows_ok rows \<Longrightarrow> photo_rows_ok (filter P rows)"
  by (auto simp: photo_rows_ok_def list_all_iff distinct_map_filter)

lemma delete_photo_ok: "photo_rows_ok rows \<Longrightarrow> photo_rows_ok (snd (delete_photo owner i rows))"
  by (simp add: delete_photo_def Let_def photo_rows_ok_filter)

text \<open>The next position is past every position in use, so the statement cannot lose the race for a slot.\<close>

lemma foldr_max_ge: "p \<le> foldr max ps (p :: int)" "x \<in> set ps \<Longrightarrow> x \<le> foldr max ps p"
  by (induction ps) (auto simp: max_def)

lemma next_position_free:
  assumes "r \<in> set rows" and "ph_owner r = owner"
  shows "ph_position r < next_position owner rows"
proof -
  have "ph_position r \<in> set (map ph_position (filter (\<lambda>r. ph_owner r = owner) rows))" using assms by auto
  moreover obtain p ps where "map ph_position (filter (\<lambda>r. ph_owner r = owner) rows) = p # ps"
    using calculation by (cases "map ph_position (filter (\<lambda>r. ph_owner r = owner) rows)") auto
  ultimately show ?thesis using foldr_max_ge(1) [of p ps] foldr_max_ge(2) [of _ ps p]
    by (auto simp: next_position_def)
qed

end
