(* ===== verification/Repo_Jobs.thy ===== *)
theory Repo_Jobs
  imports Repo_Photos
begin

text \<open>
  The writes of \<open>cm-db/src/repo/jobs.rs\<close> and what it reads back of a row: a job on the board and in its poster's list. The
  queries of the board are in \<open>Board\<close>. \<open>posting_check\<close> spells out the constraints of migrations 0017 and 0018.
\<close>

subsection \<open>Reading the columns back\<close>

definition posting_status_parse :: "ustr \<Rightarrow> posting_status res" where
  "posting_status_parse v =
     (case find (\<lambda>s. posting_status_str s = v) [POpen, PClosed, PCancelled] of
        Some s \<Rightarrow> Inr s
      | None \<Rightarrow> Inl (Internal (lit ''unknown job status in database: '' @ v)))"

definition all_timelines :: "job_timeline list" where
  "all_timelines = [Asap, Within2Weeks, MoreThan2Weeks, TimeUnsure]"

definition job_timeline_parse :: "ustr \<Rightarrow> job_timeline res" where
  "job_timeline_parse v =
     (case find (\<lambda>t. job_timeline_str t = v) all_timelines of
        Some t \<Rightarrow> Inr t
      | None \<Rightarrow> Inl (Internal (lit ''unknown job timeline in database: '' @ v)))"

definition job_timeline_parse_request :: "ustr \<Rightarrow> job_timeline res" where
  "job_timeline_parse_request v =
     (case find (\<lambda>t. job_timeline_str t = v) all_timelines of
        Some t \<Rightarrow> Inr t
      | None \<Rightarrow> Inl (Invalid (lit ''Timeline must be one of: '' @ join (lit '', '') (map job_timeline_str all_timelines) @ lit ''.'')))"

definition all_build_types :: "build_type list" where
  "all_build_types = [NewBuild, Replacement, Repair, BuildUnsure]"

definition build_type_parse :: "ustr \<Rightarrow> build_type res" where
  "build_type_parse v =
     (case find (\<lambda>b. build_type_str b = v) all_build_types of
        Some b \<Rightarrow> Inr b
      | None \<Rightarrow> Inl (Internal (lit ''unknown build type in database: '' @ v)))"

definition build_type_parse_request :: "ustr \<Rightarrow> build_type res" where
  "build_type_parse_request v =
     (case find (\<lambda>b. build_type_str b = v) all_build_types of
        Some b \<Rightarrow> Inr b
      | None \<Rightarrow> Inl (Invalid (lit ''Build type must be one of: '' @ join (lit '', '') (map build_type_str all_build_types) @ lit ''.'')))"

lemma posting_status_parse_str [simp]: "posting_status_parse (posting_status_str s) = Inr s"
  by (cases s) (simp_all add: posting_status_parse_def del: posting_status_str.simps)

lemma job_timeline_parse_str [simp]:
  "job_timeline_parse (job_timeline_str t) = Inr t" "job_timeline_parse_request (job_timeline_str t) = Inr t"
  by (cases t; simp add: job_timeline_parse_def job_timeline_parse_request_def all_timelines_def del: job_timeline_str.simps)+

lemma build_type_parse_str [simp]:
  "build_type_parse (build_type_str b) = Inr b" "build_type_parse_request (build_type_str b) = Inr b"
  by (cases b; simp add: build_type_parse_def build_type_parse_request_def all_build_types_def del: build_type_str.simps)+

subsection \<open>A job as it is published\<close>

record job_photo =
  jp_id :: uuid
  jp_url :: ustr
  jp_width :: int
  jp_height :: int

record public_job =
  pj_id :: uuid
  pj_title :: ustr
  pj_trade :: "ustr option"
  pj_status :: posting_status
  pj_build_type :: build_type
  pj_job_size :: ustr
  pj_timeline :: job_timeline
  pj_budget_min :: "int option"
  pj_budget_max :: "int option"
  pj_postal_code :: ustr
  pj_lat :: "f64 option"
  pj_lon :: "f64 option"
  pj_location_precision :: point_source
  pj_created_at :: time
  pj_distance_m :: "f64 option"
  pj_description :: ustr
  pj_poster_first_name :: "ustr option"
  pj_photos :: "job_photo list"

record owner_job =
  oj_public :: public_job
  oj_posted_by :: uuid
  oj_closed_at :: "time option"
  oj_updated_at :: time

definition trade_slug :: "db \<Rightarrow> posting_row \<Rightarrow> ustr option" where
  "trade_slug d r =
     (case jb_trade_id r of None \<Rightarrow> None | Some t \<Rightarrow> map_option tr_slug (find (\<lambda>x. tr_id x = t) (trades d)))"

text \<open>\<open>JobRow::into_public\<close>: the enums are read in the order of the fields.\<close>

definition into_public :: "db \<Rightarrow> f64 option \<Rightarrow> ustr option \<Rightarrow> posting_row \<Rightarrow> public_job res" where
  "into_public d distance first_name r =
     (case posting_status_parse (jb_status r) of Inl e \<Rightarrow> Inl e | Inr status \<Rightarrow>
      case build_type_parse (jb_build_type r) of Inl e \<Rightarrow> Inl e | Inr build \<Rightarrow>
      case job_timeline_parse (jb_timeline r) of Inl e \<Rightarrow> Inl e | Inr timeline \<Rightarrow>
      Inr \<lparr>pj_id = jb_id r, pj_title = jb_title r, pj_trade = trade_slug d r, pj_status = status, pj_build_type = build,
        pj_job_size = jb_job_size r, pj_timeline = timeline, pj_budget_min = jb_budget_min r, pj_budget_max = jb_budget_max r,
        pj_postal_code = jb_postal_code r, pj_lat = map_option snd (jb_public_point r), pj_lon = map_option fst (jb_public_point r),
        pj_location_precision = jb_public_point_source r, pj_created_at = jb_created_at r, pj_distance_m = distance,
        pj_description = jb_description r,
        pj_poster_first_name = (case first_name of None \<Rightarrow> None | Some n \<Rightarrow> if n = [] then None else Some n), pj_photos = []\<rparr>)"

definition into_owner :: "db \<Rightarrow> posting_row \<Rightarrow> owner_job res" where
  "into_owner d r =
     (case into_public d None None r of
        Inl e \<Rightarrow> Inl e
      | Inr p \<Rightarrow> Inr \<lparr>oj_public = p, oj_posted_by = jb_posted_by r, oj_closed_at = jb_closed_at r, oj_updated_at = jb_updated_at r\<rparr>)"

fun collect_res :: "('a \<Rightarrow> 'b res) \<Rightarrow> 'a list \<Rightarrow> 'b list res" where
  "collect_res f [] = Inr []"
| "collect_res f (x # xs) =
     (case f x of
        Inl e \<Rightarrow> Inl e
      | Inr y \<Rightarrow> (case collect_res f xs of Inl e \<Rightarrow> Inl e | Inr ys \<Rightarrow> Inr (y # ys)))"

text \<open>\<open>ORDER BY created_at DESC, id DESC\<close>, with a stable sort on each key.\<close>

definition newest_first :: "posting_row list \<Rightarrow> posting_row list" where
  "newest_first rows = rev (sort_key jb_created_at (sort_key jb_id rows))"

definition jobs_for_poster :: "uuid \<Rightarrow> owner_job list m" where
  "jobs_for_poster uid =
     bind (query (\<lambda>_ d. (d, take 200 (newest_first (filter (\<lambda>r. jb_posted_by r = uid) (jobs d)))))) (\<lambda>(d, rows).
     of_res (collect_res (into_owner d) rows))"

subsection \<open>Writes\<close>

record new_posting =
  nj_id :: uuid
  nj_posted_by :: uuid
  nj_title :: ustr
  nj_description :: ustr
  nj_trade_id :: "uuid option"
  nj_build_type :: build_type
  nj_job_size :: ustr
  nj_budget :: "(int \<times> int) option"
  nj_timeline :: job_timeline
  nj_postal_code :: ustr
  nj_region_id :: "uuid option"
  nj_centroid :: "point option"

definition five_digits :: "ustr \<Rightarrow> bool" where
  "five_digits s \<longleftrightarrow> length s = 5 \<and> list_all is_digit s"

definition posting_check :: "posting_row \<Rightarrow> bool" where
  "posting_check r \<longleftrightarrow>
     btrim (jb_title r) \<noteq> [] \<and> length (jb_title r) \<le> 140 \<and>
     btrim (jb_description r) \<noteq> [] \<and> length (jb_description r) \<le> 4000 \<and> 50 \<le> length (btrim (jb_description r)) \<and>
     jb_status r \<in> {lit ''open'', lit ''closed'', lit ''cancelled''} \<and>
     jb_build_type r \<in> {lit ''new_build'', lit ''replacement'', lit ''repair'', lit ''unsure''} \<and>
     btrim (jb_job_size r) \<noteq> [] \<and> length (jb_job_size r) \<le> 200 \<and>
     (case jb_budget_min r of None \<Rightarrow> True | Some n \<Rightarrow> 0 \<le> n) \<and>
     (case jb_budget_max r of None \<Rightarrow> True | Some n \<Rightarrow> 0 \<le> n) \<and>
     (case (jb_budget_min r, jb_budget_max r) of (Some a, Some b) \<Rightarrow> a \<le> b | (None, None) \<Rightarrow> True | _ \<Rightarrow> False) \<and>
     jb_timeline r \<in> {lit ''asap'', lit ''within_2_weeks'', lit ''more_than_2_weeks'', lit ''unsure''} \<and>
     five_digits (jb_postal_code r) \<and> jb_public_point_source r \<noteq> Exact \<and>
     (jb_public_point r = None) = (jb_public_point_source r = NoPoint) \<and>
     (jb_status r = lit ''open'') = (jb_closed_at r = None)"

definition posting_of :: "time \<Rightarrow> new_posting \<Rightarrow> posting_row" where
  "posting_of now j = \<lparr>jb_id = nj_id j, jb_posted_by = nj_posted_by j, jb_title = nj_title j, jb_description = nj_description j,
     jb_trade_id = nj_trade_id j, jb_status = lit ''open'', jb_build_type = build_type_str (nj_build_type j),
     jb_job_size = nj_job_size j, jb_budget_min = map_option fst (nj_budget j), jb_budget_max = map_option snd (nj_budget j),
     jb_timeline = job_timeline_str (nj_timeline j), jb_postal_code = nj_postal_code j, jb_region_id = nj_region_id j,
     jb_public_point = nj_centroid j,
     jb_public_point_source = (if nj_centroid j = None then NoPoint else ZipCentroid), jb_closed_at = None,
     jb_created_at = now, jb_updated_at = now, jb_alerts_matched_at = None\<rparr>"

text \<open>The trigger refuses a poster whose account is not a homeowner's; it sees no row when there is no such account.\<close>

definition wrong_poster :: "db \<Rightarrow> uuid \<Rightarrow> bool" where
  "wrong_poster d uid =
     (case find (\<lambda>u. u_id u = uid) (users d) of None \<Rightarrow> False | Some u \<Rightarrow> u_account_type u \<noteq> lit ''homeowner'')"

definition insert_posting_stmt :: "new_posting \<Rightarrow> time \<Rightarrow> db \<Rightarrow> (unit \<times> db) res" where
  "insert_posting_stmt j now d =
     (let row = posting_of now j in
      if wrong_poster d (nj_posted_by j) \<or> \<not> posting_check row then
        Inl (internal ''a job insert violated a constraint'')
      else if posting_exists d (nj_id j) then Inl (internal ''jobs_pkey'')
      else if \<not> user_exists d (nj_posted_by j) \<or>
          (case nj_trade_id j of None \<Rightarrow> False | Some t \<Rightarrow> t \<notin> tr_id ` set (trades d)) \<or>
          (case nj_region_id j of None \<Rightarrow> False | Some g \<Rightarrow> g \<notin> rg_id ` set (zctas d)) then
        Inl (internal ''jobs foreign key'')
      else Inr ((), d\<lparr>jobs := jobs d @ [row]\<rparr>))"

definition jobs_insert :: "new_posting \<Rightarrow> uuid m" where
  "jobs_insert j = seq (sql (insert_posting_stmt j)) (ret (nj_id j))"

definition set_posting :: "(posting_row \<Rightarrow> bool) \<Rightarrow> (posting_row \<Rightarrow> posting_row) \<Rightarrow> db \<Rightarrow> db" where
  "set_posting p f d = d\<lparr>jobs := map (\<lambda>r. if p r then f r else r) (jobs d)\<rparr>"

definition closable :: "uuid \<Rightarrow> uuid \<Rightarrow> posting_row \<Rightarrow> bool" where
  "closable i poster r \<longleftrightarrow> jb_id r = i \<and> jb_posted_by r = poster \<and> jb_status r = lit ''open''"

definition closed_posting :: "posting_status \<Rightarrow> time \<Rightarrow> posting_row \<Rightarrow> posting_row" where
  "closed_posting s now r = r\<lparr>jb_status := posting_status_str s, jb_closed_at := Some now, jb_updated_at := now\<rparr>"

definition close_stmt :: "uuid \<Rightarrow> uuid \<Rightarrow> posting_status \<Rightarrow> time \<Rightarrow> db \<Rightarrow> (bool \<times> db) res" where
  "close_stmt i poster s now d =
     (if list_ex (\<lambda>r. closable i poster r \<and> \<not> posting_check (closed_posting s now r)) (jobs d) then
        Inl (internal ''check constraint of jobs'')
      else Inr (length (filter (closable i poster) (jobs d)) = 1, set_posting (closable i poster) (closed_posting s now) d))"

definition jobs_close :: "uuid \<Rightarrow> uuid \<Rightarrow> posting_status \<Rightarrow> bool m" where
  "jobs_close i poster s = sql (close_stmt i poster s)"

definition reopenable :: "uuid \<Rightarrow> uuid \<Rightarrow> posting_row \<Rightarrow> bool" where
  "reopenable i poster r \<longleftrightarrow> jb_id r = i \<and> jb_posted_by r = poster \<and> jb_status r = lit ''closed''"

definition reopened_posting :: "time \<Rightarrow> posting_row \<Rightarrow> posting_row" where
  "reopened_posting now r = r\<lparr>jb_status := lit ''open'', jb_closed_at := None, jb_updated_at := now\<rparr>"

definition reopen_stmt :: "uuid \<Rightarrow> uuid \<Rightarrow> time \<Rightarrow> db \<Rightarrow> (bool \<times> db) res" where
  "reopen_stmt i poster now d =
     (if list_ex (\<lambda>r. reopenable i poster r \<and> \<not> posting_check (reopened_posting now r)) (jobs d) then
        Inl (internal ''check constraint of jobs'')
      else Inr (length (filter (reopenable i poster) (jobs d)) = 1, set_posting (reopenable i poster) (reopened_posting now) d))"

definition jobs_reopen :: "uuid \<Rightarrow> uuid \<Rightarrow> bool m" where
  "jobs_reopen i poster = sql (reopen_stmt i poster)"

definition find_posting :: "db \<Rightarrow> uuid \<Rightarrow> posting_row option" where
  "find_posting d i = find (\<lambda>r. jb_id r = i) (jobs d)"

definition jobs_poster_of :: "uuid \<Rightarrow> uuid option m" where
  "jobs_poster_of i = query (\<lambda>_ d. map_option jb_posted_by (find_posting d i))"

subsection \<open>Reading back what was written\<close>

text \<open>A row that passes its checks is read back without an error.\<close>

lemma posting_check_decodes:
  assumes "posting_check r"
  shows "\<exists>p. into_public d distance name r = Inr p"
proof -
  have "jb_status r \<in> posting_status_str ` {POpen, PClosed, PCancelled}"
    "jb_build_type r \<in> build_type_str ` {NewBuild, Replacement, Repair, BuildUnsure}"
    "jb_timeline r \<in> job_timeline_str ` {Asap, Within2Weeks, MoreThan2Weeks, TimeUnsure}"
    using assms unfolding posting_check_def by (elim conjE, simp only: image_insert image_empty posting_status_str.simps build_type_str.simps job_timeline_str.simps)+
  then obtain s b t where "jb_status r = posting_status_str s" "jb_build_type r = build_type_str b" "jb_timeline r = job_timeline_str t"
    unfolding image_iff by blast
  then show ?thesis by (simp add: into_public_def)
qed

lemma into_public_sel:
  assumes "into_public d distance name r = Inr p"
  shows "pj_id p = jb_id r" and "pj_title p = jb_title r" and "pj_description p = jb_description r"
    and "posting_status_str (pj_status p) = jb_status r" and "pj_created_at p = jb_created_at r"
    and "pj_location_precision p = jb_public_point_source r" and "pj_postal_code p = jb_postal_code r"
proof -
  obtain s b t where "posting_status_parse (jb_status r) = Inr s" "build_type_parse (jb_build_type r) = Inr b"
    "job_timeline_parse (jb_timeline r) = Inr t"
    using assms by (auto simp: into_public_def split: sum.splits)
  moreover from this(1) have "posting_status_str s = jb_status r"
    by (auto simp: posting_status_parse_def split: option.splits dest: find_Some_in simp del: find.simps)
  ultimately show "pj_id p = jb_id r" "pj_title p = jb_title r" "pj_description p = jb_description r"
    "posting_status_str (pj_status p) = jb_status r" "pj_created_at p = jb_created_at r"
    "pj_location_precision p = jb_public_point_source r" "pj_postal_code p = jb_postal_code r"
    using assms by (auto simp: into_public_def)
qed

lemma collect_res_InrD: "collect_res f xs = Inr ys \<Longrightarrow> list_all2 (\<lambda>x y. f x = Inr y) xs ys"
  by (induction xs arbitrary: ys) (auto split: sum.splits)

lemma collect_res_total: "(\<And>x. x \<in> set xs \<Longrightarrow> \<exists>y. f x = Inr y) \<Longrightarrow> \<exists>ys. collect_res f xs = Inr ys"
  by (induction xs) (auto split: sum.splits, metis Inl_Inr_False)

lemma newest_first_perm [simp]: "set (newest_first rows) = set rows" "length (newest_first rows) = length rows"
  by (simp_all add: newest_first_def)

end
