(* ===== verification/Storage.thy ===== *)
theory Storage
  imports Concrete Core_Error
begin

text \<open>
  The crate \<open>cm-storage\<close>: \<open>image.rs\<close> turns an upload into the one kind of file that may be stored, \<open>gcs.rs\<close> puts and
  deletes objects in a bucket over HTTP, \<open>lib.rs\<close> chooses between the bucket and the in-memory store of the tests and names
  the objects. The image codec, the metadata server and the storage service are parameters. A service that uses both
  the database and the object store is an \<open>'a sm\<close>: it threads the state of the store beside the world.
\<close>

subsection \<open>Normalising an upload (\<open>image.rs\<close>)\<close>

text \<open>The \<open>image\<close> crate. An orientation is its EXIF value; 1 is \<open>NoTransforms\<close>.\<close>

record ('d, 'p) codec =
  guess_format :: "bytes \<Rightarrow> bool option"
  into_decoder :: "nat \<Rightarrow> nat \<Rightarrow> nat \<Rightarrow> bytes \<Rightarrow> 'd option"
  dimensions :: "'d \<Rightarrow> nat \<times> nat"
  orientation_of :: "'d \<Rightarrow> nat option"
  from_decoder :: "'d \<Rightarrow> 'p option"
  apply_orientation :: "nat \<Rightarrow> 'p \<Rightarrow> 'p"
  resize :: "nat \<Rightarrow> nat \<Rightarrow> 'p \<Rightarrow> 'p"
  to_rgb8 :: "'p \<Rightarrow> 'p"
  image_size :: "'p \<Rightarrow> nat \<times> nat"
  encode_jpeg :: "nat \<Rightarrow> 'p \<Rightarrow> ustr + bytes"

definition max_edge :: nat where "max_edge = 2000"
definition jpeg_quality :: nat where "jpeg_quality = 82"
definition max_pixels :: nat where "max_pixels = 50000000"

record normalised =
  nm_bytes :: bytes
  nm_width :: nat
  nm_height :: nat

text \<open>What is done to the pixels once they are decoded.\<close>

definition upright :: "('d, 'p) codec \<Rightarrow> nat option \<Rightarrow> 'p \<Rightarrow> 'p" where
  "upright C orientation p =
     apply_orientation C (case orientation of None \<Rightarrow> 1 | Some o' \<Rightarrow> o') p"

definition scaled_down :: "('d, 'p) codec \<Rightarrow> 'p \<Rightarrow> 'p" where
  "scaled_down C p =
     (if max_edge < fst (image_size C p) \<or> max_edge < snd (image_size C p) then resize C max_edge max_edge p else p)"

definition re_encode :: "('d, 'p) codec \<Rightarrow> 'p \<Rightarrow> normalised res" where
  "re_encode C p =
     (let rgb = to_rgb8 C p in
      case encode_jpeg C jpeg_quality rgb of
        Inl e \<Rightarrow> Inl (Internal (lit ''re-encoding an image failed: '' @ e))
      | Inr out \<Rightarrow> Inr \<lparr>nm_bytes = out, nm_width = fst (image_size C rgb), nm_height = snd (image_size C rgb)\<rparr>)"

definition normalise :: "('d, 'p) codec \<Rightarrow> bytes \<Rightarrow> normalised res" where
  "normalise C bytes =
     (case guess_format C bytes of
        None \<Rightarrow> Inl (invalid ''That file could not be read as an image.'')
      | Some recognised \<Rightarrow>
          if \<not> recognised then Inl (invalid ''That file is not an image we recognise. JPEG, PNG and WebP work.'')
          else
            (case into_decoder C max_pixels max_pixels (max_pixels * 4) bytes of
               None \<Rightarrow> Inl (invalid ''That image could not be decoded.'')
             | Some decoder \<Rightarrow>
                 (let (width, height) = dimensions C decoder in
                  if max_pixels < width * height then Inl (invalid ''That image is too large to process.'')
                  else
                    (case from_decoder C decoder of
                       None \<Rightarrow> Inl (invalid ''That image could not be decoded.'')
                     | Some decoded \<Rightarrow>
                         re_encode C (scaled_down C (upright C (orientation_of C decoder) decoded))))))"

subsection \<open>The bucket (\<open>gcs.rs\<close>)\<close>

record cached_token =
  tk_value :: ustr
  tk_expires_at :: time

record cloud_request =
  cq_delete :: bool
  cq_url :: ustr
  cq_bearer :: ustr
  cq_body :: bytes

datatype token_outcome = TokenUnreachable ustr | TokenRefused ustr | TokenUnreadable ustr | TokenFetched ustr int

text \<open>An answer has its status code, the status as text and the body.\<close>

datatype cloud_answer = CloudUnreachable ustr | CloudAnswer nat ustr ustr

record cloud =
  cd_token :: "nat \<Rightarrow> token_outcome"
  cd_send :: "nat \<Rightarrow> cloud_request \<Rightarrow> cloud_answer"

text \<open>The state behind a \<open>Store\<close>: the token slot of a bucket, the calls made so far, and the map of the in-memory store.\<close>

record store_state =
  ss_slot :: "cached_token option"
  ss_token_calls :: nat
  ss_exchanges :: "(cloud_request \<times> cloud_answer) list"
  ss_objects :: "ustr \<Rightarrow> bytes option"

definition refresh_margin :: duration where "refresh_margin = secs 120"

definition is_success :: "nat \<Rightarrow> bool" where
  "is_success code \<longleftrightarrow> 200 \<le> code \<and> code < 300"

definition unreserved :: "nat \<Rightarrow> bool" where
  "unreserved c \<longleftrightarrow> 65 \<le> c \<and> c \<le> 90 \<or> 97 \<le> c \<and> c \<le> 122 \<or> 48 \<le> c \<and> c \<le> 57 \<or> c \<in> {45, 95, 46, 126}"

definition upper_hex :: "nat \<Rightarrow> nat" where
  "upper_hex n = (if n < 10 then 48 + n else 55 + n)"

definition url_byte :: "byte \<Rightarrow> ustr" where
  "url_byte b =
     (if unreserved (unat b) then [unat b] else [37, upper_hex (unat b div 16), upper_hex (unat b mod 16)])"

definition urlencode :: "ustr \<Rightarrow> ustr" where
  "urlencode s = concat (map url_byte (as_bytes s))"

definition bucket_url_for :: "ustr \<Rightarrow> ustr \<Rightarrow> ustr" where
  "bucket_url_for name key = lit ''https://storage.googleapis.com/'' @ name @ lit ''/'' @ key"

text \<open>A token is reused while more than the margin is left of it; the second look under the write lock sees the same slot
  unless another upload filled it, which \<open>race\<close> stands for.\<close>

definition reusable :: "time \<Rightarrow> cached_token option \<Rightarrow> ustr option" where
  "reusable now slot =
     (case slot of
        None \<Rightarrow> None
      | Some t \<Rightarrow> if now + refresh_margin < tk_expires_at t then Some (tk_value t) else None)"

definition access_token ::
  "cloud \<Rightarrow> (nat \<Rightarrow> cached_token option \<Rightarrow> cached_token option) \<Rightarrow> time \<Rightarrow> store_state \<Rightarrow> ustr res \<times> store_state" where
  "access_token cloud race now s =
     (case reusable now (ss_slot s) of
        Some value \<Rightarrow> (Inr value, s)
      | None \<Rightarrow>
          (let slot = race (ss_token_calls s) (ss_slot s); s1 = s\<lparr>ss_slot := slot\<rparr> in
           case reusable now slot of
             Some value \<Rightarrow> (Inr value, s1)
           | None \<Rightarrow>
               (let s2 = s1\<lparr>ss_token_calls := Suc (ss_token_calls s1)\<rparr> in
                case cd_token cloud (ss_token_calls s1) of
                  TokenUnreachable e \<Rightarrow> (Inl (Internal (lit ''reaching the instance metadata server: '' @ e)), s2)
                | TokenRefused e \<Rightarrow> (Inl (Internal (lit ''the metadata server refused a token: '' @ e)), s2)
                | TokenUnreadable e \<Rightarrow> (Inl (Internal (lit ''parsing a metadata token response: '' @ e)), s2)
                | TokenFetched value expires_in \<Rightarrow>
                    (Inr value, s2\<lparr>ss_slot := Some \<lparr>tk_value = value, tk_expires_at = now + secs expires_in\<rparr>\<rparr>))))"

definition exchange :: "cloud \<Rightarrow> cloud_request \<Rightarrow> store_state \<Rightarrow> cloud_answer \<times> store_state" where
  "exchange cloud req s =
     (let answer = cd_send cloud (length (ss_exchanges s)) req in
      (answer, s\<lparr>ss_exchanges := ss_exchanges s @ [(req, answer)]\<rparr>))"

definition upload_url :: "ustr \<Rightarrow> ustr \<Rightarrow> ustr" where
  "upload_url name key =
     lit ''https://storage.googleapis.com/upload/storage/v1/b/'' @ name @ lit ''/o?uploadType=media&name='' @ urlencode key"

definition object_url :: "ustr \<Rightarrow> ustr \<Rightarrow> ustr" where
  "object_url name key = lit ''https://storage.googleapis.com/storage/v1/b/'' @ name @ lit ''/o/'' @ urlencode key"

type_synonym race = "nat \<Rightarrow> cached_token option \<Rightarrow> cached_token option"

definition bucket_put ::
  "cloud \<Rightarrow> race \<Rightarrow> ustr \<Rightarrow> ustr \<Rightarrow> bytes \<Rightarrow> time \<Rightarrow> store_state \<Rightarrow> ustr res \<times> store_state" where
  "bucket_put cloud race name key bytes now s =
     (case access_token cloud race now s of
        (Inl e, s1) \<Rightarrow> (Inl e, s1)
      | (Inr token, s1) \<Rightarrow>
          (case exchange cloud \<lparr>cq_delete = False, cq_url = upload_url name key, cq_bearer = token, cq_body = bytes\<rparr> s1 of
             (CloudUnreachable e, s2) \<Rightarrow> (Inl (Internal (lit ''uploading to GCS: '' @ e)), s2)
           | (CloudAnswer code status body, s2) \<Rightarrow>
               if is_success code then (Inr (bucket_url_for name key), s2)
               else (Inl (Internal (lit ''GCS refused an upload: '' @ status @ lit '' '' @ body)), s2)))"

definition bucket_delete ::
  "cloud \<Rightarrow> race \<Rightarrow> ustr \<Rightarrow> ustr \<Rightarrow> time \<Rightarrow> store_state \<Rightarrow> unit res \<times> store_state" where
  "bucket_delete cloud race name key now s =
     (case access_token cloud race now s of
        (Inl e, s1) \<Rightarrow> (Inl e, s1)
      | (Inr token, s1) \<Rightarrow>
          (case exchange cloud \<lparr>cq_delete = True, cq_url = object_url name key, cq_bearer = token, cq_body = []\<rparr> s1 of
             (CloudUnreachable e, s2) \<Rightarrow> (Inl (Internal (lit ''deleting from GCS: '' @ e)), s2)
           | (CloudAnswer code status body, s2) \<Rightarrow>
               if is_success code \<or> code = 404 then (Inr (), s2)
               else (Inl (Internal (lit ''GCS refused a delete: '' @ status @ lit '' '' @ body)), s2)))"

subsection \<open>The store (\<open>lib.rs\<close>)\<close>

datatype store = Gcs ustr | MemoryStore

definition memory_url_for :: "ustr \<Rightarrow> ustr" where
  "memory_url_for key = lit ''memory:///'' @ key"

definition store_put ::
  "cloud \<Rightarrow> race \<Rightarrow> store \<Rightarrow> ustr \<Rightarrow> normalised \<Rightarrow> time \<Rightarrow> store_state \<Rightarrow> ustr res \<times> store_state" where
  "store_put cloud race st key img now s =
     (case st of
        Gcs name \<Rightarrow> bucket_put cloud race name key (nm_bytes img) now s
      | MemoryStore \<Rightarrow> (Inr (memory_url_for key), s\<lparr>ss_objects := (ss_objects s)(key \<mapsto> nm_bytes img)\<rparr>))"

definition store_delete :: "cloud \<Rightarrow> race \<Rightarrow> store \<Rightarrow> ustr \<Rightarrow> time \<Rightarrow> store_state \<Rightarrow> unit res \<times> store_state" where
  "store_delete cloud race st key now s =
     (case st of
        Gcs name \<Rightarrow> bucket_delete cloud race name key now s
      | MemoryStore \<Rightarrow> (Inr (), s\<lparr>ss_objects := (ss_objects s)(key := None)\<rparr>))"

definition url_for :: "store \<Rightarrow> ustr \<Rightarrow> ustr" where
  "url_for st key = (case st of Gcs name \<Rightarrow> bucket_url_for name key | MemoryStore \<Rightarrow> memory_url_for key)"

definition is_durable :: "store \<Rightarrow> bool" where
  "is_durable st = (case st of Gcs _ \<Rightarrow> True | MemoryStore \<Rightarrow> False)"

definition store_describe :: "store \<Rightarrow> ustr" where
  "store_describe st = (case st of Gcs name \<Rightarrow> lit ''gcs://'' @ name | MemoryStore \<Rightarrow> lit ''in-memory (NOT durable)'')"

definition photo_key :: "lib \<Rightarrow> uuid \<Rightarrow> uuid \<Rightarrow> ustr" where
  "photo_key L job_id photo_id =
     lit ''jobs/'' @ uuid_to_string L job_id @ lit ''/'' @ uuid_to_string L photo_id @ lit ''.jpg''"

definition contractor_photo_key :: "lib \<Rightarrow> uuid \<Rightarrow> uuid \<Rightarrow> ustr" where
  "contractor_photo_key L contractor_id photo_id =
     lit ''contractors/'' @ uuid_to_string L contractor_id @ lit ''/'' @ uuid_to_string L photo_id @ lit ''.jpg''"

subsection \<open>Services with an object store\<close>

type_synonym 'a sm = "store_state \<Rightarrow> world \<Rightarrow> ('a res \<times> store_state) \<times> world"

text \<open>Where the objects are: the store that was configured, with the services it talks to.\<close>

record storage =
  sg_store :: store
  sg_cloud :: cloud
  sg_race :: race

definition on_db :: "'a m \<Rightarrow> 'a sm" where
  "on_db f s w = (case f w of (r, w') \<Rightarrow> ((r, s), w'))"

definition on_store :: "(time \<Rightarrow> store_state \<Rightarrow> 'a res \<times> store_state) \<Rightarrow> 'a sm" where
  "on_store f s w = (f (w_clock w) s, w)"

definition sbind :: "'a sm \<Rightarrow> ('a \<Rightarrow> 'b sm) \<Rightarrow> 'b sm" where
  "sbind f g s w = (case f s w of ((Inl e, s'), w') \<Rightarrow> ((Inl e, s'), w') | ((Inr x, s'), w') \<Rightarrow> g x s' w')"

text \<open>\<open>let _ = store.delete(...)\<close>: the outcome is ignored.\<close>

definition attempt :: "'a sm \<Rightarrow> unit sm" where
  "attempt f s w = (case f s w of ((_, s'), w') \<Rightarrow> ((Inr (), s'), w'))"

definition put_object :: "storage \<Rightarrow> ustr \<Rightarrow> normalised \<Rightarrow> ustr sm" where
  "put_object G key img = on_store (store_put (sg_cloud G) (sg_race G) (sg_store G) key img)"

definition delete_object :: "storage \<Rightarrow> ustr \<Rightarrow> unit sm" where
  "delete_object G key = on_store (store_delete (sg_cloud G) (sg_race G) (sg_store G) key)"

text \<open>Other requests, which also use the object store.\<close>

type_synonym senv = "nat \<Rightarrow> store_state \<Rightarrow> world \<Rightarrow> store_state \<times> world"

definition after_all :: "senv \<Rightarrow> nat \<Rightarrow> 'a sm \<Rightarrow> 'a sm" where
  "after_all env k f s w = (case env k s w of (s', w') \<Rightarrow> f s' w')"

definition alone :: senv where
  "alone k s w = (s, w)"

lemma after_all_alone [simp]: "after_all alone k f = f"
  by (simp add: after_all_def alone_def fun_eq_iff)

lemma sbind_Inr_iff:
  "sbind f g s w = ((Inr y, s''), w'') \<longleftrightarrow> (\<exists>x s' w'. f s w = ((Inr x, s'), w') \<and> g x s' w' = ((Inr y, s''), w''))"
  by (auto simp: sbind_def split: prod.splits sum.splits)

lemma sbind_Inl_iff:
  "sbind f g s w = ((Inl e, s''), w'') \<longleftrightarrow> f s w = ((Inl e, s''), w'') \<or>
     (\<exists>x s' w'. f s w = ((Inr x, s'), w') \<and> g x s' w' = ((Inl e, s''), w''))"
  by (auto simp: sbind_def split: prod.splits sum.splits)

lemma on_db_iff: "on_db f s w = ((r, s'), w') \<longleftrightarrow> f w = (r, w') \<and> s' = s"
  by (auto simp: on_db_def split: prod.splits)

lemma on_store_iff: "on_store f s w = ((r, s'), w') \<longleftrightarrow> f (w_clock w) s = (r, s') \<and> w' = w"
  by (auto simp: on_store_def)

lemma attempt_iff: "attempt f s w = ((r, s'), w') \<longleftrightarrow> r = Inr () \<and> (\<exists>q. f s w = ((q, s'), w'))"
  by (auto simp: attempt_def split: prod.splits)

lemmas sm_iffs = sbind_Inr_iff sbind_Inl_iff on_db_iff on_store_iff attempt_iff

end
