(* ===== verification/Location.thy ===== *)
theory Location
  imports Repo_Contractors
begin

text \<open>
  \<open>cm-domain/src/location.rs\<close>: where a listing appears on the map. \<open>republish\<close> is the one function that decides; \<open>published\<close>
  is the rule of the module's header as a function of the stored row, and \<open>republish_run\<close> says that the code applies it.
\<close>

definition centroid_of :: "location_inputs \<Rightarrow> region_row option m" where
  "centroid_of inputs =
     (case li_postal_code inputs of Some code \<Rightarrow> reference_find_zcta code | None \<Rightarrow> ret None)"

definition republish :: "uuid \<Rightarrow> point_source m" where
  "republish contractor_id =
     bind (contractors_location_inputs contractor_id) (\<lambda>found.
     case found of
       None \<Rightarrow> ret NoPoint
     | Some inputs \<Rightarrow>
         (case (if li_address_visibility inputs = Public then li_precise_point inputs else None) of
            Some (lon, lat) \<Rightarrow>
              seq (contractors_set_location contractor_id (Some (lon, lat)) (Some (lon, lat)) Exact) (ret Exact)
          | None \<Rightarrow>
              bind (centroid_of inputs) (\<lambda>centroid.
              case centroid of
                Some region \<Rightarrow>
                  seq (contractors_set_location contractor_id (li_precise_point inputs) (Some (rg_centroid region)) ZipCentroid)
                    (ret ZipCentroid)
              | None \<Rightarrow>
                  seq (contractors_set_location contractor_id (li_precise_point inputs) None NoPoint) (ret NoPoint))))"

definition apply_geocode :: "uuid \<Rightarrow> f64 \<Rightarrow> f64 \<Rightarrow> point_source m" where
  "apply_geocode contractor_id lat lon =
     bind (contractors_location_inputs contractor_id) (\<lambda>found.
     if found = None then ret NoPoint
     else seq (contractors_set_precise_point contractor_id lon lat) (republish contractor_id))"

definition reapply :: "uuid \<Rightarrow> unit m" where
  "reapply contractor_id = seq (republish contractor_id) (ret ())"

subsection \<open>The rule\<close>

definition zip_region :: "db \<Rightarrow> contractor_row \<Rightarrow> region_row option" where
  "zip_region d r =
     (case ct_postal_code r of None \<Rightarrow> None | Some code \<Rightarrow> find (\<lambda>z. rg_code z = code) (zctas d))"

definition published :: "db \<Rightarrow> contractor_row \<Rightarrow> point option \<times> point_source" where
  "published d r =
     (if ct_address_visibility r = lit ''public'' \<and> ct_precise_point r \<noteq> None then (ct_precise_point r, Exact)
      else case zip_region d r of None \<Rightarrow> (None, NoPoint) | Some z \<Rightarrow> (Some (rg_centroid z), ZipCentroid))"

definition republished :: "db \<Rightarrow> contractor_row \<Rightarrow> contractor_row" where
  "republished d r = located_row (ct_precise_point r) (fst (published d r)) (snd (published d r)) r"

text \<open>The map shows of a listing exactly what the rule allows.\<close>

definition pin_ok :: "db \<Rightarrow> contractor_row \<Rightarrow> bool" where
  "pin_ok d r \<longleftrightarrow> (ct_public_point r, ct_public_point_source r) = published d r"

definition pins_ok :: "db \<Rightarrow> bool" where
  "pins_ok d \<longleftrightarrow> distinct (map ct_id (contractors d)) \<and> list_all (pin_ok d) (contractors d)"

lemma zip_region_cong: "zctas d' = zctas d \<Longrightarrow> ct_postal_code r' = ct_postal_code r \<Longrightarrow> zip_region d' r' = zip_region d r"
  by (simp only: zip_region_def)

lemma published_cong:
  assumes "zctas d' = zctas d" and "ct_address_visibility r' = ct_address_visibility r"
    and "ct_precise_point r' = ct_precise_point r" and "ct_postal_code r' = ct_postal_code r"
  shows "published d' r' = published d r"
  by (simp only: published_def zip_region_cong [OF assms(1,4)] assms(2,3))

lemma published_located [simp]: "published d (located_row (ct_precise_point r) q s r) = published d r"
  by (rule published_cong) (simp_all add: located_row_def)

lemma republished_sel [simp]:
  "ct_id (republished d r) = ct_id r" "ct_precise_point (republished d r) = ct_precise_point r"
  "ct_address_visibility (republished d r) = ct_address_visibility r"
  by (simp_all add: republished_def located_row_def)

lemma republished_pin: "pin_ok d (republished d r)"
  using published_located [of d r "fst (published d r)" "snd (published d r)"]
  by (simp add: pin_ok_def republished_def del: published_located) (simp add: located_row_def)

lemma republished_fixed: "pin_ok d r \<Longrightarrow> republished d r = r"
  by (cases "published d r") (simp add: pin_ok_def republished_def located_row_def)

lemma published_zctas: "zctas d' = zctas d \<Longrightarrow> published d' = published d"
  by (rule ext, rule published_cong) simp_all

lemma pin_ok_cong:
  "zctas d' = zctas d \<Longrightarrow> ct_address_visibility r' = ct_address_visibility r \<Longrightarrow> ct_precise_point r' = ct_precise_point r \<Longrightarrow>
   ct_postal_code r' = ct_postal_code r \<Longrightarrow> ct_public_point r' = ct_public_point r \<Longrightarrow>
   ct_public_point_source r' = ct_public_point_source r \<Longrightarrow> pin_ok d' r' = pin_ok d r"
  by (simp only: pin_ok_def published_cong [of d' d r' r])

lemma pins_ok_frame:
  assumes "contractors d = contractors d'" and "zctas d = zctas d'"
  shows "pins_ok d = pins_ok d'"
  using published_zctas [of d d'] assms by (simp add: pins_ok_def pin_ok_def list_all_iff)

subsection \<open>What the statements do\<close>

lemma contractor_sql_InrD:
  assumes "contractor_sql i f w = (Inr x, w')"
  shows "w_clock w' = w_clock w \<and>
    (find_contractor (w_db w) i = None \<and> w_db w' = w_db w \<or>
     (\<exists>r. find_contractor (w_db w) i = Some r \<and> contractor_check (f (w_clock w) r) \<and>
        \<not> contractor_taken (w_db w) i (f (w_clock w) r) \<and> w_db w' = set_contractor i (f (w_clock w)) (w_db w)))"
  using assms by (auto simp: contractor_sql_def sql_Inr_iff update_contractor_def split: option.splits if_splits sum.splits)

lemma find_set_contractor:
  assumes "\<And>r. ct_id (f r) = ct_id r"
  shows "find_contractor (set_contractor i f d) j = map_option (\<lambda>r. if j = i then f r else r) (find_contractor d j)"
proof -
  have "find (\<lambda>r. ct_id r = j) (map (\<lambda>r. if ct_id r = i then f r else r) xs) =
      map_option (\<lambda>r. if j = i then f r else r) (find (\<lambda>r. ct_id r = j) xs)" for xs
    by (induction xs) (auto simp: assms)
  then show ?thesis by (simp add: find_contractor_def set_contractor_def)
qed

lemma contractors_set_contractor_unique:
  assumes "distinct (map ct_id (contractors d))" and "find_contractor d i = Some r"
    and "\<And>x. x = r \<Longrightarrow> f x = g x"
  shows "set_contractor i f d = set_contractor i g d"
proof -
  have r: "r \<in> set (contractors d)" "ct_id r = i" using assms(2) by (auto simp: find_contractor_def dest: find_Some_in)
  have "f x = g x" if "x \<in> set (contractors d)" "ct_id x = i" for x
    using distinct_map_eqD [OF assms(1) that(1) r(1)] that r assms(3) by simp
  then show ?thesis by (simp add: set_contractor_def)
qed

lemma set_contractor_ids:
  "(\<And>r. ct_id (f r) = ct_id r) \<Longrightarrow> map ct_id (contractors (set_contractor i f d)) = map ct_id (contractors d)"
  by (simp add: set_contractor_def)

lemma zctas_set_contractor [simp]: "zctas (set_contractor i f d) = zctas d"
  by (simp add: set_contractor_def)

lemma set_contractor_twice:
  "(\<And>r. ct_id (f r) = ct_id r) \<Longrightarrow>
   set_contractor i g (set_contractor i f d) = set_contractor i (\<lambda>r. g (f r)) d"
  by (simp add: set_contractor_def comp_def if_distrib cong: if_cong)

lemma location_inputs_found:
  assumes "contractors_location_inputs i w = (Inr found, w')"
  shows "w_db w' = w_db w \<and> w_clock w' = w_clock w \<and>
    (case find_contractor (w_db w) i of
       None \<Rightarrow> found = None
     | Some r \<Rightarrow> \<exists>v. address_visibility_str v = ct_address_visibility r \<and>
         found = Some \<lparr>li_id = ct_id r, li_address_visibility = v, li_postal_code = ct_postal_code r,
           li_is_claimed = (ct_claimed_by r \<noteq> None), li_precise_point = ct_precise_point r\<rparr>)"
  using assms
  by (auto simp: contractors_location_inputs_def run_iffs location_inputs_of_def address_visibility_parse_def
      split: option.splits if_splits)

lemma located_row_id [simp]: "ct_id (located_row p q s r) = ct_id r"
  by (simp add: located_row_def)

lemma published_public: "ct_address_visibility r = address_visibility_str v \<Longrightarrow>
   ct_address_visibility r = lit ''public'' \<longleftrightarrow> v = Public"
  using address_visibility_str_eq [of v Public] by simp

text \<open>\<open>republish\<close> rewrites the row it is asked about as the rule says and answers with the rule's source.\<close>

lemma republish_run:
  assumes run: "republish i w = (Inr s, w')" and dist: "distinct (map ct_id (contractors (w_db w)))"
  shows "w_clock w' = w_clock w \<and>
    (case find_contractor (w_db w) i of
       None \<Rightarrow> s = NoPoint \<and> w_db w' = w_db w
     | Some r \<Rightarrow> s = snd (published (w_db w) r) \<and> w_db w' = set_contractor i (republished (w_db w)) (w_db w))"
proof -
  obtain found w1 where li: "contractors_location_inputs i w = (Inr found, w1)"
    using run by (auto simp: republish_def bind_Inr_iff)
  note inputs = location_inputs_found [OF li]
  show ?thesis
  proof (cases "find_contractor (w_db w) i")
    case None
    with run li inputs show ?thesis by (auto simp: republish_def bind_def ret_def)
  next
    case (Some r)
    have "\<exists>v. address_visibility_str v = ct_address_visibility r \<and>
        found = Some \<lparr>li_id = ct_id r, li_address_visibility = v, li_postal_code = ct_postal_code r,
           li_is_claimed = (ct_claimed_by r \<noteq> None), li_precise_point = ct_precise_point r\<rparr>"
      using inputs unfolding Some option.case by (elim conjE)
    then obtain v where v: "address_visibility_str v = ct_address_visibility r"
      and found: "found = Some \<lparr>li_id = ct_id r, li_address_visibility = v, li_postal_code = ct_postal_code r,
           li_is_claimed = (ct_claimed_by r \<noteq> None), li_precise_point = ct_precise_point r\<rparr>"
      by (elim exE conjE)
    have rule: "published (w_db w) r = (q, t) \<Longrightarrow> set_contractor i (located_row (ct_precise_point r) q t) (w_db w) =
        set_contractor i (republished (w_db w)) (w_db w)" for q t
      by (rule contractors_set_contractor_unique [OF dist Some]) (simp add: republished_def)
    note pub = published_public [OF v [symmetric]]
    show ?thesis
    proof (cases "v = Public \<and> ct_precise_point r \<noteq> None")
      case True
      with pub have "published (w_db w) r = (ct_precise_point r, Exact)" by (simp add: published_def)
      with True rule Some run li inputs found show ?thesis
        by (auto simp: republish_def bind_Inr_iff seq_Inr_iff contractors_set_location_def dest!: contractor_sql_InrD)
    next
      case False
      with pub have p: "published (w_db w) r = (case zip_region (w_db w) r of None \<Rightarrow> (None, NoPoint)
          | Some z \<Rightarrow> (Some (rg_centroid z), ZipCentroid))" by (auto simp: published_def)
      have gate: "(if v = Public then ct_precise_point r else None) = None" using False by (cases "ct_precise_point r") auto
      obtain centroid w2 where c: "centroid_of (the found) w1 = (Inr centroid, w2)"
        and rest: "(case centroid of
                Some region \<Rightarrow> seq (contractors_set_location i (ct_precise_point r) (Some (rg_centroid region)) ZipCentroid)
                    (ret ZipCentroid)
              | None \<Rightarrow> seq (contractors_set_location i (ct_precise_point r) None NoPoint) (ret NoPoint)) w2 = (Inr s, w')"
        using run li gate by (auto simp: found republish_def bind_Inr_iff cong: option.case_cong if_cong)
      have "centroid = zip_region (w_db w) r" "w_db w2 = w_db w" "w_clock w2 = w_clock w"
        using c inputs by (auto simp: found centroid_of_def zip_region_def reference_find_zcta_def query_Inr_iff split: option.splits)
      with rest p rule Some show ?thesis
        by (auto simp: seq_Inr_iff contractors_set_location_def split: option.splits dest!: contractor_sql_InrD)
    qed
  qed
qed

lemma published_set_contractor [simp]: "published (set_contractor i f d) = published d"
  by (rule published_zctas) simp

lemma pins_ok_republished:
  assumes "distinct (map ct_id (contractors d))" and "\<And>r. ct_id (f r) = ct_id r"
    and "\<And>r. r \<in> set (contractors d) \<Longrightarrow> ct_id r \<noteq> i \<Longrightarrow> pin_ok d r"
  shows "pins_ok (set_contractor i (\<lambda>r. republished d (f r)) d)"
proof -
  have "map ct_id (contractors (set_contractor i (\<lambda>r. republished d (f r)) d)) = map ct_id (contractors d)"
    by (rule set_contractor_ids) (simp add: assms(2))
  moreover have "pin_ok (set_contractor i (\<lambda>r. republished d (f r)) d) = pin_ok d"
    by (rule ext) (simp add: pin_ok_def)
  moreover have "pin_ok d x" if x: "x \<in> set (contractors (set_contractor i (\<lambda>r. republished d (f r)) d))" for x
    using x assms(3) republished_pin by (auto simp: set_contractor_def)
  ultimately show ?thesis using assms(1) by (simp add: pins_ok_def list_all_iff)
qed

text \<open>A geocode result is stored and published in one go.\<close>

definition geocoded :: "f64 \<Rightarrow> f64 \<Rightarrow> contractor_row \<Rightarrow> contractor_row" where
  "geocoded lat lon r = r\<lparr>ct_precise_point := Some (lon, lat)\<rparr>"

lemma apply_geocode_run:
  assumes run: "apply_geocode i lat lon w = (Inr s, w')" and dist: "distinct (map ct_id (contractors (w_db w)))"
  shows "w_clock w' = w_clock w \<and>
    (case find_contractor (w_db w) i of
       None \<Rightarrow> s = NoPoint \<and> w_db w' = w_db w
     | Some r \<Rightarrow> s = snd (published (w_db w) (geocoded lat lon r)) \<and>
         w_db w' = set_contractor i (\<lambda>r. republished (w_db w) (geocoded lat lon r)) (w_db w))"
proof -
  obtain found w1 where li: "contractors_location_inputs i w = (Inr found, w1)"
    using run by (auto simp: apply_geocode_def bind_Inr_iff)
  note inputs = location_inputs_found [OF li]
  show ?thesis
  proof (cases "find_contractor (w_db w) i")
    case None
    with run li inputs show ?thesis by (auto simp: apply_geocode_def bind_def ret_def)
  next
    case (Some r)
    with run li inputs obtain x w2 where sp: "contractors_set_precise_point i lon lat w1 = (Inr x, w2)"
      and rp: "republish i w2 = (Inr s, w')"
      by (auto simp: apply_geocode_def bind_Inr_iff seq_Inr_iff)
    have db2: "w_db w2 = set_contractor i (geocoded lat lon) (w_db w)" "w_clock w2 = w_clock w"
      using contractor_sql_InrD [OF sp [unfolded contractors_set_precise_point_def]] Some inputs
      by (auto simp: geocoded_def [abs_def])
    have gid: "ct_id (geocoded lat lon r) = ct_id r" for r by (simp add: geocoded_def)
    have "distinct (map ct_id (contractors (w_db w2)))" using dist by (simp add: db2 set_contractor_ids gid)
    from republish_run [OF rp this] Some show ?thesis
      by (simp add: db2 find_set_contractor gid set_contractor_twice)
        (simp add: republished_def [abs_def])
  qed
qed

end
