(* ===== verification/Listings.thy ===== *)
theory Listings
  imports Storage Repo_Photos Repo_Geocode Location Messaging
begin

text \<open>
  What a claimant does with a listing: \<open>cm-domain/src/contractors.rs\<close> (the profile photo, the work photos, moving the pin after
  an edit) and the profile edit of \<open>cm-api/src/handlers/contractors.rs\<close>, up to the projection it answers with. The photo services run their
  statements one by one on a pooled connection, so other requests may run before each of them.
\<close>

definition contractor_photo_policy :: policy where
  "contractor_photo_policy = mk_policy ''contractor_photo:user'' 20 (days 1)"

definition work_photo_policy :: policy where
  "work_photo_policy = mk_policy ''contractor_work_photo:user'' 60 (days 1)"

definition photo_limited :: "lib \<Rightarrow> ustr \<Rightarrow> senv \<Rightarrow> policy \<Rightarrow> uuid \<Rightarrow> unit sm" where
  "photo_limited L pepper env p uid =
     sbind (on_db utc_now) (\<lambda>now. after_all env 0 (on_db (enforce L pepper p (uuid_to_string L uid) now)))"

definition owned_listing :: "uuid \<Rightarrow> uuid \<Rightarrow> unit m" where
  "owned_listing user_id contractor_id =
     bind (contractors_claimed_by user_id) (\<lambda>owned.
     if owned = Some contractor_id then ret () else throw NotFound)"

record profile_photo =
  pp_url :: ustr
  pp_width :: nat
  pp_height :: nat

definition set_photo ::
  "lib \<Rightarrow> ustr \<Rightarrow> ('d, 'p) codec \<Rightarrow> storage \<Rightarrow> senv \<Rightarrow> uuid \<Rightarrow> uuid \<Rightarrow> bytes \<Rightarrow> profile_photo sm" where
  "set_photo L pepper C G env user_id contractor_id bytes =
     sbind (photo_limited L pepper env contractor_photo_policy user_id) (\<lambda>_.
     sbind (after_all env 1 (on_db (seq acquire (owned_listing user_id contractor_id)))) (\<lambda>_.
     sbind (on_db (of_res (normalise C bytes))) (\<lambda>img.
     sbind (on_db new_id) (\<lambda>photo_id.
     let key = contractor_photo_key L contractor_id photo_id in
     sbind (after_all env 2 (put_object G key img)) (\<lambda>url.
     sbind (after_all env 3 (on_db (contractors_set_photo contractor_id key (nm_width img) (nm_height img)))) (\<lambda>displaced.
     sbind (case displaced of None \<Rightarrow> on_db (ret ()) | Some old \<Rightarrow> attempt (after_all env 4 (delete_object G old))) (\<lambda>_.
     on_db (ret \<lparr>pp_url = url, pp_width = nm_width img, pp_height = nm_height img\<rparr>))))))))"

definition remove_photo :: "storage \<Rightarrow> senv \<Rightarrow> uuid \<Rightarrow> uuid \<Rightarrow> unit sm" where
  "remove_photo G env user_id contractor_id =
     sbind (after_all env 0 (on_db (seq acquire (owned_listing user_id contractor_id)))) (\<lambda>_.
     sbind (after_all env 1 (on_db (contractors_clear_photo contractor_id))) (\<lambda>cleared.
     case cleared of
       None \<Rightarrow> on_db (ret ())
     | Some key \<Rightarrow> attempt (after_all env 2 (delete_object G key))))"

record photo =
  po_id :: uuid
  po_url :: ustr
  po_width :: int
  po_height :: int

definition add_work_photo ::
  "lib \<Rightarrow> ustr \<Rightarrow> ('d, 'p) codec \<Rightarrow> storage \<Rightarrow> senv \<Rightarrow> uuid \<Rightarrow> uuid \<Rightarrow> bytes \<Rightarrow> ustr option \<Rightarrow> photo sm" where
  "add_work_photo L pepper C G env user_id contractor_id bytes request_id =
     sbind (photo_limited L pepper env work_photo_policy user_id) (\<lambda>_.
     sbind (after_all env 1 (on_db (seq acquire (owned_listing user_id contractor_id)))) (\<lambda>_.
     sbind (after_all env 2 (on_db (contractor_photos_count contractor_id))) (\<lambda>existing.
     if max_per_contractor \<le> existing then
       on_db (throw (Invalid (lit ''A listing can have up to '' @ show_int max_per_contractor @ lit '' work photos.'')))
     else
       sbind (on_db (of_res (normalise C bytes))) (\<lambda>img.
       sbind (on_db new_id) (\<lambda>i.
       let key = contractor_photo_key L contractor_id i in
       sbind (after_all env 3 (put_object G key img)) (\<lambda>url.
       sbind (after_all env 4 (on_db (contractor_photos_insert \<lparr>np_id = i, np_owner = contractor_id, np_storage_key = key,
           np_byte_size = int (length (nm_bytes img)), np_width = as_i32 (int (nm_width img)),
           np_height = as_i32 (int (nm_height img))\<rparr>))) (\<lambda>row.
       sbind (after_all env 5 (on_db (audit_record (domain_event ''contractor.work_photo_added'' ''contractor_photos'' ActorUser user_id i
           [(lit ''contractor_id'', JUuid contractor_id), (lit ''bytes'', JInt (int (length (nm_bytes img))))] request_id)))) (\<lambda>_.
       on_db (ret \<lparr>po_id = pv_id row, po_url = url, po_width = pv_width row, po_height = pv_height row\<rparr>)))))))))"

definition remove_work_photo_tx :: "uuid \<Rightarrow> uuid \<Rightarrow> uuid \<Rightarrow> ustr option \<Rightarrow> ustr m" where
  "remove_work_photo_tx user_id contractor_id photo_id request_id =
     seq (owned_listing user_id contractor_id)
     (bind (contractor_photos_delete contractor_id photo_id) (\<lambda>found.
      case found of
        None \<Rightarrow> throw NotFound
      | Some key \<Rightarrow>
          seq (audit_record (domain_event ''contractor.work_photo_removed'' ''contractor_photos'' ActorUser user_id photo_id
                 [(lit ''contractor_id'', JUuid contractor_id)] request_id))
          (ret key)))"

definition remove_work_photo :: "storage \<Rightarrow> senv \<Rightarrow> uuid \<Rightarrow> uuid \<Rightarrow> uuid \<Rightarrow> ustr option \<Rightarrow> unit sm" where
  "remove_work_photo G env user_id contractor_id photo_id request_id =
     sbind (after_all env 0 (on_db (transaction (remove_work_photo_tx user_id contractor_id photo_id request_id)))) (\<lambda>key.
     attempt (after_all env 1 (delete_object G key)))"

subsection \<open>Moving the pin after an edit\<close>

definition address_hash :: "lib \<Rightarrow> ustr \<Rightarrow> bytes" where
  "address_hash L address = sha256 L (as_bytes (to_lowercase L (trim address)))"

definition relocate_after_address_change :: "lib \<Rightarrow> uuid \<Rightarrow> unit m" where
  "relocate_after_address_change L contractor_id =
     bind (contractors_geocodable_address contractor_id) (\<lambda>found.
     case found of
       None \<Rightarrow> ret ()
     | Some address \<Rightarrow> seq (geocode_enqueue contractor_id (address_hash L address)) (ret ()))"

subsection \<open>The profile edit\<close>

record update_profile_request =
  up_bio :: "ustr option"
  up_website_url :: "ustr option"
  up_public_phone :: "ustr option"
  up_accepts_dm :: "bool option"
  up_address_visibility :: "ustr option"
  up_owner_address :: "owner_address option option"
  up_google_review_url :: "ustr option option"
  up_yelp_url :: "ustr option option"
  up_verified :: bool

definition edit_of :: "'a option option \<Rightarrow> 'a edit" where
  "edit_of field = (case field of None \<Rightarrow> Unchanged | Some None \<Rightarrow> Cleared | Some (Some v) \<Rightarrow> Set v)"

text \<open>\<open>rest.split('/').next()\<close>.\<close>

definition link_host :: "ustr \<Rightarrow> ustr" where
  "link_host lowered =
     (case split_once_str (lit ''//'') lowered of None \<Rightarrow> [] | Some (_, rest) \<Rightarrow> hd (split_on 47 rest))"

definition clean_link :: "ustr \<Rightarrow> ustr \<Rightarrow> ustr res" where
  "clean_link value field =
     (let trimmed = trim value in
      if trimmed = [] then Inl (Invalid (field @ lit '' cannot be blank.''))
      else
        (let lowered = to_ascii_lowercase trimmed in
         if \<not> (starts_with (lit ''https://'') lowered \<or> starts_with (lit ''http://'') lowered) then
           Inl (Invalid (field @ lit '' must start with https:// or http://''))
         else
           (let host = link_host lowered in
            if host = [] \<or> \<not> list_ex (\<lambda>c. c = 46) host \<or> list_ex is_whitespace host then
              Inl (Invalid (field @ lit '' is not a valid link.''))
            else if 500 < length trimmed then Inl (Invalid (field @ lit '' is too long.''))
            else Inr trimmed)))"

definition clean_address_part :: "ustr \<Rightarrow> ustr \<Rightarrow> ustr res" where
  "clean_address_part value field =
     (let trimmed = trim value in
      if trimmed = [] then Inl (Invalid (field @ lit '' cannot be blank.''))
      else if 200 < length trimmed then Inl (Invalid (field @ lit '' is too long.''))
      else Inr trimmed)"

definition read_visibility :: "ustr option \<Rightarrow> address_visibility option res" where
  "read_visibility v =
     (case v of
        None \<Rightarrow> Inr None
      | Some s \<Rightarrow>
          if s = lit ''protected'' then Inr (Some Protected)
          else if s = lit ''public'' then Inr (Some Public)
          else Inl (Invalid (lit ''unknown address_visibility '' @ [34] @ s @ [34] @ lit ''; expected protected or public'')))"

definition clean_owner_address :: "owner_address \<Rightarrow> owner_address res" where
  "clean_owner_address a =
     (case clean_address_part (oa_line1 a) (lit ''Street address'') of Inl e \<Rightarrow> Inl e | Inr line1 \<Rightarrow>
      case clean_address_part (oa_city a) (lit ''City'') of Inl e \<Rightarrow> Inl e | Inr city \<Rightarrow>
      case clean_address_part (oa_state a) (lit ''State'') of Inl e \<Rightarrow> Inl e | Inr state \<Rightarrow>
      case clean_address_part (oa_postal_code a) (lit ''ZIP code'') of Inl e \<Rightarrow> Inl e | Inr code \<Rightarrow>
      Inr \<lparr>oa_line1 = line1, oa_city = city, oa_state = state, oa_postal_code = code\<rparr>)"

definition map_edit :: "('a \<Rightarrow> 'b res) \<Rightarrow> 'a edit \<Rightarrow> 'b edit res" where
  "map_edit f e =
     (case e of
        Unchanged \<Rightarrow> Inr Unchanged
      | Cleared \<Rightarrow> Inr Cleared
      | Set v \<Rightarrow> (case f v of Inl err \<Rightarrow> Inl err | Inr x \<Rightarrow> Inr (Set x)))"

definition read_update :: "update_profile_request \<Rightarrow> profile_update res" where
  "read_update body =
     (case read_visibility (up_address_visibility body) of Inl e \<Rightarrow> Inl e | Inr visibility \<Rightarrow>
      case map_edit clean_owner_address (edit_of (up_owner_address body)) of Inl e \<Rightarrow> Inl e | Inr address \<Rightarrow>
      case map_edit (\<lambda>v. clean_link v (lit ''Google review link'')) (edit_of (up_google_review_url body)) of
        Inl e \<Rightarrow> Inl e | Inr google \<Rightarrow>
      case map_edit (\<lambda>v. clean_link v (lit ''Yelp link'')) (edit_of (up_yelp_url body)) of
        Inl e \<Rightarrow> Inl e | Inr yelp \<Rightarrow>
      Inr \<lparr>pu_bio = up_bio body, pu_website_url = up_website_url body, pu_public_phone = up_public_phone body,
        pu_accepts_dm = up_accepts_dm body, pu_address_visibility = visibility, pu_owner_address = address,
        pu_google_review_url = google, pu_yelp_url = yelp\<rparr>)"

definition update_profile_tx :: "lib \<Rightarrow> uuid \<Rightarrow> profile_update \<Rightarrow> unit m" where
  "update_profile_tx L contractor_id u =
     seq (contractors_update_profile contractor_id u)
     (seq (if pu_address_visibility u \<noteq> None then reapply contractor_id else ret ())
      (if pu_owner_address u \<noteq> Unchanged then relocate_after_address_change L contractor_id else ret ()))"

definition update_profile :: "lib \<Rightarrow> env \<Rightarrow> uuid \<Rightarrow> uuid \<Rightarrow> update_profile_request \<Rightarrow> unit m" where
  "update_profile L env caller contractor_id body =
     (if up_verified body then
        throw (Invalid ([34] @ lit ''verified'' @ [34] @ lit '' is computed from licence and claim state and cannot be set.''))
      else
        bind (after_others env 0 (seq acquire (contractors_claimed_by caller))) (\<lambda>owner.
        if owner \<noteq> Some contractor_id then throw Forbidden
        else
          bind (of_res (read_update body)) (\<lambda>u.
          after_others env 1 (transaction (update_profile_tx L contractor_id u)))))"

end
