(* ===== verification/Jobs.thy ===== *)
theory Jobs
  imports Repo_Jobs Listings
begin

text \<open>
  \<open>cm-domain/src/jobs.rs\<close> without the query parser: posting a job, closing, cancelling and reopening it, and its photos; with
  what the handlers of \<open>cm-api/src/handlers/jobs.rs\<close> check before they call. A post commits the row and its audit entry together.
\<close>

definition job_post_policy :: policy where
  "job_post_policy = mk_policy ''job_post:user'' 10 (days 1)"

definition job_photo_policy :: policy where
  "job_photo_policy = mk_policy ''job_photo:user'' 100 (days 1)"

definition min_description :: nat where "min_description = 50"

record post_job_input =
  pi_title :: ustr
  pi_description :: ustr
  pi_trade_slug :: "ustr option"
  pi_build_type :: build_type
  pi_job_size :: ustr
  pi_postal_code :: ustr
  pi_budget :: "(int \<times> int) option"
  pi_timeline :: job_timeline

text \<open>The checks before the transaction, in order; the result is the input with its texts trimmed.\<close>

definition check_post :: "post_job_input \<Rightarrow> post_job_input res" where
  "check_post input =
     (let title = trim (pi_title input); description = trim (pi_description input);
          described = length description; job_size = trim (pi_job_size input); postal_code = trim (pi_postal_code input) in
      if title = [] then Inl (invalid ''A title is required.'')
      else if 140 < length title then Inl (invalid ''A title must be under 140 characters.'')
      else if description = [] then Inl (invalid ''A description is required.'')
      else if described < min_description then
        Inl (Invalid (lit ''Please describe the work in at least '' @ show_nat min_description @ lit '' characters '' @ [8212] @
          lit '' you have written '' @ show_nat described @ lit ''. What needs doing, and where in the property?''))
      else if 4000 < described then Inl (invalid ''A description must be under 4000 characters.'')
      else if job_size = [] then
        Inl (Invalid (lit ''Tell us roughly how big the job is. '' @ [34] @ lit ''Not sure yet'' @ [34] @ lit '' is a fine answer.''))
      else if 200 < length job_size then
        Inl (Invalid (lit ''Keep the size to under 200 characters '' @ [8212] @ lit '' the details belong in the description.''))
      else
        (case (case pi_budget input of
                 None \<Rightarrow> None
               | Some (a, b) \<Rightarrow>
                   if a < 0 \<or> b < 0 then Some (lit ''A budget cannot be negative.'')
                   else if b < a then Some (lit ''The lower end of the budget must not exceed the upper end.'')
                   else None) of
           Some refused \<Rightarrow> Inl (Invalid refused)
         | None \<Rightarrow>
             if utf8_len postal_code \<noteq> 5 \<or> \<not> list_all is_digit postal_code then
               Inl (invalid ''Enter a valid five-digit ZIP code.'')
             else Inr (input\<lparr>pi_title := title, pi_description := description, pi_job_size := job_size,
               pi_postal_code := postal_code\<rparr>)))"

text \<open>An unknown trade is refused; none, or a blank one, is the poster's ``Other''.\<close>

definition resolve_trade :: "ustr option \<Rightarrow> uuid option m" where
  "resolve_trade slug =
     (case map_option trim slug of
        None \<Rightarrow> ret None
      | Some s \<Rightarrow>
          if s = [] then ret None
          else bind (reference_trade_ids_for_slugs [s]) (\<lambda>ids.
            case ids of
              [] \<Rightarrow> throw (Invalid (lit ''Unknown trade '' @ [34] @ s @ [34] @ lit ''.''))
            | i # _ \<Rightarrow> ret (Some i)))"

definition post_tx :: "uuid \<Rightarrow> post_job_input \<Rightarrow> ustr option \<Rightarrow> owner_job m" where
  "post_tx poster input request_id =
     bind (resolve_trade (pi_trade_slug input)) (\<lambda>trade_id.
     bind (reference_find_zcta (pi_postal_code input)) (\<lambda>region.
     bind new_id (\<lambda>i.
     seq (jobs_insert \<lparr>nj_id = i, nj_posted_by = poster, nj_title = pi_title input, nj_description = pi_description input,
            nj_trade_id = trade_id, nj_build_type = pi_build_type input, nj_job_size = pi_job_size input,
            nj_budget = pi_budget input, nj_timeline = pi_timeline input, nj_postal_code = pi_postal_code input,
            nj_region_id = map_option rg_id region, nj_centroid = map_option rg_centroid region\<rparr>)
     (seq (audit_record (domain_event ''job.posted'' ''jobs'' ActorUser poster i
             [(lit ''trade_id'', case trade_id of None \<Rightarrow> JNull | Some t \<Rightarrow> JUuid t),
              (lit ''build_type'', JText (build_type_str (pi_build_type input))),
              (lit ''postal_code'', JText (pi_postal_code input)), (lit ''located'', JBool (region \<noteq> None))] request_id))
      (bind (jobs_for_poster poster) (\<lambda>mine.
       case find (\<lambda>j. pj_id (oj_public j) = i) mine of
         None \<Rightarrow> throw (internal ''the job was inserted but could not be read back'')
       | Some j \<Rightarrow> ret j))))))"

definition post :: "lib \<Rightarrow> ustr \<Rightarrow> env \<Rightarrow> uuid \<Rightarrow> post_job_input \<Rightarrow> ustr option \<Rightarrow> owner_job m" where
  "post L pepper env poster input request_id =
     seq (limited L pepper env job_post_policy poster)
     (bind (of_res (check_post input)) (\<lambda>checked.
      after_others env 1 (transaction (post_tx poster checked request_id))))"

definition own_job :: "uuid \<Rightarrow> uuid \<Rightarrow> unit m" where
  "own_job poster job_id =
     bind (jobs_poster_of job_id) (\<lambda>owner. if owner = Some poster then ret () else throw NotFound)"

definition reopen_tx :: "uuid \<Rightarrow> uuid \<Rightarrow> ustr option \<Rightarrow> unit m" where
  "reopen_tx poster job_id request_id =
     seq (own_job poster job_id)
     (bind (jobs_reopen job_id poster) (\<lambda>reopened.
      if \<not> reopened then
        throw (Conflict (lit ''Only a closed job can be reopened. A cancelled job had its photos deleted, so it cannot be put back '' @
          [8212] @ lit '' post it again instead.''))
      else
        seq (audit_record (domain_event ''job.reopened'' ''jobs'' ActorUser poster job_id [] request_id)) (ret ())))"

definition reopen :: "env \<Rightarrow> uuid \<Rightarrow> uuid \<Rightarrow> ustr option \<Rightarrow> unit m" where
  "reopen env poster job_id request_id = after_others env 0 (transaction (reopen_tx poster job_id request_id))"

text \<open>The keys of a cancelled job's photos, read before their rows go.\<close>

definition take_down :: "posting_status \<Rightarrow> uuid \<Rightarrow> ustr list m" where
  "take_down status job_id =
     (if status = PCancelled then
        bind (job_photos_keys job_id) (\<lambda>keys. seq (job_photos_delete_all job_id) (ret keys))
      else ret [])"

definition close_tx :: "uuid \<Rightarrow> uuid \<Rightarrow> posting_status \<Rightarrow> ustr option \<Rightarrow> ustr list m" where
  "close_tx poster job_id status request_id =
     seq (own_job poster job_id)
     (bind (jobs_close job_id poster status) (\<lambda>closed.
      if \<not> closed then throw (conflict ''That job is no longer open.'')
      else
        bind (take_down status job_id) (\<lambda>orphaned.
        seq (audit_record (domain_event ''job.closed'' ''jobs'' ActorUser poster job_id
               [(lit ''status'', JText (posting_status_str status)), (lit ''photos_removed'', JInt (int (length orphaned)))] request_id))
        (ret orphaned))))"

fun delete_each :: "storage \<Rightarrow> senv \<Rightarrow> nat \<Rightarrow> ustr list \<Rightarrow> unit sm" where
  "delete_each G env k [] = on_db (ret ())"
| "delete_each G env k (key # keys) =
     sbind (attempt (after_all env k (delete_object G key))) (\<lambda>_. delete_each G env (Suc k) keys)"

definition close :: "storage \<Rightarrow> senv \<Rightarrow> uuid \<Rightarrow> uuid \<Rightarrow> posting_status \<Rightarrow> ustr option \<Rightarrow> unit sm" where
  "close G env poster job_id status request_id =
     (if status = POpen then on_db (throw (invalid ''A job can only be closed or cancelled.''))
      else
        sbind (after_all env 0 (on_db (transaction (close_tx poster job_id status request_id)))) (\<lambda>orphaned.
        delete_each G env 1 orphaned))"

definition attach_photo ::
  "lib \<Rightarrow> ustr \<Rightarrow> ('d, 'p) codec \<Rightarrow> storage \<Rightarrow> senv \<Rightarrow> uuid \<Rightarrow> uuid \<Rightarrow> bytes \<Rightarrow> ustr option \<Rightarrow> job_photo sm" where
  "attach_photo L pepper C G env poster job_id bytes request_id =
     sbind (photo_limited L pepper env job_photo_policy poster) (\<lambda>_.
     sbind (after_all env 1 (on_db (seq acquire (own_job poster job_id)))) (\<lambda>_.
     sbind (after_all env 2 (on_db (job_photos_count job_id))) (\<lambda>existing.
     if max_per_job \<le> existing then
       on_db (throw (Invalid (lit ''A job can have up to '' @ show_int max_per_job @ lit '' photos.'')))
     else
       sbind (on_db (of_res (normalise C bytes))) (\<lambda>img.
       sbind (on_db new_id) (\<lambda>i.
       let key = photo_key L job_id i in
       sbind (after_all env 3 (put_object G key img)) (\<lambda>url.
       sbind (after_all env 4 (on_db (job_photos_insert \<lparr>np_id = i, np_owner = job_id, np_storage_key = key,
           np_byte_size = int (length (nm_bytes img)), np_width = as_i32 (int (nm_width img)),
           np_height = as_i32 (int (nm_height img))\<rparr>))) (\<lambda>row.
       sbind (after_all env 5 (on_db (audit_record (domain_event ''job.photo_added'' ''job_photos'' ActorUser poster i
           [(lit ''job_id'', JUuid job_id), (lit ''bytes'', JInt (int (length (nm_bytes img))))] request_id)))) (\<lambda>_.
       on_db (ret \<lparr>jp_id = pv_id row, jp_url = url, jp_width = pv_width row, jp_height = pv_height row\<rparr>)))))))))"

definition remove_job_photo_tx :: "uuid \<Rightarrow> uuid \<Rightarrow> uuid \<Rightarrow> ustr option \<Rightarrow> ustr m" where
  "remove_job_photo_tx poster job_id photo_id request_id =
     seq (own_job poster job_id)
     (bind (job_photos_delete job_id photo_id) (\<lambda>found.
      case found of
        None \<Rightarrow> throw NotFound
      | Some key \<Rightarrow>
          seq (audit_record (domain_event ''job.photo_removed'' ''job_photos'' ActorUser poster photo_id
                 [(lit ''job_id'', JUuid job_id)] request_id))
          (ret key)))"

definition remove_job_photo :: "storage \<Rightarrow> senv \<Rightarrow> uuid \<Rightarrow> uuid \<Rightarrow> uuid \<Rightarrow> ustr option \<Rightarrow> unit sm" where
  "remove_job_photo G env poster job_id photo_id request_id =
     sbind (after_all env 0 (on_db (transaction (remove_job_photo_tx poster job_id photo_id request_id)))) (\<lambda>key.
     attempt (after_all env 1 (delete_object G key)))"

subsection \<open>What the handlers check\<close>

datatype budget_request = Range int int | UnsureWord ustr

definition budget_parse :: "budget_request \<Rightarrow> (int \<times> int) option res" where
  "budget_parse b =
     (case b of
        Range lo hi \<Rightarrow> Inr (Some (lo, hi))
      | UnsureWord word \<Rightarrow>
          if eq_ignore_ascii_case (trim word) (lit ''unsure'') then Inr None
          else Inl (Invalid (lit ''Budget must be a range or '' @ [34] @ lit ''unsure'' @ [34] @ lit ''; got '' @ [34] @ word @ [34] @ lit ''.'')))"

record post_job_request =
  pr_title :: ustr
  pr_description :: ustr
  pr_trade :: ustr
  pr_build_type :: ustr
  pr_job_size :: ustr
  pr_postal_code :: ustr
  pr_timeline :: ustr
  pr_budget :: budget_request

definition read_trade :: "ustr \<Rightarrow> ustr option res" where
  "read_trade trade =
     (let t = trim trade in
      if t = [] then Inl (Invalid (lit ''Choose a job type, or '' @ [34] @ lit ''Other / not listed'' @ [34] @ lit ''.''))
      else if eq_ignore_ascii_case t (lit ''other'') then Inr None
      else Inr (Some t))"

definition read_post :: "post_job_request \<Rightarrow> post_job_input res" where
  "read_post body =
     (case job_timeline_parse_request (trim (pr_timeline body)) of Inl e \<Rightarrow> Inl e | Inr timeline \<Rightarrow>
      case build_type_parse_request (trim (pr_build_type body)) of Inl e \<Rightarrow> Inl e | Inr build \<Rightarrow>
      case read_trade (pr_trade body) of Inl e \<Rightarrow> Inl e | Inr slug \<Rightarrow>
      case budget_parse (pr_budget body) of Inl e \<Rightarrow> Inl e | Inr budget \<Rightarrow>
      Inr \<lparr>pi_title = pr_title body, pi_description = pr_description body, pi_trade_slug = slug, pi_build_type = build,
        pi_job_size = pr_job_size body, pi_postal_code = pr_postal_code body, pi_budget = budget, pi_timeline = timeline\<rparr>)"

definition post_job ::
  "lib \<Rightarrow> ustr \<Rightarrow> env \<Rightarrow> account_type \<Rightarrow> uuid \<Rightarrow> post_job_request \<Rightarrow> ustr option \<Rightarrow> owner_job m" where
  "post_job L pepper env account caller body request_id =
     (if \<not> may_hire account then throw Forbidden
      else bind (of_res (read_post body)) (\<lambda>input. post L pepper env caller input request_id))"

definition close_job :: "storage \<Rightarrow> senv \<Rightarrow> uuid \<Rightarrow> uuid \<Rightarrow> ustr option \<Rightarrow> ustr option \<Rightarrow> unit sm" where
  "close_job G env caller job_id status request_id =
     (case (case status of None \<Rightarrow> [] | Some s \<Rightarrow> trim s) of
        s \<Rightarrow>
          if s = [] \<or> s = lit ''closed'' then close G env caller job_id PClosed request_id
          else if s = lit ''cancelled'' then close G env caller job_id PCancelled request_id
          else on_db (throw (Invalid (lit ''unknown status '' @ [34] @ s @ [34] @ lit ''; expected closed or cancelled''))))"

end
