(* ===== verification/Float64.thy ===== *)
theory Float64
  imports Market_Schema
begin

text \<open>
  What the sources do with a Rust \<open>f64\<close>, or a PostgreSQL \<open>float8\<close>, beyond storing it: IEEE 754 comparison, finiteness,
  \<open>clamp\<close> and the conversion of an integer, on the 64 bits of the number. \<open>f64_key\<close> orders the numbers: the sign bit set means
  the negated magnitude, so both zeros have the key 0. A comparison with a NaN is false.
\<close>

definition f64_magnitude :: "f64 \<Rightarrow> int" where
  "f64_magnitude x = uint x mod 2 ^ 63"

definition f64_key :: "f64 \<Rightarrow> int" where
  "f64_key x = (if uint x < 2 ^ 63 then f64_magnitude x else - f64_magnitude x)"

definition f64_nan :: "f64 \<Rightarrow> bool" where
  "f64_nan x \<longleftrightarrow> 2047 * 2 ^ 52 < f64_magnitude x"

definition f64_finite :: "f64 \<Rightarrow> bool" where
  "f64_finite x \<longleftrightarrow> f64_magnitude x < 2047 * 2 ^ 52"

definition f64_le :: "f64 \<Rightarrow> f64 \<Rightarrow> bool" where
  "f64_le x y \<longleftrightarrow> \<not> f64_nan x \<and> \<not> f64_nan y \<and> f64_key x \<le> f64_key y"

definition f64_lt :: "f64 \<Rightarrow> f64 \<Rightarrow> bool" where
  "f64_lt x y \<longleftrightarrow> \<not> f64_nan x \<and> \<not> f64_nan y \<and> f64_key x < f64_key y"

definition f64_eq :: "f64 \<Rightarrow> f64 \<Rightarrow> bool" where
  "f64_eq x y \<longleftrightarrow> \<not> f64_nan x \<and> \<not> f64_nan y \<and> f64_key x = f64_key y"

text \<open>\<open>(lo..=hi).contains(&x)\<close> and \<open>x.clamp(lo, hi)\<close>, whose bounds are never NaN in the sources.\<close>

definition f64_within :: "f64 \<Rightarrow> f64 \<Rightarrow> f64 \<Rightarrow> bool" where
  "f64_within lo hi x \<longleftrightarrow> f64_le lo x \<and> f64_le x hi"

definition f64_clamp :: "f64 \<Rightarrow> f64 \<Rightarrow> f64 \<Rightarrow> f64" where
  "f64_clamp lo hi x = (if f64_lt x lo then lo else if f64_lt hi x then hi else x)"

text \<open>\<open>n as f64\<close>: rounded to 53 significant bits, ties to even. A mantissa that rounds up to \<open>2 ^ 53\<close> carries into the
  exponent.\<close>

fun bit_length :: "nat \<Rightarrow> nat" where
  "bit_length n = (if n = 0 then 0 else Suc (bit_length (n div 2)))"

declare bit_length.simps [simp del]

definition round_half_even :: "nat \<Rightarrow> nat \<Rightarrow> nat" where
  "round_half_even m k =
     (let q = m div 2 ^ k; r = m mod 2 ^ k in
      if 2 * r < 2 ^ k \<or> 2 * r = 2 ^ k \<and> even q then q else q + 1)"

definition f64_of_nat :: "nat \<Rightarrow> nat" where
  "f64_of_nat m =
     (if m = 0 then 0
      else (let e = bit_length m - 1; q = (if e \<le> 52 then m * 2 ^ (52 - e) else round_half_even m (e - 52)) in
        (e + 1023) * 2 ^ 52 + q - 2 ^ 52))"

definition f64_of_int :: "int \<Rightarrow> f64" where
  "f64_of_int n = (if 0 \<le> n then of_nat (f64_of_nat (nat n)) else of_nat (2 ^ 63 + f64_of_nat (nat (- n))))"

lemma f64_examples:
  "f64_of_int 0 = 0" "f64_of_int 1 = 0x3FF0000000000000" "f64_of_int 90 = 0x4056800000000000"
  "f64_of_int (- 180) = 0xC066800000000000" "f64_of_int (2 ^ 53 + 1) = f64_of_int (2 ^ 53)"
  by (simp_all add: f64_of_int_def f64_of_nat_def round_half_even_def Let_def bit_length.simps)

lemma f64_le_trans: "f64_le x y \<Longrightarrow> f64_le y z \<Longrightarrow> f64_le x z"
  by (auto simp: f64_le_def)

lemma f64_clamp_within:
  assumes "f64_le lo hi" and "\<not> f64_nan x"
  shows "f64_within lo hi (f64_clamp lo hi x)"
  using assms by (auto simp: f64_within_def f64_clamp_def f64_le_def f64_lt_def)

end
