(* ===== verification/Geocode_Worker.thy ===== *)
theory Geocode_Worker
  imports Listings Mail_Worker Float64
begin

text \<open>
  \<open>cm-domain/src/geocoder.rs\<close> and \<open>cm-domain/src/geocode_worker.rs\<close>: reading an address off a provider's answer, and one pass of
  the worker that places listings on the map. What the provider answers is a parameter, of the number of the job in the batch and the address; no
  connection is held during a call, so other requests may run there. \<open>rate_per_second\<close> only paces the loop and is left out.
\<close>

subsection \<open>The geocoder\<close>

text \<open>\<open>serde_json::Value\<close>; numbers are read with \<open>as_f64\<close> only.\<close>

datatype json = VNull | VBool bool | VNumber f64 | VString ustr | VArray "json list" | VObject "(ustr \<times> json) list"

definition json_get :: "ustr \<Rightarrow> json \<Rightarrow> json option" where
  "json_get key v = (case v of VObject members \<Rightarrow> map_of members key | _ \<Rightarrow> None)"

definition as_array :: "json \<Rightarrow> json list option" where
  "as_array v = (case v of VArray xs \<Rightarrow> Some xs | _ \<Rightarrow> None)"

definition as_f64 :: "json \<Rightarrow> f64 option" where
  "as_f64 v = (case v of VNumber x \<Rightarrow> Some x | _ \<Rightarrow> None)"

record coordinates =
  co_lat :: f64
  co_lon :: f64

definition validate :: "coordinates \<Rightarrow> coordinates res" where
  "validate c =
     (if \<not> f64_within (f64_of_int (- 90)) (f64_of_int 90) (co_lat c) \<or>
         \<not> f64_within (f64_of_int (- 180)) (f64_of_int 180) (co_lon c) then
        Inl (invalid ''the geocoder returned an impossible point'')
      else if f64_eq (co_lat c) (f64_of_int 0) \<and> f64_eq (co_lon c) (f64_of_int 0) then
        Inl (invalid ''the geocoder returned a null island point'')
      else Inr c)"

datatype located = Found coordinates json | NoMatch

definition census_parse :: "json \<Rightarrow> located res" where
  "census_parse body =
     (case Option.bind (Option.bind (json_get (lit ''result'') body) (json_get (lit ''addressMatches''))) as_array of
        None \<Rightarrow> Inl (invalid ''the geocoder response had no result section'')
      | Some [] \<Rightarrow> Inr NoMatch
      | Some (first # _) \<Rightarrow>
          (case json_get (lit ''coordinates'') first of
             None \<Rightarrow> Inl (invalid ''the geocoder match had no coordinates'')
           | Some coordinates \<Rightarrow>
               (case Option.bind (json_get (lit ''x'') coordinates) as_f64 of
                  None \<Rightarrow> Inl (invalid ''the geocoder match had no longitude'')
                | Some lon \<Rightarrow>
                    (case Option.bind (json_get (lit ''y'') coordinates) as_f64 of
                       None \<Rightarrow> Inl (invalid ''the geocoder match had no latitude'')
                     | Some lat \<Rightarrow>
                         (case validate \<lparr>co_lat = lat, co_lon = lon\<rparr> of
                            Inl e \<Rightarrow> Inl e
                          | Inr c \<Rightarrow> Inr (Found c first))))))"

text \<open>An answer of the provider: none, a status that is no success, an unreadable body, or JSON.\<close>

datatype geocoder_answer = GcUnreachable ustr | GcRefused ustr | GcUnreadable ustr | GcJson json

definition census_locate :: "(nat \<Rightarrow> ustr \<Rightarrow> geocoder_answer) \<Rightarrow> nat \<Rightarrow> ustr \<Rightarrow> located res" where
  "census_locate http k address =
     (case http k address of
        GcUnreachable e \<Rightarrow> Inl (Unavailable (lit ''the geocoder is unreachable: '' @ e))
      | GcRefused status \<Rightarrow> Inl (Unavailable (lit ''the geocoder answered '' @ status))
      | GcUnreadable e \<Rightarrow> Inl (Unavailable (lit ''the geocoder reply was unreadable: '' @ e))
      | GcJson body \<Rightarrow> census_parse body)"

definition static_locate :: "(ustr \<Rightarrow> coordinates option) \<Rightarrow> nat \<Rightarrow> ustr \<Rightarrow> located res" where
  "static_locate answers k address =
     (case answers address of
        Some c \<Rightarrow> Inr (Found c (VObject [(lit ''source'', VString (lit ''static''))]))
      | None \<Rightarrow> Inr NoMatch)"

text \<open>A provider has a name and answers addresses; the stored answer is the text of the JSON, which nothing reads back.\<close>

record geocoder =
  gc_name :: ustr
  gc_locate :: "nat \<Rightarrow> ustr \<Rightarrow> located res"
  gc_text :: "json \<Rightarrow> ustr"

subsection \<open>The worker\<close>

record geocode_config =
  gw_batch :: nat
  gw_max_attempts :: int
  gw_worker_id :: ustr
  gw_stale_after_secs :: int

definition default_geocode_config :: geocode_config where
  "default_geocode_config = \<lparr>gw_batch = 25, gw_max_attempts = 5, gw_worker_id = lit ''geocode-worker'',
     gw_stale_after_secs = 600\<rparr>"

record geocode_stats =
  gs_claimed :: nat
  gs_located :: nat
  gs_not_found :: nat
  gs_failed :: nat
  gs_skipped :: nat
  gs_requeued :: nat

definition geocode_backoff_secs :: "int \<Rightarrow> int" where
  "geocode_backoff_secs attempts = min (30 * 2 ^ nat (max 0 (min attempts 10))) 3600"

text \<open>What is written about a job once its address has been answered.\<close>

definition settle_located ::
  "geocoder \<Rightarrow> env \<Rightarrow> geocode_config \<Rightarrow> nat \<Rightarrow> geocode_job \<Rightarrow> located res \<Rightarrow> geocode_stats \<Rightarrow> geocode_stats m" where
  "settle_located G env cfg k job answer st =
     (case answer of
        Inr (Found c raw) \<Rightarrow>
          seq (after_others env k (transaction
                (seq (apply_geocode (gj_contractor_id job) (co_lat c) (co_lon c))
                     (geocode_mark_succeeded (gj_id job) (gc_name G) (Some (gc_text G raw))))))
            (ret (st\<lparr>gs_located := gs_located st + 1\<rparr>))
      | Inr NoMatch \<Rightarrow>
          seq (geocode_mark_skipped (gj_id job) (lit ''no match from the geocoder''))
            (ret (st\<lparr>gs_not_found := gs_not_found st + 1\<rparr>))
      | Inl e \<Rightarrow>
          seq (geocode_mark_failed (gj_id job) (error_display e) (geocode_backoff_secs (gj_attempts job)) (gw_max_attempts cfg))
            (ret (st\<lparr>gs_failed := gs_failed st + 1\<rparr>)))"

text \<open>One job: \<open>k\<close> numbers the points where other requests run, \<open>n\<close> the jobs of the batch.\<close>

definition locate_job ::
  "geocoder \<Rightarrow> env \<Rightarrow> geocode_config \<Rightarrow> nat \<Rightarrow> nat \<Rightarrow> geocode_job \<Rightarrow> geocode_stats \<Rightarrow> geocode_stats m" where
  "locate_job G env cfg k n job st =
     bind (after_others env k (seq acquire (contractors_geocodable_address (gj_contractor_id job)))) (\<lambda>found.
     seq (after_others env (k + 1) acquire)
     (case found of
        None \<Rightarrow>
          seq (geocode_mark_skipped (gj_id job) (lit ''no address on the licence record''))
            (ret (st\<lparr>gs_skipped := gs_skipped st + 1\<rparr>))
      | Some address \<Rightarrow> settle_located G env cfg (k + 2) job (gc_locate G n address) st))"

fun locate_all ::
  "geocoder \<Rightarrow> env \<Rightarrow> geocode_config \<Rightarrow> nat \<Rightarrow> nat \<Rightarrow> geocode_job list \<Rightarrow> geocode_stats \<Rightarrow> geocode_stats m" where
  "locate_all G env cfg k n [] st = ret st"
| "locate_all G env cfg k n (job # rest) st =
     bind (locate_job G env cfg k n job st) (\<lambda>st'.
     locate_all G env cfg (k + 3) (Suc n) rest st')"

definition geocode_run_once :: "geocoder \<Rightarrow> env \<Rightarrow> geocode_config \<Rightarrow> geocode_stats m" where
  "geocode_run_once G env cfg =
     bind (seq (after_others env 0 acquire) (geocode_requeue_stalled (gw_stale_after_secs cfg))) (\<lambda>requeued.
     bind (after_others env 1 (transaction (geocode_claim (gw_worker_id cfg) (gw_batch cfg)))) (\<lambda>taken.
     locate_all G env cfg 2 0 taken \<lparr>gs_claimed = length taken, gs_located = 0, gs_not_found = 0, gs_failed = 0,
       gs_skipped = 0, gs_requeued = requeued\<rparr>))"

end
