(* ===== verification/Listing_Pins.thy ===== *)
theory Listing_Pins
  imports Claims_Properties Geocode_Worker
begin

text \<open>
  What the map shows of a listing, over every run of the requests that write listings: profile edits, photos, claims, decisions,
  nightly passes and passes of the geocoding worker. The rule of \<open>Location\<close> holds at every moment between transactions.
\<close>

subsection \<open>Statements that leave the pins alone\<close>

text \<open>An update that moves nothing the rule reads or writes.\<close>

definition keeps_place :: "(contractor_row \<Rightarrow> contractor_row) \<Rightarrow> bool" where
  "keeps_place f \<longleftrightarrow> (\<forall>r. ct_id (f r) = ct_id r \<and> ct_address_visibility (f r) = ct_address_visibility r \<and>
     ct_precise_point (f r) = ct_precise_point r \<and> ct_postal_code (f r) = ct_postal_code r \<and>
     ct_public_point (f r) = ct_public_point r \<and> ct_public_point_source (f r) = ct_public_point_source r)"

lemma pin_ok_set_contractor: "pin_ok (set_contractor i f d) = pin_ok d"
  by (rule ext) (simp add: pin_ok_def)

lemma pins_ok_set_contractor:
  assumes ok: "pins_ok d" and f: "keeps_place f"
  shows "pins_ok (set_contractor i f d)"
proof -
  have "pin_ok d (f r) = pin_ok d r" for r
    using f by (intro pin_ok_cong; simp add: keeps_place_def)
  moreover have "map ct_id (contractors (set_contractor i f d)) = map ct_id (contractors d)"
    by (rule set_contractor_ids) (use f in \<open>simp add: keeps_place_def\<close>)
  moreover have "pin_ok d x" if "x \<in> set (contractors (set_contractor i f d))" for x
    using that ok calculation(1) by (auto simp: set_contractor_def pins_ok_def list_all_iff)
  ultimately show ?thesis using ok by (simp add: pins_ok_def list_all_iff pin_ok_set_contractor)
qed

lemma keeps_place_rows [simp]:
  "keeps_place (claimed_row u now)" "keeps_place (verification_row b reason now)" "keeps_place (with_photo k x y)"
  by (simp_all add: keeps_place_def claimed_row_def verification_row_def with_photo_def)

lemma update_contractor_pins:
  assumes "update_contractor i f d = Inr d'" and "pins_ok d" and "keeps_place f"
  shows "pins_ok d'"
  using assms by (auto simp: update_contractor_def pins_ok_set_contractor split: option.splits if_splits)

lemmas update_row_pins = keeps_place_rows [THEN update_contractor_pins [rotated 2]]

lemma keeps_pins_contractor_sql: "(\<And>now. keeps_place (f now)) \<Longrightarrow> keeps pins_ok (contractor_sql i f)"
  unfolding contractor_sql_def by (rule keeps_sql) (auto split: sum.splits intro: update_contractor_pins)

lemma keeps_pins_writes [keeps_intros]:
  "keeps pins_ok (contractors_attach_claimant i u)" "keeps pins_ok (contractors_set_verification i b reason)"
  "keeps pins_ok (contractors_set_photo i key x y)" "keeps pins_ok (contractors_clear_photo i)"
  by (auto simp: contractors_attach_claimant_def attach_claimant_stmt_def contractors_set_verification_def
      contractors_set_photo_def set_photo_stmt_def contractors_clear_photo_def clear_photo_stmt_def
      intro!: keeps_intros keeps_sql keeps_pins_contractor_sql dest: update_row_pins split: option.splits if_splits sum.splits)

text \<open>A statement on other tables.\<close>

lemma keeps_pins_elsewhere:
  assumes "\<And>now d x d'. q now d = Inr (x, d') \<Longrightarrow> contractors d' = contractors d \<and> zctas d' = zctas d"
  shows "keeps pins_ok (sql q)"
  by (rule keeps_sql) (metis assms pins_ok_frame)

lemma keeps_pins_audit [keeps_intros]: "keeps pins_ok (audit_record e)"
  unfolding audit_record_def by (intro keeps_intros keeps_pins_elsewhere) (auto simp: Let_def split: if_splits)

lemma keeps_pins_roles [keeps_intros]: "keeps pins_ok (users_grant_role u rl by)"
  unfolding users_grant_role_def by (intro keeps_pins_elsewhere) (auto split: if_splits)

lemma keeps_pins_queue [keeps_intros]:
  "keeps pins_ok (geocode_enqueue cid h)" "keeps pins_ok (geocode_claim worker n)"
  "keeps pins_ok (geocode_mark_succeeded i p resp)" "keeps pins_ok (geocode_mark_failed i err b k)"
  "keeps pins_ok (geocode_mark_skipped i reason)" "keeps pins_ok (geocode_requeue_stalled s)"
  unfolding geocode_enqueue_def geocode_claim_def geocode_mark_succeeded_def geocode_mark_failed_def
    geocode_mark_skipped_def geocode_requeue_stalled_def
  by (intro keeps_intros keeps_pins_elsewhere;
      auto simp: geocode_enqueue_stmt_def geocode_claim_stmt_def job_failed_stmt_def set_job_def requeue_jobs_def Let_def
      split: if_splits option.splits)+

lemma keeps_pins_claims [keeps_intros]:
  "keeps pins_ok (claims_open ct u meth ev)" "keeps pins_ok (claims_decide i st by n)"
  "keeps pins_ok (claims_record_check ct cl k out ev' by')"
  unfolding claims_open_def claims_decide_def claims_record_check_def
  by (intro keeps_intros keeps_pins_elsewhere;
      auto simp: open_claim_stmt_def decide_claim_stmt_def record_check_stmt_def set_claim_def Let_def
      split: if_splits option.splits)+

lemma keeps_pins_reads [keeps_intros]:
  "keeps P (contractors_claimed_by u)" "keeps P (contractors_messaging_target i)" "keeps P (contractors_location_inputs i)"
  "keeps P (licenses_facts_for_contractor i)" "keeps P (contractors_geocodable_address i)"
  unfolding contractors_claimed_by_def contractors_messaging_target_def contractors_location_inputs_def
    licenses_facts_for_contractor_def contractors_geocodable_address_def
  by (intro keeps_intros)+

subsection \<open>Transactions that move a pin\<close>

lemma commits_reapply: "commits pins_ok (reapply i)"
proof (rule commitsI)
  fix w x w'
  assume ok: "pins_ok (w_db w)" and run: "reapply i w = (Inr x, w')"
  then obtain s where "republish i w = (Inr s, w')" by (auto simp: reapply_def seq_Inr_iff)
  from republish_run [OF this] ok pins_ok_republished [of "w_db w" "\<lambda>r. r" i] show "pins_ok (w_db w')"
    by (auto simp: pins_ok_def list_all_iff [abs_def] split: option.splits)
qed

lemma commits_apply_geocode: "commits pins_ok (apply_geocode i lat lon)"
proof (rule commitsI)
  fix w x w'
  assume ok: "pins_ok (w_db w)" and run: "apply_geocode i lat lon w = (Inr x, w')"
  from apply_geocode_run [OF run] ok pins_ok_republished [of "w_db w" "geocoded lat lon" i]
  show "pins_ok (w_db w')"
    by (auto simp: pins_ok_def list_all_iff [abs_def] geocoded_def split: option.splits)
qed

text \<open>An edit that does not touch the visibility leaves the pin alone; one that does republishes it before the commit.\<close>

lemma update_profile_InrD:
  assumes run: "contractors_update_profile i u w = (Inr x, w')" and ok: "pins_ok (w_db w)"
  shows "if pu_address_visibility u = None then pins_ok (w_db w')
    else distinct (map ct_id (contractors (w_db w'))) \<and> (\<forall>r \<in> set (contractors (w_db w')). ct_id r \<noteq> i \<longrightarrow> pin_ok (w_db w') r)"
proof -
  have id: "ct_id (profile_row u r) = ct_id r" for r by (simp add: profile_row_def split: prod.split)
  show ?thesis
  proof (cases "pu_address_visibility u")
    case None
    then have "keeps_place (profile_row u)" by (simp add: keeps_place_def profile_row_def split: prod.split)
    with contractor_sql_InrD [OF run [unfolded contractors_update_profile_def]] ok None show ?thesis
      by (auto intro: pins_ok_set_contractor)
  next
    case (Some v)
    have "pins_ok (w_db w') \<or> w_db w' = set_contractor i (profile_row u) (w_db w)"
      using contractor_sql_InrD [OF run [unfolded contractors_update_profile_def]] ok by auto
    then show ?thesis
    proof
      assume "pins_ok (w_db w')"
      with Some show ?thesis by (simp add: pins_ok_def list_all_iff)
    next
      assume w': "w_db w' = set_contractor i (profile_row u) (w_db w)"
      have "map ct_id (contractors (w_db w')) = map ct_id (contractors (w_db w))"
        unfolding w' by (rule set_contractor_ids) (rule id)
      moreover have "pin_ok (w_db w') r" if "r \<in> set (contractors (w_db w'))" "ct_id r \<noteq> i" for r
        using that ok unfolding w' pin_ok_set_contractor
        by (auto simp: set_contractor_def pins_ok_def list_all_iff id split: if_splits)
      ultimately show ?thesis using Some ok by (simp add: pins_ok_def)
    qed
  qed
qed

lemma keeps_pins_relocate [keeps_intros]: "keeps pins_ok (relocate_after_address_change L i)"
  unfolding relocate_after_address_change_def by (intro keeps_intros)

lemma commits_update_profile_tx: "commits pins_ok (update_profile_tx L i u)"
proof (rule commitsI)
  fix w x w'
  assume ok: "pins_ok (w_db w)" and run: "update_profile_tx L i u w = (Inr x, w')"
  obtain y w1 z w2 where up: "contractors_update_profile i u w = (Inr y, w1)"
    and re: "(if pu_address_visibility u \<noteq> None then reapply i else ret ()) w1 = (Inr z, w2)"
    and rl: "(if pu_owner_address u \<noteq> Unchanged then relocate_after_address_change L i else ret ()) w2 = (Inr x, w')"
    using run by (auto simp: update_profile_tx_def seq_Inr_iff)
  note up' = update_profile_InrD [OF up ok]
  have "pins_ok (w_db w2)"
  proof (cases "pu_address_visibility u")
    case None
    with up' re show ?thesis by simp
  next
    case (Some v)
    with re obtain s where rp: "republish i w1 = (Inr s, w2)" by (auto simp: reapply_def seq_Inr_iff)
    from up' Some have d: "distinct (map ct_id (contractors (w_db w1)))"
      and rest: "\<And>r. r \<in> set (contractors (w_db w1)) \<Longrightarrow> ct_id r \<noteq> i \<Longrightarrow> pin_ok (w_db w1) r" by auto
    show ?thesis
    proof (cases "find_contractor (w_db w1) i")
      case None
      then have "ct_id r \<noteq> i" if "r \<in> set (contractors (w_db w1))" for r
        using that by (auto simp: find_contractor_def find_None_all)
      with None rest republish_run [OF rp d] d show ?thesis by (simp add: pins_ok_def list_all_iff)
    next
      case (Some r)
      with republish_run [OF rp d] pins_ok_republished [OF d _ rest, of "\<lambda>r. r" i] show ?thesis by simp
    qed
  qed
  with rl keepsD [OF keeps_pins_relocate] show "pins_ok (w_db w')" by (auto split: if_splits)
qed

lemma commits_settle:
  "commits pins_ok (seq (apply_geocode i lat lon) (geocode_mark_succeeded j p resp))"
  by (intro commits_seq commits_apply_geocode keeps_commits keeps_intros)

lemma keeps_pins_recompute [keeps_intros]: "keeps pins_ok (recompute ds i)"
  unfolding recompute_def by (intro keeps_intros)

lemma keeps_pins_recompute_each [keeps_intros]: "keeps pins_ok (recompute_each ds is)"
  by (induction "is") (auto intro: keeps_intros)

lemma keeps_pins_hand_over [keeps_intros]: "keeps pins_ok (hand_over c a)"
  unfolding hand_over_def by (intro keeps_intros)

subsection \<open>Every run\<close>

text \<open>Requests that write listings. A photo request also says what the object store does meanwhile.\<close>

record ('d, 'p) photo_setting =
  ps_lib :: lib
  ps_pepper :: ustr
  ps_codec :: "('d, 'p) codec"
  ps_storage :: storage
  ps_state :: store_state
  ps_others :: "nat \<Rightarrow> store_state \<Rightarrow> store_state"

datatype ('d, 'p) listing_request =
    EditProfile lib uuid uuid update_profile_request
  | SetPhoto "('d, 'p) photo_setting" uuid uuid bytes
  | RemovePhoto "('d, 'p) photo_setting" uuid uuid
  | PlaceListings geocoder geocode_config
  | Claiming date_str claim_request

definition with_store :: "('d, 'p) photo_setting \<Rightarrow> env \<Rightarrow> senv" where
  "with_store c env = (\<lambda>k s w. (ps_others c k s, env k w))"

fun run_listing :: "env \<Rightarrow> ('d, 'p) listing_request \<Rightarrow> world \<Rightarrow> world" where
  "run_listing env (EditProfile L caller i body) w = snd (update_profile L env caller i body w)"
| "run_listing env (SetPhoto c user i bytes) w =
     snd (set_photo (ps_lib c) (ps_pepper c) (ps_codec c) (ps_storage c) (with_store c env) user i bytes (ps_state c) w)"
| "run_listing env (RemovePhoto c user i) w =
     snd (remove_photo (ps_storage c) (with_store c env) user i (ps_state c) w)"
| "run_listing env (PlaceListings G cfg) w = snd (geocode_run_once G env cfg w)"
| "run_listing env (Claiming ds r) w = run_claim ds env r w"

text \<open>The calculus of \<open>keeps\<close> for services with an object store.\<close>

definition skeeps :: "(db \<Rightarrow> bool) \<Rightarrow> 'a sm \<Rightarrow> bool" where
  "skeeps P f \<longleftrightarrow> (\<forall>s w. P (w_db w) \<longrightarrow> P (w_db (snd (f s w))))"

named_theorems skeeps_intros \<open>services with an object store that keep an invariant of the tables\<close>

lemma skeepsD: "skeeps P f \<Longrightarrow> P (w_db w) \<Longrightarrow> P (w_db (snd (f s w)))"
  by (simp add: skeeps_def)

lemma skeeps_on_db [skeeps_intros]: "keeps P f \<Longrightarrow> skeeps P (on_db f)"
  by (auto simp: skeeps_def on_db_def keeps_def split: prod.splits)

lemma skeeps_on_store: "skeeps P (on_store f)"
  by (simp add: skeeps_def on_store_def)

lemma skeeps_objects [skeeps_intros]: "skeeps P (put_object G key img)" "skeeps P (delete_object G key)"
  by (simp_all add: put_object_def delete_object_def skeeps_on_store)

lemma skeeps_sbind [skeeps_intros]:
  assumes "skeeps P f" and "\<And>x. skeeps P (g x)"
  shows "skeeps P (sbind f g)"
  unfolding skeeps_def
proof (intro allI impI)
  fix s and w :: world
  assume P: "P (w_db w)"
  obtain r s1 w1 where f: "f s w = ((r, s1), w1)" by (metis prod.collapse)
  with assms(1) P have "P (w_db w1)" by (metis skeeps_def snd_conv)
  with assms(2) f show "P (w_db (snd (sbind f g s w)))" by (cases r) (simp_all add: sbind_def skeeps_def)
qed

lemma skeeps_attempt [skeeps_intros]: "skeeps P f \<Longrightarrow> skeeps P (attempt f)"
  unfolding skeeps_def attempt_def by (auto split: prod.splits) (metis snd_conv)

lemma skeeps_after_all:
  "undisturbed P env \<Longrightarrow> skeeps P f \<Longrightarrow> skeeps P (after_all (with_store c env) k f)"
  by (simp add: skeeps_def after_all_def with_store_def undisturbed_def)

lemma skeeps_option [skeeps_intros]:
  "skeeps P f \<Longrightarrow> (\<And>x. skeeps P (g x)) \<Longrightarrow> skeeps P (case v of None \<Rightarrow> f | Some x \<Rightarrow> g x)"
  by (cases v) auto

lemma skeeps_let [skeeps_intros]: "(\<And>x. skeeps P (f x)) \<Longrightarrow> skeeps P (let x = v in f x)"
  by (simp add: Let_def)

lemma keeps_owned_listing [keeps_intros]: "keeps P (owned_listing u i)"
  unfolding owned_listing_def by (intro keeps_intros)

lemma listing_photos_keep:
  assumes "undisturbed pins_ok env"
  shows "skeeps pins_ok (set_photo L pepper C G (with_store c env) user i bytes)"
    "skeeps pins_ok (remove_photo G (with_store c env) user i)"
  unfolding set_photo_def remove_photo_def photo_limited_def
  by (intro skeeps_intros skeeps_after_all assms keeps_intros keeps_enforce)+

lemma locate_all_keeps:
  assumes "undisturbed pins_ok env"
  shows "keeps pins_ok (locate_all G env cfg k n js st)"
proof (induction js arbitrary: k n st)
  case (Cons j js)
  have settle: "keeps pins_ok (settle_located G env cfg k' j answer st')" for k' answer st'
  proof (cases answer)
    case (Inl e)
    then show ?thesis by (simp add: settle_located_def keeps_intros)
  next
    case (Inr a)
    then show ?thesis
      by (cases a) (auto simp: settle_located_def intro!: keeps_seq keeps_ret keeps_pins_queue keeps_after_undisturbed
          [OF assms] keeps_transaction_commits commits_settle)
  qed
  then show ?case unfolding locate_all.simps locate_job_def
    by (intro keeps_intros keeps_after_undisturbed assms Cons settle)
qed (simp add: keeps_ret)

lemma claims_keep_pins:
  assumes env: "undisturbed pins_ok env" and ok: "pins_ok (w_db w)"
  shows "pins_ok (w_db (run_claim ds env r w))"
proof -
  have keep: "keeps pins_ok (claim_open ds env ct u mt ev req)" "keeps pins_ok (claim_withdraw env i u req)"
    "keeps pins_ok (claim_decide ds env i approve admin n req)" for ct u mt ev req i approve admin n
    unfolding claim_open_def claim_open_tx_def claim_withdraw_def claim_decide_def claim_decide_tx_def
    by (intro keeps_after_undisturbed env keeps_intros)+
  have snd: "keeps pins_ok f \<Longrightarrow> pins_ok (w_db (snd (f w)))" for f :: "'x m"
    using ok by (metis keepsD prod.collapse)
  show ?thesis
    using keep keeps_recompute_loop [OF keeps_commits [OF keeps_pins_recompute_each] env ok]
    by (cases r) (auto simp: recompute_all_def intro!: snd)
qed

lemma keeps_update_profile: "undisturbed pins_ok env \<Longrightarrow> keeps pins_ok (update_profile L env caller i body)"
  unfolding update_profile_def
  by (intro keeps_intros keeps_after_undisturbed keeps_transaction_commits commits_update_profile_tx)

lemma keeps_geocode_run: "undisturbed pins_ok env \<Longrightarrow> keeps pins_ok (geocode_run_once G env cfg)"
  unfolding geocode_run_once_def by (intro keeps_intros keeps_after_undisturbed locate_all_keeps)

definition listing_tables :: "db \<Rightarrow> contractor_row list \<times> region_row list" where
  "listing_tables d = (contractors d, zctas d)"

interpretation listings: served run_listing listing_tables pins_ok
proof
  show "listing_tables d = listing_tables d' \<Longrightarrow> pins_ok d \<Longrightarrow> pins_ok d'" for d d'
    using pins_ok_frame [of d d'] by (simp add: listing_tables_def)
  fix env and r :: "('d, 'p) listing_request" and w :: world
  assume env: "undisturbed pins_ok env" and ok: "pins_ok (w_db w)"
  have snd: "keeps pins_ok f \<Longrightarrow> pins_ok (w_db (snd (f w)))" for f :: "'x m"
    using ok by (metis keepsD prod.collapse)
  show "pins_ok (w_db (run_listing env r w))"
    by (cases r) (auto intro!: snd skeepsD listing_photos_keep keeps_update_profile keeps_geocode_run claims_keep_pins env ok)
qed

abbreviation listing_runs :: "world \<Rightarrow> world \<Rightarrow> bool" where
  "listing_runs \<equiv> runs (run_listing :: env \<Rightarrow> (nat, nat) listing_request \<Rightarrow> world \<Rightarrow> world) listing_tables"

text \<open>An owner whose exact address is on the map hides it.\<close>

definition pinned_listing :: contractor_row where
  "pinned_listing = (bare_listing 7)\<lparr>ct_claimed_by := Some 1, ct_claimed_at := Some 0, ct_precise_point := Some (1, 2),
     ct_public_point := Some (1, 2), ct_public_point_source := Exact\<rparr>"

definition pinned_world :: world where
  "pinned_world = calm_world (empty_db\<lparr>contractors := [pinned_listing],
     users := [\<lparr>u_id = 1, u_email = None, u_display_name = lit ''Ann'', u_status = lit ''active'', u_account_type = lit ''contractor'',
       u_email_verified_at = None, u_created_at = 0\<rparr>]\<rparr>) 0"

definition hide_address :: update_profile_request where
  "hide_address = \<lparr>up_bio = None, up_website_url = None, up_public_phone = None, up_accepts_dm = None,
     up_address_visibility = Some (lit ''protected''), up_owner_address = None, up_google_review_url = None, up_yelp_url = None,
     up_verified = False\<rparr>"

definition hidden_listing :: contractor_row where
  "hidden_listing = pinned_listing\<lparr>ct_address_visibility := lit ''protected'', ct_public_point := None, ct_public_point_source := NoPoint\<rparr>"

lemma hide_address_run:
  "contractors (w_db (snd (update_profile toy_lib no_others 1 7 hide_address pinned_world))) = [hidden_listing]"
proof -
  have u: "read_update hide_address = Inr \<lparr>pu_bio = None, pu_website_url = None, pu_public_phone = None, pu_accepts_dm = None,
      pu_address_visibility = Some Protected, pu_owner_address = Unchanged, pu_google_review_url = Unchanged, pu_yelp_url = Unchanged\<rparr>"
    by (simp add: read_update_def hide_address_def read_visibility_def edit_of_def map_edit_def)
  show ?thesis
    by (simp add: update_profile_def hide_address_def [THEN arg_cong [of _ _ up_verified]] u no_others_alone
     bind_def seq_def acquire_def round_trip_def pinned_world_def contractors_claimed_by_def query_def sql_def listing_of_def
     pinned_listing_def bare_listing_def of_res_def transaction_def update_profile_tx_def contractors_update_profile_def contractor_sql_def
     update_contractor_def find_contractor_def profile_row_def edit_parts_def written_def coalesce_def contractor_check_def opt_len_le_def opt_pos_def
     contractor_taken_def claimant_missing_def user_exists_def set_contractor_def reapply_def republish_def contractors_location_inputs_def
     location_inputs_of_def address_visibility_parse_def centroid_of_def contractors_set_location_def located_row_def ret_def hidden_listing_def Let_def)
qed

text \<open>
  C5. The map never shows more of a listing than its owner allows. After any run of profile edits, photos, claims, decisions,
  nightly passes and geocoding passes, in any order, interrupted by each other and with any statement failing, every listing is
  published exactly by the rule: its precise point if its address is public and has been geocoded, else the centroid of its
  ZIP code, else nothing. So a protected listing never shows a point that depends on its address, and an exact pin is the stored precise
  point of a public listing.
\<close>

theorem the_map_follows_the_rule:
  assumes "listing_runs w0 w" and "distinct (map ct_id (contractors (w_db w0)))"
    and "\<forall>r \<in> set (contractors (w_db w0)). (ct_public_point r, ct_public_point_source r) = published (w_db w0) r"
    and "r \<in> set (contractors (w_db w))"
  shows "(ct_public_point_source r = Exact \<longleftrightarrow> ct_address_visibility r = lit ''public'' \<and> ct_precise_point r \<noteq> None) \<and>
    (ct_public_point_source r = Exact \<longrightarrow> ct_public_point r = ct_precise_point r) \<and>
    (ct_public_point_source r \<noteq> Exact \<longrightarrow> ct_public_point r = map_option rg_centroid (zip_region (w_db w) r)) \<and>
    (ct_public_point_source r = NoPoint \<longleftrightarrow> ct_public_point r = None)"
proof -
  have "pins_ok (w_db w0)" using assms(2,3) by (simp add: pins_ok_def pin_ok_def list_all_iff)
  with assms(1) have "pins_ok (w_db w)" by (rule listings.runs_keep)
  with assms(4) have "(ct_public_point r, ct_public_point_source r) = published (w_db w) r"
    by (simp add: pins_ok_def pin_ok_def list_all_iff)
  then show ?thesis by (auto simp: published_def split: if_splits option.splits)
qed

theorem the_map_follows_the_rule_witness:
  "\<exists>w. listing_runs pinned_world w \<and> contractors (w_db w) = [hidden_listing] \<and> ct_public_point_source hidden_listing \<noteq> Exact"
proof -
  let ?w = "snd (update_profile toy_lib no_others 1 7 hide_address pinned_world)"
  have env: "\<And>k v. listing_runs v (no_others k v)" by (simp add: no_others_def runs_here)
  have "listing_runs pinned_world (run_listing no_others (EditProfile toy_lib 1 7 hide_address :: (nat, nat) listing_request) pinned_world)"
    by (rule runs_request [OF runs_here env])
  then have run: "listing_runs pinned_world ?w" by simp
  have ok: "distinct (map ct_id (contractors (w_db pinned_world)))"
    "\<forall>r \<in> set (contractors (w_db pinned_world)). (ct_public_point r, ct_public_point_source r) = published (w_db pinned_world) r"
    by (simp_all add: pinned_world_def pinned_listing_def published_def bare_listing_def)
  have "hidden_listing \<in> set (contractors (w_db ?w))" by (simp add: hide_address_run)
  from the_map_follows_the_rule [OF run ok this] have "ct_public_point_source hidden_listing \<noteq> Exact"
    by (simp add: hidden_listing_def lit_def)
  with run hide_address_run show ?thesis by blast
qed

subsection \<open>A cleared address\<close>

text \<open>
  C17. An owner who withdraws the address of a listing the register has no address for stays on the map where they were: the
  edit is stored, but there is nothing to geocode any more, so no job is queued and the old point stays published, exactly if it was.
\<close>

theorem cleared_address_keeps_its_pin:
  assumes run: "update_profile L no_others caller i body w = (Inr (), w')"
    and edit: "up_owner_address body = Some None" "up_address_visibility body = None"
    and r: "find_contractor (w_db w) i = Some r" "ct_license_record_id r = None"
  shows "\<exists>r'. find_contractor (w_db w') i = Some r' \<and> ct_owner_line1 r' = None \<and>
    ct_public_point r' = ct_public_point r \<and> ct_public_point_source r' = ct_public_point_source r \<and>
    geocode_queue (w_db w') = geocode_queue (w_db w)"
proof -
  let ?w1 = "w\<lparr>w_calls := Suc (Suc (w_calls w))\<rparr>"
  obtain u where u: "read_update body = Inr u" and tx: "transaction (update_profile_tx L i u) ?w1 = (Inr (), w')"
    using run by (auto simp: update_profile_def no_others_alone bind_Inr_iff seq_Inr_iff acquire_def contractors_claimed_by_def
        query_Inr_iff split: if_splits dest!: round_trip_world)
  have e: "pu_owner_address u = Cleared" "pu_address_visibility u = None"
    using u edit by (auto simp: read_update_def edit_of_def map_edit_def read_visibility_def split: sum.splits)
  obtain y v1 v2 where up: "contractors_update_profile i u (?w1\<lparr>w_calls := Suc (w_calls ?w1)\<rparr>) = (Inr y, v1)"
    and rl: "relocate_after_address_change L i v1 = (Inr (), v2)" and w': "w_db w' = w_db v2"
    using tx e by (auto simp: update_profile_tx_def seq_Inr_iff elim!: transaction_Inr)
  have v1: "w_db v1 = set_contractor i (profile_row u) (w_db w)"
    using contractor_sql_InrD [OF up [unfolded contractors_update_profile_def]] r(1) by auto
  have id: "ct_id (profile_row u x) = ct_id x" for x by (simp add: profile_row_def split: prod.split)
  have f: "find_contractor (w_db v1) i = Some (profile_row u r)" using r(1) by (simp add: v1 find_set_contractor id)
  have gone: "address_text (address_parts (w_db v1) (profile_row u r)) = None"
    using e(1) r(2) by (simp add: address_parts_def find_license_def profile_row_def edit_parts_def written_def coalesce_def
        address_text_def Let_def map_filter_simps)
  have "w_db v2 = w_db v1"
    using rl f gone by (auto simp: relocate_after_address_change_def contractors_geocodable_address_def bind_Inr_iff query_Inr_iff)
  with f w' v1 e show ?thesis
    by (simp add: profile_row_def edit_parts_def written_def set_contractor_def)
qed

definition addressed_listing :: contractor_row where
  "addressed_listing = pinned_listing\<lparr>ct_owner_line1 := Some (lit ''1 Elm''), ct_owner_city := Some (lit ''LA''),
     ct_owner_state := Some (lit ''CA''), ct_owner_postal_code := Some (lit ''90001'')\<rparr>"

definition withdraw_address :: update_profile_request where
  "withdraw_address = hide_address\<lparr>up_address_visibility := None, up_owner_address := Some None\<rparr>"

lemma withdraw_address_run:
  "fst (update_profile toy_lib no_others 1 7 withdraw_address (pinned_world\<lparr>w_db := (w_db pinned_world)\<lparr>contractors := [addressed_listing]\<rparr>\<rparr>)) = Inr ()"
proof -
  have u: "read_update withdraw_address = Inr \<lparr>pu_bio = None, pu_website_url = None, pu_public_phone = None, pu_accepts_dm = None,
      pu_address_visibility = None, pu_owner_address = Cleared, pu_google_review_url = Unchanged, pu_yelp_url = Unchanged\<rparr>"
    by (simp add: read_update_def withdraw_address_def hide_address_def read_visibility_def edit_of_def map_edit_def)
  have v: "\<not> up_verified withdraw_address" by (simp add: withdraw_address_def hide_address_def)
  show ?thesis
    by (simp add: update_profile_def v u no_others_alone
     bind_def seq_def acquire_def round_trip_def pinned_world_def contractors_claimed_by_def query_def sql_def listing_of_def
     addressed_listing_def pinned_listing_def bare_listing_def of_res_def transaction_def update_profile_tx_def contractors_update_profile_def contractor_sql_def
     update_contractor_def find_contractor_def profile_row_def edit_parts_def written_def coalesce_def contractor_check_def opt_len_le_def opt_pos_def
     contractor_taken_def claimant_missing_def user_exists_def set_contractor_def ret_def Let_def relocate_after_address_change_def
     contractors_geocodable_address_def address_text_def address_parts_def find_license_def map_filter_simps)
qed

theorem cleared_address_keeps_its_pin_witness:
  "\<exists>w' r'. update_profile toy_lib no_others 1 7 withdraw_address
       (pinned_world\<lparr>w_db := (w_db pinned_world)\<lparr>contractors := [addressed_listing]\<rparr>\<rparr>) = (Inr (), w') \<and>
     find_contractor (w_db w') 7 = Some r' \<and> ct_owner_line1 r' = None \<and> ct_public_point r' = Some (1, 2) \<and>
     ct_public_point_source r' = Exact"
proof -
  let ?w = "pinned_world\<lparr>w_db := (w_db pinned_world)\<lparr>contractors := [addressed_listing]\<rparr>\<rparr>"
  obtain w' where run: "update_profile toy_lib no_others 1 7 withdraw_address ?w = (Inr (), w')"
    using withdraw_address_run by (metis prod.collapse)
  have "up_owner_address withdraw_address = Some None" "up_address_visibility withdraw_address = None"
    "find_contractor (w_db ?w) 7 = Some addressed_listing" "ct_license_record_id addressed_listing = None"
    by (simp_all add: withdraw_address_def find_contractor_def addressed_listing_def pinned_listing_def bare_listing_def)
  from cleared_address_keeps_its_pin [OF run this] run show ?thesis
    by (auto simp: addressed_listing_def pinned_listing_def)
qed
end
