(* ===== verification/Job_Properties.thy ===== *)
theory Job_Properties
  imports Jobs Listing_Pins
begin

text \<open>
  What holds of every run of the job board's writes: a posted job keeps its content, moves only between open and closed until it
  is cancelled, and then never changes again; a post or a cancellation happens completely or not at all.
\<close>

subsection \<open>The life of a job\<close>

definition jobs_ok :: "db \<Rightarrow> bool" where
  "jobs_ok d \<longleftrightarrow> distinct (map jb_id (jobs d)) \<and> list_all posting_check (jobs d)"

text \<open>What may become of a row: its status and the two times that go with it, and nothing once it is cancelled.\<close>

definition content :: "posting_row \<Rightarrow> posting_row" where
  "content r = r\<lparr>jb_status := [], jb_closed_at := None, jb_updated_at := 0\<rparr>"

definition same_posting :: "posting_row \<Rightarrow> posting_row \<Rightarrow> bool" where
  "same_posting r r' \<longleftrightarrow> content r' = content r"

lemma content_moved [simp]:
  "content (r\<lparr>jb_status := s\<rparr>) = content r" "content (r\<lparr>jb_closed_at := c\<rparr>) = content r"
  "content (r\<lparr>jb_updated_at := u\<rparr>) = content r"
  by (simp_all add: content_def)

definition evolves :: "posting_row \<Rightarrow> posting_row \<Rightarrow> bool" where
  "evolves r r' \<longleftrightarrow> same_posting r r' \<and> (jb_status r = lit ''cancelled'' \<longrightarrow> r' = r)"

definition life_of :: "posting_row \<Rightarrow> db \<Rightarrow> bool" where
  "life_of r d \<longleftrightarrow> jobs_ok d \<and> (\<exists>r'. find_posting d (jb_id r) = Some r' \<and> evolves r r')"

lemma evolves_refl [simp]: "evolves r r"
  by (simp add: evolves_def same_posting_def)

lemma evolves_trans: "evolves r s \<Longrightarrow> evolves s t \<Longrightarrow> evolves r t"
  by (auto simp: evolves_def same_posting_def)

lemma content_id: "content r' = content r \<Longrightarrow> jb_id r' = jb_id r"
proof -
  assume "content r' = content r"
  then have "jb_id (content r') = jb_id (content r)" by (rule arg_cong)
  then show ?thesis by (simp add: content_def)
qed

lemma evolves_id: "evolves r r' \<Longrightarrow> jb_id r' = jb_id r"
  unfolding evolves_def same_posting_def by (elim conjE) (rule content_id)

text \<open>An update of open or closed rows that only moves the status.\<close>

lemma life_of_set_posting:
  assumes life: "life_of r d" and check: "\<And>x. x \<in> set (jobs d) \<Longrightarrow> p x \<Longrightarrow> posting_check (f x)"
    and step: "\<And>x. p x \<Longrightarrow> evolves x (f x)"
  shows "life_of r (set_posting p f d)"
proof -
  let ?g = "\<lambda>x. if p x then f x else x"
  have g: "evolves x (?g x)" for x using step by simp
  then have id: "jb_id (?g x) = jb_id x" for x by (rule evolves_id)
  have "find (\<lambda>x. jb_id x = i) (map ?g xs) = map_option ?g (find (\<lambda>x. jb_id x = i) xs)" for i xs
    by (rule find_map_same) (simp only: id)
  then have find: "find_posting (set_posting p f d) i = map_option ?g (find_posting d i)" for i
    by (simp add: find_posting_def set_posting_def)
  have "map jb_id (jobs (set_posting p f d)) = map jb_id (jobs d)" using id by (simp add: set_posting_def)
  moreover have "list_all posting_check (jobs (set_posting p f d))"
    using life check by (auto simp: life_of_def jobs_ok_def set_posting_def list_all_iff)
  moreover obtain r' where "find_posting d (jb_id r) = Some r'" "evolves r r'" using life by (auto simp: life_of_def)
  ultimately show ?thesis using life find [of "jb_id r"] evolves_trans [OF _ g] by (auto simp: life_of_def jobs_ok_def)
qed

lemma keeps_life_close: "keeps (life_of r) (jobs_close i poster s)"
  unfolding jobs_close_def
proof (rule keeps_sql)
  fix now d x d'
  assume life: "life_of r d" and st: "close_stmt i poster s now d = Inr (x, d')"
  then have d': "d' = set_posting (closable i poster) (closed_posting s now) d"
    and chk: "\<not> list_ex (\<lambda>r. closable i poster r \<and> \<not> posting_check (closed_posting s now r)) (jobs d)"
    by (auto simp: close_stmt_def split: if_splits)
  show "life_of r d'" unfolding d'
    by (rule life_of_set_posting [OF life]) (use chk in \<open>auto simp: list_ex_iff closable_def closed_posting_def evolves_def same_posting_def lit_def\<close>)
qed

lemma keeps_life_reopen: "keeps (life_of r) (jobs_reopen i poster)"
  unfolding jobs_reopen_def
proof (rule keeps_sql)
  fix now d x d'
  assume life: "life_of r d" and st: "reopen_stmt i poster now d = Inr (x, d')"
  then have d': "d' = set_posting (reopenable i poster) (reopened_posting now) d"
    and chk: "\<not> list_ex (\<lambda>r. reopenable i poster r \<and> \<not> posting_check (reopened_posting now r)) (jobs d)"
    by (auto simp: reopen_stmt_def split: if_splits)
  show "life_of r d'" unfolding d'
    by (rule life_of_set_posting [OF life]) (use chk in \<open>auto simp: list_ex_iff reopenable_def reopened_posting_def evolves_def same_posting_def lit_def\<close>)
qed

lemma keeps_life_insert: "keeps (life_of r) (jobs_insert j)"
proof -
  have "keeps (life_of r) (sql (insert_posting_stmt j))"
    by (rule keeps_sql) (auto simp: insert_posting_stmt_def Let_def life_of_def jobs_ok_def find_posting_def find_append posting_exists_def
        posting_of_def split: if_splits option.splits)
  then show ?thesis unfolding jobs_insert_def by (intro keeps_intros)
qed

text \<open>Statements on other tables.\<close>

lemma life_of_frame: "jobs d' = jobs d \<Longrightarrow> life_of r d' = life_of r d"
  by (simp add: life_of_def jobs_ok_def find_posting_def)

lemma keeps_life_elsewhere:
  assumes "\<And>now d x d'. q now d = Inr (x, d') \<Longrightarrow> jobs d' = jobs d"
  shows "keeps (life_of r) (sql q)"
proof (rule keeps_sql)
  fix now d x d'
  assume "life_of r d" "q now d = Inr (x, d')"
  then show "life_of r d'" by (subst life_of_frame [of d' d]) (rule assms)
qed

lemma keeps_life_audit: "keeps (life_of r) (audit_record e)"
  unfolding audit_record_def by (intro keeps_intros keeps_life_elsewhere) (auto simp: Let_def split: if_splits)

lemma keeps_life_photos: "keeps (life_of r) (job_photos_delete_all i)"
  unfolding job_photos_delete_all_def
proof (rule keeps_execute)
  fix now d
  assume "life_of r d"
  then show "life_of r (d\<lparr>job_photos := filter (\<lambda>r. ph_owner r \<noteq> i) (job_photos d)\<rparr>)"
    by (subst life_of_frame [of _ d]) simp
qed

lemma keeps_job_reads: "keeps P (job_photos_keys i)" "keeps P (own_job poster i)" "keeps P (jobs_for_poster poster)" "keeps P (reference_find_zcta code)"
  "keeps P (resolve_trade slug)"
  unfolding job_photos_keys_def own_job_def jobs_poster_of_def jobs_for_poster_def reference_find_zcta_def resolve_trade_def reference_trade_ids_for_slugs_def
  by (intro keeps_intros | simp add: keeps_intros split: list.split)+

lemmas job_keeps = keeps_intros keeps_life_close keeps_life_reopen keeps_life_insert keeps_life_audit keeps_life_photos keeps_job_reads

subsection \<open>Every run\<close>

datatype ('d, 'p) job_request =
    PostJob lib ustr account_type uuid post_job_request "ustr option"
  | ReopenJob uuid uuid "ustr option"
  | CloseJob "('d, 'p) photo_setting" uuid uuid "ustr option" "ustr option"
  | AttachPhoto "('d, 'p) photo_setting" uuid uuid bytes "ustr option"
  | RemoveJobPhoto "('d, 'p) photo_setting" uuid uuid uuid "ustr option"

fun run_job :: "env \<Rightarrow> ('d, 'p) job_request \<Rightarrow> world \<Rightarrow> world" where
  "run_job env (PostJob L pepper account caller body req) w = snd (post_job L pepper env account caller body req w)"
| "run_job env (ReopenJob poster i req) w = snd (reopen env poster i req w)"
| "run_job env (CloseJob c caller i status req) w =
     snd (close_job (ps_storage c) (with_store c env) caller i status req (ps_state c) w)"
| "run_job env (AttachPhoto c poster i bytes req) w =
     snd (attach_photo (ps_lib c) (ps_pepper c) (ps_codec c) (ps_storage c) (with_store c env) poster i bytes req (ps_state c) w)"
| "run_job env (RemoveJobPhoto c poster i pid req) w =
     snd (remove_job_photo (ps_storage c) (with_store c env) poster i pid req (ps_state c) w)"

lemma keeps_life_photo_rows [keeps_intros]:
  "keeps (life_of r) (job_photos_insert p)" "keeps (life_of r) (job_photos_delete i pid)"
  unfolding job_photos_insert_def job_photos_delete_def
  by (intro keeps_life_elsewhere; auto split: sum.splits prod.splits if_splits)+

lemma keeps_job_count [keeps_intros]: "keeps P (job_photos_count i)"
  unfolding job_photos_count_def by (intro keeps_intros)

lemma keeps_post:
  assumes "undisturbed (life_of r) env"
  shows "keeps (life_of r) (post L pepper env poster input req)"
  unfolding post_def post_tx_def limited_def
  by (intro keeps_after_undisturbed assms job_keeps keeps_enforce)

lemma skeeps_if: "(b \<Longrightarrow> skeeps P f) \<Longrightarrow> (\<not> b \<Longrightarrow> skeeps P g) \<Longrightarrow> skeeps P (if b then f else g)"
  by simp

lemma skeeps_delete_each:
  "undisturbed P env \<Longrightarrow> skeeps P (delete_each G (with_store c env) k keys)"
  by (induction keys arbitrary: k) (auto intro!: skeeps_intros skeeps_after_all keeps_intros)

lemma skeeps_close:
  assumes "undisturbed (life_of r) env"
  shows "skeeps (life_of r) (close G (with_store c env) poster i status req)"
  unfolding close_def close_tx_def take_down_def
  by (intro skeeps_if skeeps_intros skeeps_after_all skeeps_delete_each assms job_keeps)

interpretation postings: served run_job jobs "life_of r" for r
proof
  show "jobs d = jobs d' \<Longrightarrow> life_of r d \<Longrightarrow> life_of r d'" for d d'
    using life_of_frame [of d d'] by simp
  fix env and q :: "('d, 'p) job_request" and w :: world
  assume env: "undisturbed (life_of r) env" and ok: "life_of r (w_db w)"
  have snd: "keeps (life_of r) f \<Longrightarrow> life_of r (w_db (snd (f w)))" for f :: "'x m"
    using ok by (metis keepsD prod.collapse)
  show "life_of r (w_db (run_job env q w))"
  proof (cases q)
    case (PostJob L pepper account caller body req)
    have "keeps (life_of r) (post_job L pepper env account caller body req)"
      unfolding post_job_def by (intro keeps_intros keeps_post env)
    with PostJob show ?thesis by (simp add: snd)
  next
    case (ReopenJob poster i req)
    have "keeps (life_of r) (reopen env poster i req)"
      unfolding reopen_def reopen_tx_def by (intro keeps_after_undisturbed env job_keeps)
    with ReopenJob show ?thesis by (simp add: snd)
  next
    case (CloseJob c caller i status req)
    have "skeeps (life_of r) (close_job (ps_storage c) (with_store c env) caller i status req)"
      by (simp add: close_job_def Let_def skeeps_close [OF env] skeeps_on_db keeps_throw)
    with CloseJob show ?thesis using ok by (simp add: skeepsD)
  next
    case (AttachPhoto c poster i bytes req)
    have "skeeps (life_of r) (attach_photo (ps_lib c) (ps_pepper c) (ps_codec c) (ps_storage c) (with_store c env) poster i bytes req)"
      unfolding attach_photo_def photo_limited_def
      by (intro skeeps_if skeeps_intros skeeps_after_all env job_keeps keeps_enforce keeps_life_photo_rows keeps_job_count)
    with AttachPhoto show ?thesis using ok by (simp add: skeepsD)
  next
    case (RemoveJobPhoto c poster i pid req)
    have "skeeps (life_of r) (remove_job_photo (ps_storage c) (with_store c env) poster i pid req)"
      unfolding remove_job_photo_def remove_job_photo_tx_def
      by (intro skeeps_intros skeeps_after_all env job_keeps keeps_life_photo_rows)
    with RemoveJobPhoto show ?thesis using ok by (simp add: skeepsD)
  qed
qed

abbreviation job_runs :: "world \<Rightarrow> world \<Rightarrow> bool" where
  "job_runs \<equiv> runs (run_job :: env \<Rightarrow> (nat, nat) job_request \<Rightarrow> world \<Rightarrow> world) jobs"

lemma same_posting_moved: "same_posting r r' \<Longrightarrow>
  r' = r\<lparr>jb_status := jb_status r', jb_closed_at := jb_closed_at r', jb_updated_at := jb_updated_at r'\<rparr>"
  by (cases r; cases r') (simp add: same_posting_def content_def)

text \<open>
  C6. However posting, closing, cancelling, reopening and photo requests interleave, a posted job is never lost and keeps its content:
  only its status and the two times that go with it move. Once cancelled it never changes again. It is open exactly while it has no closing time, never
  shows an exact address, and its row is always read back without an error.
\<close>

theorem a_posted_job_only_opens_and_closes:
  assumes "job_runs w0 w" and "distinct (map jb_id (jobs (w_db w0)))" and "list_all posting_check (jobs (w_db w0))"
    and "r \<in> set (jobs (w_db w0))"
  shows "\<exists>r'. find_posting (w_db w) (jb_id r) = Some r' \<and>
    r' = r\<lparr>jb_status := jb_status r', jb_closed_at := jb_closed_at r', jb_updated_at := jb_updated_at r'\<rparr> \<and>
    (jb_status r = lit ''cancelled'' \<longrightarrow> r' = r) \<and> (jb_status r' = lit ''open'' \<longleftrightarrow> jb_closed_at r' = None) \<and>
    jb_public_point_source r' \<noteq> Exact \<and> (\<exists>p. into_owner (w_db w) r' = Inr p)"
proof -
  have "find_posting (w_db w0) (jb_id r) = Some r"
    unfolding find_posting_def using assms(2,4) by (rule find_unique)
  then have "life_of r (w_db w0)" using assms(2,3) by (simp add: life_of_def jobs_ok_def)
  with assms(1) have "life_of r (w_db w)" by (rule postings.runs_keep)
  then obtain r' where r': "find_posting (w_db w) (jb_id r) = Some r'" "evolves r r'" "list_all posting_check (jobs (w_db w))"
    by (auto simp: life_of_def jobs_ok_def)
  then have "posting_check r'" by (auto simp: find_posting_def list_all_iff dest: find_Some_in)
  moreover from this obtain p where "into_public (w_db w) None None r' = Inr p" using posting_check_decodes by blast
  ultimately show ?thesis using r' same_posting_moved [of r r']
    by (auto simp: evolves_def posting_check_def into_owner_def simp del: posting_row.simps)
qed

text \<open>A closed job, and its poster who reopens it.\<close>

definition closed_job :: posting_row where
  "closed_job = \<lparr>jb_id = 7, jb_posted_by = 1, jb_title = lit ''Roof'', jb_description = replicate 50 97, jb_trade_id = None,
     jb_status = lit ''closed'', jb_build_type = lit ''repair'', jb_job_size = lit ''one'', jb_budget_min = Some 100,
     jb_budget_max = Some 200, jb_timeline = lit ''asap'', jb_postal_code = lit ''90001'', jb_region_id = None,
     jb_public_point = None, jb_public_point_source = NoPoint, jb_closed_at = Some 5, jb_created_at = 1, jb_updated_at = 5,
     jb_alerts_matched_at = None\<rparr>"

definition poster_account :: user_row where
  "poster_account = \<lparr>u_id = 1, u_email = None, u_display_name = lit ''Ann'', u_status = lit ''active'',
     u_account_type = lit ''homeowner'', u_email_verified_at = None, u_created_at = 0\<rparr>"

definition job_world :: world where
  "job_world = calm_world (empty_db\<lparr>users := [poster_account], jobs := [closed_job]\<rparr>) 9"

lemma btrim_long: "dropWhile (\<lambda>c. c = 32) (replicate n (97::nat)) = replicate n 97"
  by (cases n) simp_all

lemma closed_job_check: "posting_check closed_job"
  by (simp add: posting_check_def closed_job_def five_digits_def is_digit_def lit_def btrim_def trim_by_def btrim_long)

definition reopened_job :: posting_row where
  "reopened_job = reopened_posting 9 closed_job"

lemma reopened_job_check: "posting_check reopened_job"
  using closed_job_check by (simp add: reopened_job_def reopened_posting_def posting_check_def closed_job_def)

lemma reopen_run: "jobs (w_db (snd (reopen no_others 1 7 None job_world))) = [reopened_job]"
  using reopened_job_check unfolding reopened_job_def
  by (simp add: reopen_def no_others_alone job_world_def transaction_def bind_def seq_def round_trip_def reopen_tx_def own_job_def
      jobs_poster_of_def query_def sql_def find_posting_def ret_def jobs_reopen_def reopen_stmt_def reopenable_def set_posting_def
      audit_record_def new_id_def Let_def domain_event_def ev_actor_def ev_subject_def ev_with_data_def ev_with_request_def
      audit_event_new_def audit_row_of_def audit_check_def user_exists_def poster_account_def
      closed_job_def [THEN arg_cong [of _ _ jb_id]] closed_job_def [THEN arg_cong [of _ _ jb_posted_by]]
      closed_job_def [THEN arg_cong [of _ _ jb_status]] opt_len_le_def btrim_def trim_by_def lit_def empty_db_def)

theorem a_posted_job_only_opens_and_closes_witness:
  "\<exists>w. job_runs job_world w \<and> find_posting (w_db w) 7 = Some reopened_job \<and> (\<exists>p. into_owner (w_db w) reopened_job = Inr p)"
proof -
  let ?w = "snd (reopen no_others 1 7 None job_world)"
  have env: "\<And>k v. job_runs v (no_others k v)" by (simp add: no_others_def runs_here)
  have "job_runs job_world (run_job no_others (ReopenJob 1 7 None :: (nat, nat) job_request) job_world)"
    by (rule runs_request [OF runs_here env])
  then have run: "job_runs job_world ?w" by simp
  have ok: "distinct (map jb_id (jobs (w_db job_world)))" "list_all posting_check (jobs (w_db job_world))"
    "closed_job \<in> set (jobs (w_db job_world))"
    using closed_job_check by (simp_all add: job_world_def)
  have "find_posting (w_db ?w) 7 = Some reopened_job"
    by (simp add: find_posting_def reopen_run reopened_job_def reopened_posting_def closed_job_def)
  with a_posted_job_only_opens_and_closes [OF run ok] run show ?thesis by (auto simp: closed_job_def)
qed

subsection \<open>Posting\<close>

lemma find_ZctaD: "reference_find_zcta code w = (Inr g, w') \<Longrightarrow> g = find (\<lambda>r. rg_code r = code) (zctas (w_db w)) \<and> w_db w' = w_db w"
  by (auto simp: reference_find_zcta_def query_Inr_iff)

lemma resolve_trade_db: "resolve_trade slug w = (r, w') \<Longrightarrow> w_db w' = w_db w"
  using keepsD [OF keeps_job_reads(5), of slug w r w' "\<lambda>d. d = w_db w"] by simp

lemma jobs_insert_InrD:
  assumes "jobs_insert j w = (Inr i, w')"
  shows "nj_id j \<notin> jb_id ` set (jobs (w_db w)) \<and> posting_check (posting_of (w_clock w) j) \<and> w_clock w' = w_clock w \<and>
    w_db w' = (w_db w)\<lparr>jobs := jobs (w_db w) @ [posting_of (w_clock w) j]\<rparr>"
  using assms by (auto simp: jobs_insert_def seq_Inr_iff sql_Inr_iff insert_posting_stmt_def Let_def posting_exists_def split: if_splits)

lemma jobs_for_poster_InrD:
  assumes "jobs_for_poster poster w = (Inr mine, w')" and "find (\<lambda>j. pj_id (oj_public j) = i) mine = Some j"
  shows "w_db w' = w_db w \<and> (\<exists>r \<in> set (jobs (w_db w)). jb_id r = i \<and> into_owner (w_db w) r = Inr j)"
proof -
  obtain rows where rows: "rows = take 200 (newest_first (filter (\<lambda>r. jb_posted_by r = poster) (jobs (w_db w))))"
    and c: "collect_res (into_owner (w_db w)) rows = Inr mine" and db: "w_db w' = w_db w"
    using assms(1) by (auto simp: jobs_for_poster_def bind_Inr_iff query_Inr_iff)
  from find_Some_in [OF assms(2)] have j: "j \<in> set mine" "pj_id (oj_public j) = i" by auto
  with list_all2_source [OF collect_res_InrD [OF c]] obtain r where r: "r \<in> set rows" "into_owner (w_db w) r = Inr j" by blast
  then have "r \<in> set (jobs (w_db w))" using rows by (auto dest!: in_set_takeD)
  moreover obtain p where "into_public (w_db w) None None r = Inr p" "oj_public j = p"
    using r(2) by (auto simp: into_owner_def split: sum.splits)
  with j(2) have "jb_id r = i" by (auto dest: into_public_sel(1))
  ultimately show ?thesis using r(2) db by blast
qed

lemma post_tx_InrD:
  assumes "post_tx poster c req w = (Inr j, w')"
  shows "\<exists>row a. w_db w' = (w_db w)\<lparr>jobs := jobs (w_db w) @ [row], audit_log := audit_log (w_db w) @ [a]\<rparr> \<and>
    a_action a = lit ''job.posted'' \<and> a_subject_id a = Some (jb_id row) \<and> a_actor_user_id a = Some poster \<and>
    posting_check row \<and> jb_posted_by row = poster \<and> jb_title row = pi_title c \<and> jb_description row = pi_description c \<and>
    jb_status row = lit ''open'' \<and> jb_postal_code row = pi_postal_code c \<and>
    jb_public_point row = map_option rg_centroid (find (\<lambda>g. rg_code g = pi_postal_code c) (zctas (w_db w))) \<and> into_owner (w_db w') row = Inr j"
proof -
  obtain t w1 g w2 i w3 i' w4 e k w5 mine where t: "resolve_trade (pi_trade_slug c) w = (Inr t, w1)"
    and g: "reference_find_zcta (pi_postal_code c) w1 = (Inr g, w2)" and i: "new_id w2 = (Inr i, w3)"
    and ins: "jobs_insert \<lparr>nj_id = i, nj_posted_by = poster, nj_title = pi_title c, nj_description = pi_description c,
      nj_trade_id = t, nj_build_type = pi_build_type c, nj_job_size = pi_job_size c, nj_budget = pi_budget c,
      nj_timeline = pi_timeline c, nj_postal_code = pi_postal_code c, nj_region_id = map_option rg_id g,
      nj_centroid = map_option rg_centroid g\<rparr> w3 = (Inr i', w4)"
    and au: "audit_record (domain_event ''job.posted'' ''jobs'' ActorUser poster i e req) w4 = (Inr k, w5)"
    and rd: "jobs_for_poster poster w5 = (Inr mine, w')" "find (\<lambda>j. pj_id (oj_public j) = i) mine = Some j"
    using assms by (auto simp: post_tx_def bind_Inr_iff seq_Inr_iff split: option.splits)
  let ?row = "posting_of (w_clock w3) \<lparr>nj_id = i, nj_posted_by = poster, nj_title = pi_title c, nj_description = pi_description c,
      nj_trade_id = t, nj_build_type = pi_build_type c, nj_job_size = pi_job_size c, nj_budget = pi_budget c,
      nj_timeline = pi_timeline c, nj_postal_code = pi_postal_code c, nj_region_id = map_option rg_id g,
      nj_centroid = map_option rg_centroid g\<rparr>"
  have db: "w_db w3 = w_db w" "g = find (\<lambda>r. rg_code r = pi_postal_code c) (zctas (w_db w))"
    using resolve_trade_db [OF t] find_ZctaD [OF g] i by (auto simp: new_id_iff)
  from jobs_insert_InrD [OF ins] db(1) have new: "i \<notin> jb_id ` set (jobs (w_db w))" "posting_check ?row"
    and w4: "w_db w4 = (w_db w)\<lparr>jobs := jobs (w_db w) @ [?row]\<rparr>" by auto
  from jobs_for_poster_InrD [OF rd] obtain r where w': "w_db w' = w_db w5" and r: "r \<in> set (jobs (w_db w5))" "jb_id r = i"
    "into_owner (w_db w5) r = Inr j" by auto
  let ?a = "audit_row_of (w_clock w4) k (domain_event ''job.posted'' ''jobs'' ActorUser poster i e req)"
  have w5: "w_db w5 = (w_db w)\<lparr>jobs := jobs (w_db w) @ [?row], audit_log := audit_log (w_db w) @ [?a]\<rparr>"
    using audit_record_InrD [OF au] w4 by simp
  have a: "a_action ?a = lit ''job.posted''" "a_subject_id ?a = Some i" "a_actor_user_id ?a = Some poster"
    by (simp_all add: audit_row_of_def domain_event_def ev_actor_def ev_subject_def ev_with_data_def ev_with_request_def audit_event_new_def)
  have "r = ?row" using r(1,2) new(1) by (auto simp: w5 posting_of_def)
  with r(3) w' have "into_owner (w_db w') ?row = Inr j" by simp
  with new(2) a show ?thesis unfolding w' w5
    by (intro exI [of _ ?row] exI [of _ ?a]) (simp add: db(2) posting_of_def)
qed

lemma length_btrim: "length (btrim s) \<le> length s"
  using length_dropWhile_le [of "\<lambda>c. c = 32" s] length_dropWhile_le [of "\<lambda>c. c = 32" "rev (dropWhile (\<lambda>c. c = 32) s)"]
  by (simp add: btrim_def trim_by_def)

lemma check_post_InrD:
  assumes "check_post input = Inr c"
  shows "c = input\<lparr>pi_title := trim (pi_title input), pi_description := trim (pi_description input),
      pi_job_size := trim (pi_job_size input), pi_postal_code := trim (pi_postal_code input)\<rparr>"
  using assms by (auto simp: check_post_def Let_def split: if_splits option.splits prod.splits)

text \<open>
  C7. A job is posted whole or not at all. On success the input passed its checks, and one transaction stored, beside what was
  there, exactly one open row with the trimmed texts, placed at the centroid of its ZIP area if there is one and never at an address, and exactly one audit
  entry that names it; the answer is that row read back. On an error the tables are as another request left them.
\<close>

theorem a_post_is_stored_whole:
  assumes run: "post L pepper env poster input req w = (r, w')"
  shows "case r of
      Inl e \<Rightarrow> \<exists>v. (\<exists>x. limited L pepper env job_post_policy poster w = (x, v)) \<and> (w_db w' = w_db v \<or> w_db w' = w_db (env 1 v))
    | Inr j \<Rightarrow> \<exists>v c row a. limited L pepper env job_post_policy poster w = (Inr (), v) \<and> check_post input = Inr c \<and>
        w_db w' = (w_db (env 1 v))\<lparr>jobs := jobs (w_db (env 1 v)) @ [row], audit_log := audit_log (w_db (env 1 v)) @ [a]\<rparr> \<and>
        a_action a = lit ''job.posted'' \<and> a_subject_id a = Some (jb_id row) \<and> a_actor_user_id a = Some poster \<and>
        jb_posted_by row = poster \<and> jb_title row = trim (pi_title input) \<and> jb_description row = trim (pi_description input) \<and>
        50 \<le> length (jb_description row) \<and> jb_status row = lit ''open'' \<and> jb_public_point_source row \<noteq> Exact \<and>
        jb_public_point row = map_option rg_centroid (find (\<lambda>g. rg_code g = trim (pi_postal_code input)) (zctas (w_db (env 1 v)))) \<and>
        into_owner (w_db w') row = Inr j"
proof (cases r)
  case (Inl e)
  with run show ?thesis
    by (auto simp: post_def seq_Inl_iff bind_Inl_iff after_others_iff dest!: transaction_Inl_db)
next
  case (Inr j)
  with run obtain v c where v: "limited L pepper env job_post_policy poster w = (Inr (), v)" and c: "check_post input = Inr c"
    and tx: "transaction (post_tx poster c req) (env 1 v) = (Inr j, w')"
    by (auto simp: post_def seq_Inr_iff bind_Inr_iff after_others_iff)
  from tx obtain v1 where body: "post_tx poster c req ((env 1 v)\<lparr>w_calls := Suc (w_calls (env 1 v))\<rparr>) = (Inr j, v1)"
    and w': "w_db w' = w_db v1" by (auto elim!: transaction_Inr)
  from post_tx_InrD [OF body] obtain row a where
    db: "w_db w' = (w_db (env 1 v))\<lparr>jobs := jobs (w_db (env 1 v)) @ [row], audit_log := audit_log (w_db (env 1 v)) @ [a]\<rparr>"
    and a: "a_action a = lit ''job.posted''" "a_subject_id a = Some (jb_id row)" "a_actor_user_id a = Some poster"
    and row: "posting_check row" "jb_posted_by row = poster" "jb_title row = pi_title c" "jb_description row = pi_description c"
      "jb_status row = lit ''open''"
      "jb_public_point row = map_option rg_centroid (find (\<lambda>g. rg_code g = pi_postal_code c) (zctas (w_db (env 1 v))))"
    and shown: "into_owner (w_db w') row = Inr j"
    by (auto simp: w')
  have "50 \<le> length (jb_description row)"
    using row(1) length_btrim [of "jb_description row"] by (auto simp: posting_check_def)
  moreover have "jb_public_point_source row \<noteq> Exact" using row(1) by (simp add: posting_check_def)
  ultimately have "jb_title row = trim (pi_title input)" "jb_description row = trim (pi_description input)"
    "pi_postal_code c = trim (pi_postal_code input)" "50 \<le> length (jb_description row)" "jb_public_point_source row \<noteq> Exact"
    using row check_post_InrD [OF c] by simp_all
  with v c db a row shown show ?thesis unfolding Inr sum.case
    by (intro exI [of _ v] exI [of _ c] exI [of _ row] exI [of _ a] conjI) simp_all
qed

text \<open>Ann posts a job in a ZIP area that is not on the map.\<close>

definition roof_job :: post_job_input where
  "roof_job = \<lparr>pi_title = lit '' Roof'', pi_description = replicate 50 97, pi_trade_slug = None, pi_build_type = Repair,
     pi_job_size = lit ''one'', pi_postal_code = lit ''90001'', pi_budget = Some (100, 200), pi_timeline = Asap\<rparr>"

definition ann :: db where
  "ann = empty_db\<lparr>users := [poster_account]\<rparr>"

lemma ann_simps [simp]:
  "user_exists ann u \<longleftrightarrow> u = 1" "users ann = [poster_account]" "jobs ann = []" "audit_log ann = []" "zctas ann = []" "trades ann = []"
  by (auto simp: ann_def empty_db_def user_exists_def poster_account_def)

lemma trim_letters: "trim (replicate n (97::nat)) = replicate n 97"
proof -
  have "dropWhile is_whitespace (replicate n 97) = replicate n 97" by (cases n) (simp_all add: is_whitespace_def)
  then show ?thesis by (simp add: trim_def trim_by_def)
qed

lemma roof_job_checked: "check_post roof_job = Inr (roof_job\<lparr>pi_title := lit ''Roof''\<rparr>)"
proof -
  have "trim (lit '' Roof'') = lit ''Roof''" "trim (lit ''one'') = lit ''one''" "trim (lit ''90001'') = lit ''90001''"
    by (simp_all add: trim_def trim_by_def is_whitespace_def lit_def)
  moreover have "utf8_len (lit ''90001'') = 5" "list_all is_digit (lit ''90001'')" "lit ''Roof'' \<noteq> []" "lit ''one'' \<noteq> []"
    "length (lit ''Roof'') \<le> 140" "length (lit ''one'') \<le> 200"
    by (simp_all add: utf8_len_def as_bytes_def utf8_char_def is_digit_def lit_def)
  ultimately show ?thesis
    by (simp add: check_post_def roof_job_def trim_letters Let_def min_description_def)
qed

lemma roof_job_tx:
  assumes "quiet w" and "w_db w = ann" and "w_ids w = (\<lambda>n. 100 + of_nat n)" and "w_next_id w = 0"
  shows "\<exists>j w'. post_tx 1 (roof_job\<lparr>pi_title := lit ''Roof''\<rparr>) None w = (Inr j, w') \<and> quiet w'"
proof -
  let ?j = "\<lparr>nj_id = 100, nj_posted_by = 1, nj_title = lit ''Roof'', nj_description = replicate 50 97, nj_trade_id = None,
    nj_build_type = Repair, nj_job_size = lit ''one'', nj_budget = Some (100, 200), nj_timeline = Asap,
    nj_postal_code = lit ''90001'', nj_region_id = None, nj_centroid = None\<rparr>"
  have chk: "posting_check (posting_of t ?j)" for t
    by (simp add: posting_check_def posting_of_def five_digits_def is_digit_def lit_def btrim_def trim_by_def btrim_long)
  have aud: "audit_check (audit_row_of t i (domain_event ''job.posted'' ''jobs'' ActorUser 1 100 j None))" for t i j
    by (simp add: audit_check_def audit_row_of_def domain_event_def ev_with_request_def ev_with_data_def ev_subject_def
        ev_actor_def audit_event_new_def opt_len_le_def btrim_def trim_by_def lit_def)
  have act: "ev_actor_user_id (domain_event a t k u sb j r) = Some u" for a t k u sb j r
    by (simp add: domain_event_def ev_with_request_def ev_with_data_def ev_subject_def ev_actor_def)
  have row: "jb_posted_by (posting_of t ?j) = 1" "jb_id (posting_of t ?j) = 100" for t by (simp_all add: posting_of_def)
  let ?row = "posting_of (w_clock w) ?j"
  let ?w2 = "w\<lparr>w_calls := Suc (w_calls w)\<rparr>"
  let ?w3 = "?w2\<lparr>w_next_id := Suc 0\<rparr>"
  let ?w4 = "?w3\<lparr>w_calls := Suc (w_calls ?w3), w_db := ann\<lparr>jobs := [?row]\<rparr>\<rparr>"
  have q4: "quiet ?w4" using assms(1) by simp
  have ins: "jobs_insert ?j ?w3 = (Inr 100, ?w4)"
    using assms(1,2) chk [of "w_clock w"]
    by (simp add: jobs_insert_def seq_def bind_def ret_def sql_run [where d = "ann\<lparr>jobs := [?row]\<rparr>" and x = "()"] insert_posting_stmt_def
        Let_def wrong_poster_def poster_account_def posting_exists_def)
  define e where "e = domain_event ''job.posted'' ''jobs'' ActorUser 1 100 [(lit ''trade_id'', JNull),
      (lit ''build_type'', JText (build_type_str Repair)), (lit ''postal_code'', JText (lit ''90001'')), (lit ''located'', JBool False)] None"
  have "case ev_actor_user_id e of None \<Rightarrow> True | Some u \<Rightarrow> user_exists (w_db ?w4) u"
    by (simp add: e_def act user_exists_def poster_account_def)
  moreover have "w_ids ?w4 (w_next_id ?w4) \<notin> a_id ` set (audit_log (w_db ?w4))" by simp
  moreover have "audit_check (audit_row_of (w_clock ?w4) (w_ids ?w4 (w_next_id ?w4)) e)" unfolding e_def by (rule aud)
  ultimately obtain a w5 where au: "audit_record e ?w4 = (Inr a, w5)"
    and w5': "w5 = ?w4\<lparr>w_next_id := Suc (w_next_id ?w4), w_calls := Suc (w_calls ?w4), w_db := (w_db ?w4)\<lparr>audit_log :=
        audit_log (w_db ?w4) @ [audit_row_of (w_clock ?w4) (w_ids ?w4 (w_next_id ?w4)) e]\<rparr>\<rparr>"
    using audit_record_run [OF q4, of e] by blast
  have w5: "quiet w5" unfolding w5' using assms(1) by simp
  obtain l where db5: "w_db w5 = ann\<lparr>jobs := [?row], audit_log := l\<rparr>" unfolding w5' by simp
  obtain pub where pub: "into_public (w_db w5) None None ?row = Inr pub" using posting_check_decodes [OF chk] by blast
  have "pj_id pub = 100" using into_public_sel(1) [OF pub] by (simp add: row)
  moreover obtain o1 where own: "into_owner (w_db w5) ?row = Inr o1" "oj_public o1 = pub" using pub by (simp add: into_owner_def)
  moreover have read: "jobs_for_poster 1 w5 = (Inr [o1], w5\<lparr>w_calls := Suc (w_calls w5)\<rparr>)"
    using own(1) w5 unfolding jobs_for_poster_def by (simp add: bind_def query_run db5 row newest_first_def)
  moreover have nid: "new_id ?w2 = (Inr 100, ?w3)" using assms(3,4) by (simp add: new_id_def)
  moreover have g: "reference_find_zcta (lit ''90001'') w = (Inr None, ?w2)"
    using assms(1,2) by (simp add: reference_find_zcta_def query_run)
  moreover have t: "resolve_trade None w = (Inr None, w)" by (simp add: resolve_trade_def ret_def)
  moreover note ins au [unfolded e_def build_type_str.simps]
  ultimately show ?thesis
    using w5 by (simp add: post_tx_def roof_job_def bind_def seq_def ret_def)
qed

theorem a_post_is_stored_whole_witness:
  "\<exists>j w' row. post toy_lib [] no_others 1 roof_job None (calm_world ann 0) = (Inr j, w') \<and> jobs (w_db w') = [row] \<and>
     jb_title row = lit ''Roof'' \<and> into_owner (w_db w') row = Inr j"
proof -
  obtain rows where e: "enforce toy_lib [] job_post_policy (uuid_to_string toy_lib 1) 0 (calm_world ann 0) =
      (Inr (), (calm_world ann 0)\<lparr>w_calls := 2, w_rates := rows\<rparr>)"
    using enforce_calm_bounded [of job_post_policy "[]" "uuid_to_string toy_lib 1" ann]
    by (auto simp: job_post_policy_def mk_policy_def time_defs)
  let ?v = "(calm_world ann 0)\<lparr>w_calls := 2, w_rates := rows\<rparr>"
  have q: "quiet ?v" by (simp add: quiet_def)
  have ids: "w_ids (calm_world ann 0) = (\<lambda>n. 100 + of_nat n)" by (simp add: calm_world_def)
  obtain j v where tx: "post_tx 1 (roof_job\<lparr>pi_title := lit ''Roof''\<rparr>) None (?v\<lparr>w_calls := Suc (w_calls ?v)\<rparr>) = (Inr j, v)" and v: "quiet v"
    using roof_job_tx [of "?v\<lparr>w_calls := Suc (w_calls ?v)\<rparr>"] q ids by auto
  have l: "limited toy_lib [] no_others job_post_policy 1 (calm_world ann 0) = (Inr (), ?v)"
    using e by (simp add: limited_def bind_def after_no_others utc_now_def)
  have "transaction (post_tx 1 (roof_job\<lparr>pi_title := lit ''Roof''\<rparr>) None) ?v = (Inr j, v\<lparr>w_calls := Suc (w_calls v)\<rparr>)"
    using q tx v by (rule transaction_run)
  with l have run: "post toy_lib [] no_others 1 roof_job None (calm_world ann 0) = (Inr j, v\<lparr>w_calls := Suc (w_calls v)\<rparr>)"
    by (simp add: post_def seq_def bind_def after_no_others of_res_def roof_job_checked)
  from a_post_is_stored_whole [OF run] l run show ?thesis by (auto simp: no_others_def check_post_InrD [OF roof_job_checked] roof_job_def trim_def trim_by_def is_whitespace_def lit_def)
qed

subsection \<open>Cancelling\<close>

lemma delete_each_memory:
  "sg_store G = MemoryStore \<Longrightarrow>
   delete_each G alone k keys s w = ((Inr (), s\<lparr>ss_objects := (\<lambda>x. if x \<in> set keys then None else ss_objects s x)\<rparr>), w)"
proof (induction keys arbitrary: k s)
  case (Cons key keys)
  then show ?case
    by (simp add: sbind_def attempt_def delete_object_def on_store_def store_delete_def fun_eq_iff)
qed (simp add: on_db_def ret_def)

lemma close_tx_InrD:
  assumes "close_tx poster i status req w = (Inr keys, w')"
  shows "jobs (w_db w') = map (\<lambda>r. if closable i poster r then closed_posting status (w_clock w) r else r) (jobs (w_db w)) \<and>
    job_photos (w_db w') = (if status = PCancelled then filter (\<lambda>p. ph_owner p \<noteq> i) (job_photos (w_db w)) else job_photos (w_db w)) \<and>
    keys = (if status = PCancelled then map ph_storage_key (photos_of i (job_photos (w_db w))) else []) \<and>
    length (filter (closable i poster) (jobs (w_db w))) = 1"
  using assms
  by (auto simp: close_tx_def take_down_def own_job_def jobs_poster_of_def jobs_close_def close_stmt_def set_posting_def job_photos_keys_def
      job_photos_delete_all_def bind_Inr_iff seq_Inr_iff query_Inr_iff sql_Inr_iff execute_Inr_iff split: if_splits dest!: audit_record_InrD)


definition shown_photo :: "uuid \<Rightarrow> ustr \<Rightarrow> photo_row" where
  "shown_photo owner key = \<lparr>ph_id = 20, ph_owner = owner, ph_storage_key = key, ph_byte_size = 1, ph_width = 1, ph_height = 1,
     ph_position = 0\<rparr>"

definition local_storage :: storage where
  "local_storage = \<lparr>sg_store = MemoryStore,
     sg_cloud = \<lparr>cd_token = (\<lambda>_. TokenUnreachable []), cd_send = (\<lambda>_ _. CloudUnreachable [])\<rparr>, sg_race = (\<lambda>_ x. x)\<rparr>"

definition local_objects :: store_state where
  "local_objects = \<lparr>ss_slot = None, ss_token_calls = 0, ss_exchanges = [], ss_objects = (\<lambda>k. Some [1])\<rparr>"

definition photo_world :: world where
  "photo_world = calm_world (empty_db\<lparr>users := [poster_account], jobs := [reopened_job],
     job_photos := [shown_photo 7 (lit ''a''), shown_photo 8 (lit ''b'')]\<rparr>) 9"

lemma cancel_run:
  "fst (fst (close local_storage alone 1 7 PCancelled None local_objects photo_world)) = Inr ()"
proof -
  have "posting_check (closed_posting PCancelled 9 reopened_job)"
    using closed_job_check by (simp add: posting_check_def reopened_job_def reopened_posting_def closed_posting_def closed_job_def lit_def)
  moreover have "jb_id reopened_job = 7" "jb_posted_by reopened_job = 1" "jb_status reopened_job = lit ''open''"
    by (simp_all add: reopened_job_def reopened_posting_def closed_job_def)
  moreover have "sg_store local_storage = MemoryStore" by (simp add: local_storage_def)
  ultimately show ?thesis
    by (simp add: close_def sbind_def on_db_def photo_world_def transaction_def bind_def seq_def round_trip_def close_tx_def own_job_def
        jobs_poster_of_def query_def sql_def find_posting_def ret_def jobs_close_def close_stmt_def closable_def set_posting_def
        take_down_def job_photos_keys_def job_photos_delete_all_def execute_def photos_of_def shown_photo_def delete_each_memory
        audit_record_def new_id_def Let_def domain_event_def ev_actor_def ev_subject_def ev_with_data_def ev_with_request_def
        audit_event_new_def audit_row_of_def audit_check_def user_exists_def poster_account_def opt_len_le_def btrim_def trim_by_def
        lit_def empty_db_def del: delete_each.simps)
qed


end
