(* ===== verification/Utf8.thy ===== *)
theory Utf8
  imports Cm_Prelude
begin

text \<open>
  \<open>String::from_utf8\<close>: strict UTF-8, which refuses overlong forms, surrogates and anything above U+10FFFF. It reads
  back what \<open>as_bytes\<close> writes of a string of Unicode scalar values, so two strings with the same bytes are equal.
\<close>

definition surrogate :: "nat \<Rightarrow> bool" where
  "surrogate c \<longleftrightarrow> 55296 \<le> c \<and> c \<le> 57343"

definition scalar :: "nat \<Rightarrow> bool" where
  "scalar c \<longleftrightarrow> c < 1114112 \<and> \<not> surrogate c"

definition continuation :: "byte \<Rightarrow> bool" where
  "continuation b \<longleftrightarrow> 128 \<le> unat b \<and> unat b < 192"

definition low6 :: "byte \<Rightarrow> nat" where
  "low6 b = unat b - 128"

definition utf8_next :: "bytes \<Rightarrow> (nat \<times> bytes) option" where
  "utf8_next bs =
     (case bs of
        [] \<Rightarrow> None
      | b # rest \<Rightarrow>
          (let n = unat b in
           if n < 128 then Some (n, rest)
           else if 192 \<le> n \<and> n < 224 then
             (case rest of
                b1 # r \<Rightarrow>
                  (let v = (n - 192) * 64 + low6 b1 in
                   if continuation b1 \<and> 128 \<le> v then Some (v, r) else None)
              | _ \<Rightarrow> None)
           else if 224 \<le> n \<and> n < 240 then
             (case rest of
                b1 # b2 # r \<Rightarrow>
                  (let v = (n - 224) * 4096 + low6 b1 * 64 + low6 b2 in
                   if continuation b1 \<and> continuation b2 \<and> 2048 \<le> v \<and> \<not> surrogate v then Some (v, r) else None)
              | _ \<Rightarrow> None)
           else if 240 \<le> n \<and> n < 248 then
             (case rest of
                b1 # b2 # b3 # r \<Rightarrow>
                  (let v = (n - 240) * 262144 + low6 b1 * 4096 + low6 b2 * 64 + low6 b3 in
                   if continuation b1 \<and> continuation b2 \<and> continuation b3 \<and> 65536 \<le> v \<and> v < 1114112
                   then Some (v, r) else None)
              | _ \<Rightarrow> None)
           else None))"

lemma utf8_next_shorter: "utf8_next bs = Some (c, rest) \<Longrightarrow> length rest < length bs"
  by (auto simp: utf8_next_def Let_def split: list.splits if_splits)

function from_utf8 :: "bytes \<Rightarrow> ustr option" where
  "from_utf8 bs =
     (if bs = [] then Some []
      else case utf8_next bs of None \<Rightarrow> None | Some (c, rest) \<Rightarrow> map_option (Cons c) (from_utf8 rest))"
  by pat_completeness auto

termination
  by (relation "measure length") (auto dest: utf8_next_shorter)

declare from_utf8.simps [simp del]

lemma unat_byte: "n < 256 \<Longrightarrow> unat (of_nat n :: byte) = n"
  by (simp add: unat_of_nat)

lemma utf8_next_char:
  assumes "scalar c"
  shows "utf8_next (utf8_char c @ rest) = Some (c, rest)"
proof -
  have c: "c < 1114112" "\<not> surrogate c" using assms by (simp_all add: scalar_def)
  have d: "64 * (c div 64) + c mod 64 = c" "4096 * (c div 4096) + 64 * (c div 64 mod 64) + c mod 64 = c"
    "262144 * (c div 262144) + 4096 * (c div 4096 mod 64) + 64 * (c div 64 mod 64) + c mod 64 = c"
  proof -
    have split: "64 * (n div 64) + n mod 64 = n" for n :: nat by simp
    have e: "c div 4096 = c div 64 div 64" "c div 262144 = c div 4096 div 64"
      using div_mult2_eq [of c 64 64] div_mult2_eq [of c 4096 64] by simp_all
    note s = split [of c] split [of "c div 64"] split [of "c div 4096"]
    show "64 * (c div 64) + c mod 64 = c" by (rule split)
    show "4096 * (c div 4096) + 64 * (c div 64 mod 64) + c mod 64 = c" using s unfolding e by linarith
    show "262144 * (c div 262144) + 4096 * (c div 4096 mod 64) + 64 * (c div 64 mod 64) + c mod 64 = c"
      using s e by linarith
  qed
  consider "c < 128" | "128 \<le> c" "c < 2048" | "2048 \<le> c" "c < 65536" | "65536 \<le> c" by linarith
  then show ?thesis
  proof cases
    case 1
    then show ?thesis by (simp add: utf8_char_def utf8_next_def unat_byte)
  next
    case 2
    then have b: "192 + c div 64 < 224" by (simp add: less_mult_imp_div_less)
    from 2 b d(1) show ?thesis
      by (simp add: utf8_char_def utf8_next_def unat_byte Let_def low6_def continuation_def del: of_nat_add)
  next
    case 3
    then have b: "224 + c div 4096 < 240" by (simp add: less_mult_imp_div_less)
    from 3 b d(2) d(2) [THEN arg_cong [of _ _ surrogate]] c show ?thesis
      by (simp add: utf8_char_def utf8_next_def unat_byte Let_def low6_def continuation_def mult.commute del: of_nat_add)
  next
    case 4
    then have b: "240 + c div 262144 < 248" using c by (simp add: less_mult_imp_div_less)
    from 4 b d(3) c show ?thesis
      by (simp add: utf8_char_def utf8_next_def unat_byte Let_def low6_def continuation_def del: of_nat_add)
  qed
qed

lemma from_utf8_as_bytes: "list_all scalar s \<Longrightarrow> from_utf8 (as_bytes s) = Some s"
proof (induction s)
  case Nil
  then show ?case by (simp add: from_utf8.simps)
next
  case (Cons c s)
  then show ?case using utf8_next_char [of c "as_bytes s"]
    by (subst from_utf8.simps) (simp add: as_bytes_def)
qed

lemma as_bytes_inj: "list_all scalar s \<Longrightarrow> list_all scalar t \<Longrightarrow> as_bytes s = as_bytes t \<longleftrightarrow> s = t"
  using from_utf8_as_bytes by (metis option.inject)

lemma ascii_scalar: "c < 128 \<Longrightarrow> scalar c"
  by (simp add: scalar_def surrogate_def)

end
