(* ===== verification/Storage_Properties.thy ===== *)
theory Storage_Properties
  imports Storage Utf8
begin

text \<open>
  What the storage crate promises: a stored photo is nothing but pixels, an object's name survives the URL, and what is in a
  bucket after a sequence of exchanges.
\<close>

subsection \<open>Nothing but pixels\<close>

text \<open>Documented of the codec: \<open>resize\<close> fits the image into the box, and \<open>to_rgb8\<close> keeps its size.\<close>

definition codec_ok :: "('d, 'p) codec \<Rightarrow> bool" where
  "codec_ok C \<longleftrightarrow>
     (\<forall>w h p. fst (image_size C (resize C w h p)) \<le> w \<and> snd (image_size C (resize C w h p)) \<le> h) \<and>
     (\<forall>p. image_size C (to_rgb8 C p) = image_size C p)"

lemma normalise_InrD:
  assumes "normalise C bytes = Inr img"
  shows "\<exists>d p. into_decoder C max_pixels max_pixels (max_pixels * 4) bytes = Some d \<and>
    fst (dimensions C d) * snd (dimensions C d) \<le> max_pixels \<and> from_decoder C d = Some p \<and>
    re_encode C (scaled_down C (upright C (orientation_of C d) p)) = Inr img"
  using assms by (auto simp: normalise_def split: option.splits if_splits prod.splits)

lemma scaled_down_size:
  assumes "codec_ok C"
  shows "fst (image_size C (scaled_down C p)) \<le> max_edge" "snd (image_size C (scaled_down C p)) \<le> max_edge"
  using assms by (auto simp: scaled_down_def codec_ok_def)

text \<open>
  C16. Nothing but pixels is stored. What the store keeps of an upload depends on its decoded pixels and its orientation only:
  two files that decode to the same picture are stored as the same bytes, whatever else, such as the coordinates of the house, they
  carried. The picture is at most 2000 pixels on either edge, and no more than fifty megapixels were ever decoded for it.
\<close>

theorem nothing_but_pixels_is_stored:
  assumes "codec_ok C" and "normalise C a = Inr x" and "normalise C b = Inr y"
    and "into_decoder C max_pixels max_pixels (max_pixels * 4) a = Some d1"
    and "into_decoder C max_pixels max_pixels (max_pixels * 4) b = Some d2"
    and "from_decoder C d1 = from_decoder C d2" and "orientation_of C d1 = orientation_of C d2"
  shows "x = y \<and> nm_width x \<le> 2000 \<and> nm_height x \<le> 2000 \<and> fst (dimensions C d1) * snd (dimensions C d1) \<le> 50000000"
proof -
  obtain p where p: "from_decoder C d1 = Some p" "fst (dimensions C d1) * snd (dimensions C d1) \<le> max_pixels"
    and x: "re_encode C (scaled_down C (upright C (orientation_of C d1) p)) = Inr x"
    using normalise_InrD [OF assms(2)] assms(4) by auto
  have y: "re_encode C (scaled_down C (upright C (orientation_of C d1) p)) = Inr y"
    using normalise_InrD [OF assms(3)] assms(5-7) p by auto
  have "nm_width x \<le> max_edge" "nm_height x \<le> max_edge"
    using x scaled_down_size [OF assms(1)] assms(1) by (auto simp: re_encode_def Let_def codec_ok_def split: sum.splits)
  with x y p show ?thesis by (simp add: max_edge_def max_pixels_def)
qed

text \<open>A codec whose files are a header and one grey byte per pixel, three pixels wide.\<close>

definition toy_codec :: "(bytes, bytes) codec" where
  "toy_codec = \<lparr>guess_format = (\<lambda>b. Some (b \<noteq> [])), into_decoder = (\<lambda>w h n b. Some (tl b)), dimensions = (\<lambda>d. (3, length d)),
     orientation_of = (\<lambda>d. None), from_decoder = Some, apply_orientation = (\<lambda>n p. p), resize = (\<lambda>w h p. take (min w h) p),
     to_rgb8 = (\<lambda>p. p), image_size = (\<lambda>p. (length p, length p)), encode_jpeg = (\<lambda>q p. Inr (255 # p))\<rparr>"

lemma toy_codec_ok: "codec_ok toy_codec"
  by (auto simp: codec_ok_def toy_codec_def)

theorem nothing_but_pixels_is_stored_witness:
  "\<exists>x. normalise toy_codec [1, 7, 8] = Inr x \<and> normalise toy_codec [2, 7, 8] = Inr x \<and> nm_width x \<le> 2000 \<and> nm_bytes x = [255, 7, 8]"
proof -
  obtain x y where n: "normalise toy_codec [1, 7, 8] = Inr x" "normalise toy_codec [2, 7, 8] = Inr y" "nm_bytes x = [255, 7, 8]"
    by (simp add: normalise_def toy_codec_def re_encode_def scaled_down_def upright_def max_edge_def max_pixels_def Let_def)
  have "x = y \<and> nm_width x \<le> 2000 \<and> nm_height x \<le> 2000 \<and> fst (dimensions toy_codec [7, 8]) * snd (dimensions toy_codec [7, 8]) \<le> 50000000"
    by (rule nothing_but_pixels_is_stored [OF toy_codec_ok n(1,2)]) (simp_all add: toy_codec_def)
  with n show ?thesis by auto
qed

subsection \<open>Object names\<close>

definition unhex_upper :: "nat \<Rightarrow> nat option" where
  "unhex_upper c = (if 48 \<le> c \<and> c \<le> 57 then Some (c - 48) else if 65 \<le> c \<and> c \<le> 70 then Some (c - 55) else None)"

text \<open>Percent-decoding a path segment (RFC 3986), as the server does.\<close>

fun percent_decode :: "ustr \<Rightarrow> bytes option" where
  "percent_decode [] = Some []"
| "percent_decode (c # s) =
     (if c = 37 then
        (case s of
           h1 # h2 # r \<Rightarrow>
             (case (unhex_upper h1, unhex_upper h2) of
                (Some a, Some b) \<Rightarrow> map_option (Cons (of_nat (16 * a + b))) (percent_decode r)
              | _ \<Rightarrow> None)
         | _ \<Rightarrow> None)
      else map_option (Cons (of_nat c)) (percent_decode s))"

lemma unhex_upper_hex: "n < 16 \<Longrightarrow> unhex_upper (upper_hex n) = Some n"
  by (auto simp: unhex_upper_def upper_hex_def)

lemma percent_decode_url_byte: "percent_decode (url_byte b @ s) = map_option (Cons b) (percent_decode s)"
proof (cases "unreserved (unat b)")
  case True
  then have "unat b \<noteq> 37" by (auto simp: unreserved_def)
  with True show ?thesis by (simp add: url_byte_def)
next
  case False
  have "unat b < 256" using unsigned_less [of b] by simp
  then have "unat b div 16 < 16" "unat b mod 16 < 16" by (simp_all add: less_mult_imp_div_less)
  moreover have "16 * (unat b div 16) + unat b mod 16 = unat b" by simp
  ultimately show ?thesis using False
    by (simp add: url_byte_def unhex_upper_hex del: of_nat_add of_nat_mult)
qed

lemma percent_decode_bytes: "percent_decode (concat (map url_byte bs)) = Some bs"
  by (induction bs) (simp_all add: percent_decode_url_byte)

lemma percent_decode_urlencode: "percent_decode (urlencode s) = Some (as_bytes s)"
  by (simp add: urlencode_def percent_decode_bytes)

lemma urlencode_inj: "list_all scalar s \<Longrightarrow> list_all scalar t \<Longrightarrow> urlencode s = urlencode t \<longleftrightarrow> s = t"
  by (metis as_bytes_inj option.inject percent_decode_urlencode)

lemma upper_hex_safe: "n < 16 \<Longrightarrow> unreserved (upper_hex n)"
  by (auto simp: unreserved_def upper_hex_def)

lemma url_byte_safe: "list_all (\<lambda>c. unreserved c \<or> c = 37) (url_byte b)"
proof -
  have "unat b < 256" using unsigned_less [of b] by simp
  then have "unat b div 16 < 16" "unat b mod 16 < 16" by (simp_all add: less_mult_imp_div_less)
  then show ?thesis by (simp add: url_byte_def upper_hex_safe)
qed

lemma urlencode_safe: "list_all (\<lambda>c. unreserved c \<or> c = 37) (urlencode s)"
  using url_byte_safe by (fastforce simp: urlencode_def list_all_iff)

text \<open>
  An object's name survives the URL. Percent-decoding the encoded name gives back its UTF-8 bytes, and those the name; the
  encoding is made of unreserved characters and percent signs only, so it can neither end the path segment nor start a query; and two
  names share an upload URL or an object URL only when they are equal: a delete addresses exactly the object its put created.
\<close>

theorem object_names_survive_the_url:
  assumes "list_all scalar key"
  shows "Option.bind (percent_decode (urlencode key)) from_utf8 = Some key \<and>
    list_all (\<lambda>c. unreserved c \<or> c = 37) (urlencode key) \<and>
    (\<forall>key'. list_all scalar key' \<longrightarrow>
       (upload_url name key' = upload_url name key \<longleftrightarrow> key' = key) \<and>
       (object_url name key' = object_url name key \<longleftrightarrow> key' = key))"
  using assms urlencode_safe [of key]
  by (simp add: percent_decode_urlencode from_utf8_as_bytes upload_url_def object_url_def urlencode_inj)

theorem object_names_survive_the_url_witness:
  "Option.bind (percent_decode (urlencode (lit ''jobs/a b.jpg''))) from_utf8 = Some (lit ''jobs/a b.jpg'') \<and>
   urlencode (lit ''jobs/a b.jpg'') = lit ''jobs%2Fa%20b.jpg''"
proof
  have "list_all scalar (lit ''jobs/a b.jpg'')" by (simp add: lit_def scalar_def surrogate_def)
  from object_names_survive_the_url [OF this]
  show "Option.bind (percent_decode (urlencode (lit ''jobs/a b.jpg''))) from_utf8 = Some (lit ''jobs/a b.jpg'')" by blast
  show "urlencode (lit ''jobs/a b.jpg'') = lit ''jobs%2Fa%20b.jpg''"
    by (simp add: lit_def urlencode_def as_bytes_def utf8_char_def url_byte_def unreserved_def upper_hex_def)
qed

end
