(* ===== verification/Listing_Photos.thy ===== *)
theory Listing_Photos
  imports Listings Storage_Properties
begin

text \<open>
  Photos and the objects behind them. Every photo row names an object of the store; the services keep it so whatever fails, because an
  object is written before the row that names it and deleted only after no row does. A small Hoare logic for services with a
  store carries the proofs: \<open>triple P f Q E\<close> says what holds after a success and after a failure.
\<close>

subsection \<open>Triples\<close>

definition triple ::
  "(store_state \<Rightarrow> world \<Rightarrow> bool) \<Rightarrow> 'a sm \<Rightarrow> ('a \<Rightarrow> store_state \<Rightarrow> world \<Rightarrow> bool) \<Rightarrow> (store_state \<Rightarrow> world \<Rightarrow> bool) \<Rightarrow> bool" where
  "triple P f Q E \<longleftrightarrow>
     (\<forall>s w. P s w \<longrightarrow> (case f s w of ((Inr x, s'), w') \<Rightarrow> Q x s' w' | ((Inl e, s'), w') \<Rightarrow> E s' w'))"

named_theorems triple_intros \<open>rules of the logic\<close>

lemma tripleI:
  assumes "\<And>s w x s' w'. P s w \<Longrightarrow> f s w = ((Inr x, s'), w') \<Longrightarrow> Q x s' w'"
    and "\<And>s w e s' w'. P s w \<Longrightarrow> f s w = ((Inl e, s'), w') \<Longrightarrow> E s' w'"
  shows "triple P f Q E"
  unfolding triple_def using assms by (auto split: prod.splits sum.splits)

lemma triple_run:
  assumes "triple P f (\<lambda>_. P) P" and "P s w" and "f s w = ((r, s'), w')"
  shows "P s' w'"
  using assms unfolding triple_def by (cases r) fastforce+

lemma triple_sbind [triple_intros]:
  assumes "triple P f Q E" and "\<And>x. triple (Q x) (g x) R E"
  shows "triple P (sbind f g) R E"
proof (rule tripleI)
  fix s w x s' w'
  assume "P s w" and "sbind f g s w = ((Inr x, s'), w')"
  with assms show "R x s' w'" unfolding triple_def by (auto simp: sbind_Inr_iff) fastforce
next
  fix s w e s' w'
  assume "P s w" and "sbind f g s w = ((Inl e, s'), w')"
  with assms show "E s' w'" unfolding triple_def by (auto simp: sbind_Inl_iff) fastforce+
qed

lemma triple_option [triple_intros]:
  "triple (P None) f Q E \<Longrightarrow> (\<And>x. triple (P (Some x)) (g x) Q E) \<Longrightarrow>
   triple (P v) (case v of None \<Rightarrow> f | Some x \<Rightarrow> g x) Q E"
  by (cases v) auto

lemma triple_if: "(b \<Longrightarrow> triple P f Q E) \<Longrightarrow> (\<not> b \<Longrightarrow> triple P g Q E) \<Longrightarrow> triple P (if b then f else g) Q E"
  by simp

lemma triple_ret: "(\<And>s w. P s w \<Longrightarrow> Q x s w) \<Longrightarrow> triple P (on_db (ret x)) Q E"
  by (rule tripleI) (auto simp: on_db_iff)

subsection \<open>Operations on other tables\<close>

text \<open>An order on worlds; an operation moves along it when its end is above its start.\<close>

locale world_order =
  fixes le :: "world \<Rightarrow> world \<Rightarrow> bool"
  assumes le_refl: "le w w" and le_trans: "le u v \<Longrightarrow> le v w \<Longrightarrow> le u w"
begin

definition moves :: "'a m \<Rightarrow> bool" where
  "moves f \<longleftrightarrow> (\<forall>w. le w (snd (f w)))"

lemma moves_bind: "moves f \<Longrightarrow> (\<And>x. moves (g x)) \<Longrightarrow> moves (bind f g)"
  unfolding moves_def bind_def by (auto split: prod.splits sum.splits) (metis le_trans snd_conv)+

lemma moves_seq: "moves f \<Longrightarrow> moves g \<Longrightarrow> moves (seq f g)"
  by (simp add: seq_def moves_bind)

lemma moves_pure: "moves (ret x)" "moves (throw e)" "moves (of_res r)" "moves utc_now"
  by (simp_all add: moves_def ret_def throw_def of_res_def utc_now_def le_refl)

lemma moves_if: "(b \<Longrightarrow> moves f) \<Longrightarrow> (\<not> b \<Longrightarrow> moves g) \<Longrightarrow> moves (if b then f else g)"
  by simp

lemma movesD: "moves f \<Longrightarrow> f w = (r, w') \<Longrightarrow> le w w'"
  unfolding moves_def by (metis snd_conv)

lemmas moves_rules = moves_bind moves_seq moves_pure moves_if

end

subsection \<open>The rows and their objects\<close>

definition photo_keys :: "db \<Rightarrow> ustr list" where
  "photo_keys d = List.map_filter ct_photo_key (contractors d) @ map ph_storage_key (contractor_photos d) @
     map ph_storage_key (job_photos d)"

text \<open>What a bucket holds after its exchanges: an accepted upload of the key, and no delete of it since. A delete counts even when its answer
  is an error.\<close>

definition in_bucket :: "ustr \<Rightarrow> ustr \<Rightarrow> (cloud_request \<times> cloud_answer) list \<Rightarrow> bool" where
  "in_bucket name key xs =
     foldl (\<lambda>b (q, a). if cq_delete q then b \<and> cq_url q \<noteq> object_url name key
       else b \<or> cq_url q = upload_url name key \<and> (case a of CloudAnswer code _ _ \<Rightarrow> is_success code | _ \<Rightarrow> False)) False xs"

definition present :: "store \<Rightarrow> store_state \<Rightarrow> ustr \<Rightarrow> bool" where
  "present st s key = (case st of Gcs name \<Rightarrow> in_bucket name key (ss_exchanges s) | MemoryStore \<Rightarrow> ss_objects s key \<noteq> None)"

definition photos_ok :: "store \<Rightarrow> store_state \<Rightarrow> db \<Rightarrow> bool" where
  "photos_ok st s d \<longleftrightarrow> distinct (map ct_id (contractors d)) \<and> distinct (photo_keys d) \<and>
     list_all (\<lambda>k. list_all scalar k \<and> present st s k) (photo_keys d)"

text \<open>Identifiers still to be drawn name no object yet.\<close>

definition later_key :: "lib \<Rightarrow> world \<Rightarrow> ustr \<Rightarrow> bool" where
  "later_key L w key \<longleftrightarrow>
     (\<exists>n \<ge> w_next_id w. \<exists>i. key = contractor_photo_key L i (w_ids w n) \<or> key = photo_key L i (w_ids w n))"

definition photo_inv :: "lib \<Rightarrow> store \<Rightarrow> store_state \<Rightarrow> world \<Rightarrow> bool" where
  "photo_inv L st s w \<longleftrightarrow> photos_ok st s (w_db w) \<and> inj (w_ids w) \<and> list_all (\<lambda>k. \<not> later_key L w k) (photo_keys (w_db w))"

definition photo_frame :: "world \<Rightarrow> world \<Rightarrow> bool" where
  "photo_frame w w' \<longleftrightarrow> contractors (w_db w') = contractors (w_db w) \<and> contractor_photos (w_db w') = contractor_photos (w_db w) \<and>
     job_photos (w_db w') = job_photos (w_db w) \<and> w_ids w' = w_ids w \<and> w_next_id w \<le> w_next_id w'"

interpretation frame: world_order photo_frame
  by unfold_locales (auto simp: photo_frame_def)

lemma photo_keys_frame: "photo_frame w w' \<Longrightarrow> photo_keys (w_db w') = photo_keys (w_db w)"
  by (simp add: photo_frame_def photo_keys_def)

lemma later_key_frame: "photo_frame w w' \<Longrightarrow> later_key L w' k \<Longrightarrow> later_key L w k"
  unfolding photo_frame_def later_key_def by (metis le_trans)

lemma photo_inv_frame: "photo_frame w w' \<Longrightarrow> photo_inv L st s w \<Longrightarrow> photo_inv L st s w'"
  using photo_keys_frame [of w w'] later_key_frame [of w w' L]
  by (auto simp: photo_inv_def photos_ok_def list_all_iff) (simp_all add: photo_frame_def)

text \<open>An object about to be named: nothing names it yet, and no later identifier will.\<close>

definition pending :: "lib \<Rightarrow> ustr \<Rightarrow> world \<Rightarrow> bool" where
  "pending L key w \<longleftrightarrow> list_all scalar key \<and> key \<notin> set (photo_keys (w_db w)) \<and> \<not> later_key L w key"

lemma pending_frame: "photo_frame w w' \<Longrightarrow> pending L key w \<Longrightarrow> pending L key w'"
  using photo_keys_frame [of w w'] later_key_frame [of w w' L] by (auto simp: pending_def)

lemma triple_frame:
  assumes "frame.moves f" and "\<And>s w w'. photo_frame w w' \<Longrightarrow> P s w \<Longrightarrow> P s w'"
  shows "triple P (on_db f) (\<lambda>_. P) P"
  by (rule tripleI) (auto simp: on_db_iff dest!: frame.movesD [OF assms(1)] intro: assms(2))

lemma moves_sql:
  "(\<And>now d x d'. q now d = Inr (x, d') \<Longrightarrow> contractors d' = contractors d \<and> contractor_photos d' = contractor_photos d \<and>
     job_photos d' = job_photos d) \<Longrightarrow> frame.moves (sql q)"
  unfolding frame.moves_def photo_frame_def sql_def bind_def round_trip_def
  by (auto split: option.splits sum.splits)

lemma moves_query: "frame.moves (query q)"
  unfolding query_def by (rule moves_sql) auto

lemma moves_basic: "frame.moves acquire" "frame.moves new_id" "frame.moves (enforce L pep p s now)"
  by (auto simp: frame.moves_def photo_frame_def acquire_def round_trip_def new_id_def enforce_def Let_def seq_def bind_def
      rate_hit_def rate_sql_def ret_def throw_def split: option.split prod.splits sum.splits)

lemma moves_audit: "frame.moves (audit_record e)"
  unfolding audit_record_def by (intro frame.moves_rules moves_basic moves_sql) (auto simp: Let_def split: if_splits)

lemma moves_owned: "frame.moves (owned_listing u i)"
  unfolding owned_listing_def contractors_claimed_by_def by (intro frame.moves_rules moves_query)

lemma moves_count: "frame.moves (contractor_photos_count i)"
  unfolding contractor_photos_count_def by (rule moves_query)

lemmas moves_intros = frame.moves_rules moves_basic moves_audit moves_owned moves_count

subsection \<open>What the store does to the objects\<close>

lemma access_token_exchanges: "access_token cloud race now s = (r, s') \<Longrightarrow> ss_exchanges s' = ss_exchanges s \<and> ss_objects s' = ss_objects s"
  by (auto simp: access_token_def Let_def split: option.splits token_outcome.splits)

lemma in_bucket_snoc:
  "in_bucket name key (xs @ [(q, a)]) =
     (if cq_delete q then in_bucket name key xs \<and> cq_url q \<noteq> object_url name key
      else in_bucket name key xs \<or> cq_url q = upload_url name key \<and> (case a of CloudAnswer code _ _ \<Rightarrow> is_success code | _ \<Rightarrow> False))"
  by (simp add: in_bucket_def)

lemma store_put_present:
  assumes "store_put cloud race st key img now s = (r, s')"
  shows "present st s k \<Longrightarrow> present st s' k" and "r = Inr url \<Longrightarrow> present st s' key"
  using assms by (auto simp: store_put_def bucket_put_def exchange_def present_def in_bucket_snoc Let_def
      split: store.splits prod.splits sum.splits cloud_answer.splits if_splits dest!: access_token_exchanges)

lemma store_delete_present:
  assumes "store_delete cloud race st key now s = (r, s')" and "present st s k" and "k \<noteq> key"
    and "list_all scalar k" and "list_all scalar key"
  shows "present st s' k"
  using assms by (auto simp: store_delete_def bucket_delete_def exchange_def present_def in_bucket_snoc Let_def object_url_def urlencode_inj
      split: store.splits prod.splits sum.splits cloud_answer.splits if_splits dest!: access_token_exchanges)

lemma photo_inv_objects:
  assumes "photo_inv L st s w" and "\<And>k. k \<in> set (photo_keys (w_db w)) \<Longrightarrow> list_all scalar k \<Longrightarrow> present st s k \<Longrightarrow> present st s' k"
  shows "photo_inv L st s' w"
  using assms by (auto simp: photo_inv_def photos_ok_def list_all_iff)

lemma triple_put:
  "triple (\<lambda>s w. photo_inv L (sg_store G) s w \<and> pending L key w) (put_object G key img)
     (\<lambda>_ s w. photo_inv L (sg_store G) s w \<and> pending L key w \<and> present (sg_store G) s key) (photo_inv L (sg_store G))"
  by (rule tripleI) (auto simp: put_object_def on_store_iff intro: photo_inv_objects store_put_present)

lemma triple_delete:
  "triple (\<lambda>s w. photo_inv L (sg_store G) s w \<and> key \<notin> set (photo_keys (w_db w)) \<and> list_all scalar key)
     (attempt (delete_object G key)) (\<lambda>_. photo_inv L (sg_store G)) (photo_inv L (sg_store G))"
proof (rule tripleI)
  fix s w and x :: unit and s' w'
  assume P: "photo_inv L (sg_store G) s w \<and> key \<notin> set (photo_keys (w_db w)) \<and> list_all scalar key"
    and run: "attempt (delete_object G key) s w = ((Inr x, s'), w')"
  then obtain r where "store_delete (sg_cloud G) (sg_race G) (sg_store G) key (w_clock w) s = (r, s')" "w' = w"
    by (auto simp: attempt_iff delete_object_def on_store_iff)
  then show "photo_inv L (sg_store G) s' w'"
    using P by (auto intro: photo_inv_objects store_delete_present)
qed (auto simp: attempt_iff)

subsection \<open>What the rows do to the keys\<close>

definition opt_list :: "'a option \<Rightarrow> 'a list" where
  "opt_list v = (case v of None \<Rightarrow> [] | Some x \<Rightarrow> [x])"

lemma map_filter_append: "List.map_filter f (xs @ ys) = List.map_filter f xs @ List.map_filter f ys"
  by (simp add: List.map_filter_def)

lemma map_filter_Cons: "List.map_filter f (x # xs) = opt_list (f x) @ List.map_filter f xs"
  by (simp add: List.map_filter_def opt_list_def split: option.split)

text \<open>Writing the photo of one listing replaces its key in the list of keys.\<close>

lemma photo_keys_with_photo:
  assumes "distinct (map ct_id (contractors d))" and "find_contractor d i = Some r"
  shows "\<exists>A B. photo_keys d = A @ opt_list (ct_photo_key r) @ B \<and>
    photo_keys (set_contractor i (with_photo k x y) d) = A @ opt_list k @ B"
proof -
  have r: "r \<in> set (contractors d)" "ct_id r = i" using assms(2) by (auto simp: find_contractor_def dest: find_Some_in)
  then obtain xs ys where c: "contractors d = xs @ r # ys" by (meson split_list)
  have other: "map (\<lambda>q. if ct_id q = i then with_photo k x y q else q) zs = zs" if "set zs \<subseteq> set xs \<union> set ys" for zs
    using assms(1) that r(2) unfolding c by (intro map_idI) (auto, (metis imageI subsetD UnE)+)
  have key: "ct_photo_key (with_photo k x y r) = k" by (simp add: with_photo_def)
  show ?thesis
    by (rule exI [of _ "List.map_filter ct_photo_key xs"], rule exI [of _ "List.map_filter ct_photo_key ys @
          map ph_storage_key (contractor_photos d) @ map ph_storage_key (job_photos d)"])
      (simp add: photo_keys_def set_contractor_def c other r(2) map_filter_append map_filter_Cons key del: map_filter_simps)
qed

lemma later_key_same [simp]:
  "later_key L (w\<lparr>w_calls := n\<rparr>) = later_key L w" "later_key L (w\<lparr>w_calls := n, w_db := d\<rparr>) = later_key L w"
  by (rule ext, simp add: later_key_def)+

lemma contractor_ids_with_photo: "map ct_id (contractors (set_contractor i (with_photo k x y) d)) = map ct_id (contractors d)"
  by (rule set_contractor_ids) (simp add: with_photo_def)

lemma triple_set_photo:
  "triple (\<lambda>s w. photo_inv L st s w \<and> pending L key w \<and> present st s key) (on_db (contractors_set_photo i key x y))
     (\<lambda>old s w. photo_inv L st s w \<and> (\<forall>k. old = Some k \<longrightarrow> k \<notin> set (photo_keys (w_db w)) \<and> list_all scalar k)) (photo_inv L st)"
proof (rule tripleI)
  fix s w old s' w'
  assume P: "photo_inv L st s w \<and> pending L key w \<and> present st s key"
    and run: "on_db (contractors_set_photo i key x y) s w = ((Inr old, s'), w')"
  then obtain prev d where s': "s' = s" and st: "set_photo_stmt i key x y (w_clock w) (w_db w) = Inr (prev, d)"
    and w': "w' = w\<lparr>w_calls := Suc (w_calls w), w_db := d\<rparr>"
    and old: "old = (case prev of None \<Rightarrow> None | Some o' \<Rightarrow> if o' \<noteq> key then Some o' else None)"
    by (auto simp: on_db_iff contractors_set_photo_def bind_Inr_iff sql_Inr_iff)
  have dist: "distinct (map ct_id (contractors (w_db w)))" using P by (simp add: photo_inv_def photos_ok_def)
  show "photo_inv L st s' w' \<and> (\<forall>k. old = Some k \<longrightarrow> k \<notin> set (photo_keys (w_db w')) \<and> list_all scalar k)"
  proof (cases "find_contractor (w_db w) i")
    case None
    with st have "d = w_db w" "prev = None" by (auto simp: set_photo_stmt_def update_contractor_def)
    with P s' w' old show ?thesis by (simp add: photo_inv_def)
  next
    case (Some r)
    with st have d: "d = set_contractor i (with_photo (Some key) (Some (as_i32 (int x))) (Some (as_i32 (int y)))) (w_db w)"
      and prev: "prev = ct_photo_key r"
      by (auto simp: set_photo_stmt_def update_contractor_def split: if_splits)
    obtain A B where AB: "photo_keys (w_db w) = A @ opt_list (ct_photo_key r) @ B" "photo_keys d = A @ [key] @ B"
      using photo_keys_with_photo [OF dist Some, of "Some key" "Some (as_i32 (int x))" "Some (as_i32 (int y))"]
      by (auto simp: d opt_list_def)
    have "distinct (map ct_id (contractors d))" using dist by (simp add: d contractor_ids_with_photo)
    with P AB s' show ?thesis unfolding w'
      by (auto simp: photo_inv_def photos_ok_def pending_def old prev opt_list_def split: option.splits if_splits)
  qed
qed (auto simp: on_db_iff contractors_set_photo_def bind_Inl_iff sql_Inl_iff photo_inv_def photos_ok_def later_key_def)

text \<open>A key is as fresh as its identifier.\<close>

lemma url_safe_scalar: "url_safe c \<Longrightarrow> scalar c \<and> c \<noteq> 47"
  by (auto simp: url_safe_def scalar_def surrogate_def)

lemma uuid_text:
  assumes "lib_ok L"
  shows "list_all scalar (uuid_to_string L u)" and "47 \<notin> set (uuid_to_string L u)"
    and "uuid_to_string L u = uuid_to_string L v \<longleftrightarrow> u = v"
proof -
  have safe: "list_all url_safe (uuid_to_string L u)" by (rule lib_okD [OF assms])
  then show "list_all scalar (uuid_to_string L u)" "47 \<notin> set (uuid_to_string L u)"
    using url_safe_scalar by (auto simp: list_all_iff)
  show "uuid_to_string L u = uuid_to_string L v \<longleftrightarrow> u = v" using lib_okD(5) [OF assms] by (metis option.inject)
qed

lemma key_path_inj:
  assumes "47 \<notin> set (a :: ustr)" and "47 \<notin> set (b :: ustr)"
  shows "a @ 47 # x = b @ 47 # y \<longleftrightarrow> a = b \<and> x = y"
  using split_once_append [OF assms(1), of x] split_once_append [OF assms(2), of y] by (metis Pair_inject option.inject)

lemma photo_keys_inj:
  assumes "lib_ok L"
  shows "contractor_photo_key L i p = contractor_photo_key L j q \<longleftrightarrow> i = j \<and> p = q"
    and "photo_key L i p = photo_key L j q \<longleftrightarrow> i = j \<and> p = q"
    and "photo_key L i p \<noteq> contractor_photo_key L j q" and "contractor_photo_key L j q \<noteq> photo_key L i p"
    and "list_all scalar (contractor_photo_key L i p)" and "list_all scalar (photo_key L i p)"
  using uuid_text [OF assms]
  by (simp_all add: contractor_photo_key_def photo_key_def lit_def key_path_inj scalar_def surrogate_def)

lemma pending_new_id:
  assumes L: "lib_ok L" and key: "key = contractor_photo_key L i \<or> key = photo_key L i"
  shows "triple (photo_inv L st) (on_db new_id) (\<lambda>pid s w. photo_inv L st s w \<and> pending L (key pid) w) (photo_inv L st)"
proof (rule tripleI)
  fix s w pid s' w'
  assume inv: "photo_inv L st s w" and run: "on_db new_id s w = ((Inr pid, s'), w')"
  then have s': "s' = s" and pid: "pid = w_ids w (w_next_id w)" and w': "w' = w\<lparr>w_next_id := Suc (w_next_id w)\<rparr>"
    by (auto simp: on_db_iff new_id_iff)
  have "later_key L w (key pid)" using key pid by (auto simp: later_key_def)
  then have fresh: "key pid \<notin> set (photo_keys (w_db w))" using inv by (auto simp: photo_inv_def list_all_iff)
  have "w_ids w n \<noteq> pid" if "Suc (w_next_id w) \<le> n" for n
    using that inv pid by (auto simp: photo_inv_def dest: injD)
  then have "\<not> later_key L w' (key pid)"
    using key photo_keys_inj [OF L] by (auto simp: later_key_def w') metis+
  then show "photo_inv L st s' w' \<and> pending L (key pid) w'"
    using inv fresh key photo_keys_inj(5,6) [OF L] photo_inv_frame [of w w' L st s]
    by (auto simp: pending_def s' w' photo_frame_def)
qed (auto simp: on_db_iff new_id_iff)

lemma triple_calm: "frame.moves f \<Longrightarrow> triple (photo_inv L st) (on_db f) (\<lambda>_. photo_inv L st) (photo_inv L st)"
  by (rule triple_frame) (auto intro: photo_inv_frame)

lemma triple_limited: "triple (photo_inv L st) (photo_limited L pepper alone p u) (\<lambda>_. photo_inv L st) (photo_inv L st)"
  unfolding photo_limited_def after_all_alone
  by (rule triple_sbind [OF triple_calm [OF frame.moves_pure(4)]]) (rule triple_calm [OF moves_basic(3)])

lemma triple_conseq:
  "triple P f Q E \<Longrightarrow> (\<And>s w. P' s w \<Longrightarrow> P s w) \<Longrightarrow> (\<And>x s w. Q x s w \<Longrightarrow> Q' x s w) \<Longrightarrow> (\<And>s w. E s w \<Longrightarrow> E' s w) \<Longrightarrow>
   triple P' f Q' E'"
  unfolding triple_def by (fastforce split: prod.splits sum.splits)

lemma triple_delete_option:
  "triple (\<lambda>s w. photo_inv L (sg_store G) s w \<and> (\<forall>k. old = Some k \<longrightarrow> k \<notin> set (photo_keys (w_db w)) \<and> list_all scalar k))
     (case old of None \<Rightarrow> on_db (ret ()) | Some k \<Rightarrow> attempt (delete_object G k)) (\<lambda>_. photo_inv L (sg_store G)) (photo_inv L (sg_store G))"
  by (cases old) (auto intro: triple_ret triple_conseq [OF triple_delete])

lemma set_photo_triple:
  assumes "lib_ok L"
  shows "triple (photo_inv L (sg_store G)) (set_photo L pepper C G alone user i bytes) (\<lambda>_. photo_inv L (sg_store G)) (photo_inv L (sg_store G))"
  unfolding set_photo_def after_all_alone Let_def
  by (rule triple_sbind [OF triple_limited], rule triple_sbind [OF triple_calm [OF frame.moves_seq [OF moves_basic(1) moves_owned]]],
      rule triple_sbind [OF triple_calm [OF frame.moves_pure(3)]],
      rule triple_sbind [OF pending_new_id [OF assms disjI1 [OF refl]]],
      rule triple_sbind [OF triple_put], rule triple_sbind [OF triple_set_photo], rule triple_sbind [OF triple_delete_option],
      rule triple_ret)

subsection \<open>The other photo services\<close>

lemma remove_photo_run:
  assumes "remove_photo G alone user i s w = ((r, s'), w')"
  shows "s' = s"
proof -
  have none: "cleared = None" if run: "contractors_clear_photo i v = (Inr cleared, v')" for cleared v v'
  proof -
    obtain d where st: "clear_photo_stmt i (w_clock v) (w_db v) = Inr (cleared, d)"
      using run by (auto simp: contractors_clear_photo_def sql_Inr_iff)
    have id: "ct_id (with_photo None None None r) = ct_id r" for r by (simp add: with_photo_def)
    from st show ?thesis
      by (auto simp: clear_photo_stmt_def update_contractor_def find_set_contractor [OF id] with_photo_def
          split: option.splits if_splits)
  qed
  with assms show ?thesis
    unfolding remove_photo_def after_all_alone
    by (cases r) (auto simp: sm_iffs split: option.splits dest!: none)
qed

text \<open>Removing keys from the rows cannot break anything.\<close>

lemma photo_inv_subset:
  assumes "photo_inv L st s w" and "distinct (map ct_id (contractors d))" and "distinct (photo_keys d)"
    and "set (photo_keys d) \<subseteq> set (photo_keys (w_db w))"
  shows "photo_inv L st s (w\<lparr>w_calls := n, w_db := d\<rparr>)"
  using assms by (auto simp: photo_inv_def photos_ok_def list_all_iff)

lemma photo_inv_calls [simp]: "photo_inv L st s (w\<lparr>w_calls := n\<rparr>) = photo_inv L st s w"
  by (simp add: photo_inv_def)

lemma triple_clear_photo:
  "triple (photo_inv L st) (on_db (contractors_clear_photo i)) (\<lambda>x s w. photo_inv L st s w \<and> x = None) (photo_inv L st)"
proof (rule tripleI)
  fix s w x s' w'
  assume inv: "photo_inv L st s w" and run: "on_db (contractors_clear_photo i) s w = ((Inr x, s'), w')"
  then obtain d where st: "clear_photo_stmt i (w_clock w) (w_db w) = Inr (x, d)" and s': "s' = s"
    and w': "w' = w\<lparr>w_calls := Suc (w_calls w), w_db := d\<rparr>"
    by (auto simp: on_db_iff contractors_clear_photo_def sql_Inr_iff)
  have dist: "distinct (map ct_id (contractors (w_db w)))" "distinct (photo_keys (w_db w))"
    using inv by (simp_all add: photo_inv_def photos_ok_def)
  have id: "ct_id (with_photo None None None r) = ct_id r" for r by (simp add: with_photo_def)
  have x: "x = None"
    using st by (auto simp: clear_photo_stmt_def update_contractor_def find_set_contractor [OF id] with_photo_def
        split: option.splits if_splits)
  show "photo_inv L st s' w' \<and> x = None"
  proof (cases "find_contractor (w_db w) i")
    case None
    with st have "d = w_db w" by (auto simp: clear_photo_stmt_def update_contractor_def)
    with inv s' w' x show ?thesis by simp
  next
    case (Some r)
    with st have d: "d = set_contractor i (with_photo None None None) (w_db w)"
      by (auto simp: clear_photo_stmt_def update_contractor_def split: if_splits)
    obtain A B where AB: "photo_keys (w_db w) = A @ opt_list (ct_photo_key r) @ B" "photo_keys d = A @ B"
      using photo_keys_with_photo [OF dist(1) Some, of None None None] by (auto simp: d opt_list_def)
    have "distinct (map ct_id (contractors d))" using dist by (simp add: d contractor_ids_with_photo)
    with inv AB dist(2) show ?thesis unfolding w' s' using x by (intro conjI photo_inv_subset) auto
  qed
qed (auto simp: on_db_iff contractors_clear_photo_def sql_Inl_iff photo_inv_def photos_ok_def)

lemma remove_photo_triple:
  "triple (photo_inv L (sg_store G)) (remove_photo G alone user i) (\<lambda>_. photo_inv L (sg_store G)) (photo_inv L (sg_store G))"
  unfolding remove_photo_def after_all_alone
  by (rule triple_sbind [OF triple_calm [OF frame.moves_seq [OF moves_basic(1) moves_owned]]], rule triple_sbind [OF triple_clear_photo],
      rule triple_conseq [OF triple_delete_option]) auto

lemma triple_insert_work_photo:
  "triple (\<lambda>s w. photo_inv L st s w \<and> pending L (np_storage_key p) w \<and> present st s (np_storage_key p))
     (on_db (contractor_photos_insert p)) (\<lambda>_. photo_inv L st) (photo_inv L st)"
proof (rule tripleI)
  fix s w x s' w'
  assume P: "photo_inv L st s w \<and> pending L (np_storage_key p) w \<and> present st s (np_storage_key p)"
    and run: "on_db (contractor_photos_insert p) s w = ((Inr x, s'), w')"
  then obtain rows where s': "s' = s"
    and w': "w' = w\<lparr>w_calls := Suc (w_calls w), w_db := (w_db w)\<lparr>contractor_photos := rows\<rparr>\<rparr>"
    and rows: "map ph_storage_key rows = map ph_storage_key (contractor_photos (w_db w)) @ [np_storage_key p]"
    by (auto simp: on_db_iff contractor_photos_insert_def sql_Inr_iff insert_photo_def Let_def photo_row_of_def
        split: if_splits sum.splits)
  have "photo_keys (w_db w') = List.map_filter ct_photo_key (contractors (w_db w)) @
      (map ph_storage_key (contractor_photos (w_db w)) @ [np_storage_key p]) @ map ph_storage_key (job_photos (w_db w))"
    by (simp add: w' photo_keys_def rows)
  with P show "photo_inv L st s' w'"
    by (auto simp: photo_inv_def photos_ok_def pending_def s' w' photo_keys_def)
qed (auto simp: on_db_iff contractor_photos_insert_def sql_Inl_iff photo_inv_def photos_ok_def)

lemma triple_throw: "(\<And>s w. P s w \<Longrightarrow> E s w) \<Longrightarrow> triple P (on_db (throw e)) Q E"
  by (rule tripleI) (auto simp: on_db_iff)

lemma add_work_photo_triple:
  assumes "lib_ok L"
  shows "triple (photo_inv L (sg_store G)) (add_work_photo L pepper C G alone user i bytes req) (\<lambda>_. photo_inv L (sg_store G)) (photo_inv L (sg_store G))"
  unfolding add_work_photo_def after_all_alone Let_def
  by (rule triple_sbind [OF triple_limited], rule triple_sbind [OF triple_calm [OF frame.moves_seq [OF moves_basic(1) moves_owned]]],
      rule triple_sbind [OF triple_calm [OF moves_count]], rule triple_if, rule triple_throw, assumption,
      rule triple_sbind [OF triple_calm [OF frame.moves_pure(3)]],
      rule triple_sbind [OF pending_new_id [OF assms disjI1 [OF refl]]],
      rule triple_sbind [OF triple_put], rule triple_sbind [OF triple_conseq [OF triple_insert_work_photo]], simp, assumption, assumption,
      rule triple_sbind [OF triple_calm [OF moves_audit]], rule triple_ret)

lemma delete_photo_keys:
  assumes "delete_photo owner i rows = (Some k, rows')" and "distinct (map ph_storage_key rows)"
  shows "k \<in> set (map ph_storage_key rows)" and "k \<notin> set (map ph_storage_key rows')"
    and "distinct (map ph_storage_key rows')" and "set (map ph_storage_key rows') \<subseteq> set (map ph_storage_key rows)"
proof -
  obtain r where r: "find (\<lambda>r. ph_id r = i \<and> ph_owner r = owner) rows = Some r" "k = ph_storage_key r"
    and rows': "rows' = filter (\<lambda>r. \<not> (ph_id r = i \<and> ph_owner r = owner)) rows"
    using assms(1) by (auto simp: delete_photo_def Let_def)
  from find_Some_in [OF r(1)] have "r \<in> set rows" "ph_id r = i \<and> ph_owner r = owner" by auto
  then show "k \<in> set (map ph_storage_key rows)" "k \<notin> set (map ph_storage_key rows')"
    using assms(2) r(2) by (auto simp: rows' dest: distinct_map_eqD)
  show "distinct (map ph_storage_key rows')" using assms(2) by (simp add: rows' distinct_map_filter)
  show "set (map ph_storage_key rows') \<subseteq> set (map ph_storage_key rows)" by (auto simp: rows')
qed

lemma replace_middle:
  assumes "distinct (A @ W @ J)" and "distinct W'" and "set W' \<subseteq> set W" and "k \<in> set W" and "k \<notin> set W'"
  shows "k \<notin> set (A @ W' @ J) \<and> distinct (A @ W' @ J) \<and> set (A @ W' @ J) \<subseteq> set (A @ W @ J)"
  using assms by auto


text \<open>Identifiers are only ever drawn: true of every operation, so a failed transaction keeps the invariant.\<close>

definition ids_le :: "world \<Rightarrow> world \<Rightarrow> bool" where
  "ids_le w w' \<longleftrightarrow> w_ids w' = w_ids w \<and> w_next_id w \<le> w_next_id w'"

interpretation ids: world_order ids_le
  by unfold_locales (auto simp: ids_le_def)

lemma ids_sql: "ids.moves (sql q)"
  by (auto simp: ids.moves_def ids_le_def sql_def bind_def round_trip_def split: option.splits sum.splits)

lemma ids_basic: "ids.moves round_trip" "ids.moves new_id" "ids.moves (query q')" "ids.moves (execute q'')"
  by (simp_all add: query_def execute_def ids_sql) (simp_all add: ids.moves_def ids_le_def round_trip_def new_id_def split: option.split)

lemma ids_audit: "ids.moves (audit_record e)"
  unfolding audit_record_def by (intro ids.moves_rules ids_basic ids_sql)

lemma ids_transaction:
  assumes "ids.moves f"
  shows "ids.moves (transaction f)"
proof -
  have "ids.moves (bind round_trip (\<lambda>_. bind f (\<lambda>x. bind round_trip (\<lambda>_. ret x))))"
    by (intro ids.moves_rules ids_basic assms)
  then show ?thesis
    by (auto simp: ids.moves_def transaction_def rollback_to_def ids_le_def split: prod.splits sum.splits) (metis snd_conv)+
qed

lemma ids_option: "ids.moves f \<Longrightarrow> (\<And>x. ids.moves (g x)) \<Longrightarrow> ids.moves (case v of None \<Rightarrow> f | Some x \<Rightarrow> g x)"
  by (cases v) auto

lemmas ids_intros = ids.moves_rules ids_basic ids_sql ids_audit ids_option ids_transaction

lemma photo_inv_failed:
  assumes "transaction f w = (Inl e, w')" and "ids.moves f" and "photo_inv L st s w"
  shows "photo_inv L st s w'"
proof -
  have "w_db w' = w_db w" using assms(1) by (rule transaction_Inl_db)
  moreover have "ids_le w w'" using ids.movesD [OF ids_transaction [OF assms(2)] assms(1)] .
  ultimately have "photo_frame w w'" by (simp add: photo_frame_def ids_le_def)
  then show ?thesis using assms(3) by (rule photo_inv_frame)
qed

lemma ids_remove_work_photo_tx: "ids.moves (remove_work_photo_tx user i pid req)"
  unfolding remove_work_photo_tx_def owned_listing_def contractors_claimed_by_def contractor_photos_delete_def by (intro ids_intros)

lemma triple_remove_work_photo_tx:
  "triple (photo_inv L st) (on_db (transaction (remove_work_photo_tx user i pid req)))
     (\<lambda>k s w. photo_inv L st s w \<and> k \<notin> set (photo_keys (w_db w)) \<and> list_all scalar k) (photo_inv L st)"
proof (rule tripleI)
  fix s w k s' w'
  assume inv: "photo_inv L st s w" and run: "on_db (transaction (remove_work_photo_tx user i pid req)) s w = ((Inr k, s'), w')"
  then have s': "s' = s" and tx: "transaction (remove_work_photo_tx user i pid req) w = (Inr k, w')" by (simp_all add: on_db_iff)
  from tx obtain v1 v2 v3 a b where ow: "owned_listing user i (w\<lparr>w_calls := Suc (w_calls w)\<rparr>) = (Inr (), v1)"
    and del: "contractor_photos_delete i pid v1 = (Inr (Some k), v2)" and au: "audit_record a v2 = (Inr b, v3)"
    and w': "w' = v3\<lparr>w_calls := Suc (w_calls v3)\<rparr>"
    by (auto simp: remove_work_photo_tx_def bind_Inr_iff seq_Inr_iff split: option.splits elim!: transaction_Inr)
  have v1: "photo_inv L st s v1" using photo_inv_frame [OF frame.movesD [OF moves_owned ow], of L st s] inv by simp
  obtain rows where rows: "delete_photo i pid (contractor_photos (w_db v1)) = (Some k, rows)"
    and v2: "v2 = v1\<lparr>w_calls := Suc (w_calls v1), w_db := (w_db v1)\<lparr>contractor_photos := rows\<rparr>\<rparr>"
    using del by (auto simp: contractor_photos_delete_def sql_Inr_iff split: prod.splits)
  have d1: "distinct (photo_keys (w_db v1))" "distinct (map ct_id (contractors (w_db v1)))"
    using v1 by (simp_all add: photo_inv_def photos_ok_def)
  then have "distinct (map ph_storage_key (contractor_photos (w_db v1)))" by (simp add: photo_keys_def)
  note del' = delete_photo_keys [OF rows this]
  have gone: "k \<notin> set (photo_keys (w_db v2))" "distinct (photo_keys (w_db v2))" "set (photo_keys (w_db v2)) \<subseteq> set (photo_keys (w_db v1))"
    using replace_middle [OF d1(1) [unfolded photo_keys_def] del'(3,4,1,2)] by (simp_all add: v2 photo_keys_def)
  have "list_all scalar k" using v1 del'(1) by (auto simp: photo_inv_def photos_ok_def photo_keys_def list_all_iff)
  moreover have "photo_inv L st s v2" unfolding v2
    using gone d1 by (intro photo_inv_subset [OF v1]) (simp_all add: v2)
  moreover have fr: "photo_frame v2 v3" using frame.movesD [OF moves_audit au] .
  ultimately show "photo_inv L st s' w' \<and> k \<notin> set (photo_keys (w_db w')) \<and> list_all scalar k"
    using gone(1) photo_inv_frame [OF fr, of L st s] photo_keys_frame [OF fr] by (simp add: w' s')
qed (auto simp: on_db_iff intro: photo_inv_failed [OF _ ids_remove_work_photo_tx])

lemma remove_work_photo_triple:
  "triple (photo_inv L (sg_store G)) (remove_work_photo G alone user i pid req) (\<lambda>_. photo_inv L (sg_store G)) (photo_inv L (sg_store G))"
  unfolding remove_work_photo_def after_all_alone
  by (rule triple_sbind [OF triple_remove_work_photo_tx triple_delete])

end
