(* ===== verification/Board.thy ===== *)
theory Board
  imports Repo_Jobs Repo_Messaging Float64 "HOL-Library.Product_Lexorder" "HOL-Library.List_Lexorder"
begin

text \<open>
  The queries of the job board, \<open>cm-db/src/repo/jobs.rs\<close>: which jobs are on it, in which order a page of them comes, the cursor of the
  next page, the facet counts, the map and the detail page. What PostGIS and the text search of PostgreSQL compute is a
  parameter: distances, whether a job matches a query and how well, how similar two texts are, and the sum of exponentials behind the
  personal order, of the four things it reads. Comparisons with NULL are spelled out: a condition that is not true excludes the row.
\<close>

subsection \<open>Filters\<close>

record board_lib =
  st_within :: "point \<Rightarrow> point \<Rightarrow> f64 \<Rightarrow> bool"
  st_distance :: "point \<Rightarrow> point \<Rightarrow> f64"
  ts_matches :: "ustr \<Rightarrow> ustr \<Rightarrow> ustr \<Rightarrow> bool"
  ts_rank :: "ustr \<Rightarrow> ustr \<Rightarrow> ustr \<Rightarrow> f64"
  fit_score :: "bool \<Rightarrow> f64 option \<Rightarrow> duration \<Rightarrow> nat \<Rightarrow> f64"
  word_similarity :: "ustr \<Rightarrow> ustr \<Rightarrow> f64"

record near =
  nr_lat :: f64
  nr_lon :: f64
  nr_radius_m :: f64

record viewer =
  vw_contractor_id :: uuid
  vw_trade_ids :: "uuid list"
  vw_point :: "point option"

record filters =
  fl_viewer :: "viewer option"
  fl_query :: "ustr option"
  fl_query_trade_ids :: "uuid list"
  fl_trade_ids :: "uuid list option"
  fl_postal_code :: "ustr option"
  fl_near :: "near option"
  fl_timeline :: "job_timeline option"
  fl_build_type :: "build_type option"
  fl_budget_min :: "int option"

definition no_filters :: filters where
  "no_filters = \<lparr>fl_viewer = None, fl_query = None, fl_query_trade_ids = [], fl_trade_ids = None, fl_postal_code = None,
     fl_near = None, fl_timeline = None, fl_build_type = None, fl_budget_min = None\<rparr>"

definition centre :: "near \<Rightarrow> point" where
  "centre n = (nr_lon n, nr_lat n)"

definition trade_in :: "uuid list \<Rightarrow> posting_row \<Rightarrow> bool" where
  "trade_in ids r = (case jb_trade_id r of None \<Rightarrow> False | Some t \<Rightarrow> t \<in> set ids)"

definition on_board :: "board_lib \<Rightarrow> filters \<Rightarrow> posting_row \<Rightarrow> bool" where
  "on_board B f r \<longleftrightarrow>
     jb_status r = lit ''open'' \<and>
     (case fl_near f of None \<Rightarrow> True
      | Some n \<Rightarrow> (case jb_public_point r of None \<Rightarrow> False | Some p \<Rightarrow> st_within B p (centre n) (nr_radius_m n))) \<and>
     (case fl_trade_ids f of None \<Rightarrow> True | Some ids \<Rightarrow> trade_in ids r) \<and>
     (case fl_postal_code f of None \<Rightarrow> True | Some code \<Rightarrow> jb_postal_code r = code) \<and>
     (case fl_query f of None \<Rightarrow> True
      | Some q \<Rightarrow> ts_matches B (jb_title r) (jb_description r) q \<or> fl_query_trade_ids f \<noteq> [] \<and> trade_in (fl_query_trade_ids f) r) \<and>
     (case fl_timeline f of None \<Rightarrow> True | Some t \<Rightarrow> jb_timeline r = job_timeline_str t) \<and>
     (case fl_build_type f of None \<Rightarrow> True | Some b \<Rightarrow> jb_build_type r = build_type_str b) \<and>
     (case fl_budget_min f of None \<Rightarrow> True | Some n \<Rightarrow> (case jb_budget_max r of None \<Rightarrow> False | Some b \<Rightarrow> n \<le> b))"

subsection \<open>Order\<close>

datatype board_sort = Newest | Best | Budget | Distance | ForMe

datatype key_field = RelevanceKey | BudgetKey | DistanceKey | FitKey

record cursor =
  cr_created_at :: time
  cr_id :: uuid
  cr_sort_key :: "f64 option"

definition ordering_for :: "board_sort \<Rightarrow> filters \<Rightarrow> key_field option" where
  "ordering_for order f =
     (case order of
        Budget \<Rightarrow> Some BudgetKey
      | Distance \<Rightarrow> if fl_near f \<noteq> None then Some DistanceKey else None
      | Best \<Rightarrow> if fl_query f \<noteq> None then Some RelevanceKey else None
      | ForMe \<Rightarrow> if fl_viewer f \<noteq> None then Some FitKey else None
      | Newest \<Rightarrow> None)"

definition descending :: "key_field \<Rightarrow> bool" where
  "descending k \<longleftrightarrow> k \<noteq> DistanceKey"

definition relevance :: "board_lib \<Rightarrow> filters \<Rightarrow> posting_row \<Rightarrow> f64 option" where
  "relevance B f r = map_option (ts_rank B (jb_title r) (jb_description r)) (fl_query f)"

definition distance_m :: "board_lib \<Rightarrow> filters \<Rightarrow> posting_row \<Rightarrow> f64 option" where
  "distance_m B f r =
     (case fl_near f of None \<Rightarrow> None | Some n \<Rightarrow> map_option (\<lambda>p. st_distance B p (centre n)) (jb_public_point r))"

text \<open>The four terms of the fit. An empty list of trades is bound as NULL.\<close>

definition fit :: "board_lib \<Rightarrow> filters \<Rightarrow> time \<Rightarrow> db \<Rightarrow> posting_row \<Rightarrow> f64 option" where
  "fit B f now d r =
     (case fl_viewer f of
        None \<Rightarrow> None
      | Some v \<Rightarrow>
          Some (fit_score B (trade_in (vw_trade_ids v) r)
            (case (vw_point v, jb_public_point r) of (Some c, Some p) \<Rightarrow> Some (st_distance B p c) | _ \<Rightarrow> None)
            (now - jb_created_at r)
            (length (filter (\<lambda>c. cv_job_id c = Some (jb_id r) \<and> cv_contractor_id c \<noteq> Some (vw_contractor_id v)) (conversations d)))))"

text \<open>The key as the \<open>float8\<close> the cursor carries, and its place in the order of its own type. PostgreSQL puts NaN last and takes both zeros as
  equal; budgets are \<open>bigint\<close>.\<close>

definition key_value :: "board_lib \<Rightarrow> filters \<Rightarrow> time \<Rightarrow> db \<Rightarrow> key_field \<Rightarrow> posting_row \<Rightarrow> f64 option" where
  "key_value B f now d k r =
     (case k of
        RelevanceKey \<Rightarrow> relevance B f r
      | BudgetKey \<Rightarrow> map_option f64_of_int (jb_budget_max r)
      | DistanceKey \<Rightarrow> distance_m B f r
      | FitKey \<Rightarrow> fit B f now d r)"

definition float8_place :: "f64 \<Rightarrow> int" where
  "float8_place x = (if f64_nan x then 2 ^ 63 else f64_key x)"

definition key_place :: "board_lib \<Rightarrow> filters \<Rightarrow> time \<Rightarrow> db \<Rightarrow> key_field \<Rightarrow> posting_row \<Rightarrow> int option" where
  "key_place B f now d k r =
     (if k = BudgetKey then jb_budget_max r else map_option float8_place (key_value B f now d k r))"

text \<open>\<open>ORDER BY key, created_at DESC, id DESC\<close>, NULL keys last, as one tuple to sort by.\<close>

definition board_place ::
  "board_lib \<Rightarrow> filters \<Rightarrow> key_field option \<Rightarrow> time \<Rightarrow> db \<Rightarrow> posting_row \<Rightarrow> bool \<times> int \<times> int \<times> int" where
  "board_place B f field now d r =
     (case (case field of None \<Rightarrow> Some 0
            | Some k \<Rightarrow> map_option (\<lambda>n. if descending k then - n else n) (key_place B f now d k r)) of
        None \<Rightarrow> (True, 0, - jb_created_at r, - uint (jb_id r))
      | Some n \<Rightarrow> (False, n, - jb_created_at r, - uint (jb_id r)))"

definition older :: "cursor \<Rightarrow> posting_row \<Rightarrow> bool" where
  "older c r \<longleftrightarrow> jb_created_at r < cr_created_at c \<or> jb_created_at r = cr_created_at c \<and> jb_id r < cr_id c"

definition past_cursor :: "board_lib \<Rightarrow> filters \<Rightarrow> key_field option \<Rightarrow> time \<Rightarrow> db \<Rightarrow> cursor \<Rightarrow> posting_row \<Rightarrow> bool" where
  "past_cursor B f field now d c r =
     (case field of
        None \<Rightarrow> older c r
      | Some k \<Rightarrow>
          (let key = map_option float8_place (key_value B f now d k r); at = map_option float8_place (cr_sort_key c) in
           (case (key, at) of (Some x, Some y) \<Rightarrow> if descending k then x < y else y < x | _ \<Rightarrow> False) \<or>
           key = at \<and> older c r))"

subsection \<open>A page\<close>

definition max_page :: int where "max_page = 50"
definition default_page :: int where "default_page = 20"
definition max_map_points :: int where "max_map_points = 500"

definition clamp_limit :: "int \<Rightarrow> int \<Rightarrow> nat" where
  "clamp_limit ceiling limit = nat (max 1 (min limit ceiling))"

text \<open>\<open>split_part(btrim(u.display_name), ' ', 1)\<close>; the join drops a row whose poster is gone.\<close>

definition first_name :: "user_row \<Rightarrow> ustr" where
  "first_name u = hd (split_on 32 (btrim (u_display_name u)))"

definition find_poster :: "db \<Rightarrow> posting_row \<Rightarrow> user_row option" where
  "find_poster d r = find (\<lambda>u. u_id u = jb_posted_by r) (users d)"

definition listed :: "board_lib \<Rightarrow> filters \<Rightarrow> db \<Rightarrow> posting_row \<Rightarrow> bool" where
  "listed B f d r \<longleftrightarrow> on_board B f r \<and> find_poster d r \<noteq> None"

definition board_rows ::
  "board_lib \<Rightarrow> filters \<Rightarrow> key_field option \<Rightarrow> nat \<Rightarrow> cursor option \<Rightarrow> time \<Rightarrow> db \<Rightarrow> posting_row list" where
  "board_rows B f field limit c now d =
     take (limit + 1) (sort_key (board_place B f field now d)
       (filter (\<lambda>r. listed B f d r \<and> (case c of None \<Rightarrow> True | Some c \<Rightarrow> past_cursor B f field now d c r)) (jobs d)))"

definition cursor_at :: "board_lib \<Rightarrow> filters \<Rightarrow> key_field option \<Rightarrow> time \<Rightarrow> db \<Rightarrow> posting_row \<Rightarrow> cursor" where
  "cursor_at B f field now d r =
     \<lparr>cr_created_at = jb_created_at r, cr_id = jb_id r,
      cr_sort_key = (case field of None \<Rightarrow> None | Some k \<Rightarrow> key_value B f now d k r)\<rparr>"

definition take_next :: "nat \<Rightarrow> ('r \<Rightarrow> 'c) \<Rightarrow> 'r list \<Rightarrow> 'r list \<times> 'c option" where
  "take_next limit key rows =
     (if limit < length rows
      then (let kept = butlast rows in (kept, if kept = [] then None else Some (key (last kept))))
      else (rows, None))"

definition public_row :: "board_lib \<Rightarrow> filters \<Rightarrow> db \<Rightarrow> posting_row \<Rightarrow> public_job res" where
  "public_row B f d r = into_public d (distance_m B f r) (map_option first_name (find_poster d r)) r"

definition jobs_list :: "board_lib \<Rightarrow> filters \<Rightarrow> board_sort \<Rightarrow> int \<Rightarrow> cursor option \<Rightarrow> (public_job list \<times> cursor option) m" where
  "jobs_list B f order limit c =
     (let limit = clamp_limit max_page limit; field = ordering_for order f in
      bind (query (\<lambda>now d. (now, d, board_rows B f field limit c now d))) (\<lambda>(now, d, rows).
      case take_next limit (cursor_at B f field now d) rows of
        (kept, next_cursor) \<Rightarrow>
          bind (of_res (collect_res (public_row B f d) kept)) (\<lambda>page. ret (page, next_cursor))))"

definition jobs_find :: "board_lib \<Rightarrow> uuid \<Rightarrow> public_job option m" where
  "jobs_find B i =
     bind (query (\<lambda>_ d. (d, find (\<lambda>r. listed B no_filters d r \<and> jb_id r = i) (jobs d)))) (\<lambda>(d, row).
     case row of
       None \<Rightarrow> ret None
     | Some r \<Rightarrow> bind (of_res (public_row B no_filters d r)) (\<lambda>p. ret (Some p)))"

subsection \<open>The map\<close>

record job_point =
  pt_id :: uuid
  pt_title :: ustr
  pt_trade :: "ustr option"
  pt_lat :: f64
  pt_lon :: f64
  pt_budget_min :: "int option"
  pt_budget_max :: "int option"

definition job_point_of :: "db \<Rightarrow> point \<Rightarrow> posting_row \<Rightarrow> job_point" where
  "job_point_of d p r = \<lparr>pt_id = jb_id r, pt_title = jb_title r, pt_trade = trade_slug d r, pt_lat = snd p, pt_lon = fst p,
     pt_budget_min = jb_budget_min r, pt_budget_max = jb_budget_max r\<rparr>"

definition map_points :: "board_lib \<Rightarrow> filters \<Rightarrow> int \<Rightarrow> (job_point list \<times> bool) m" where
  "map_points B f limit =
     (let limit = clamp_limit max_map_points limit in
      bind (query (\<lambda>_ d. take (limit + 1) (List.map_filter (\<lambda>r. map_option (\<lambda>p. job_point_of d p r) (jb_public_point r))
              (newest_first (filter (\<lambda>r. on_board B f r \<and> jb_public_point r \<noteq> None) (jobs d)))))) (\<lambda>points.
      if limit < length points then ret (butlast points, True) else ret (points, False)))"

subsection \<open>Facets\<close>

record facet =
  fc_value :: ustr
  fc_count :: nat

record facets =
  fs_total :: nat
  fs_trade :: "facet list"
  fs_timeline :: "facet list"
  fs_build_type :: "facet list"

text \<open>One grouping set: every value that occurs and how often; the most frequent first, then by value.\<close>

definition group_counts :: "('r \<Rightarrow> 'v) \<Rightarrow> 'r list \<Rightarrow> ('v \<times> nat) list" where
  "group_counts value rows = map (\<lambda>v. (v, length (filter (\<lambda>r. value r = v) rows))) (remdups (map value rows))"

definition facet_list :: "(ustr \<times> nat) list \<Rightarrow> facet list" where
  "facet_list groups = sort_key (\<lambda>x. (- int (fc_count x), fc_value x)) (map (\<lambda>(v, n). \<lparr>fc_value = v, fc_count = n\<rparr>) groups)"

definition facets_of :: "db \<Rightarrow> posting_row list \<Rightarrow> facets" where
  "facets_of d rows =
     \<lparr>fs_total = length rows,
      fs_trade = facet_list (map (\<lambda>(v, n). (case v of None \<Rightarrow> lit ''other'' | Some s \<Rightarrow> s, n)) (group_counts (trade_slug d) rows)),
      fs_timeline = facet_list (group_counts jb_timeline rows),
      fs_build_type = facet_list (group_counts jb_build_type rows)\<rparr>"

definition jobs_facets :: "board_lib \<Rightarrow> filters \<Rightarrow> facets m" where
  "jobs_facets B f = query (\<lambda>_ d. facets_of d (filter (on_board B f) (jobs d)))"

subsection \<open>Photos of a page\<close>

definition attach_photos :: "(ustr \<Rightarrow> ustr) \<Rightarrow> photo_view list \<Rightarrow> public_job list \<Rightarrow> public_job list" where
  "attach_photos url rows page =
     map (\<lambda>j. case filter (\<lambda>p. pv_owner p = pj_id j) rows of
            [] \<Rightarrow> j
          | mine \<Rightarrow> j\<lparr>pj_photos := map (\<lambda>p. \<lparr>jp_id = pv_id p, jp_url = url (pv_storage_key p), jp_width = pv_width p,
              jp_height = pv_height p\<rparr>) mine\<rparr>) page"

end
