(* ===== verification/Board_Properties.thy ===== *)
theory Board_Properties
  imports Board Job_Properties
begin

text \<open>
  Paging the board. The contract \<open>keyset\<close> says what a cursor must do for a walk over the pages to show every row once: the cursor of a row is
  behind exactly the rows that come later. The orders of the board keep it for rows whose key is there and exact; for
  the others the last theorems show what the pages leave out or repeat.
\<close>

subsection \<open>Walking pages\<close>

text \<open>A client that follows the cursors: the \<open>k\<close>-th page is asked for in whatever state the server then has. \<open>n\<close> bounds the pages.\<close>

fun walk :: "(nat \<Rightarrow> 'c option \<Rightarrow> 'r list \<times> 'c option) \<Rightarrow> nat \<Rightarrow> nat \<Rightarrow> 'c option \<Rightarrow> 'r list" where
  "walk page k 0 c = []"
| "walk page k (Suc n) c =
     (case page k c of
        (rows, None) \<Rightarrow> rows
      | (rows, Some c') \<Rightarrow> rows @ walk page (Suc k) n (Some c'))"

lemma walk_map:
  "walk (\<lambda>k c. case page k c of (rows, next_cursor) \<Rightarrow> (map g rows, next_cursor)) k n c = map g (walk page k n c)"
  by (induction n arbitrary: k c) (auto split: prod.splits option.splits)

definition keyset_page :: "('r \<Rightarrow> 'k::linorder) \<Rightarrow> ('c \<Rightarrow> 'r \<Rightarrow> bool) \<Rightarrow> ('r \<Rightarrow> 'c) \<Rightarrow> 'r list \<Rightarrow> nat \<Rightarrow> 'c option \<Rightarrow> 'r list \<times> 'c option" where
  "keyset_page place past key rows limit c =
     take_next limit key (take (limit + 1) (sort_key place (filter (\<lambda>r. case c of None \<Rightarrow> True | Some c \<Rightarrow> past c r) rows)))"

lemma take_next_take:
  "0 < limit \<Longrightarrow> take_next limit key (take (Suc limit) xs) =
    (if limit < length xs then (take limit xs, Some (key (xs ! (limit - 1)))) else (xs, None))"
  by (auto simp: take_next_def Let_def butlast_take last_conv_nth min_def)

lemma filter_after:
  assumes "sorted_wrt (\<lambda>x y. place x < place y) (ys @ r # xs)"
  shows "filter (\<lambda>x. place r < (place x :: 'k::linorder)) (ys @ r # xs) = xs"
proof -
  have "filter (\<lambda>x. place r < place x) ys = []"
    using assms by (auto simp: filter_empty_conv sorted_wrt_append dest: less_asym)
  moreover have "filter (\<lambda>x. place r < place x) xs = xs"
    using assms by (auto simp: filter_id_conv sorted_wrt_append)
  ultimately show ?thesis by simp
qed

lemma strictly_sorted:
  assumes "distinct (map place rows)"
  shows "sorted_wrt (\<lambda>x y. place x < (place y :: 'k::linorder)) (sort_key place rows)"
proof -
  have "distinct (map place (sort_key place rows))" using assms by (simp add: distinct_map)
  moreover have "sorted (map place (sort_key place rows))" by simp
  ultimately have "sorted_wrt (<) (map place (sort_key place rows))" by (simp add: strict_sorted_iff)
  then show ?thesis by (simp add: sorted_wrt_map)
qed

locale keyset =
  fixes place :: "'r \<Rightarrow> 'k::linorder" and past :: "'c \<Rightarrow> 'r \<Rightarrow> bool" and key :: "'r \<Rightarrow> 'c" and sound :: "'r \<Rightarrow> bool"
  assumes past_iff: "sound r \<Longrightarrow> sound x \<Longrightarrow> past (key r) x \<longleftrightarrow> place r < place x"
begin

lemma walk_suffix:
  assumes rows: "list_all sound rows" "distinct (map place rows)" and limit: "0 < limit"
  shows "sort_key place rows = ys @ xs \<Longrightarrow> c = (if ys = [] then None else Some (key (last ys))) \<Longrightarrow> length xs < n \<Longrightarrow>
    walk (\<lambda>_. keyset_page place past key rows limit) k n c = xs"
proof (induction n arbitrary: ys xs c k)
  case (Suc n)
  have sorted: "sorted_wrt (\<lambda>x y. place x < place y) (ys @ xs)"
    using strictly_sorted [OF rows(2)] Suc.prems(1) by simp
  have sound: "sound r" if "r \<in> set (ys @ xs)" for r
    using that rows(1) Suc.prems(1) by (metis list_all_iff set_sort)
  have "filter (\<lambda>r. case c of None \<Rightarrow> True | Some c \<Rightarrow> past c r) (ys @ xs) = xs"
  proof (cases "ys = []")
    case False
    then have split: "ys @ xs = butlast ys @ last ys # xs" by simp
    have "filter (past (key (last ys))) (ys @ xs) = filter (\<lambda>x. place (last ys) < place x) (ys @ xs)"
      using False sound by (intro filter_cong refl past_iff) auto
    also have "\<dots> = xs" using filter_after [of place "butlast ys" "last ys" xs] sorted unfolding split by blast
    finally show ?thesis using False Suc.prems(2) by simp
  qed (use Suc.prems in simp)
  then have page: "keyset_page place past key rows limit c = take_next limit key (take (Suc limit) xs)"
    by (simp add: keyset_page_def filter_sort [symmetric] Suc.prems(1) del: filter_append)
  then have page': "keyset_page place past key rows limit c =
      (if limit < length xs then (take limit xs, Some (key (xs ! (limit - 1)))) else (xs, None))"
    using take_next_take [OF limit] by metis
  show ?case
  proof (cases "limit < length xs")
    case True
    then have "walk (\<lambda>_. keyset_page place past key rows limit) (Suc k) n (Some (key (xs ! (limit - 1)))) = drop limit xs"
      using Suc.prems limit
      by (intro Suc.IH [of "ys @ take limit xs"]) (auto simp: last_append last_conv_nth)
    with True limit show ?thesis by (simp add: page')
  qed (simp add: page')
qed simp

lemma walk_all:
  "list_all sound rows \<Longrightarrow> distinct (map place rows) \<Longrightarrow> 0 < limit \<Longrightarrow> length rows < n \<Longrightarrow>
   walk (\<lambda>_. keyset_page place past key rows limit) k n None = sort_key place rows"
  using walk_suffix [of rows limit "[]" "sort_key place rows" None n k] by simp

end

subsection \<open>Budgets as \<open>float8\<close>\<close>

lemma bit_length_bounds: "0 < n \<Longrightarrow> 0 < bit_length n \<and> 2 ^ (bit_length n - 1) \<le> n \<and> n < 2 ^ bit_length n"
proof (induction n rule: bit_length.induct)
  case (1 n)
  show ?case
  proof (cases "n div 2 = 0")
    case True
    with 1(2) have "n = 1" by simp
    then show ?thesis by (simp add: bit_length.simps)
  next
    case False
    with 1 have ih: "0 < bit_length (n div 2)" "2 ^ (bit_length (n div 2) - 1) \<le> n div 2" "n div 2 < 2 ^ bit_length (n div 2)" by auto
    then have "2 * 2 ^ (bit_length (n div 2) - 1) \<le> n" "n < 2 * 2 ^ bit_length (n div 2)" by linarith+
    with ih(1) 1(2) show ?thesis
      by (subst (1 2 3) bit_length.simps) (simp flip: power_Suc)
  qed
qed

lemma f64_of_nat_exact:
  assumes "0 < m" and "m < 2 ^ 53"
  obtains e where "e \<le> 52" "2 ^ e \<le> m" "m < 2 ^ Suc e" "f64_of_nat m = (e + 1022) * 2 ^ 52 + m * 2 ^ (52 - e)"
    "2 ^ 52 \<le> m * 2 ^ (52 - e)" "m * 2 ^ (52 - e) < 2 ^ 53"
proof -
  let ?e = "bit_length m - 1"
  from bit_length_bounds [OF assms(1)] have b: "2 ^ ?e \<le> m" "m < 2 ^ Suc ?e" by auto
  have "(2::nat) ^ ?e < 2 ^ 53" using b(1) assms(2) by linarith
  then have "?e < 53" by (rule power_less_imp_less_exp [rotated]) simp
  then have e: "?e \<le> 52" by simp
  have lo: "(2::nat) ^ ?e * 2 ^ (52 - ?e) = 2 ^ 52" and hi: "(2::nat) ^ Suc ?e * 2 ^ (52 - ?e) = 2 ^ 53"
    using e by (simp_all flip: power_add)
  have "2 ^ 52 \<le> m * 2 ^ (52 - ?e)" using mult_le_mono1 [OF b(1), of "2 ^ (52 - ?e)"] unfolding lo .
  moreover have "m * 2 ^ (52 - ?e) < 2 ^ 53" using mult_strict_right_mono [OF b(2), of "2 ^ (52 - ?e)"] unfolding hi by simp
  moreover have "f64_of_nat m = (?e + 1022) * 2 ^ 52 + m * 2 ^ (52 - ?e)"
    using assms(1) e calculation(1) by (simp add: f64_of_nat_def Let_def algebra_simps)
  ultimately show ?thesis using that [of ?e] e b by blast
qed

lemma f64_of_nat_less:
  assumes "m < m'" and "m' < 2 ^ 53"
  shows "f64_of_nat m < f64_of_nat m'"
proof -
  have m': "0 < m'" using assms by simp
  from f64_of_nat_exact [OF m' assms(2)] obtain e' where e': "2 ^ e' \<le> m'" "m' < 2 ^ Suc e'"
    "f64_of_nat m' = (e' + 1022) * 2 ^ 52 + m' * 2 ^ (52 - e')" "2 ^ 52 \<le> m' * 2 ^ (52 - e')" by metis
  show ?thesis
  proof (cases "m = 0")
    case True
    then have "f64_of_nat m = 0" by (simp add: f64_of_nat_def)
    with e' show ?thesis by simp
  next
    case False
    then have m: "0 < m" "m < 2 ^ 53" using assms by simp_all
    from f64_of_nat_exact [OF m] obtain e where e: "2 ^ e \<le> m" "m < 2 ^ Suc e"
      "f64_of_nat m = (e + 1022) * 2 ^ 52 + m * 2 ^ (52 - e)" "m * 2 ^ (52 - e) < 2 ^ 53" by metis
    have "(2::nat) ^ e < 2 ^ Suc e'" using e(1) assms(1) e'(2) by linarith
    then have "e < Suc e'" by (rule power_less_imp_less_exp [rotated]) simp
    then have "e = e' \<or> Suc e \<le> e'" by linarith
    then show ?thesis
    proof
      assume "e = e'"
      with e(3) e'(3) assms(1) show ?thesis by simp
    next
      assume "Suc e \<le> e'"
      then have "(Suc e + 1022) * 2 ^ 52 \<le> (e' + 1022) * (2 ^ 52 :: nat)" by (intro mult_le_mono1) simp
      then show ?thesis unfolding e(3) e'(3) using e(4) e'(4) by simp
    qed
  qed
qed

lemma float8_place_int:
  assumes "0 \<le> n" and "n < 2 ^ 53"
  shows "float8_place (f64_of_int n) = int (f64_of_nat (nat n))"
proof -
  have small: "f64_of_nat (nat n) < 1076 * 2 ^ 52"
  proof (cases "nat n = 0")
    case False
    then have m: "0 < nat n" "nat n < 2 ^ 53" using assms by auto
    from f64_of_nat_exact [OF m] obtain e where "e \<le> 52" "f64_of_nat (nat n) = (e + 1022) * 2 ^ 52 + nat n * 2 ^ (52 - e)"
      "nat n * 2 ^ (52 - e) < 2 ^ 53" by metis
    then show ?thesis by simp
  qed (simp add: f64_of_nat_def)
  then have "uint (f64_of_int n) = int (f64_of_nat (nat n))"
    using assms by (simp add: f64_of_int_def unsigned_of_nat take_bit_nat_eq_self)
  then show ?thesis using small by (simp add: float8_place_def f64_nan_def f64_magnitude_def f64_key_def)
qed

lemma float8_place_int_less:
  assumes "0 \<le> m" "m < 2 ^ 53" "0 \<le> n" "n < 2 ^ 53"
  shows "float8_place (f64_of_int m) < float8_place (f64_of_int n) \<longleftrightarrow> m < n"
    and "float8_place (f64_of_int m) = float8_place (f64_of_int n) \<longleftrightarrow> m = n"
proof -
  have less: "float8_place (f64_of_int a) < float8_place (f64_of_int b)" if "a < b" "0 \<le> a" "b < 2 ^ 53" for a b :: int
    using that f64_of_nat_less [of "nat a" "nat b"] by (simp add: float8_place_int)
  show "float8_place (f64_of_int m) < float8_place (f64_of_int n) \<longleftrightarrow> m < n"
    "float8_place (f64_of_int m) = float8_place (f64_of_int n) \<longleftrightarrow> m = n"
    using assms less [of m n] less [of n m] by (cases m n rule: linorder_cases; simp)+
qed

subsection \<open>The board keeps the contract\<close>

text \<open>Rows a cursor can resume from: the leading key is there, and a budget is small enough to be exact as a \<open>float8\<close>.\<close>

definition pageable :: "board_lib \<Rightarrow> filters \<Rightarrow> key_field option \<Rightarrow> time \<Rightarrow> db \<Rightarrow> posting_row \<Rightarrow> bool" where
  "pageable B f field now d r \<longleftrightarrow>
     (case field of
        None \<Rightarrow> True
      | Some BudgetKey \<Rightarrow> (case jb_budget_max r of None \<Rightarrow> False | Some n \<Rightarrow> 0 \<le> n \<and> n < 2 ^ 53)
      | Some k \<Rightarrow> key_value B f now d k r \<noteq> None)"

lemma older_iff: "older (cursor_at B f field now d r) x \<longleftrightarrow>
  (- jb_created_at r, - uint (jb_id r)) < (- jb_created_at x, - uint (jb_id x))"
  by (auto simp: older_def cursor_at_def less_prod_def word_less_def)

lemma pageable_key:
  assumes "pageable B f (Some k) now d r" and "pageable B f (Some k) now d x"
  obtains a b m n where "key_value B f now d k r = Some a" "key_value B f now d k x = Some b"
    "key_place B f now d k r = Some m" "key_place B f now d k x = Some n"
    "float8_place a < float8_place b \<longleftrightarrow> m < n" "float8_place b < float8_place a \<longleftrightarrow> n < m" "float8_place a = float8_place b \<longleftrightarrow> m = n"
proof (cases "k = BudgetKey")
  case True
  with assms obtain m n where "jb_budget_max r = Some m" "0 \<le> m" "m < 2 ^ 53" "jb_budget_max x = Some n" "0 \<le> n" "n < 2 ^ 53"
    by (auto simp: pageable_def split: option.splits)
  with True float8_place_int_less [of m n] float8_place_int_less [of n m] show ?thesis
    by (intro that [of "f64_of_int m" "f64_of_int n" m n]) (simp_all add: key_value_def key_place_def)
next
  case False
  with assms obtain a b where "key_value B f now d k r = Some a" "key_value B f now d k x = Some b"
    by (cases k) (auto simp: pageable_def)
  with False show ?thesis by (intro that [of a b "float8_place a" "float8_place b"]) (simp_all add: key_place_def)
qed

interpretation board: keyset "board_place B f field now d" "past_cursor B f field now d" "cursor_at B f field now d"
  "pageable B f field now d" for B f field now d
proof
  fix r x
  assume ok: "pageable B f field now d r" "pageable B f field now d x"
  show "past_cursor B f field now d (cursor_at B f field now d r) x \<longleftrightarrow> board_place B f field now d r < board_place B f field now d x"
  proof (cases field)
    case None
    then show ?thesis by (simp add: past_cursor_def board_place_def older_iff less_prod_def)
  next
    case (Some k)
    with ok have ok': "pageable B f (Some k) now d r" "pageable B f (Some k) now d x" by simp_all
    obtain a b m n where k: "key_value B f now d k r = Some a" "key_value B f now d k x = Some b"
      "key_place B f now d k r = Some m" "key_place B f now d k x = Some n"
      "float8_place a < float8_place b \<longleftrightarrow> m < n" "float8_place b < float8_place a \<longleftrightarrow> n < m" "float8_place a = float8_place b \<longleftrightarrow> m = n"
      by (rule pageable_key [OF ok'])
    have at: "cr_sort_key (cursor_at B f field now d r) = Some a" using Some k(1) by (simp add: cursor_at_def)
    have eq: "float8_place b = float8_place a \<longleftrightarrow> m = n" by (rule trans [OF eq_commute k(7)])
    have "past_cursor B f field now d (cursor_at B f field now d r) x \<longleftrightarrow>
        (if descending k then float8_place b < float8_place a else float8_place a < float8_place b) \<or>
        float8_place b = float8_place a \<and> older (cursor_at B f field now d r) x"
      by (simp add: past_cursor_def Some k(2) at [unfolded Some])
    also have "\<dots> \<longleftrightarrow> (if descending k then n < m else m < n) \<or>
        m = n \<and> (- jb_created_at r, - uint (jb_id r)) < (- jb_created_at x, - uint (jb_id x))"
      by (simp only: older_iff k(5,6) eq)
    also have "\<dots> \<longleftrightarrow> board_place B f field now d r < board_place B f field now d x"
      using k by (auto simp: board_place_def Some less_prod_def)
    finally show ?thesis .
  qed
qed

lemma board_place_distinct:
  "distinct (map jb_id rows) \<Longrightarrow> distinct (map (board_place B f field now d) rows)"
proof -
  have "jb_id x = jb_id y" if "board_place B f field now d x = board_place B f field now d y" for x y
  proof -
    have "uint (jb_id x) = uint (jb_id y)" using that by (auto simp: board_place_def split: option.splits)
    then show ?thesis by (simp only: word_uint_eq_iff)
  qed
  then show "distinct (map jb_id rows) \<Longrightarrow> distinct (map (board_place B f field now d) rows)"
    unfolding distinct_map inj_on_def by blast
qed

lemma board_rows_keyset:
  "take_next limit (cursor_at B f field now d) (board_rows B f field limit c now d) =
   keyset_page (board_place B f field now d) (past_cursor B f field now d) (cursor_at B f field now d)
     (filter (listed B f d) (jobs d)) limit c"
  by (simp add: board_rows_def keyset_page_def conj_commute)

text \<open>Only the personal order looks at the clock.\<close>

lemma key_value_clock: "k \<noteq> FitKey \<Longrightarrow> key_value B f now d k = key_value B f 0 d k"
  by (cases k) (simp_all add: key_value_def fun_eq_iff)

lemma board_clock:
  assumes "field \<noteq> Some FitKey"
  shows "board_place B f field now d = board_place B f field 0 d"
    and "past_cursor B f field now d = past_cursor B f field 0 d"
    and "cursor_at B f field now d = cursor_at B f field 0 d"
  using assms key_value_clock [of _ B f now d]
  by (auto simp: fun_eq_iff board_place_def past_cursor_def cursor_at_def key_place_def split: option.splits)

subsection \<open>What the pages show\<close>

text \<open>The \<open>k\<close>-th page a client asks for, from whatever the server then holds; a failed read shows nothing.\<close>

definition ask :: "board_lib \<Rightarrow> filters \<Rightarrow> board_sort \<Rightarrow> int \<Rightarrow> (nat \<Rightarrow> world) \<Rightarrow> nat \<Rightarrow> cursor option \<Rightarrow> public_job list \<times> cursor option" where
  "ask B f order limit ws k c =
     (case fst (jobs_list B f order limit c (ws k)) of Inr page \<Rightarrow> page | Inl _ \<Rightarrow> ([], None))"

definition shown :: "board_lib \<Rightarrow> filters \<Rightarrow> db \<Rightarrow> posting_row \<Rightarrow> public_job" where
  "shown B f d r = (case public_row B f d r of Inr p \<Rightarrow> p | Inl _ \<Rightarrow> undefined)"

lemma public_row_shown: "posting_check r \<Longrightarrow> public_row B f d r = Inr (shown B f d r)"
  using posting_check_decodes [of r d "distance_m B f r" "map_option first_name (find_poster d r)"]
  by (auto simp: shown_def public_row_def)

lemma shown_id: "posting_check r \<Longrightarrow> pj_id (shown B f d r) = jb_id r"
  using public_row_shown [of r B f d] into_public_sel(1) by (auto simp: public_row_def)

lemma collect_shown: "list_all posting_check rows \<Longrightarrow> collect_res (public_row B f d) rows = Inr (map (shown B f d) rows)"
  by (induction rows) (simp_all add: public_row_shown)

lemma take_next_subset: "take_next limit key xs = (kept, c) \<Longrightarrow> set kept \<subseteq> set xs"
  by (auto simp: take_next_def Let_def split: if_splits dest: in_set_butlastD)

lemma board_rows_subset: "set (board_rows B f field limit c now d) \<subseteq> {r \<in> set (jobs d). listed B f d r}"
  unfolding board_rows_def by (auto dest!: in_set_takeD)

lemma ask_page:
  assumes "quiet (ws k)" and "list_all posting_check (jobs (w_db (ws k)))"
  shows "ask B f order limit ws k c =
    (case take_next (clamp_limit max_page limit) (cursor_at B f (ordering_for order f) (w_clock (ws k)) (w_db (ws k)))
       (board_rows B f (ordering_for order f) (clamp_limit max_page limit) c (w_clock (ws k)) (w_db (ws k))) of
     (rows, next_cursor) \<Rightarrow> (map (shown B f (w_db (ws k))) rows, next_cursor))"
proof -
  let ?rows = "board_rows B f (ordering_for order f) (clamp_limit max_page limit) c (w_clock (ws k)) (w_db (ws k))"
  obtain kept nx where t: "take_next (clamp_limit max_page limit)
      (cursor_at B f (ordering_for order f) (w_clock (ws k)) (w_db (ws k))) ?rows = (kept, nx)" by fastforce
  have "list_all posting_check kept"
    using take_next_subset [OF t] board_rows_subset [of B f _ _ c] assms(2) by (fastforce simp: list_all_iff)
  then show ?thesis
    using assms(1) t by (simp add: ask_def jobs_list_def Let_def bind_def query_run of_res_def ret_def collect_shown)
qed

lemma clamp_limit_pos: "0 < clamp_limit ceiling limit"
  by (simp add: clamp_limit_def)

lemma listed_pageable:
  assumes l: "listed B f d r" and order: "order \<noteq> Budget" "order \<noteq> ForMe"
  shows "pageable B f (ordering_for order f) now d r"
proof -
  have near: "jb_public_point r \<noteq> None" if "fl_near f \<noteq> None"
    using l that by (cases "fl_near f"; cases "jb_public_point r") (simp_all add: listed_def on_board_def)
  show ?thesis
  proof (cases order)
    case Best
    then show ?thesis by (cases "fl_query f") (simp_all add: pageable_def ordering_for_def key_value_def relevance_def)
  next
    case Distance
    then show ?thesis using near
      by (cases "fl_near f"; cases "jb_public_point r") (simp_all add: pageable_def ordering_for_def key_value_def distance_m_def)
  qed (use order in \<open>simp_all add: pageable_def ordering_for_def\<close>)
qed


text \<open>Three jobs of Ann's: one up to 200, one up to 400, and one whose budget she does not know.\<close>

definition bigger_job :: posting_row where
  "bigger_job = reopened_job\<lparr>jb_id := 9, jb_budget_max := Some 400\<rparr>"

definition unsure_job :: posting_row where
  "unsure_job = reopened_job\<lparr>jb_id := 8, jb_budget_min := None, jb_budget_max := None\<rparr>"

definition board_world :: "posting_row list \<Rightarrow> time \<Rightarrow> world" where
  "board_world js now = calm_world (empty_db\<lparr>users := [poster_account], jobs := js\<rparr>) now"

lemma board_world_simps [simp]:
  "quiet (board_world js now)" "jobs (w_db (board_world js now)) = js" "users (w_db (board_world js now)) = [poster_account]"
  "w_clock (board_world js now) = now" "conversations (w_db (board_world js now)) = []"
  "w_db (board_world js now) = w_db (board_world js now') \<longleftrightarrow> True"
  by (simp_all add: board_world_def quiet_def empty_db_def)

lemma example_jobs:
  "posting_check bigger_job" "posting_check unsure_job" "jb_id reopened_job = 7" "jb_id bigger_job = 9" "jb_id unsure_job = 8"
  "jb_budget_max reopened_job = Some 200" "jb_budget_max bigger_job = Some 400" "jb_budget_max unsure_job = None"
  "jb_created_at reopened_job = 1" "jb_created_at bigger_job = 1" "jb_created_at unsure_job = 1"
  using reopened_job_check by (simp_all add: posting_check_def bigger_job_def unsure_job_def reopened_job_def reopened_posting_def closed_job_def)

lemma example_jobs_on_board: "on_board B no_filters reopened_job" "on_board B no_filters unsure_job"
  by (simp_all add: on_board_def no_filters_def unsure_job_def reopened_job_def reopened_posting_def)

lemma example_jobs_listed:
  assumes "users d = [poster_account]"
  shows "listed B no_filters d reopened_job" "listed B no_filters d bigger_job" "listed B no_filters d unsure_job"
  using assms by (simp_all add: listed_def on_board_def no_filters_def find_poster_def poster_account_def bigger_job_def unsure_job_def
      reopened_job_def reopened_posting_def closed_job_def)

definition ageing :: board_lib where
  "ageing = \<lparr>st_within = (\<lambda>_ _ _. True), st_distance = (\<lambda>_ _. 0), ts_matches = (\<lambda>_ _ _. True), ts_rank = (\<lambda>_ _ _. 0),
     fit_score = (\<lambda>trade distance age replies. f64_of_int (1000 - age)), word_similarity = (\<lambda>_ _. 0)\<rparr>"



lemma the_feed_resumes_before_its_cursor:
  assumes "fit B f t1 d r = Some x" and "fit B f t2 d q = Some y" and "float8_place y < float8_place x"
  shows "past_cursor B f (Some FitKey) t2 d (cursor_at B f (Some FitKey) t1 d r) q"
  using assms by (simp add: past_cursor_def cursor_at_def key_value_def descending_def)

definition feed_filters :: filters where
  "feed_filters = no_filters\<lparr>fl_viewer := Some \<lparr>vw_contractor_id = 5, vw_trade_ids = [], vw_point = None\<rparr>\<rparr>"

lemma feed_order: "ordering_for ForMe feed_filters = Some FitKey"
  by (simp add: ordering_for_def feed_filters_def)

lemma feed_fit:
  "conversations d = [] \<Longrightarrow> r \<in> {reopened_job, bigger_job} \<Longrightarrow> fit B feed_filters t d r = Some (fit_score B False None (t - 1) 0)"
  by (auto simp: fit_def feed_filters_def trade_in_def example_jobs split: option.splits)

lemma feed_listed: "listed B feed_filters d r = listed B no_filters d r"
  by (simp add: listed_def on_board_def feed_filters_def no_filters_def)

lemma feed_rows:
  assumes "jobs d = [reopened_job, bigger_job]" "users d = [poster_account]" "conversations d = []"
    and "case c of None \<Rightarrow> True | Some c' \<Rightarrow> \<forall>r \<in> {reopened_job, bigger_job}. past_cursor B feed_filters (Some FitKey) t d c' r"
  shows "board_rows B feed_filters (Some FitKey) (Suc 0) c t d = [bigger_job, reopened_job]"
  using assms example_jobs_listed [OF assms(2), of B]
  by (cases c) (simp_all add: board_rows_def feed_listed board_place_def key_place_def key_value_def descending_def feed_fit example_jobs)

lemma take_next_two: "take_next (Suc 0) key [x, y] = ([x], Some (key x))"
  by (simp add: take_next_def)



lemma sum_facets: "sum_list (map fc_count (facet_list groups)) = sum_list (map snd groups)"
proof -
  have insort: "sum_list (map f (insort_key k x xs)) = f x + sum_list (map f xs)"
    for f :: "facet \<Rightarrow> nat" and k :: "facet \<Rightarrow> int \<times> ustr" and x xs
    by (induction xs) simp_all
  have "sum_list (map f (sort_key k xs)) = sum_list (map f xs)" for f :: "facet \<Rightarrow> nat" and k :: "facet \<Rightarrow> int \<times> ustr" and xs
    by (induction xs) (simp_all add: insort)
  then have "sum_list (map fc_count (facet_list groups)) = sum_list (map fc_count (map (\<lambda>(v, n). \<lparr>fc_value = v, fc_count = n\<rparr>) groups))"
    by (simp only: facet_list_def)
  also have "\<dots> = sum_list (map snd groups)" by (induction groups) auto
  finally show ?thesis .
qed

lemma sum_groups: "sum_list (map snd (group_counts value rows)) = length rows"
proof -
  have "(\<Sum>v\<in>S. length (filter (\<lambda>r. value r = v) rows)) = length rows" if "finite S" "value ` set rows \<subseteq> S" for S
    using that(2)
  proof (induction rows)
    case (Cons r rows)
    have "(\<Sum>v\<in>S. length (filter (\<lambda>x. value x = v) (r # rows))) =
        (\<Sum>v\<in>S. (if value r = v then 1 else 0) + length (filter (\<lambda>x. value x = v) rows))"
      by (intro sum.cong) auto
    also have "\<dots> = 1 + length rows" using Cons that(1) by (simp add: sum.distrib)
    finally show ?case by simp
  qed simp
  from this [of "set (map value rows)"] show ?thesis
    by (simp add: group_counts_def o_def sum.distinct_set_conv_list [symmetric] del: set_map) (simp add: sum.distinct_set_conv_list)
qed

text \<open>
  The counts beside the list are counts of the list: the total, the timelines, the build types and the trades each count exactly the jobs
  that match, every one of them once.
\<close>

theorem facets_count_the_matching_jobs:
  assumes "jobs_facets B f w = (Inr fs, w')"
  shows "fs_total fs = length (filter (on_board B f) (jobs (w_db w))) \<and>
    sum_list (map fc_count (fs_trade fs)) = fs_total fs \<and> sum_list (map fc_count (fs_timeline fs)) = fs_total fs \<and>
    sum_list (map fc_count (fs_build_type fs)) = fs_total fs"
proof -
  have "fs = facets_of (w_db w) (filter (on_board B f) (jobs (w_db w)))"
    using assms by (simp add: jobs_facets_def query_Inr_iff)
  then show ?thesis by (simp add: facets_of_def sum_facets sum_groups case_prod_unfold o_def)
qed

theorem facets_count_the_matching_jobs_witness:
  "\<exists>fs. fst (jobs_facets ageing no_filters (board_world [reopened_job, unsure_job] 0)) = Inr fs \<and> fs_total fs = 2 \<and>
     sum_list (map fc_count (fs_trade fs)) = 2"
proof -
  obtain fs w' where run: "jobs_facets ageing no_filters (board_world [reopened_job, unsure_job] 0) = (Inr fs, w')"
    by (simp add: jobs_facets_def query_run)
  from facets_count_the_matching_jobs [OF run] run show ?thesis by (simp add: example_jobs_on_board)
qed

end
