(* ===== verification/Job_Query.thy ===== *)
theory Job_Query
  imports Board Jobs Utf8
begin

text \<open>
  The query parser and the cursors of \<open>cm-domain/src/jobs.rs\<close>. A filter that is not understood is dropped and named; a bad page size, order
  or cursor is refused. The text of a float and of a time stamp, and their reading, are parameters (Rust's \<open>f64\<close> and chrono's RFC 3339).
\<close>

record text_lib =
  f64_text :: "f64 \<Rightarrow> ustr"
  f64_parse :: "ustr \<Rightarrow> f64 option"
  rfc3339_text :: "time \<Rightarrow> ustr"
  rfc3339_parse :: "ustr \<Rightarrow> time option"

record raw_query =
  rq_q :: "ustr option"
  rq_sort :: "ustr option"
  rq_timeline :: "ustr option"
  rq_build_type :: "ustr option"
  rq_budget_min :: "ustr option"
  rq_trade :: "ustr option"
  rq_zip :: "ustr option"
  rq_lat :: "ustr option"
  rq_lon :: "ustr option"
  rq_radius_m :: "ustr option"
  rq_limit :: "ustr option"
  rq_cursor :: "ustr option"

record job_query =
  jq_sort :: board_sort
  jq_filters :: filters
  jq_limit :: int
  jq_cursor :: "cursor option"
  jq_ignored :: "ustr list"

definition max_radius_m :: f64 where "max_radius_m = f64_of_int 200000"
definition default_radius_m :: f64 where "default_radius_m = f64_of_int 25000"

text \<open>\<open>.as_deref().map(str::trim).filter(|s| !s.is_empty())\<close>.\<close>

definition present_text :: "ustr option \<Rightarrow> ustr option" where
  "present_text v = (case v of None \<Rightarrow> None | Some s \<Rightarrow> if trim s = [] then None else Some (trim s))"

definition parse_f64 :: "text_lib \<Rightarrow> ustr option \<Rightarrow> f64 option" where
  "parse_f64 X v =
     (case present_text v of
        None \<Rightarrow> None
      | Some s \<Rightarrow> (case f64_parse X s of None \<Rightarrow> None | Some x \<Rightarrow> if f64_finite x then Some x else None))"

subsection \<open>Cursors\<close>

definition encode_cursor :: "lib \<Rightarrow> text_lib \<Rightarrow> cursor \<Rightarrow> ustr" where
  "encode_cursor L X c =
     b64url_encode L (as_bytes (uuid_to_string L (cr_id c) @ [0] @
       (case cr_sort_key c of None \<Rightarrow> [] | Some x \<Rightarrow> f64_text X x) @ [0] @ rfc3339_text X (cr_created_at c)))"

definition bad_cursor :: "'a res" where
  "bad_cursor = Inl (invalid ''that page cursor is not valid'')"

definition decode_cursor :: "lib \<Rightarrow> text_lib \<Rightarrow> ustr \<Rightarrow> cursor res" where
  "decode_cursor L X value =
     (case Option.bind (b64url_decode L value) from_utf8 of
        None \<Rightarrow> bad_cursor
      | Some s \<Rightarrow>
          (case split_once 0 s of
             None \<Rightarrow> bad_cursor
           | Some (i, rest) \<Rightarrow>
               (case split_once 0 rest of
                  None \<Rightarrow> bad_cursor
                | Some (key, created_at) \<Rightarrow>
                    (case (if key = [] then Some None
                           else (case f64_parse X key of
                                   None \<Rightarrow> None
                                 | Some x \<Rightarrow> if f64_finite x then Some (Some x) else None)) of
                       None \<Rightarrow> bad_cursor
                     | Some resume \<Rightarrow>
                         (case (uuid_parse L i, rfc3339_parse X created_at) of
                            (Some u, Some at) \<Rightarrow> Inr \<lparr>cr_created_at = at, cr_id = u, cr_sort_key = resume\<rparr>
                          | _ \<Rightarrow> bad_cursor)))))"

subsection \<open>The parser\<close>

text \<open>An optional filter: what it was read as, and its name when it was dropped.\<close>

definition optional_filter :: "string \<Rightarrow> (ustr \<Rightarrow> 'a option) \<Rightarrow> ustr option \<Rightarrow> 'a option \<times> ustr list" where
  "optional_filter name read v =
     (case present_text v of
        None \<Rightarrow> (None, [])
      | Some s \<Rightarrow> (case read s of None \<Rightarrow> (None, [lit name]) | Some x \<Rightarrow> (Some x, [])))"

definition ok_option :: "'a res \<Rightarrow> 'a option" where
  "ok_option r = (case r of Inl _ \<Rightarrow> None | Inr x \<Rightarrow> Some x)"

definition read_budget :: "ustr \<Rightarrow> int option" where
  "read_budget s = (case parse_i64 s of None \<Rightarrow> None | Some n \<Rightarrow> if 0 \<le> n then Some n else None)"

definition read_zip :: "ustr \<Rightarrow> ustr option" where
  "read_zip s = (if utf8_len s = 5 \<and> list_all is_digit s then Some s else None)"

definition read_near :: "text_lib \<Rightarrow> raw_query \<Rightarrow> near option \<times> ustr list" where
  "read_near X raw =
     (case (parse_f64 X (rq_lat raw), parse_f64 X (rq_lon raw), parse_f64 X (rq_radius_m raw)) of
        (Some lat, Some lon, radius) \<Rightarrow>
          if f64_within (f64_of_int (- 90)) (f64_of_int 90) lat \<and> f64_within (f64_of_int (- 180)) (f64_of_int 180) lon then
            (Some \<lparr>nr_lat = lat, nr_lon = lon,
               nr_radius_m = f64_clamp (f64_of_int 1) max_radius_m (case radius of None \<Rightarrow> default_radius_m | Some r \<Rightarrow> r)\<rparr>, [])
          else (None, [lit ''lat/lon/radius_m''])
      | (None, None, None) \<Rightarrow> (None, [])
      | _ \<Rightarrow> (None, [lit ''lat/lon/radius_m'']))"

definition read_limit :: "ustr option \<Rightarrow> int res" where
  "read_limit v =
     (case present_text v of
        None \<Rightarrow> Inr default_page
      | Some s \<Rightarrow> (case parse_i64 s of
            None \<Rightarrow> Inl (invalid ''limit must be a number'')
          | Some n \<Rightarrow> Inr (max 1 (min n max_page))))"

definition read_sort :: "near option \<Rightarrow> ustr option \<Rightarrow> board_sort res" where
  "read_sort area v =
     (case present_text v of
        None \<Rightarrow> Inr Newest
      | Some s \<Rightarrow>
          if s = lit ''newest'' then Inr Newest
          else if s = lit ''best'' then Inr Best
          else if s = lit ''budget'' then Inr Budget
          else if s = lit ''distance'' then
            (if area = None then Inl (invalid ''sort=distance needs lat and lon to measure from'') else Inr Distance)
          else Inl (Invalid (lit ''unknown sort '' @ [34] @ s @ [34] @ lit ''; expected newest, best, budget or distance'')))"

definition parse_query :: "lib \<Rightarrow> text_lib \<Rightarrow> raw_query \<Rightarrow> uuid list \<Rightarrow> job_query res" where
  "parse_query L X raw trade_ids =
     (let (timeline, i1) = optional_filter ''timeline'' (\<lambda>s. ok_option (job_timeline_parse_request s)) (rq_timeline raw);
          (build, i2) = optional_filter ''build_type'' (\<lambda>s. ok_option (build_type_parse_request s)) (rq_build_type raw);
          (budget, i3) = optional_filter ''budget_min'' read_budget (rq_budget_min raw);
          (zip_code, i4) = optional_filter ''zip'' read_zip (rq_zip raw);
          (near, i5) = read_near X raw;
          f = \<lparr>fl_viewer = None, fl_query = map_option (take 200) (present_text (rq_q raw)), fl_query_trade_ids = [],
            fl_trade_ids = (if trade_ids = [] then None else Some trade_ids), fl_postal_code = zip_code, fl_near = near,
            fl_timeline = timeline, fl_build_type = build, fl_budget_min = budget\<rparr> in
      case read_limit (rq_limit raw) of
        Inl e \<Rightarrow> Inl e
      | Inr limit \<Rightarrow>
          (case (case rq_cursor raw of
                   None \<Rightarrow> Inr None
                 | Some s \<Rightarrow> if s = [] then Inr None
                     else (case decode_cursor L X s of Inl e \<Rightarrow> Inl e | Inr c \<Rightarrow> Inr (Some c))) of
             Inl e \<Rightarrow> Inl e
           | Inr c \<Rightarrow>
               (case read_sort near (rq_sort raw) of
                  Inl e \<Rightarrow> Inl e
                | Inr order \<Rightarrow> Inr \<lparr>jq_sort = order, jq_filters = f, jq_limit = limit, jq_cursor = c,
                    jq_ignored = i1 @ i2 @ i3 @ i4 @ i5\<rparr>)))"

text \<open>The slugs of a \<open>trade\<close> parameter, separated by commas.\<close>

definition trade_slugs :: "ustr option \<Rightarrow> ustr list" where
  "trade_slugs v =
     (case present_text v of None \<Rightarrow> [] | Some s \<Rightarrow> filter (\<lambda>t. t \<noteq> []) (map trim (split_on 44 s)))"

subsection \<open>Handlers of the board\<close>

definition trade_ids_of :: "raw_query \<Rightarrow> uuid list m" where
  "trade_ids_of raw =
     (case present_text (rq_trade raw) of
        None \<Rightarrow> ret []
      | Some _ \<Rightarrow> reference_trade_ids_for_slugs (trade_slugs (rq_trade raw)))"

definition map_handler :: "lib \<Rightarrow> text_lib \<Rightarrow> board_lib \<Rightarrow> raw_query \<Rightarrow> (job_point list \<times> bool \<times> ustr list) m" where
  "map_handler L X B raw =
     seq acquire
     (bind (trade_ids_of raw) (\<lambda>ids.
      bind (of_res (parse_query L X raw ids)) (\<lambda>q.
      bind (map_points B (jq_filters q) max_map_points) (\<lambda>(points, truncated).
      ret (points, truncated, jq_ignored q)))))"

definition detail_handler :: "board_lib \<Rightarrow> storage \<Rightarrow> uuid \<Rightarrow> public_job m" where
  "detail_handler B G i =
     seq acquire
     (bind (jobs_find B i) (\<lambda>found.
      case found of
        None \<Rightarrow> throw NotFound
      | Some j \<Rightarrow>
          bind (job_photos_for_jobs [i]) (\<lambda>rows.
          ret (hd (attach_photos (url_for (sg_store G)) rows [j])))))"

definition mine_handler :: "storage \<Rightarrow> uuid \<Rightarrow> owner_job list m" where
  "mine_handler G caller =
     seq acquire
     (bind (jobs_for_poster caller) (\<lambda>mine.
      bind (job_photos_for_jobs (map (\<lambda>j. pj_id (oj_public j)) mine)) (\<lambda>rows.
      ret (map (\<lambda>j. j\<lparr>oj_public := hd (attach_photos (url_for (sg_store G)) rows [oj_public j])\<rparr>) mine))))"

end
