(* ===== verification/Job_Query_Properties.thy ===== *)
theory Job_Query_Properties
  imports Job_Query Concrete
begin

text \<open>Cursors are read back as they were written, and a query that is accepted is within the bounds of the board.\<close>

subsection \<open>Cursors\<close>

text \<open>What is relied on of the texts of one cursor: they are read back, and no text has a NUL or is empty where the key is.\<close>

definition plain :: "ustr \<Rightarrow> bool" where
  "plain s \<longleftrightarrow> list_all (\<lambda>c. scalar c \<and> c \<noteq> 0) s"

definition texts_ok :: "text_lib \<Rightarrow> cursor \<Rightarrow> bool" where
  "texts_ok X c \<longleftrightarrow>
     rfc3339_parse X (rfc3339_text X (cr_created_at c)) = Some (cr_created_at c) \<and> plain (rfc3339_text X (cr_created_at c)) \<and>
     (case cr_sort_key c of None \<Rightarrow> True
      | Some x \<Rightarrow> f64_finite x \<and> f64_text X x \<noteq> [] \<and> plain (f64_text X x) \<and> f64_parse X (f64_text X x) = Some x)"

lemma split_once_plain: "plain s \<Longrightarrow> split_once 0 (s @ 0 # rest) = Some (s, rest)"
  by (induction s) (auto simp: plain_def)

lemma plain_scalar: "plain s \<Longrightarrow> list_all scalar s"
  by (simp add: plain_def list_all_iff)

lemma url_safe_plain: "list_all url_safe s \<Longrightarrow> plain s"
  by (force simp: plain_def list_all_iff url_safe_def scalar_def surrogate_def)

text \<open>
  C12. A cursor handed to a client comes back as it was: decoding the encoding gives the same posting time, identifier and key, for
  every cursor whose key is a finite number, given that the numbers, identifiers and time stamps in it are read back as printed.
\<close>

theorem cursors_round_trip:
  assumes "lib_ok L" and "texts_ok X c"
  shows "decode_cursor L X (encode_cursor L X c) = Inr c"
proof -
  let ?key = "case cr_sort_key c of None \<Rightarrow> [] | Some x \<Rightarrow> f64_text X x"
  have u: "plain (uuid_to_string L (cr_id c))" using lib_okD(6) [OF assms(1)] by (rule url_safe_plain)
  have k: "plain ?key" using assms(2) by (auto simp: texts_ok_def plain_def split: option.splits)
  have t: "plain (rfc3339_text X (cr_created_at c))" using assms(2) by (simp add: texts_ok_def)
  have "list_all scalar (uuid_to_string L (cr_id c) @ [0] @ ?key @ [0] @ rfc3339_text X (cr_created_at c))"
    using plain_scalar [OF u] plain_scalar [OF k] plain_scalar [OF t] by (simp add: scalar_def surrogate_def)
  note read = from_utf8_as_bytes [OF this]
  have "Option.bind (b64url_decode L (encode_cursor L X c)) from_utf8 =
      Some (uuid_to_string L (cr_id c) @ 0 # ?key @ 0 # rfc3339_text X (cr_created_at c))"
    using read by (simp add: encode_cursor_def lib_okD(3) [OF assms(1)])
  then show ?thesis
    using assms(2) lib_okD(5) [OF assms(1)] split_once_plain [OF u] split_once_plain [OF k]
    by (cases c; cases "cr_sort_key c") (auto simp: decode_cursor_def texts_ok_def)
qed

definition toy_texts :: text_lib where
  "toy_texts = \<lparr>f64_text = (\<lambda>x. show_nat (unat x)), f64_parse = (\<lambda>s. map_option of_nat (parse_digits s)),
     rfc3339_text = (\<lambda>t. show_int t), rfc3339_parse = parse_i64\<rparr>"

theorem cursors_round_trip_witness:
  "decode_cursor toy_lib toy_texts (encode_cursor toy_lib toy_texts \<lparr>cr_created_at = 7, cr_id = 5, cr_sort_key = Some 3\<rparr>) =
   Inr \<lparr>cr_created_at = 7, cr_id = 5, cr_sort_key = Some 3\<rparr>"
proof (rule cursors_round_trip [OF toy_lib_ok])
  have "plain (show_nat n)" for n
    using set_show_nat [of _ n] by (force simp: plain_def list_all_iff scalar_def surrogate_def)
  moreover have "show_int 7 = show_nat 7" by (simp add: show_int_def)
  moreover have "parse_i64 (show_int 7) = Some 7" by (rule parse_i64_show_int) simp_all
  ultimately show "texts_ok toy_texts \<lparr>cr_created_at = 7, cr_id = 5, cr_sort_key = Some 3\<rparr>"
    by (simp add: texts_ok_def toy_texts_def f64_finite_def f64_magnitude_def parse_digits_show_nat show_nat_nonempty)
qed

subsection \<open>Accepted queries\<close>

lemma f64_bounds: "f64_le (f64_of_int 1) max_radius_m" "\<not> f64_nan default_radius_m"
  by (simp_all add: f64_le_def f64_nan_def f64_key_def f64_magnitude_def max_radius_m_def default_radius_m_def f64_of_int_def
      f64_of_nat_def round_half_even_def Let_def bit_length.simps)

lemma parse_f64_finite: "parse_f64 X v = Some x \<Longrightarrow> \<not> f64_nan x"
  by (auto simp: parse_f64_def f64_finite_def f64_nan_def split: option.splits if_splits)

lemma read_near_bounds:
  assumes "read_near X raw = (Some n, is)"
  shows "f64_within (f64_of_int (- 90)) (f64_of_int 90) (nr_lat n) \<and> f64_within (f64_of_int (- 180)) (f64_of_int 180) (nr_lon n) \<and>
    f64_within (f64_of_int 1) max_radius_m (nr_radius_m n)"
proof -
  have "f64_within (f64_of_int 1) max_radius_m (f64_clamp (f64_of_int 1) max_radius_m (case radius of None \<Rightarrow> default_radius_m | Some r \<Rightarrow> r))"
    if "parse_f64 X (rq_radius_m raw) = radius" for radius
    using that f64_bounds parse_f64_finite [of X "rq_radius_m raw"] by (cases radius) (auto intro!: f64_clamp_within)
  then show ?thesis using assms by (auto simp: read_near_def split: option.splits if_splits)
qed

text \<open>
  C11. An accepted query is within the bounds of the board, whatever was sent: a page holds 1 to 50 jobs, the text is at most 200 characters, a
  centre is on the globe with a radius of 1 to 200000 metres, a budget is not negative, a ZIP code is five digits, an order by
  distance has a centre, and the order is never the personal one.
\<close>

theorem accepted_queries_are_bounded:
  assumes "parse_query L X raw ids = Inr q"
  shows "1 \<le> jq_limit q \<and> jq_limit q \<le> 50 \<and> (\<forall>s. fl_query (jq_filters q) = Some s \<longrightarrow> length s \<le> 200 \<and> s \<noteq> []) \<and>
    (\<forall>n. fl_near (jq_filters q) = Some n \<longrightarrow>
       f64_within (f64_of_int (- 90)) (f64_of_int 90) (nr_lat n) \<and> f64_within (f64_of_int (- 180)) (f64_of_int 180) (nr_lon n) \<and>
       f64_within (f64_of_int 1) (f64_of_int 200000) (nr_radius_m n)) \<and>
    (\<forall>b. fl_budget_min (jq_filters q) = Some b \<longrightarrow> 0 \<le> b) \<and>
    (\<forall>z. fl_postal_code (jq_filters q) = Some z \<longrightarrow> utf8_len z = 5 \<and> list_all is_digit z) \<and>
    (jq_sort q = Distance \<longrightarrow> fl_near (jq_filters q) \<noteq> None) \<and> jq_sort q \<noteq> ForMe"
proof -
  obtain near i5 budget i3 z i4 where near: "read_near X raw = (near, i5)"
    and budget: "optional_filter ''budget_min'' read_budget (rq_budget_min raw) = (budget, i3)"
    and z: "optional_filter ''zip'' read_zip (rq_zip raw) = (z, i4)" by (metis prod.collapse)
  obtain limit order where limit: "read_limit (rq_limit raw) = Inr limit" and order: "read_sort near (rq_sort raw) = Inr order"
    and q: "jq_limit q = limit" "jq_sort q = order" "fl_near (jq_filters q) = near" "fl_budget_min (jq_filters q) = budget"
      "fl_postal_code (jq_filters q) = z" "fl_query (jq_filters q) = map_option (take 200) (present_text (rq_q raw))"
    using assms near budget z by (auto simp: parse_query_def Let_def split: prod.splits sum.splits)
  have "1 \<le> limit \<and> limit \<le> 50"
    using limit by (auto simp: read_limit_def default_page_def max_page_def split: option.splits)
  moreover have "(order = Distance \<longrightarrow> near \<noteq> None) \<and> order \<noteq> ForMe"
    using order by (auto simp: read_sort_def split: option.splits if_splits)
  moreover have "budget = Some b \<Longrightarrow> 0 \<le> b" for b
    using budget by (auto simp: optional_filter_def read_budget_def split: option.splits if_splits)
  moreover have "z = Some s \<Longrightarrow> utf8_len s = 5 \<and> list_all is_digit s" for s
    using z by (auto simp: optional_filter_def read_zip_def split: option.splits if_splits)
  moreover have "map_option (take 200) (present_text (rq_q raw)) = Some s \<Longrightarrow> length s \<le> 200 \<and> s \<noteq> []" for s
    by (auto simp: present_text_def split: option.splits if_splits)
  ultimately show ?thesis using q near read_near_bounds [of X raw] by (auto simp: max_radius_m_def)
qed

definition bare_query :: raw_query where
  "bare_query = \<lparr>rq_q = None, rq_sort = Some (lit ''budget''), rq_timeline = None, rq_build_type = None, rq_budget_min = None,
     rq_trade = None, rq_zip = Some (lit ''banana''), rq_lat = None, rq_lon = None, rq_radius_m = None, rq_limit = Some (lit ''500''),
     rq_cursor = None\<rparr>"

theorem accepted_queries_are_bounded_witness:
  "\<exists>q. parse_query toy_lib toy_texts bare_query [] = Inr q \<and> jq_limit q = 50 \<and> jq_sort q = Budget \<and> jq_ignored q = [lit ''zip''] \<and>
     fl_postal_code (jq_filters q) = None"
proof -
  obtain q where run: "parse_query toy_lib toy_texts bare_query [] = Inr q" "jq_limit q = 50" "jq_sort q = Budget"
    "jq_ignored q = [lit ''zip'']" "fl_postal_code (jq_filters q) = None"
    by (simp add: parse_query_def bare_query_def optional_filter_def present_text_def read_zip_def read_near_def parse_f64_def
        read_limit_def read_sort_def trim_def trim_by_def is_whitespace_def lit_def utf8_len_def as_bytes_def utf8_char_def
        parse_i64_def parse_digits_def digits_value_def strip_plus_def is_digit_def max_page_def)
  with accepted_queries_are_bounded [OF run(1)] show ?thesis by blast
qed

end
