(* ===== verification/Saved_Searches.thy ===== *)
theory Saved_Searches
  imports Job_Query Listings
begin

text \<open>
  Saved searches: \<open>cm-db/src/repo/saved_searches.rs\<close>, the saving of \<open>cm-domain/src/job_alerts.rs\<close>, the handlers of
  \<open>cm-api/src/handlers/saved_searches.rs\<close>, and the two pages of the job board that read the same query string, the list and the feed of
  \<open>cm-api/src/handlers/jobs.rs\<close>. A saved search is the board's filters, frozen as columns; \<open>search_matches\<close> is the board's
  predicate with the sides swapped.
\<close>

subsection \<open>The words people use for trades\<close>

text \<open>The thresholds 0.70 and 0.90 as \<open>f64\<close>; \<open>word_similarity\<close> is PostgreSQL's. \<open>LIMIT 8\<close> has no order: the first in the order of the table here.\<close>

definition alias_similarity_threshold :: f64 where "alias_similarity_threshold = 0x3FE6666666666666"
definition alias_contained_threshold :: f64 where "alias_contained_threshold = 0x3FECCCCCCCCCCCCD"

definition alias_matches :: "board_lib \<Rightarrow> ustr \<Rightarrow> alias_row \<Rightarrow> bool" where
  "alias_matches B needle a \<longleftrightarrow>
     al_alias a = needle \<or> f64_le alias_similarity_threshold (word_similarity B needle (al_alias a)) \<or>
     f64_le alias_contained_threshold (word_similarity B (al_alias a) needle)"

definition trades_matching_text :: "lib \<Rightarrow> board_lib \<Rightarrow> ustr \<Rightarrow> uuid list m" where
  "trades_matching_text L B text =
     (let needle = to_lowercase L (trim text) in
      if needle = [] then ret []
      else query (\<lambda>_ d. take 8 (remdups (map al_trade_id (filter (alias_matches B needle) (trade_aliases d))))))"

definition route_by_alias :: "lib \<Rightarrow> board_lib \<Rightarrow> job_query \<Rightarrow> job_query m" where
  "route_by_alias L B q =
     (case fl_query (jq_filters q) of
        None \<Rightarrow> ret q
      | Some text \<Rightarrow> bind (trades_matching_text L B text) (\<lambda>ids.
          ret (q\<lparr>jq_filters := (jq_filters q)\<lparr>fl_query_trade_ids := ids\<rparr>\<rparr>)))"

text \<open>How the list, the feed and a saved search read the query string.\<close>

definition board_query :: "lib \<Rightarrow> text_lib \<Rightarrow> board_lib \<Rightarrow> raw_query \<Rightarrow> job_query m" where
  "board_query L X B raw =
     bind (trade_ids_of raw) (\<lambda>ids. bind (of_res (parse_query L X raw ids)) (route_by_alias L B))"

subsection \<open>Impressions\<close>

record search_event =
  im_kind :: ustr
  im_surface :: ustr
  im_subject_id :: uuid
  im_actor :: "uuid option"
  im_position :: int
  im_had_query :: bool
  im_sort :: "ustr option"
  im_request_id :: "ustr option"

definition event_row :: "time \<Rightarrow> uuid \<Rightarrow> search_event \<Rightarrow> search_event_row" where
  "event_row now i e = \<lparr>se_id = i, se_kind = im_kind e, se_surface = im_surface e, se_subject_id = im_subject_id e,
     se_actor = im_actor e, se_position = im_position e, se_had_query = im_had_query e, se_sort = im_sort e,
     se_request_id = im_request_id e, se_created_at = now\<rparr>"

definition event_check :: "search_event_row \<Rightarrow> bool" where
  "event_check r \<longleftrightarrow> se_kind r \<in> {lit ''impression'', lit ''click'', lit ''contact''} \<and>
     se_surface r \<in> {lit ''directory'', lit ''jobs''} \<and> 1 \<le> se_position r"

fun fresh_ids :: "nat \<Rightarrow> uuid list m" where
  "fresh_ids 0 = ret []"
| "fresh_ids (Suc n) = bind new_id (\<lambda>i. bind (fresh_ids n) (\<lambda>is. ret (i # is)))"

definition record_events_stmt :: "uuid list \<Rightarrow> search_event list \<Rightarrow> time \<Rightarrow> db \<Rightarrow> (nat \<times> db) res" where
  "record_events_stmt ids events now d =
     (let rows = map2 (event_row now) ids events in
      if \<not> list_all event_check rows then Inl (internal ''check constraint of search_events'')
      else if \<not> distinct ids \<or> (\<exists>i \<in> set ids. i \<in> se_id ` set (search_events d)) then Inl (internal ''search_events_pkey'')
      else if \<not> list_all (\<lambda>r. case se_actor r of None \<Rightarrow> True | Some u \<Rightarrow> user_exists d u) rows then
        Inl (internal ''search_events foreign key'')
      else Inr (length rows, d\<lparr>search_events := search_events d @ rows\<rparr>))"

definition record_events :: "search_event list \<Rightarrow> nat m" where
  "record_events events =
     (if events = [] then ret 0 else bind (fresh_ids (length events)) (\<lambda>ids. sql (record_events_stmt ids events)))"

text \<open>\<open>if let Err(error) = ... { tracing::warn! }\<close>: the result is dropped.\<close>

definition best_effort :: "'a m \<Rightarrow> unit m" where
  "best_effort f w = (Inr (), snd (f w))"

definition impressions :: "public_job list \<Rightarrow> uuid option \<Rightarrow> bool \<Rightarrow> ustr option \<Rightarrow> ustr option \<Rightarrow> search_event list" where
  "impressions page actor had_query order request_id =
     map2 (\<lambda>n j. \<lparr>im_kind = lit ''impression'', im_surface = lit ''jobs'', im_subject_id = pj_id j, im_actor = actor,
        im_position = int n + 1, im_had_query = had_query, im_sort = order, im_request_id = request_id\<rparr>)
       [0..<length page] page"

subsection \<open>The list and the feed\<close>

record list_response =
  lr_jobs :: "public_job list"
  lr_facets :: facets
  lr_next_cursor :: "ustr option"
  lr_ignored :: "ustr list"

definition board_page ::
  "lib \<Rightarrow> text_lib \<Rightarrow> board_lib \<Rightarrow> storage \<Rightarrow> job_query \<Rightarrow> board_sort \<Rightarrow> uuid option \<Rightarrow> ustr option \<Rightarrow> ustr option \<Rightarrow> list_response m" where
  "board_page L X B G q order actor sort_text request_id =
     bind (jobs_list B (jq_filters q) order (jq_limit q) (jq_cursor q)) (\<lambda>(page, next_cursor).
     bind (job_photos_for_jobs (map pj_id page)) (\<lambda>rows.
     let page = attach_photos (url_for (sg_store G)) rows page in
     bind (jobs_facets B (jq_filters q)) (\<lambda>counts.
     seq (best_effort (record_events (impressions page actor (fl_query (jq_filters q) \<noteq> None) sort_text request_id)))
     (ret \<lparr>lr_jobs = page, lr_facets = counts, lr_next_cursor = map_option (encode_cursor L X) next_cursor,
        lr_ignored = jq_ignored q\<rparr>))))"

definition list_handler :: "lib \<Rightarrow> text_lib \<Rightarrow> board_lib \<Rightarrow> storage \<Rightarrow> raw_query \<Rightarrow> ustr option \<Rightarrow> list_response m" where
  "list_handler L X B G raw request_id =
     seq acquire
     (bind (board_query L X B raw) (\<lambda>q. board_page L X B G q (jq_sort q) None (rq_sort raw) request_id))"

definition viewer_for :: "uuid \<Rightarrow> viewer option m" where
  "viewer_for i = query (\<lambda>_ d. map_option (\<lambda>c. \<lparr>vw_contractor_id = i,
     vw_trade_ids = map ctr_trade_id (filter (\<lambda>t. ctr_contractor_id t = ct_id c) (contractor_trades d)),
     vw_point = ct_public_point c\<rparr>) (find_contractor d i))"

definition feed_handler :: "lib \<Rightarrow> text_lib \<Rightarrow> board_lib \<Rightarrow> storage \<Rightarrow> uuid \<Rightarrow> raw_query \<Rightarrow> ustr option \<Rightarrow> list_response m" where
  "feed_handler L X B G caller raw request_id =
     seq acquire
     (bind (contractors_claimed_by caller) (\<lambda>listing.
      case listing of
        None \<Rightarrow> throw Forbidden
      | Some i \<Rightarrow>
          bind (board_query L X B raw) (\<lambda>q.
          bind (viewer_for i) (\<lambda>v.
          let q = q\<lparr>jq_filters := (jq_filters q)\<lparr>fl_viewer := v\<rparr>\<rparr>;
              order = (case rq_sort raw of None \<Rightarrow> ForMe | Some _ \<Rightarrow> jq_sort q) in
          board_page L X B G q order (Some caller)
            (Some (case rq_sort raw of None \<Rightarrow> lit ''for_me'' | Some s \<Rightarrow> s)) request_id))))"

subsection \<open>Saved searches\<close>

definition max_per_user :: nat where "max_per_user = 20"

definition saved_search_of :: "uuid \<Rightarrow> time \<Rightarrow> uuid \<Rightarrow> ustr \<Rightarrow> filters \<Rightarrow> search_row" where
  "saved_search_of i now uid name f =
     \<lparr>ss_id = i, ss_user_id = uid, ss_name = name, ss_query = fl_query f,
      ss_query_trade_ids = (if fl_query_trade_ids f = [] then None else Some (fl_query_trade_ids f)),
      ss_trade_ids = fl_trade_ids f, ss_postal_code = fl_postal_code f,
      ss_center = map_option (\<lambda>n. (nr_lon n, nr_lat n)) (fl_near f), ss_radius_m = map_option nr_radius_m (fl_near f),
      ss_timeline = map_option job_timeline_str (fl_timeline f), ss_build_type = map_option build_type_str (fl_build_type f),
      ss_budget_min = fl_budget_min f, ss_notify = True, ss_last_notified_at = None, ss_created_at = now\<rparr>"

definition saved_search_check :: "search_row \<Rightarrow> bool" where
  "saved_search_check s \<longleftrightarrow>
     1 \<le> length (ss_name s) \<and> length (ss_name s) \<le> 120 \<and>
     (case ss_query s of None \<Rightarrow> True | Some q \<Rightarrow> length q \<le> 200) \<and>
     (case ss_postal_code s of None \<Rightarrow> True | Some z \<Rightarrow> five_digits z) \<and>
     (case ss_radius_m s of None \<Rightarrow> True | Some r \<Rightarrow> f64_lt 0 r \<and> f64_le r (f64_of_int 200000)) \<and>
     (case ss_timeline s of None \<Rightarrow> True
      | Some t \<Rightarrow> t \<in> {lit ''asap'', lit ''within_2_weeks'', lit ''more_than_2_weeks'', lit ''unsure''}) \<and>
     (case ss_build_type s of None \<Rightarrow> True
      | Some b \<Rightarrow> b \<in> {lit ''new_build'', lit ''replacement'', lit ''repair'', lit ''unsure''}) \<and>
     (case ss_budget_min s of None \<Rightarrow> True | Some n \<Rightarrow> 0 \<le> n) \<and>
     (ss_center s = None) = (ss_radius_m s = None)"

definition searches_of :: "db \<Rightarrow> uuid \<Rightarrow> search_row list" where
  "searches_of d uid = filter (\<lambda>s. ss_user_id s = uid) (saved_searches d)"

definition create_search_stmt :: "uuid \<Rightarrow> uuid \<Rightarrow> ustr \<Rightarrow> filters \<Rightarrow> time \<Rightarrow> db \<Rightarrow> (search_row option \<times> db) res" where
  "create_search_stmt i uid name f now d =
     (if max_per_user \<le> length (searches_of d uid) then Inr (None, d)
      else
        (let s = saved_search_of i now uid name f in
         if \<not> saved_search_check s then Inl (internal ''check constraint of saved_searches'')
         else if i \<in> ss_id ` set (saved_searches d) then Inl (internal ''saved_searches_pkey'')
         else if \<not> user_exists d uid then Inl (internal ''saved_searches foreign key'')
         else Inr (Some s, d\<lparr>saved_searches := saved_searches d @ [s]\<rparr>)))"

definition saved_searches_create :: "uuid \<Rightarrow> ustr \<Rightarrow> filters \<Rightarrow> search_row m" where
  "saved_searches_create uid name f =
     bind new_id (\<lambda>i. bind (sql (create_search_stmt i uid name f)) (\<lambda>row.
     case row of
       Some s \<Rightarrow> ret s
     | None \<Rightarrow> throw (Invalid (lit ''You already have '' @ show_nat max_per_user @
         lit '' saved searches. Delete one to save another.''))))"

definition saved_searches_list :: "uuid \<Rightarrow> search_row list m" where
  "saved_searches_list uid = query (\<lambda>_ d. sort_key (\<lambda>s. - ss_created_at s) (searches_of d uid))"

definition saved_searches_delete :: "uuid \<Rightarrow> uuid \<Rightarrow> bool m" where
  "saved_searches_delete uid i =
     sql (\<lambda>_ d. let mine = (\<lambda>s. ss_id s = i \<and> ss_user_id s = uid) in
       Inr (length (filter mine (saved_searches d)) = 1, d\<lparr>saved_searches := filter (\<lambda>s. \<not> mine s) (saved_searches d)\<rparr>))"

definition set_notify_off :: "uuid \<Rightarrow> unit m" where
  "set_notify_off i =
     execute (\<lambda>_ d. d\<lparr>saved_searches := map (\<lambda>s. if ss_id s = i then s\<lparr>ss_notify := False\<rparr> else s) (saved_searches d)\<rparr>)"

definition saved_search_policy :: policy where
  "saved_search_policy = mk_policy ''saved_search_create:user'' 30 (days 1)"

definition create_saved_search :: "lib \<Rightarrow> text_lib \<Rightarrow> board_lib \<Rightarrow> ustr \<Rightarrow> env \<Rightarrow> uuid \<Rightarrow> ustr \<Rightarrow> raw_query \<Rightarrow> search_row m" where
  "create_saved_search L X B pepper env uid name raw =
     seq (limited L pepper env saved_search_policy uid)
     (let name = trim name in
      if name = [] \<or> 120 < length name then throw (invalid ''Give the search a name, up to 120 characters.'')
      else
        after_others env 1
          (seq acquire (bind (board_query L X B raw) (\<lambda>q. saved_searches_create uid name (jq_filters q)))))"

definition list_saved :: "uuid \<Rightarrow> search_row list m" where
  "list_saved caller = seq acquire (saved_searches_list caller)"

definition delete_saved :: "uuid \<Rightarrow> uuid \<Rightarrow> unit m" where
  "delete_saved caller i =
     seq acquire (bind (saved_searches_delete caller i) (\<lambda>gone. if gone then ret () else throw NotFound))"

definition unsubscribe :: "lib \<Rightarrow> ustr \<Rightarrow> uuid \<Rightarrow> ustr \<Rightarrow> unit m" where
  "unsubscribe L pepper i token =
     (if \<not> verify_unsubscribe L pepper (uuid_to_string L i) token then throw (invalid ''That unsubscribe link is not valid.'')
      else seq acquire (set_notify_off i))"

subsection \<open>The reverse match\<close>

definition search_matches :: "board_lib \<Rightarrow> search_row \<Rightarrow> posting_row \<Rightarrow> bool" where
  "search_matches B s r \<longleftrightarrow>
     (case ss_trade_ids s of None \<Rightarrow> True | Some ids \<Rightarrow> trade_in ids r) \<and>
     (case ss_postal_code s of None \<Rightarrow> True | Some code \<Rightarrow> jb_postal_code r = code) \<and>
     (case ss_center s of None \<Rightarrow> True
      | Some c \<Rightarrow> (case (jb_public_point r, ss_radius_m s) of (Some p, Some m) \<Rightarrow> st_within B p c m | _ \<Rightarrow> False)) \<and>
     (case ss_query s of None \<Rightarrow> True
      | Some q \<Rightarrow> ts_matches B (jb_title r) (jb_description r) q \<or>
          (case ss_query_trade_ids s of None \<Rightarrow> False | Some ids \<Rightarrow> trade_in ids r)) \<and>
     (case ss_timeline s of None \<Rightarrow> True | Some t \<Rightarrow> jb_timeline r = t) \<and>
     (case ss_build_type s of None \<Rightarrow> True | Some b \<Rightarrow> jb_build_type r = b) \<and>
     (case ss_budget_min s of None \<Rightarrow> True | Some n \<Rightarrow> (case jb_budget_max r of None \<Rightarrow> False | Some b \<Rightarrow> n \<le> b))"

end
