(* ===== verification/Job_Alerts.thy ===== *)
theory Job_Alerts
  imports Saved_Searches Repo_Outbox Auth_Service
begin

text \<open>
  The weekly alert pass, \<open>cm-domain/src/job_alerts.rs\<close>, with its statements of \<open>cm-db/src/repo/saved_searches.rs\<close>. A batch is one transaction:
  it takes jobs nobody has been told about, matches them against the saved searches, puts one digest per person in the outbox and
  marks the jobs. \<open>FOR UPDATE SKIP LOCKED\<close> makes concurrent passes take different jobs; here transactions are serial.
\<close>

definition alert_batch :: nat where "alert_batch = 500"
definition alert_max_batches :: nat where "alert_max_batches = 40"
definition digest_lines :: nat where "digest_lines = 10"

record alert_stats =
  as_considered :: nat
  as_matched :: nat
  as_digests :: nat

definition no_alerts :: alert_stats where
  "no_alerts = \<lparr>as_considered = 0, as_matched = 0, as_digests = 0\<rparr>"

subsection \<open>Statements\<close>

definition unmatched_jobs :: "nat \<Rightarrow> db \<Rightarrow> uuid list" where
  "unmatched_jobs limit d = map jb_id (take limit (sort_key jb_created_at (filter (\<lambda>r. jb_alerts_matched_at r = None) (jobs d))))"

definition claim_unmatched_jobs :: "nat \<Rightarrow> uuid list m" where
  "claim_unmatched_jobs limit = query (\<lambda>_. unmatched_jobs limit)"

record alert_match =
  am_search_id :: uuid
  am_search_name :: ustr
  am_user_id :: uuid
  am_email :: ustr
  am_job_id :: uuid

text \<open>The row of the join that a job, a search and its account make, if they make one; and the account that may be written to.\<close>

definition reachable_account :: "db \<Rightarrow> uuid \<Rightarrow> user_row option" where
  "reachable_account d uid =
     find (\<lambda>u. u_id u = uid \<and> u_status u = lit ''active'' \<and> u_email_verified_at u \<noteq> None) (users d)"

definition alerts :: "board_lib \<Rightarrow> db \<Rightarrow> posting_row \<Rightarrow> search_row \<Rightarrow> bool" where
  "alerts B d r s \<longleftrightarrow>
     ss_notify s \<and> search_matches B s r \<and> reachable_account d (ss_user_id s) \<noteq> None \<and>
     jb_status r = lit ''open'' \<and> jb_posted_by r \<noteq> ss_user_id s"

definition alert_pairs :: "board_lib \<Rightarrow> db \<Rightarrow> uuid list \<Rightarrow> (posting_row \<times> search_row) list" where
  "alert_pairs B d ids =
     sort_key (\<lambda>(r, s). (uint (ss_user_id s), jb_created_at r))
       (filter (\<lambda>(r, s). alerts B d r s)
         (List.product (filter (\<lambda>r. jb_id r \<in> set ids) (jobs d)) (saved_searches d)))"

text \<open>A NULL address would fail to decode.\<close>

definition alert_match_of :: "db \<Rightarrow> posting_row \<times> search_row \<Rightarrow> alert_match res" where
  "alert_match_of d p =
     (case p of (r, s) \<Rightarrow>
        (case Option.bind (reachable_account d (ss_user_id s)) u_email of
           None \<Rightarrow> Inl (internal ''unexpected null; try decoding as an Option'')
         | Some e \<Rightarrow> Inr \<lparr>am_search_id = ss_id s, am_search_name = ss_name s, am_user_id = ss_user_id s, am_email = e,
             am_job_id = jb_id r\<rparr>))"

definition matches_for_jobs :: "board_lib \<Rightarrow> uuid list \<Rightarrow> alert_match list m" where
  "matches_for_jobs B ids =
     bind (query (\<lambda>_ d. collect_res (alert_match_of d) (alert_pairs B d ids))) of_res"

record alert_job =
  aj_id :: uuid
  aj_title :: ustr
  aj_trade :: "ustr option"
  aj_postal_code :: ustr
  aj_timeline :: ustr
  aj_budget_min :: "int option"
  aj_budget_max :: "int option"

definition alert_job_of :: "db \<Rightarrow> posting_row \<Rightarrow> alert_job" where
  "alert_job_of d r =
     \<lparr>aj_id = jb_id r, aj_title = jb_title r,
      aj_trade = (case jb_trade_id r of None \<Rightarrow> None | Some t \<Rightarrow> map_option tr_name (find (\<lambda>x. tr_id x = t) (trades d))),
      aj_postal_code = jb_postal_code r, aj_timeline = jb_timeline r, aj_budget_min = jb_budget_min r,
      aj_budget_max = jb_budget_max r\<rparr>"

definition alert_jobs :: "uuid list \<Rightarrow> alert_job list m" where
  "alert_jobs ids = query (\<lambda>_ d. map (alert_job_of d) (filter (\<lambda>r. jb_id r \<in> set ids) (jobs d)))"

definition mark_jobs_matched :: "uuid list \<Rightarrow> unit m" where
  "mark_jobs_matched ids =
     execute (\<lambda>now d. d\<lparr>jobs := map (\<lambda>r. if jb_id r \<in> set ids
        then r\<lparr>jb_updated_at := now, jb_alerts_matched_at := Some now\<rparr> else r) (jobs d)\<rparr>)"

definition touch_notified :: "uuid list \<Rightarrow> unit m" where
  "touch_notified ids =
     execute (\<lambda>now d. d\<lparr>saved_searches := map (\<lambda>s. if ss_id s \<in> set ids
        then s\<lparr>ss_last_notified_at := Some now\<rparr> else s) (saved_searches d)\<rparr>)"

subsection \<open>Digests\<close>

definition timeline_words :: "ustr \<Rightarrow> ustr" where
  "timeline_words t =
     (if t = lit ''asap'' then lit ''wanted ASAP''
      else if t = lit ''within_2_weeks'' then lit ''within 2 weeks''
      else if t = lit ''more_than_2_weeks'' then lit ''more than 2 weeks out''
      else lit ''timing flexible'')"

text \<open>Budgets are not negative, so \<open>div\<close> is Rust's division.\<close>

definition budget_words :: "int option \<Rightarrow> int option \<Rightarrow> ustr" where
  "budget_words lo hi =
     (case (lo, hi) of
        (Some a, Some b) \<Rightarrow> lit '', budget $'' @ show_int (a div 100) @ [8211] @ lit ''$'' @ show_int (b div 100)
      | _ \<Rightarrow> [])"

definition unsubscribe_url :: "lib \<Rightarrow> ustr \<Rightarrow> origin \<Rightarrow> uuid \<Rightarrow> ustr" where
  "unsubscribe_url L pepper site search_id =
     or_normalised site @ lit ''/unsubscribe?search='' @ uuid_to_string L search_id @ lit ''&token='' @
     unsubscribe_token L pepper (uuid_to_string L search_id)"

definition job_facts :: "alert_job \<Rightarrow> ustr" where
  "job_facts j =
     (case aj_trade j of None \<Rightarrow> lit ''Other'' | Some t \<Rightarrow> t) @ lit '', ZIP '' @ aj_postal_code j @ lit '', '' @
     timeline_words (aj_timeline j) @ budget_words (aj_budget_min j) (aj_budget_max j)"

definition job_url :: "lib \<Rightarrow> origin \<Rightarrow> uuid \<Rightarrow> ustr" where
  "job_url L site i = or_normalised site @ lit ''/jobs/'' @ uuid_to_string L i"

definition digest_line :: "lib \<Rightarrow> origin \<Rightarrow> alert_job \<Rightarrow> ustr" where
  "digest_line L site j =
     [10] @ lit ''  '' @ [8226, 32] @ aj_title j @ [32, 8212, 32] @ job_facts j @ [10] @ lit ''    '' @ job_url L site (aj_id j) @ [10]"

definition digest_card :: "lib \<Rightarrow> origin \<Rightarrow> alert_job \<Rightarrow> ustr" where
  "digest_card L site j = mail_digest_job (job_url L site (aj_id j)) (aj_title j) (job_facts j)"

text \<open>How to stop one search, in the text and in the markup.\<close>

definition stop_line :: "lib \<Rightarrow> ustr \<Rightarrow> origin \<Rightarrow> ustr \<times> uuid \<Rightarrow> ustr" where
  "stop_line L pepper site search =
     (case search of (name, i) \<Rightarrow>
        lit ''  '' @ name @ [32, 8212] @ lit '' stop: '' @ unsubscribe_url L pepper site i @ [10])"

definition stop_link :: "lib \<Rightarrow> ustr \<Rightarrow> origin \<Rightarrow> ustr \<times> uuid \<Rightarrow> ustr" where
  "stop_link L pepper site search =
     (case search of (name, i) \<Rightarrow>
        lit ''<br><strong style=\"color:#4c5a75;\">'' @ mail_escape name @ lit ''</strong> '' @ [8212] @
        lit '' <a href=\"'' @ unsubscribe_url L pepper site i @ lit ''\" style=\"color:#6b7688;\">stop these</a>'')"

text \<open>The first occurrence of each, in order.\<close>

definition first_of_each :: "('a \<Rightarrow> 'k) \<Rightarrow> 'a list \<Rightarrow> 'a list" where
  "first_of_each key xs = fold (\<lambda>x acc. if key x \<in> key ` set acc then acc else acc @ [x]) xs []"

record digest =
  dg_subject :: ustr
  dg_body_text :: ustr
  dg_body_html :: ustr
  dg_unsubscribe_url :: ustr

definition render_digest :: "lib \<Rightarrow> ustr \<Rightarrow> origin \<Rightarrow> alert_match list \<Rightarrow> alert_job list \<Rightarrow> digest" where
  "render_digest L pepper site found wanted =
     (let seen = first_of_each id (map am_job_id found);
          total = length seen;
          listed = List.map_filter (\<lambda>i. find (\<lambda>j. aj_id j = i) wanted) (take digest_lines seen);
          searches = first_of_each snd (map (\<lambda>a. (am_search_name a, am_search_id a)) found);
          board = or_normalised site @ lit ''/jobs'' in
      \<lparr>dg_subject = (if total = 1 then lit ''1 new job matches your saved search''
         else show_nat total @ lit '' new jobs match your saved searches''),
       dg_body_text = lit ''New on the job board this week:'' @ [10] @ concat (map (digest_line L site) listed) @
         (if digest_lines < total
          then [10] @ lit ''  '' @ [8230] @ lit ''and '' @ show_nat (total - digest_lines) @ lit '' more: '' @ board @ [10] else []) @
         [10] @ lit ''You get this email because of your saved searches:'' @ [10] @
         concat (map (stop_line L pepper site) searches),
       dg_body_html = mail_shell
         (show_nat total @ lit '' new '' @ (if total = 1 then lit ''job'' else lit ''jobs'') @ lit '' on the job board'')
         (mail_label (lit ''Job board'') @
          mail_heading (if total = 1 then lit ''A new job matches your saved search'' else lit ''New jobs match your saved searches'') @
          mail_paragraph (lit ''Posted on the job board since your last digest.'') @
          concat (map (digest_card L site) listed) @
          (if digest_lines < total
           then mail_paragraph ([8230] @ lit ''and '' @ show_nat (total - digest_lines) @ lit '' more on '' @
             mail_link board (lit ''the job board'') @ lit ''.'') else []) @
          mail_footnote (lit ''You get this email because of your saved searches:<br>'' @
            concat (map (stop_link L pepper site) searches))),
       dg_unsubscribe_url = unsubscribe_url L pepper site (snd (hd searches))\<rparr>)"

subsection \<open>The pass\<close>

text \<open>One entry per person, in the order of the identifiers, each with the matches in theirs.\<close>

definition per_user :: "alert_match list \<Rightarrow> (uuid \<times> alert_match list) list" where
  "per_user found = map (\<lambda>u. (u, filter (\<lambda>a. am_user_id a = u) found)) (sort (remdups (map am_user_id found)))"

definition digest_email :: "lib \<Rightarrow> ustr \<Rightarrow> origin \<Rightarrow> alert_job list \<Rightarrow> uuid \<times> alert_match list \<Rightarrow> new_email" where
  "digest_email L pepper site wanted entry =
     (case entry of (uid, found) \<Rightarrow>
        (let e = render_digest L pepper site found wanted in
         \<lparr>ne_user_id = uid, ne_recipient = am_email (hd found), ne_kind = KJobAlert, ne_subject = dg_subject e,
          ne_body_text = dg_body_text e, ne_body_html = Some (dg_body_html e), ne_unsubscribe_url = Some (dg_unsubscribe_url e)\<rparr>))"

fun enqueue_digests :: "lib \<Rightarrow> ustr \<Rightarrow> origin \<Rightarrow> alert_job list \<Rightarrow> (uuid \<times> alert_match list) list \<Rightarrow> unit m" where
  "enqueue_digests L pepper site wanted [] = ret ()"
| "enqueue_digests L pepper site wanted (e # es) =
     seq (outbox_enqueue (digest_email L pepper site wanted e)) (enqueue_digests L pepper site wanted es)"

definition tell_everyone :: "lib \<Rightarrow> ustr \<Rightarrow> origin \<Rightarrow> alert_match list \<Rightarrow> unit m" where
  "tell_everyone L pepper site found =
     (if found = [] then ret ()
      else
        bind (alert_jobs (sort (remdups (map am_job_id found)))) (\<lambda>wanted.
        seq (enqueue_digests L pepper site wanted (per_user found))
            (touch_notified (sort (remdups (map am_search_id found))))))"

definition alert_batch_tx :: "lib \<Rightarrow> board_lib \<Rightarrow> ustr \<Rightarrow> origin \<Rightarrow> (alert_stats + alert_stats) m" where
  "alert_batch_tx L B pepper site =
     bind (claim_unmatched_jobs alert_batch) (\<lambda>ids.
     if ids = [] then ret (Inl no_alerts)
     else
       bind (matches_for_jobs B ids) (\<lambda>found.
       seq (tell_everyone L pepper site found)
       (seq (mark_jobs_matched ids)
       (ret (Inr \<lparr>as_considered = length ids, as_matched = length (remdups (map am_job_id found)),
          as_digests = length (per_user found)\<rparr>)))))"

definition run_batch :: "lib \<Rightarrow> board_lib \<Rightarrow> ustr \<Rightarrow> origin \<Rightarrow> alert_stats m" where
  "run_batch L B pepper site = transaction_early (alert_batch_tx L B pepper site)"

definition add_alerts :: "alert_stats \<Rightarrow> alert_stats \<Rightarrow> alert_stats" where
  "add_alerts a b = \<lparr>as_considered = as_considered a + as_considered b, as_matched = as_matched a + as_matched b,
     as_digests = as_digests a + as_digests b\<rparr>"

text \<open>At most \<open>n\<close> more batches, the next of which is the \<open>k\<close>-th.\<close>

fun alert_loop :: "lib \<Rightarrow> board_lib \<Rightarrow> ustr \<Rightarrow> origin \<Rightarrow> env \<Rightarrow> nat \<Rightarrow> nat \<Rightarrow> alert_stats \<Rightarrow> alert_stats m" where
  "alert_loop L B pepper site env 0 k stats = ret stats"
| "alert_loop L B pepper site env (Suc n) k stats =
     bind (after_others env k (run_batch L B pepper site)) (\<lambda>batch.
     if as_considered batch < alert_batch then ret (add_alerts stats batch)
     else alert_loop L B pepper site env n (Suc k) (add_alerts stats batch))"

definition run_alerts :: "lib \<Rightarrow> board_lib \<Rightarrow> ustr \<Rightarrow> origin \<Rightarrow> env \<Rightarrow> alert_stats m" where
  "run_alerts L B pepper site env = alert_loop L B pepper site env alert_max_batches 0 no_alerts"

end
