(* ===== verification/Alert_Digests.thy ===== *)
theory Alert_Digests
  imports Job_Alerts Concrete_Service
begin

text \<open>
  How long a digest gets. The outbox refuses a message that is too long, and the batch that wrote it with it; the bounds of this theory
  show that no digest of a batch is refused for its length.
\<close>

subsection \<open>Lengths of the pieces\<close>

lemma show_nat_length: "n < 10 ^ Suc k \<Longrightarrow> length (show_nat n) \<le> Suc k"
proof (induction k arbitrary: n)
  case 0
  then show ?case by (simp add: show_nat.simps [of n])
next
  case (Suc k)
  then have "n div 10 < 10 ^ Suc k" by (simp add: less_mult_imp_div_less mult.commute)
  then show ?case using Suc.IH [of "n div 10"] by (simp add: show_nat.simps [of n])
qed

lemma mail_escape_length: "length (mail_escape s) \<le> 6 * length s"
proof (induction s)
  case (Cons c s)
  have "length (escape_char c) \<le> 6" by (simp add: escape_char_def lit_def)
  with Cons show ?case by (simp add: mail_escape_def)
qed (simp add: mail_escape_def)

lemma mail_digest_job_length: "length (mail_digest_job url title facts) \<le> 1500 + length url + 6 * length title + 6 * length facts"
  using mail_escape_length [of title] mail_escape_length [of facts]
  by (simp add: mail_digest_job_def mail_token_defs lit_def)

lemma mail_link_length: "length (mail_link url label) \<le> 300 + length url + 6 * length label"
  using mail_escape_length [of label] by (simp add: mail_link_def mail_token_defs lit_def)

lemma concat_length: "(\<And>x. x \<in> set xs \<Longrightarrow> length (f x) \<le> k) \<Longrightarrow> length (concat (map f xs)) \<le> length xs * k"
proof (induction xs)
  case (Cons x xs)
  then have "length (f x) \<le> k" "length (concat (map f xs)) \<le> length xs * k" by simp_all
  then show ?case by simp
qed simp

lemma first_of_each_append: "first_of_each key (xs @ [x]) =
    (let acc = first_of_each key xs in if key x \<in> key ` set acc then acc else acc @ [x])"
  by (simp add: first_of_each_def Let_def)

lemma first_of_each_spec:
  "set (first_of_each key xs) \<subseteq> set xs \<and> key ` set (first_of_each key xs) = key ` set xs \<and>
   distinct (map key (first_of_each key xs))"
proof (induction xs rule: rev_induct)
  case Nil
  then show ?case by (simp add: first_of_each_def)
next
  case (snoc x xs)
  then show ?case by (auto simp: first_of_each_append Let_def)
qed

lemma first_of_each_card: "length (first_of_each key xs) = card (key ` set xs)"
  using first_of_each_spec [of key xs] by (metis distinct_card length_map list.set_map)

subsection \<open>A digest\<close>

text \<open>What the digest of one person is made from: texts within the limits of their columns, and at most a batch of jobs.\<close>

definition short_texts :: "lib \<Rightarrow> origin \<Rightarrow> bool" where
  "short_texts L site \<longleftrightarrow> length (or_normalised site) \<le> 300 \<and> (\<forall>u. length (uuid_to_string L u) \<le> 40) \<and>
     (\<forall>b. length (b64url_encode L b) \<le> 2 * length b)"

definition short_job :: "alert_job \<Rightarrow> bool" where
  "short_job j \<longleftrightarrow> length (aj_title j) \<le> 140 \<and> length (aj_postal_code j) = 5 \<and>
     (case aj_trade j of None \<Rightarrow> True | Some t \<Rightarrow> length t \<le> 200) \<and>
     (case aj_budget_min j of None \<Rightarrow> True | Some n \<Rightarrow> 0 \<le> n \<and> n < 2 ^ 63) \<and>
     (case aj_budget_max j of None \<Rightarrow> True | Some n \<Rightarrow> 0 \<le> n \<and> n < 2 ^ 63)"

lemma unsubscribe_url_length:
  assumes "lib_ok L" and "short_texts L site"
  shows "length (unsubscribe_url L pepper site i) \<le> 440"
proof -
  let ?token = "unsubscribe_token L pepper (uuid_to_string L i)"
  have "length ?token \<le> 2 * length (peppered L pepper ''unsubscribe:saved_search'' (uuid_to_string L i))"
    using assms(2) by (simp add: short_texts_def unsubscribe_token_def)
  then have "length ?token \<le> 64" using lib_okD(1) [OF assms(1)] by (simp add: peppered_def)
  moreover have "length (or_normalised site) \<le> 300" "length (uuid_to_string L i) \<le> 40" using assms(2) by (auto simp: short_texts_def)
  ultimately show ?thesis by (simp add: unsubscribe_url_def)
qed

lemma cents_length: "0 \<le> n \<Longrightarrow> n < 2 ^ 63 \<Longrightarrow> length (show_int (n div 100)) \<le> 19"
  using show_nat_length [of "nat (n div 100)" 18] pos_imp_zdiv_nonneg_iff [of 100 n] by (simp add: show_int_def)

lemma job_facts_length:
  assumes "short_job j"
  shows "length (job_facts j) \<le> 320"
proof -
  have "length (budget_words (aj_budget_min j) (aj_budget_max j)) \<le> 50"
  proof (cases "aj_budget_min j")
    case (Some a)
    show ?thesis
    proof (cases "aj_budget_max j")
      case (Some b)
      with \<open>aj_budget_min j = Some a\<close> assms cents_length [of a] cents_length [of b] show ?thesis
        by (simp add: budget_words_def short_job_def)
    qed (simp add: budget_words_def split: option.split)
  qed (simp add: budget_words_def)
  moreover have "length (case aj_trade j of None \<Rightarrow> lit ''Other'' | Some t \<Rightarrow> t) \<le> 200"
    using assms by (auto simp: short_job_def split: option.splits)
  moreover have "length (timeline_words (aj_timeline j)) \<le> 25" by (simp add: timeline_words_def)
  ultimately show ?thesis using assms by (simp add: job_facts_def short_job_def)
qed

lemma job_url_length: "short_texts L site \<Longrightarrow> length (job_url L site i) \<le> 350"
  using add_mono [of "length (or_normalised site)" 300 "length (uuid_to_string L i)" 40]
  by (auto simp: job_url_def short_texts_def)

lemma digest_line_length: "short_texts L site \<Longrightarrow> short_job j \<Longrightarrow> length (digest_line L site j) \<le> 850"
  using job_url_length [of L site "aj_id j"] job_facts_length [of j] by (simp add: digest_line_def short_job_def)

lemma digest_card_length: "short_texts L site \<Longrightarrow> short_job j \<Longrightarrow> length (digest_card L site j) \<le> 4700"
  using job_url_length [of L site "aj_id j"] job_facts_length [of j]
    mail_digest_job_length [of "job_url L site (aj_id j)" "aj_title j" "job_facts j"]
  by (simp add: digest_card_def short_job_def)

lemma stop_lengths:
  assumes "lib_ok L" and "short_texts L site" and "length (fst search) \<le> 120"
  shows "length (stop_line L pepper site search) \<le> 600" and "length (stop_link L pepper site search) \<le> 1400"
  using assms(3) unsubscribe_url_length [OF assms(1,2), of pepper "snd search"] mail_escape_length [of "fst search"]
  by (auto simp: stop_line_def stop_link_def case_prod_unfold)

lemma digest_fits:
  assumes "lib_ok L" and "short_texts L site" and "list_all short_job wanted"
    and "found \<noteq> []" and "card (am_search_id ` set found) \<le> 20" and "card (am_job_id ` set found) \<le> 500"
    and "\<forall>a \<in> set found. length (am_search_name a) \<le> 120 \<and> length (am_email a) \<le> 254"
  shows "outbox_check (outbox_row_of now i (digest_email L pepper site wanted (uid, found)))"
proof -
  let ?seen = "first_of_each id (map am_job_id found)"
  let ?searches = "first_of_each snd (map (\<lambda>a. (am_search_name a, am_search_id a)) found)"
  let ?listed = "List.map_filter (\<lambda>i. find (\<lambda>j. aj_id j = i) wanted) (take digest_lines ?seen)"
  let ?stop = "\<lambda>i. unsubscribe_url L pepper site i"
  have seen: "length ?seen \<le> 500" using assms(6) first_of_each_card [of id "map am_job_id found"] by simp
  have searches: "length ?searches \<le> 20"
    using assms(5) first_of_each_card [of snd "map (\<lambda>a. (am_search_name a, am_search_id a)) found"] by (simp add: image_image)
  have names: "length (fst search) \<le> 120" if "search \<in> set ?searches" for search
    using that first_of_each_spec [of snd "map (\<lambda>a. (am_search_name a, am_search_id a)) found"] assms(7) by auto
  have listed: "length ?listed \<le> 10" "j \<in> set ?listed \<Longrightarrow> short_job j" for j
  proof -
    have "length (List.map_filter f xs) \<le> length xs" for f :: "uuid \<Rightarrow> alert_job option" and xs
      by (simp add: List.map_filter_def)
    then show "length ?listed \<le> 10" by (rule order_trans) (simp add: digest_lines_def)
    assume "j \<in> set ?listed"
    then have "j \<in> set wanted" by (auto simp: List.map_filter_def dest: find_Some_in)
    with assms(3) show "short_job j" by (simp add: list_all_iff)
  qed
  have count: "length (show_nat n) \<le> 3" if "n \<le> 500" for n using show_nat_length [of n 2] that by simp
  have bound: "length (concat (map f xs)) \<le> n * k" if "\<And>x. x \<in> set xs \<Longrightarrow> length (f x) \<le> k" "length xs \<le> n" for f :: "'x \<Rightarrow> ustr" and xs n k
    using concat_length [of xs f k] that by (meson le_trans mult_le_mono1)
  have lines: "length (concat (map (digest_line L site) ?listed)) \<le> 10 * 850"
    using digest_line_length [OF assms(2) listed(2)] listed(1) by (rule bound)
  have cards: "length (concat (map (digest_card L site) ?listed)) \<le> 10 * 4700"
    using digest_card_length [OF assms(2) listed(2)] listed(1) by (rule bound)
  have lines_of: "length (concat (map (stop_line L pepper site) ?searches)) \<le> 20 * 600"
    by (rule bound [OF _ searches], rule stop_lengths(1) [OF assms(1,2) names])
  have links_of: "length (concat (map (stop_link L pepper site) ?searches)) \<le> 20 * 1400"
    by (rule bound [OF _ searches], rule stop_lengths(2) [OF assms(1,2) names])
  have site: "length (or_normalised site) \<le> 300" using assms(2) by (simp add: short_texts_def)
  have counts: "length (show_nat (length ?seen)) \<le> 3" "length (show_nat (length ?seen - digest_lines)) \<le> 3"
    using seen by (intro count, simp)+
  have subject: "length (dg_subject (render_digest L pepper site found wanted)) \<le> 100"
    using counts(1) by (simp add: render_digest_def Let_def)
  have plain: "length (dg_body_text (render_digest L pepper site found wanted)) \<le> 30000"
    using lines lines_of site counts by (simp add: render_digest_def Let_def del: take_all)
  have html: "length (dg_body_html (render_digest L pepper site found wanted)) \<le> 150000"
  proof -
    have shell: "length (mail_shell p (mail_label a @ mail_heading b @ mail_paragraph c @ x @ y @ mail_footnote (d @ z))) \<le> 150000"
      if "length p \<le> 100" "length a \<le> 100" "length b \<le> 100" "length c \<le> 100" "length d \<le> 100" "length x \<le> 10 * 4700" "length y \<le> 2000"
        "length z \<le> 20 * 1400" for p a b c d x y z
      using that mail_piece_lengths(1) [of b] mail_piece_lengths(2) [of a] mail_piece_lengths(3) [of c] mail_piece_lengths(4) [of "d @ z"]
      by (intro order_trans [OF mail_shell_length]) simp
    have more: "length (mail_paragraph ([8230] @ lit ''and '' @ show_nat (length ?seen - digest_lines) @ lit '' more on '' @
        mail_link (or_normalised site @ lit ''/jobs'') (lit ''the job board'') @ lit ''.'')) \<le> 2000"
      using mail_link_length [of "or_normalised site @ lit ''/jobs''" "lit ''the job board''"] site counts(2)
      by (intro order_trans [OF mail_piece_lengths(3)]) simp
    show ?thesis
      unfolding render_digest_def Let_def digest.simps
      by (rule shell) (use cards links_of counts(1) count [of "Suc 0"] more in \<open>simp_all del: take_all\<close>)
  qed
  have found: "length (am_email (hd found)) \<le> 254" using assms(4,7) by simp
  show ?thesis
    using found plain html subject unsubscribe_url_length [OF assms(1,2), of pepper "snd (hd ?searches)"]
    by (simp add: outbox_check_def outbox_row_of_def digest_email_def opt_len_le_def Let_def) (simp add: render_digest_def Let_def)
qed


definition example_match :: alert_match where
  "example_match = \<lparr>am_search_id = 5, am_search_name = lit ''Roofs'', am_user_id = 2, am_email = lit ''carl@b.c'', am_job_id = 7\<rparr>"

definition example_line :: alert_job where
  "example_line = \<lparr>aj_id = 7, aj_title = lit ''Roof'', aj_trade = None, aj_postal_code = lit ''90001'', aj_timeline = lit ''asap'',
     aj_budget_min = Some 100, aj_budget_max = Some 200\<rparr>"

definition example_site :: origin where
  "example_site = \<lparr>or_normalised = lit ''https://app.example'', or_secure = True\<rparr>"

lemma example_short: "short_texts toy_lib example_site" "short_job example_line"
proof -
  have "length (show_nat (unat (u :: uuid))) \<le> 40" for u
  proof -
    have "unat u < 2 ^ 128" using unsigned_less [of u] by simp
    then have "length (show_nat (unat u)) \<le> Suc 38" by (intro show_nat_length) simp
    then show ?thesis by simp
  qed
  moreover have "length (toy_encode b) = 2 * length b" for b by (induction b) (simp_all add: toy_encode_def toy_digit_def)
  ultimately show "short_texts toy_lib example_site" by (simp add: short_texts_def example_site_def)
  show "short_job example_line" by (simp add: short_job_def example_line_def)
qed


end
