(* ===== verification/Alert_Properties.thy ===== *)
theory Alert_Properties
  imports Alert_Digests Auth_Progress Board_Properties Job_Query_Properties
begin

text \<open>
  Saved searches and the alert pass: a search alerts exactly what its page shows, a batch tells everyone it owes a digest or nobody,
  nobody is told of a job twice, a pass leaves no job unconsidered, and an unsubscribed search is silent.
\<close>

subsection \<open>A saved search is its page\<close>

lemma search_matches_on_board:
  assumes "jb_status r = lit ''open''"
  shows "search_matches B (saved_search_of i now uid name f) r = on_board B f r"
proof -
  let ?s = "saved_search_of i now uid name f"
  have "(case ss_center ?s of None \<Rightarrow> True
      | Some c \<Rightarrow> (case (jb_public_point r, ss_radius_m ?s) of (Some p, Some m) \<Rightarrow> st_within B p c m | _ \<Rightarrow> False)) =
    (case fl_near f of None \<Rightarrow> True
      | Some n \<Rightarrow> (case jb_public_point r of None \<Rightarrow> False | Some p \<Rightarrow> st_within B p (centre n) (nr_radius_m n)))"
    by (cases "fl_near f"; cases "jb_public_point r") (simp_all add: saved_search_of_def centre_def)
  moreover have "(case ss_query_trade_ids ?s of None \<Rightarrow> False | Some ids \<Rightarrow> trade_in ids r) =
      (fl_query_trade_ids f \<noteq> [] \<and> trade_in (fl_query_trade_ids f) r)"
    by (simp add: saved_search_of_def)
  moreover have "(case ss_timeline ?s of None \<Rightarrow> True | Some t \<Rightarrow> jb_timeline r = t) =
      (case fl_timeline f of None \<Rightarrow> True | Some t \<Rightarrow> jb_timeline r = job_timeline_str t)"
    by (cases "fl_timeline f") (simp_all add: saved_search_of_def)
  moreover have "(case ss_build_type ?s of None \<Rightarrow> True | Some t \<Rightarrow> jb_build_type r = t) =
      (case fl_build_type f of None \<Rightarrow> True | Some t \<Rightarrow> jb_build_type r = build_type_str t)"
    by (cases "fl_build_type f") (simp_all add: saved_search_of_def)
  moreover have "ss_trade_ids ?s = fl_trade_ids f" "ss_postal_code ?s = fl_postal_code f" "ss_query ?s = fl_query f"
    "ss_budget_min ?s = fl_budget_min f" by (simp_all add: saved_search_of_def)
  ultimately show ?thesis using assms unfolding search_matches_def on_board_def by (simp only:) blast
qed

text \<open>What a query string means depends on the trades and their aliases alone.\<close>

lemma trade_ids_of_agree:
  assumes "trade_ids_of raw w = (Inr ids, w1)" and "trade_ids_of raw v = (Inr ids', v1)" and "trades (w_db w) = trades (w_db v)"
  shows "ids = ids' \<and> w_db w1 = w_db w \<and> w_db v1 = w_db v"
  using assms by (auto simp: trade_ids_of_def reference_trade_ids_for_slugs_def query_Inr_iff split: option.splits)

lemma route_by_alias_agree:
  assumes "route_by_alias L B q w = (Inr q1, w1)" and "route_by_alias L B q v = (Inr q2, v1)"
    and "trade_aliases (w_db w) = trade_aliases (w_db v)"
  shows "q1 = q2 \<and> w_db w1 = w_db w \<and> w_db v1 = w_db v"
  using assms
  by (auto simp: route_by_alias_def trades_matching_text_def Let_def bind_Inr_iff query_Inr_iff split: option.splits if_splits)

lemma board_query_agree:
  assumes w: "board_query L X B raw w = (Inr q, w1)" and v: "board_query L X B raw v = (Inr q', v1)"
    and same: "trades (w_db w) = trades (w_db v)" "trade_aliases (w_db w) = trade_aliases (w_db v)"
  shows "q = q' \<and> w_db w1 = w_db w"
proof -
  obtain ids u p where 1: "trade_ids_of raw w = (Inr ids, u)" "parse_query L X raw ids = Inr p" "route_by_alias L B p u = (Inr q, w1)"
    using w by (auto simp: board_query_def bind_Inr_iff)
  obtain ids' u' p' where 2: "trade_ids_of raw v = (Inr ids', u')" "parse_query L X raw ids' = Inr p'"
    "route_by_alias L B p' u' = (Inr q', v1)"
    using v by (auto simp: board_query_def bind_Inr_iff)
  have ids: "ids = ids'" "w_db u = w_db w" "w_db u' = w_db v" using trade_ids_of_agree [OF 1(1) 2(1) same(1)] by simp_all
  then have "p = p'" using 1(2) 2(2) by simp
  then show ?thesis using route_by_alias_agree [of L B p u q w1 u' q' v1] 1(3) 2(3) ids same by simp
qed

lemma saved_searches_create_Inr:
  assumes "saved_searches_create uid name f w = (Inr s, w')"
  shows "length (searches_of (w_db w) uid) < max_per_user \<and>
    w_db w' = (w_db w)\<lparr>saved_searches := saved_searches (w_db w) @ [s]\<rparr> \<and> saved_search_check s \<and>
    (\<exists>i. s = saved_search_of i (w_clock w) uid name f)"
  using assms
  by (auto simp: saved_searches_create_def create_search_stmt_def Let_def run_iffs split: option.splits if_splits)

lemma limited_Inr_db: "limited L pepper env p uid w = (Inr x, w') \<Longrightarrow> w_db w' = w_db (env 0 w)"
  by (auto simp: limited_def after_others_iff bind_Inr_iff dest: enforce_db)


subsection \<open>What a batch commits\<close>

definition marked :: "time \<Rightarrow> uuid list \<Rightarrow> posting_row \<Rightarrow> posting_row" where
  "marked now ids r = (if jb_id r \<in> set ids then r\<lparr>jb_updated_at := now, jb_alerts_matched_at := Some now\<rparr> else r)"

definition notified :: "time \<Rightarrow> uuid list \<Rightarrow> search_row \<Rightarrow> search_row" where
  "notified now ids s = (if ss_id s \<in> set ids then s\<lparr>ss_last_notified_at := Some now\<rparr> else s)"

lemma enqueue_digests_Inr:
  "enqueue_digests L pepper site wanted es w = (Inr (), w') \<Longrightarrow>
   \<exists>rows. w_db w' = (w_db w)\<lparr>email_outbox := email_outbox (w_db w) @ rows\<rparr> \<and> w_clock w' = w_clock w \<and>
     list_all2 (\<lambda>e r. \<exists>i. r = outbox_row_of (w_clock w) i (digest_email L pepper site wanted e)) es rows"
proof (induction es arbitrary: w)
  case Nil
  then show ?case by (intro exI [of _ "[]"]) auto
next
  case (Cons e es)
  then obtain i u where first: "outbox_enqueue (digest_email L pepper site wanted e) w = (Inr i, u)"
    and rest: "enqueue_digests L pepper site wanted es u = (Inr (), w')" by (auto simp: seq_Inr_iff)
  obtain rows where rows: "w_db w' = (w_db u)\<lparr>email_outbox := email_outbox (w_db u) @ rows\<rparr>" "w_clock w' = w_clock u"
    "list_all2 (\<lambda>e r. \<exists>i. r = outbox_row_of (w_clock u) i (digest_email L pepper site wanted e)) es rows"
    using Cons.IH [OF rest] by blast
  show ?case
    by (rule exI [of _ "outbox_row_of (w_clock w) i (digest_email L pepper site wanted e) # rows"])
      (use rows outbox_enqueue_InrD [OF first] in auto)
qed

definition digests_ok :: "lib \<Rightarrow> ustr \<Rightarrow> origin \<Rightarrow> time \<Rightarrow> alert_match list \<Rightarrow> outbox_row list \<Rightarrow> bool" where
  "digests_ok L pepper site now found rows \<longleftrightarrow>
     (\<exists>wanted. list_all2 (\<lambda>e r. \<exists>i. r = outbox_row_of now i (digest_email L pepper site wanted e)) (per_user found) rows)"

lemma tell_everyone_Inr:
  assumes "tell_everyone L pepper site found w = (Inr (), w')"
  shows "\<exists>rows. w_db w' = (w_db w)\<lparr>email_outbox := email_outbox (w_db w) @ rows,
      saved_searches := map (notified (w_clock w) (map am_search_id found)) (saved_searches (w_db w))\<rparr> \<and>
    w_clock w' = w_clock w \<and> digests_ok L pepper site (w_clock w) found rows"
proof (cases "found = []")
  case True
  moreover have "notified t [] = (\<lambda>s. s)" for t by (auto simp: notified_def)
  ultimately show ?thesis
    using assms by (intro exI [of _ "[]"]) (simp add: tell_everyone_def digests_ok_def per_user_def)
next
  case False
  with assms obtain wanted u u' where wanted: "alert_jobs (sort (remdups (map am_job_id found))) w = (Inr wanted, u)"
    and mails: "enqueue_digests L pepper site wanted (per_user found) u = (Inr (), u')"
    and touch: "touch_notified (sort (remdups (map am_search_id found))) u' = (Inr (), w')"
    by (auto simp: tell_everyone_def bind_Inr_iff seq_Inr_iff)
  have u: "w_db u = w_db w" "w_clock u = w_clock w" using wanted by (simp_all add: alert_jobs_def query_Inr_iff)
  from enqueue_digests_Inr [OF mails] obtain rows where
    rows: "w_db u' = (w_db w)\<lparr>email_outbox := email_outbox (w_db w) @ rows\<rparr>" "w_clock u' = w_clock w"
    "list_all2 (\<lambda>e r. \<exists>i. r = outbox_row_of (w_clock w) i (digest_email L pepper site wanted e)) (per_user found) rows"
    unfolding u by blast
  show ?thesis
    using touch rows by (intro exI [of _ rows]) (auto simp: touch_notified_def execute_Inr_iff notified_def digests_ok_def)
qed

text \<open>What a committed batch found, as a function of the tables it began on.\<close>

lemma alert_batch_tx_Inr:
  assumes "alert_batch_tx L B pepper site w = (Inr (Inr st), w')"
  obtains found rows where
    "collect_res (alert_match_of (w_db w)) (alert_pairs B (w_db w) (unmatched_jobs alert_batch (w_db w))) = Inr found"
    and "digests_ok L pepper site (w_clock w) found rows"
    and "w_db w' = (w_db w)\<lparr>email_outbox := email_outbox (w_db w) @ rows,
      jobs := map (marked (w_clock w) (unmatched_jobs alert_batch (w_db w))) (jobs (w_db w)),
      saved_searches := map (notified (w_clock w) (map am_search_id found)) (saved_searches (w_db w))\<rparr>"
    and "st = \<lparr>as_considered = length (unmatched_jobs alert_batch (w_db w)),
      as_matched = length (remdups (map am_job_id found)), as_digests = length (per_user found)\<rparr>"
proof -
  let ?ids = "unmatched_jobs alert_batch (w_db w)"
  obtain ids u found u1 u2 u3 where claim: "claim_unmatched_jobs alert_batch w = (Inr ids, u)"
    and found: "matches_for_jobs B ids u = (Inr found, u1)" and tell: "tell_everyone L pepper site found u1 = (Inr (), u2)"
    and mark: "mark_jobs_matched ids u2 = (Inr (), u3)"
    and st: "w' = u3" "st = \<lparr>as_considered = length ids, as_matched = length (remdups (map am_job_id found)),
      as_digests = length (per_user found)\<rparr>"
    using assms by (auto simp: alert_batch_tx_def bind_Inr_iff seq_Inr_iff split: if_splits)
  have ids: "ids = ?ids" "w_db u = w_db w" "w_clock u = w_clock w"
    using claim by (simp_all add: claim_unmatched_jobs_def query_Inr_iff)
  have found': "collect_res (alert_match_of (w_db w)) (alert_pairs B (w_db w) ?ids) = Inr found" "w_db u1 = w_db w" "w_clock u1 = w_clock w"
    using found ids by (auto simp: matches_for_jobs_def bind_Inr_iff query_Inr_iff)
  from tell_everyone_Inr [OF tell] found' obtain rows where
    rows: "w_db u2 = (w_db w)\<lparr>email_outbox := email_outbox (w_db w) @ rows,
        saved_searches := map (notified (w_clock w) (map am_search_id found)) (saved_searches (w_db w))\<rparr>"
      "w_clock u2 = w_clock w" "digests_ok L pepper site (w_clock w) found rows" by auto
  show ?thesis
    by (rule that [of found rows]) (use found' rows st ids mark in \<open>auto simp: mark_jobs_matched_def execute_Inr_iff marked_def\<close>)
qed

lemma run_batch_cases:
  assumes "run_batch L B pepper site w = (r, w')"
  obtains (failed) e where "r = Inl e" and "w_db w' = w_db w"
  | (idle) "r = Inr no_alerts" and "w_db w' = w_db w" and "unmatched_jobs alert_batch (w_db w) = []"
  | (committed) st u where "r = Inr st" and "w_db w' = w_db u"
    and "alert_batch_tx L B pepper site (w\<lparr>w_calls := Suc (w_calls w)\<rparr>) = (Inr (Inr st), u)"
proof -
  have early: "unmatched_jobs alert_batch (w_db w) = [] \<and> st = no_alerts"
    if "alert_batch_tx L B pepper site (w\<lparr>w_calls := Suc (w_calls w)\<rparr>) = (Inr (Inl st), u)" for st u
    using that by (auto simp: alert_batch_tx_def bind_Inr_iff seq_Inr_iff claim_unmatched_jobs_def query_Inr_iff split: if_splits)
  show ?thesis
  proof (cases "bind round_trip (\<lambda>_. alert_batch_tx L B pepper site) w")
    case (Pair x u)
    show ?thesis
    proof (cases x)
      case (Inl e)
      with Pair assms show ?thesis by (intro failed) (auto simp: run_batch_def transaction_early_def rollback_to_def)
    next
      case (Inr y)
      with Pair have run: "alert_batch_tx L B pepper site (w\<lparr>w_calls := Suc (w_calls w)\<rparr>) = (Inr y, u)"
        by (auto simp: bind_Inr_iff dest: round_trip_world)
      show ?thesis
      proof (cases y)
        case (Inl st)
        with early run have "unmatched_jobs alert_batch (w_db w) = [] \<and> st = no_alerts" by blast
        with Inl Inr Pair assms show ?thesis
          by - (rule idle; auto simp: run_batch_def transaction_early_def rollback_to_def)
      next
        case (Inr st)
        obtain c v where c: "round_trip u = (c, v)" by (cases "round_trip u")
        show ?thesis
        proof (cases c)
          case (Inl e)
          with Inr \<open>x = Inr y\<close> Pair assms c show ?thesis
            by (intro failed) (auto simp: run_batch_def transaction_early_def rollback_to_def)
        next
          case (Inr z)
          with \<open>y = Inr st\<close> \<open>x = Inr y\<close> Pair assms c run round_trip_world [OF c] show ?thesis
            by (intro committed [of st u]) (auto simp: run_batch_def transaction_early_def)
        qed
      qed
    qed
  qed
qed

subsection \<open>Everyone or nobody\<close>

text \<open>Whom a batch that begins on these tables owes a line about which job.\<close>

definition told :: "board_lib \<Rightarrow> db \<Rightarrow> (uuid \<times> uuid) list" where
  "told B d = remdups (map (\<lambda>(r, s). (ss_user_id s, jb_id r)) (alert_pairs B d (unmatched_jobs alert_batch d)))"

lemma alert_match_of_Inr:
  "alert_match_of d (r, s) = Inr a \<longleftrightarrow>
     (\<exists>u. reachable_account d (ss_user_id s) = Some u \<and> u_email u = Some (am_email a)) \<and>
     am_search_id a = ss_id s \<and> am_search_name a = ss_name s \<and> am_user_id a = ss_user_id s \<and> am_job_id a = jb_id r"
  by (cases a) (auto simp: alert_match_of_def Option.bind_eq_Some_conv split: option.splits)

lemma found_keys:
  assumes "collect_res (alert_match_of d) ps = Inr found"
  shows "map (\<lambda>a. (am_user_id a, am_job_id a)) found = map (\<lambda>(r, s). (ss_user_id s, jb_id r)) ps"
  using collect_res_InrD [OF assms] by (induction ps found rule: list_all2_induct) (auto simp: alert_match_of_Inr)

lemma found_users:
  assumes "collect_res (alert_match_of d) ps = Inr found" and "a \<in> set found"
  shows "\<exists>u \<in> set (users d). u_id u = am_user_id a \<and> u_status u = lit ''active'' \<and> u_email_verified_at u \<noteq> None \<and>
    u_email u = Some (am_email a)"
proof -
  obtain n where "n < length found" "found ! n = a" using assms(2) by (auto simp: in_set_conv_nth)
  then have "alert_match_of d (ps ! n) = Inr a"
    using collect_res_InrD [OF assms(1)] by (auto simp: list_all2_conv_all_nth)
  then obtain u where "reachable_account d (am_user_id a) = Some u" "u_email u = Some (am_email a)"
    by (cases "ps ! n") (auto simp: alert_match_of_Inr)
  then show ?thesis unfolding reachable_account_def by (intro bexI [of _ u]) (auto dest: find_Some_in)
qed

lemma digests_addressed:
  assumes "digests_ok L pepper site now found rows"
  shows "map m_user_id rows = sort (remdups (map am_user_id found)) \<and>
    (\<forall>m \<in> set rows. m_kind m = KJobAlert \<and> m_status m = Queued \<and>
       (\<exists>a \<in> set found. am_user_id a = m_user_id m \<and> am_email a = m_recipient m))"
proof -
  obtain wanted where rows: "list_all2 (\<lambda>e r. \<exists>i. r = outbox_row_of now i (digest_email L pepper site wanted e)) (per_user found) rows"
    using assms by (auto simp: digests_ok_def)
  then have "map m_user_id rows = map fst (per_user found)"
    by (induction rule: list_all2_induct) (auto simp: outbox_row_of_def digest_email_def Let_def split: prod.splits)
  then have "map m_user_id rows = sort (remdups (map am_user_id found))" by (simp add: per_user_def o_def)
  moreover have "m_kind m = KJobAlert \<and> m_status m = Queued \<and> (\<exists>a \<in> set found. am_user_id a = m_user_id m \<and> am_email a = m_recipient m)"
    if m: "m \<in> set rows" for m
  proof -
    obtain uid mine i where e: "(uid, mine) \<in> set (per_user found)" and row: "m = outbox_row_of now i (digest_email L pepper site wanted (uid, mine))"
      using rows m by (auto simp: list_all2_conv_all_nth in_set_conv_nth) (metis nth_mem surj_pair)
    from e have mine: "mine = filter (\<lambda>a. am_user_id a = uid) found" and "mine \<noteq> []"
      by (auto simp: per_user_def filter_empty_conv)
    then have "hd mine \<in> set found \<and> am_user_id (hd mine) = uid" using hd_in_set [of mine] by auto
    with row show ?thesis by (auto simp: outbox_row_of_def digest_email_def Let_def)
  qed
  ultimately show ?thesis by blast
qed

text \<open>
  C15. A batch of the alert pass happens completely or not at all: it fails without a trace, or it marks every job it took, puts exactly
  one queued digest in the outbox for every person it owes one, addressed to the verified address of an active account, and changes nothing
  else but the time the searches were last notified.
\<close>

theorem a_batch_tells_everyone_or_nobody:
  assumes "run_batch L B pepper site w = (r, w')"
  shows "case r of Inl _ \<Rightarrow> w_db w' = w_db w
    | Inr st \<Rightarrow> as_considered st = length (unmatched_jobs alert_batch (w_db w)) \<and>
        (\<exists>rows hits. w_db w' = (w_db w)\<lparr>email_outbox := email_outbox (w_db w) @ rows,
            jobs := map (marked (w_clock w) (unmatched_jobs alert_batch (w_db w))) (jobs (w_db w)),
            saved_searches := map (notified (w_clock w) hits) (saved_searches (w_db w))\<rparr> \<and>
          map m_user_id rows = sort (remdups (map fst (told B (w_db w)))) \<and>
          (\<forall>m \<in> set rows. m_kind m = KJobAlert \<and> m_status m = Queued \<and>
             (\<exists>u \<in> set (users (w_db w)). u_id u = m_user_id m \<and> u_status u = lit ''active'' \<and> u_email_verified_at u \<noteq> None \<and>
               u_email u = Some (m_recipient m))))"
  using assms
proof (cases rule: run_batch_cases)
  case (failed e)
  then show ?thesis by simp
next
  case idle
  then have "told B (w_db w) = []" by (simp add: told_def alert_pairs_def)
  moreover have "marked t [] = (\<lambda>x. x)" "notified t [] = (\<lambda>x. x)" for t by (auto simp: marked_def notified_def)
  ultimately show ?thesis
    using idle by (simp add: no_alerts_def) (intro exI [of _ "[]"], simp)
next
  case (committed st u)
  from committed(3) obtain found rows where
    found: "collect_res (alert_match_of (w_db w)) (alert_pairs B (w_db w) (unmatched_jobs alert_batch (w_db w))) = Inr found"
    and rows: "digests_ok L pepper site (w_clock w) found rows"
    and db: "w_db u = (w_db w)\<lparr>email_outbox := email_outbox (w_db w) @ rows,
      jobs := map (marked (w_clock w) (unmatched_jobs alert_batch (w_db w))) (jobs (w_db w)),
      saved_searches := map (notified (w_clock w) (map am_search_id found)) (saved_searches (w_db w))\<rparr>"
    and st: "as_considered st = length (unmatched_jobs alert_batch (w_db w))"
    by (elim alert_batch_tx_Inr) auto
  have "map fst (map (\<lambda>a. (am_user_id a, am_job_id a)) found) =
      map fst (map (\<lambda>(r, s). (ss_user_id s, jb_id r)) (alert_pairs B (w_db w) (unmatched_jobs alert_batch (w_db w))))"
    by (simp only: found_keys [OF found])
  then have "sort (remdups (map am_user_id found)) = sort (remdups (map fst (told B (w_db w))))"
    by (simp add: told_def o_def remdups_map_remdups)
  then show ?thesis
    using committed(1,2) db st digests_addressed [OF rows] found_users [OF found] by simp metis
qed

subsection \<open>Nobody is told twice\<close>

lemma batch_marks:
  assumes "run_batch L B pepper site w = (Inr st, w')"
  shows "jobs (w_db w') = map (marked (w_clock w) (unmatched_jobs alert_batch (w_db w))) (jobs (w_db w)) \<and>
    as_considered st = length (unmatched_jobs alert_batch (w_db w))"
  using assms
proof (cases rule: run_batch_cases)
  case idle
  moreover have "marked t [] = (\<lambda>x. x)" for t by (auto simp: marked_def)
  ultimately show ?thesis by (simp add: no_alerts_def)
next
  case (committed st' u)
  then show ?thesis by (elim alert_batch_tx_Inr) simp
qed simp

definition considered :: "db \<Rightarrow> uuid \<Rightarrow> bool" where
  "considered d i \<longleftrightarrow> (\<forall>r \<in> set (jobs d). jb_id r = i \<longrightarrow> jb_alerts_matched_at r \<noteq> None)"

lemma unmatched_jobs_in: "i \<in> set (unmatched_jobs n d) \<Longrightarrow> \<not> considered d i"
  by (force simp: unmatched_jobs_def considered_def dest!: in_set_takeD)

lemma told_unmatched: "(u, i) \<in> set (told B d) \<Longrightarrow> i \<in> set (unmatched_jobs alert_batch d)"
  by (auto simp: told_def alert_pairs_def)

lemma batch_considers:
  assumes "jobs d' = map (marked now ids) (jobs d)"
  shows "considered d' i \<longleftrightarrow> considered d i \<or> i \<in> set ids"
  using assms by (auto simp: considered_def marked_def)

text \<open>
  A history of the alert pass: committed and failed batches, and in between anything that lets a considered job stay considered. It collects
  who was told of what.
\<close>

inductive alert_history ::
  "lib \<Rightarrow> board_lib \<Rightarrow> ustr \<Rightarrow> origin \<Rightarrow> world \<Rightarrow> (uuid \<times> uuid) list \<Rightarrow> world \<Rightarrow> bool" for L B pepper site w where
  history_begin: "alert_history L B pepper site w [] w"
| history_batch: "alert_history L B pepper site w h w1 \<Longrightarrow> run_batch L B pepper site w1 = (Inr st, w2) \<Longrightarrow>
    alert_history L B pepper site w (h @ told B (w_db w1)) w2"
| history_failure: "alert_history L B pepper site w h w1 \<Longrightarrow> run_batch L B pepper site w1 = (Inl e, w2) \<Longrightarrow>
    alert_history L B pepper site w h w2"
| history_others: "alert_history L B pepper site w h w1 \<Longrightarrow> (\<And>i. considered (w_db w1) i \<Longrightarrow> considered (w_db w2) i) \<Longrightarrow>
    alert_history L B pepper site w h w2"


subsection \<open>A pass leaves nothing behind\<close>

lemma unmatched_jobs_length: "length (unmatched_jobs n d) \<le> n"
  by (simp add: unmatched_jobs_def)

lemma short_batch_takes_all:
  assumes "length (unmatched_jobs n d) < n" and "r \<in> set (jobs d)" and "jb_alerts_matched_at r = None"
  shows "jb_id r \<in> set (unmatched_jobs n d)"
proof -
  let ?open = "sort_key jb_created_at (filter (\<lambda>r. jb_alerts_matched_at r = None) (jobs d))"
  have "length ?open < n" using assms(1) by (simp add: unmatched_jobs_def)
  then have "unmatched_jobs n d = map jb_id ?open" by (simp add: unmatched_jobs_def)
  then show ?thesis using assms(2,3) by simp
qed

lemma alert_loop_complete:
  "alert_loop L B pepper site env n k stats w = (Inr st, w') \<Longrightarrow>
   as_considered st < as_considered stats + n * alert_batch \<Longrightarrow> \<forall>r \<in> set (jobs (w_db w')). jb_alerts_matched_at r \<noteq> None"
proof (induction n arbitrary: k stats w)
  case (Suc n)
  from Suc.prems(1) obtain batch u where batch: "run_batch L B pepper site (env k w) = (Inr batch, u)"
    and rest: "(if as_considered batch < alert_batch then ret (add_alerts stats batch)
      else alert_loop L B pepper site env n (Suc k) (add_alerts stats batch)) u = (Inr st, w')"
    by (auto simp: bind_Inr_iff after_others_iff)
  let ?d = "w_db (env k w)"
  note b = batch_marks [OF batch]
  show ?case
  proof (cases "as_considered batch < alert_batch")
    case True
    with rest have "w' = u" by simp
    with b True short_batch_takes_all [of alert_batch ?d] show ?thesis
      by (auto simp: marked_def)
  next
    case False
    with b unmatched_jobs_length [of alert_batch ?d] have "as_considered batch = alert_batch" by simp
    with False rest Suc.prems(2) Suc.IH [of "Suc k" "add_alerts stats batch" u] show ?thesis
      by (simp add: add_alerts_def)
  qed
qed simp


subsection \<open>Unsubscribing\<close>

definition silenced :: "uuid \<Rightarrow> search_row \<Rightarrow> search_row" where
  "silenced i s = (if ss_id s = i then s\<lparr>ss_notify := False\<rparr> else s)"

lemma product_map_right: "List.product xs (map f ys) = map (\<lambda>(x, y). (x, f y)) (List.product xs ys)"
  by (induction xs) (simp_all add: o_def)

lemma silenced_sel [simp]: "ss_id (silenced i s) = ss_id s" "ss_user_id (silenced i s) = ss_user_id s"
  by (simp_all add: silenced_def)

lemma alerts_silenced: "alerts B d r (silenced i s) \<longleftrightarrow> ss_id s \<noteq> i \<and> alerts B d r s"
  by (simp add: alerts_def silenced_def)

lemma alert_pairs_silenced:
  "alert_pairs B (d\<lparr>saved_searches := map (silenced i) (saved_searches d)\<rparr>) ids =
   filter (\<lambda>(r, s). ss_id s \<noteq> i) (alert_pairs B d ids)"
proof -
  let ?d = "d\<lparr>saved_searches := map (silenced i) (saved_searches d)\<rparr>"
  let ?all = "List.product (filter (\<lambda>r. jb_id r \<in> set ids) (jobs d)) (saved_searches d)"
  have "alerts B ?d = alerts B d" by (intro ext) (simp add: alerts_def reachable_account_def)
  then have "filter (\<lambda>(r, s). alerts B ?d r s) (List.product (filter (\<lambda>r. jb_id r \<in> set ids) (jobs d)) (saved_searches ?d)) =
      map (\<lambda>(r, s). (r, silenced i s)) (filter (\<lambda>(r, s). ss_id s \<noteq> i \<and> alerts B d r s) ?all)"
    by (simp add: product_map_right filter_map o_def case_prod_unfold alerts_silenced)
  also have "\<dots> = filter (\<lambda>(r, s). ss_id s \<noteq> i \<and> alerts B d r s) ?all"
    by (rule map_idI) (auto simp: silenced_def)
  also have "\<dots> = filter (\<lambda>(r, s). ss_id s \<noteq> i) (filter (\<lambda>(r, s). alerts B d r s) ?all)"
    by (simp add: case_prod_unfold conj_commute)
  finally show ?thesis by (simp add: alert_pairs_def filter_sort)
qed

text \<open>
  C38. The link in a digest silences exactly its own search: with the token of that search the tables change only in that search no longer asking for
  mail, so a batch that begins on them owes what it owed before, less what it owed for this search; with anything else the
  request is refused and nothing changes.
\<close>

theorem unsubscribing_silences_one_search:
  assumes "unsubscribe L pepper i token w = (r, w')"
  shows "if r = Inr ()
    then as_bytes token = as_bytes (unsubscribe_token L pepper (uuid_to_string L i)) \<and>
      w_db w' = (w_db w)\<lparr>saved_searches := map (silenced i) (saved_searches (w_db w))\<rparr> \<and>
      (\<forall>B ids. alert_pairs B (w_db w') ids = filter (\<lambda>(r, s). ss_id s \<noteq> i) (alert_pairs B (w_db w) ids))
    else w_db w' = w_db w"
proof (cases r)
  case (Inl e)
  with assms show ?thesis
    by (auto simp: unsubscribe_def set_notify_off_def seq_Inl_iff execute_Inl_iff acquire_def dest!: round_trip_world split: if_splits)
next
  case (Inr x)
  with assms have "verify_unsubscribe L pepper (uuid_to_string L i) token"
    and db: "w_db w' = (w_db w)\<lparr>saved_searches := map (silenced i) (saved_searches (w_db w))\<rparr>"
    by (auto simp: unsubscribe_def set_notify_off_def seq_Inr_iff execute_Inr_iff acquire_def silenced_def
        dest!: round_trip_world split: if_splits)
  with Inr show ?thesis by (simp add: verify_unsubscribe_def alert_pairs_silenced)
qed

subsection \<open>An example\<close>

text \<open>Carl, who saved a search for everything, and Ann's open job.\<close>

definition carl_account :: user_row where
  "carl_account = \<lparr>u_id = 2, u_email = Some (lit ''carl@b.c''), u_display_name = lit ''Carl'', u_status = lit ''active'',
     u_account_type = lit ''contractor'', u_email_verified_at = Some 0, u_created_at = 0\<rparr>"

definition roof_search :: search_row where
  "roof_search = (saved_search_of 5 0 2 (lit ''Roofs'') no_filters)"

definition alert_db :: db where
  "alert_db = empty_db\<lparr>users := [poster_account, carl_account], jobs := [reopened_job], saved_searches := [roof_search]\<rparr>"

lemma roof_search_sel [simp]:
  "ss_id roof_search = 5" "ss_user_id roof_search = 2" "ss_notify roof_search" "ss_name roof_search = lit ''Roofs''"
  by (simp_all add: roof_search_def saved_search_of_def)

lemma reopened_job_sel [simp]:
  "jb_id reopened_job = 7" "jb_posted_by reopened_job = 1" "jb_status reopened_job = lit ''open''" "jb_alerts_matched_at reopened_job = None"
  by (simp_all add: reopened_job_def reopened_posting_def closed_job_def)

lemma alert_db_sel [simp]:
  "jobs alert_db = [reopened_job]" "saved_searches alert_db = [roof_search]" "users alert_db = [poster_account, carl_account]"
  "email_outbox alert_db = []" "trades alert_db = []" "trade_aliases alert_db = []"
  by (simp_all add: alert_db_def empty_db_def)

lemma alert_db_unmatched [simp]: "unmatched_jobs alert_batch alert_db = [7]"
  by (simp add: unmatched_jobs_def alert_batch_def)

lemma alert_db_reachable [simp]: "reachable_account alert_db 2 = Some carl_account"
  by (simp add: reachable_account_def poster_account_def carl_account_def)

lemma alert_db_pairs [simp]: "alert_pairs B alert_db [7] = [(reopened_job, roof_search)]"
proof -
  have "search_matches B roof_search reopened_job = on_board B no_filters reopened_job"
    unfolding roof_search_def by (rule search_matches_on_board) simp
  then show ?thesis by (simp add: alert_pairs_def alerts_def example_jobs_on_board)
qed

lemma alert_db_told: "told B alert_db = [(2, 7)]"
  by (simp add: told_def)

lemma alert_run:
  "\<exists>w'. run_batch toy_lib B (lit ''pepper'') example_site (calm_world alert_db 0) =
     (Inr \<lparr>as_considered = 1, as_matched = 1, as_digests = 1\<rparr>, w')"
proof -
  let ?w = "calm_world alert_db 0" and ?mail = "digest_email toy_lib (lit ''pepper'') example_site [example_line] (2, [example_match])"
  let ?u = "?w\<lparr>w_calls := 4\<rparr>"
  have q: "quiet ?w" by (simp add: quiet_def)
  have found: "collect_res (alert_match_of alert_db) [(reopened_job, roof_search)] = Inr [example_match]"
    by (simp add: alert_match_of_def example_match_def carl_account_def)
  have wanted: "map (alert_job_of alert_db) [reopened_job] = [example_line]"
    by (simp add: alert_job_of_def example_line_def) (simp add: reopened_job_def reopened_posting_def closed_job_def)
  have fits: "outbox_check (outbox_row_of 0 i ?mail)" for i
    using example_short by (intro digest_fits [OF toy_lib_ok]) (simp_all add: example_match_def)
  have to: "ne_user_id ?mail = 2" by (simp add: digest_email_def Let_def)
  have mail: "outbox_enqueue ?mail ?u = (Inr 100, ?u\<lparr>w_next_id := 1, w_calls := 5, w_db := alert_db\<lparr>email_outbox := [outbox_row_of 0 100 ?mail]\<rparr>\<rparr>)"
    using outbox_enqueue_run [of ?u ?mail] q fits to by (simp add: user_exists_def carl_account_def numeral_eq_Suc)
  have tell: "\<exists>w'. tell_everyone toy_lib (lit ''pepper'') example_site [example_match] (?w\<lparr>w_calls := 3\<rparr>) = (Inr (), w') \<and> quiet w'"
  proof -
    have "per_user [example_match] = [(2, [example_match])]" by (simp add: per_user_def example_match_def)
    moreover have "alert_jobs (sort (remdups (map am_job_id [example_match]))) (?w\<lparr>w_calls := 3\<rparr>) = (Inr [example_line], ?u)"
      using q wanted by (simp add: alert_jobs_def query_run example_match_def)
    ultimately show ?thesis
      using mail q by (simp add: tell_everyone_def bind_def seq_def ret_def touch_notified_def execute_run)
  qed
  then obtain w3 where w3: "tell_everyone toy_lib (lit ''pepper'') example_site [example_match] (?w\<lparr>w_calls := 3\<rparr>) = (Inr (), w3)" "quiet w3"
    by blast
  have "\<exists>w4. alert_batch_tx toy_lib B (lit ''pepper'') example_site (?w\<lparr>w_calls := 1\<rparr>) =
      (Inr (Inr \<lparr>as_considered = 1, as_matched = 1, as_digests = 1\<rparr>), w4) \<and> quiet w4"
    using q w3 found
    by (simp add: alert_batch_tx_def bind_def seq_def claim_unmatched_jobs_def query_run matches_for_jobs_def of_res_def ret_def
        mark_jobs_matched_def execute_run numeral_eq_Suc per_user_def)
  then show ?thesis using q by (auto simp: run_batch_def transaction_early_def bind_def round_trip_run)
qed

text \<open>The worlds after Carl was told.\<close>

theorem a_batch_tells_everyone_or_nobody_witness:
  "\<exists>w'. run_batch toy_lib ageing (lit ''pepper'') example_site (calm_world alert_db 0) = (Inr \<lparr>as_considered = 1, as_matched = 1, as_digests = 1\<rparr>, w') \<and>
     map m_user_id (email_outbox (w_db w')) = [2] \<and> (\<forall>m \<in> set (email_outbox (w_db w')). m_recipient m = lit ''carl@b.c'')"
proof -
  obtain w' where run: "run_batch toy_lib ageing (lit ''pepper'') example_site (calm_world alert_db 0) =
      (Inr \<lparr>as_considered = 1, as_matched = 1, as_digests = 1\<rparr>, w')" using alert_run by blast
  from a_batch_tells_everyone_or_nobody [OF run] run show ?thesis
    by (auto simp: alert_db_told poster_account_def carl_account_def)
qed



theorem unsubscribing_silences_one_search_witness:
  "\<exists>w'. unsubscribe toy_lib (lit ''pepper'') 5 (unsubscribe_token toy_lib (lit ''pepper'') (lit ''5'')) (calm_world alert_db 0) = (Inr (), w') \<and>
     alert_pairs ageing (w_db w') [7] = []"
proof -
  have five: "uuid_to_string toy_lib 5 = lit ''5''" by (simp add: show_nat.simps lit_def)
  obtain w' where run: "unsubscribe toy_lib (lit ''pepper'') 5 (unsubscribe_token toy_lib (lit ''pepper'') (lit ''5'')) (calm_world alert_db 0) = (Inr (), w')"
    by (simp add: unsubscribe_def five verify_unsubscribe_def acquire_def seq_def bind_def round_trip_run execute_run set_notify_off_def quiet_def del: toy_lib_simps)
  have "alert_pairs ageing (w_db w') [7] = filter (\<lambda>(r, s). ss_id s \<noteq> 5) (alert_pairs ageing (w_db (calm_world alert_db 0)) [7])"
    by (rule unsubscribing_silences_one_search [OF run, unfolded if_P [OF refl], THEN conjunct2, THEN conjunct2, rule_format])
  with run show ?thesis by simp
qed

definition everything :: raw_query where
  "everything = \<lparr>rq_q = None, rq_sort = None, rq_timeline = None, rq_build_type = None, rq_budget_min = None, rq_trade = None,
     rq_zip = None, rq_lat = None, rq_lon = None, rq_radius_m = None, rq_limit = None, rq_cursor = None\<rparr>"

lemma everything_query:
  "board_query L X B everything w =
     (Inr \<lparr>jq_sort = Newest, jq_filters = no_filters, jq_limit = default_page, jq_cursor = None, jq_ignored = []\<rparr>, w)"
  by (simp add: board_query_def bind_def trade_ids_of_def ret_def of_res_def parse_query_def everything_def present_text_def
      optional_filter_def read_near_def parse_f64_def read_limit_def read_sort_def route_by_alias_def no_filters_def)


end
