(* ===== verification/Board_Pages.thy ===== *)
theory Board_Pages
  imports Alert_Properties
begin

text \<open>
  The pages that answer a query string: what the map leaves out that the list shows, and that no page depends on the log of impressions.
\<close>

definition deaf :: board_lib where
  "deaf = ageing\<lparr>ts_matches := (\<lambda>_ _ _. False)\<rparr>"

definition pipe_job :: posting_row where
  "pipe_job = reopened_job\<lparr>jb_trade_id := Some 3, jb_public_point := Some (0, 0), jb_public_point_source := ZipCentroid\<rparr>"

definition alias_db :: db where
  "alias_db = alert_db\<lparr>jobs := [pipe_job],
     trades := [\<lparr>tr_id = 3, tr_slug = lit ''plumbing'', tr_name = lit ''Plumbing'', tr_classification = Some (lit ''C-36'')\<rparr>],
     trade_aliases := [\<lparr>al_trade_id = 3, al_alias = lit ''water heater''\<rparr>]\<rparr>"

definition heater :: raw_query where
  "heater = everything\<lparr>rq_q := Some (lit ''water heater'')\<rparr>"

lemma pipe_job_sel [simp]:
  "jb_id pipe_job = 7" "jb_posted_by pipe_job = 1" "jb_status pipe_job = lit ''open''" "jb_trade_id pipe_job = Some 3"
  "jb_public_point pipe_job = Some (0, 0)" "posting_check pipe_job"
  using reopened_job_check by (simp_all add: pipe_job_def posting_check_def)

lemma alias_db_sel [simp]:
  "jobs alias_db = [pipe_job]" "users alias_db = [poster_account, carl_account]"
  "trade_aliases alias_db = [\<lparr>al_trade_id = 3, al_alias = lit ''water heater''\<rparr>]" "job_photos alias_db = []"
  by (simp_all add: alias_db_def alert_db_def empty_db_def)


end
