(* ===== verification/Spec2Isabelle.thy ===== *)
theory Spec2Isabelle
  imports Auth_Registration_Properties Auth_Errors Maintenance Mail_Worker Messaging_Properties Claims_Properties Job_Properties Listing_Photos
    Board_Properties Job_Query_Properties Board_Pages
begin

text \<open>
  The backend of a contractor marketplace (a Rust workspace, \<open>src/crates\<close>), modelled from its source.

  \<^bold>\<open>The program.\<close> An HTTP service over one PostgreSQL database. People register, sign in and stay signed in (\<open>cm-auth\<close>); a contractor claims
  the listing of their licence, edits it, uploads photos and appears on a map; a homeowner posts jobs, which contractors find on the job
  board; the two write to each other; mail, geocoding and housekeeping run as workers over tables. Repositories (\<open>cm-db/src/repo\<close>)
  are the only code with SQL; services (\<open>cm-auth\<close>, \<open>cm-domain\<close>) compose their statements in transactions; handlers (\<open>cm-api\<close>)
  check requests; \<open>cm-storage\<close> keeps photos in a bucket; \<open>cm-core\<close> holds the errors and the configuration.

  \<^bold>\<open>How code is modelled.\<close> \<open>Db_Monad\<close> has the state \<open>world\<close>: the tables (\<open>db\<close>), the clock, the rate counters, the random draws, the
  bucket and a stream of faults that decides which statements fail. An \<open>async fn\<close> that returns \<open>Result\<close> is a function of type
  \<open>world \<Rightarrow> (app_error + 'a) \<times> world\<close>. A statement reads the clock, may fail, and otherwise changes the tables in one step; its constraints
  (CHECK, unique, foreign key, from \<open>migrations\<close>) are conditions under which it fails. \<open>transaction\<close> restores the tables when the body or the
  commit fails. Transactions are serial, but between two connections of one request any other requests may run: an operation takes a
  family of changes of the world and applies the next one before each connection (\<open>after_others\<close>, \<open>after_all\<close>), so every property of a
  service holds under interleaving. \<open>Service_Runs\<close> builds the runs of whole services from this: requests that are interrupted by runs.
  A Rust string is its list of Unicode scalar values, \<open>i64\<close> and times are integers (with the range where a
  value is parsed or a column is written), an \<open>f64\<close> is its 64 bits, a hash or a UUID is a word or a string of bytes.

  \<^bold>\<open>Parameters.\<close> What is not under \<open>src\<close> is an argument of the definitions: HMAC, SHA-256, base64, UUIDs and the JSON reader
  (\<open>lib\<close>), Argon2 and the JWT library, the providers of mail, geocoding and storage behind HTTP (the sequence of their
  answers), the image codec, PostGIS distances and PostgreSQL text search (\<open>board_lib\<close>), the printing of floats and times (\<open>text_lib\<close>).
  What is assumed of them is named (\<open>lib_ok\<close>, \<open>texts_ok\<close>, ...) and holds of the concrete instances in \<open>Concrete\<close>, where the
  theorems are also run.

  \<^bold>\<open>Foundations.\<close>
    \<^item> \<open>Cm_Prelude\<close>: strings, trimming, splitting, number formats. \<open>Utf8\<close>: \<open>String::from_utf8\<close>. \<open>Float64\<close>: comparison and conversion of floats.
    \<^item> \<open>Core_Error\<close>, \<open>Core_Origin\<close>: \<open>cm-core/src/error.rs\<close> and the origin, environment and log format of \<open>config.rs\<close>.
    \<^item> \<open>Market_Schema\<close>, \<open>Db_Schema\<close>, \<open>Db_Monad\<close>, \<open>Db_Constraints\<close>: tables, statements, transactions, and the invariant \<open>db_ok\<close>.
    \<^item> \<open>Service_Runs\<close>, \<open>Quiet_Runs\<close>, \<open>Work_Queue\<close>, \<open>Bounded_Delete\<close>: contracts (locales) several components share, and runs.

  \<^bold>\<open>Accounts\<close> (\<open>cm-auth\<close>, \<open>cm-db/src/repo\<close>).
    \<^item> Repositories: \<open>Repo_Users\<close>, \<open>Repo_Passwords\<close>, \<open>Repo_Sessions\<close>, \<open>Repo_Auth_Tokens\<close>, \<open>Repo_Rate_Limit\<close>, \<open>Repo_Oauth\<close>, \<open>Repo_Audit\<close>.
    \<^item> \<open>Auth_Hash\<close>, \<open>Auth_Cookie\<close>, \<open>Auth_Csrf\<close>, \<open>Auth_Login_Code\<close>, \<open>Auth_Password\<close>, \<open>Auth_Ratelimit\<close>, \<open>Auth_Mail\<close>, \<open>Auth_Firebase\<close>: the files of that name.
    \<^item> \<open>Auth_Service\<close>: every operation of \<open>service.rs\<close>. \<open>Auth_Invariant\<close> proves that each keeps \<open>db_ok\<close>; \<open>Auth_Login_Properties\<close>,
      \<open>Auth_Account_Properties\<close>, \<open>Auth_Session_Properties\<close> and \<open>Auth_Registration_Properties\<close> what each commits; \<open>Auth_Errors\<close> what each may answer.
      \<open>Auth_Progress\<close> and \<open>Concrete_Service\<close> run them.

  \<^bold>\<open>Workers.\<close> \<open>Repo_Outbox\<close> and \<open>Mail_Worker\<close> (the outbox and its worker), \<open>Repo_Geocode\<close> and \<open>Geocode_Worker\<close> (the geocoding queue, its worker
  and the providers), \<open>Maintenance\<close> (housekeeping).

  \<^bold>\<open>Marketplace.\<close>
    \<^item> \<open>Repo_Contractors\<close>, \<open>Repo_Claims\<close>, \<open>Claims\<close>, \<open>Verification\<close>, with \<open>Claims_Properties\<close>: who owns a listing and when it carries the badge.
    \<^item> \<open>Location\<close>, \<open>Listings\<close>, \<open>Listing_Pins\<close>, \<open>Listing_Photos\<close>: the published point, the edits of a listing, and its photos.
    \<^item> \<open>Repo_Messaging\<close>, \<open>Chat_Log\<close>, \<open>Messaging\<close>, \<open>Messaging_Properties\<close>: conversations as gapless logs, blocks and reports.
    \<^item> \<open>Repo_Jobs\<close>, \<open>Repo_Photos\<close>, \<open>Jobs\<close>, \<open>Job_Properties\<close>: posting, closing, cancelling and reopening jobs.
    \<^item> \<open>Board\<close>, \<open>Job_Query\<close>, \<open>Board_Properties\<close>, \<open>Job_Query_Properties\<close>: the job board, its filters, orders, cursors, facets and map.
    \<^item> \<open>Saved_Searches\<close>, \<open>Job_Alerts\<close>, \<open>Alert_Digests\<close>, \<open>Alert_Properties\<close>: the board's filters kept as rows, the weekly pass that tells their
      owners of new jobs, and the length of its digests. \<open>Board_Pages\<close>: what the pages that read the same query string disagree about.
    \<^item> \<open>Storage\<close>, \<open>Storage_Properties\<close>: normalising images and the bucket.

  \<^bold>\<open>Loops.\<close> A loop over data is structural recursion. Three loops are not: the nightly pass over the listings (\<open>recompute_loop\<close>) and the UTF-8
  reader (\<open>from_utf8\<close>) are functions with a measure that falls; the housekeeping drain stops after its last batch. The
  rejection sampling of a login code has no bound in the source and carries one here (\<open>sv_code_rounds\<close>); with enough rounds it returns the
  code the unbounded loop would. The walk over the pages of the board (\<open>walk\<close>) is a client of the board and carries the number of its requests; as
  many requests as there are jobs, and one more, are enough for every page size. The alert pass is the bounded loop of the source
  (40 batches of 500 jobs).

  \<^bold>\<open>Not modelled.\<close> Interleaving of statements inside two open transactions (row locks and isolation levels are reduced to serial transactions);
  the router, extractors and middleware of \<open>cm-api\<close>, the process of \<open>cm-server\<close> and the environment reader of \<open>config.rs\<close> (input and
  output around the modelled calls); the ranking of the contractor search and its synonyms, which are SQL text over full-text
  indexes; the import of the licence register; reviews, profiles and service areas; tracing, metrics and pacing.
\<close>

end
